(* ===== verification/Sds_Prelude.thy ===== *)
theory Sds_Prelude
  imports Main "HOL-Library.Word" "HOL-Library.Sublist"
begin

text \<open>
  The vocabulary every component shares: the Go types the program computes with, Go's error
  values, and the parts of the Go standard library the modelled code calls (strings, decimal
  and byte conversions of \<open>math/big\<close>, \<open>encoding/hex\<close>, \<open>encoding/binary\<close>).
  Strings are byte strings, as in Go: a \<^typ>\<open>char\<close> is one byte.

  \<^item> \<open>uint64\<close> is \<^typ>\<open>64 word\<close>, whose addition wraps; \<open>int64\<close> is the same word read
    by \<^const>\<open>sint\<close>; Go's \<open>int\<close> is an \<^typ>\<open>int\<close> whose additions are wrapped to 64 bits by
    \<open>i64\<close>; \<open>big.Int\<close> is \<^typ>\<open>int\<close> and \<open>*big.Int\<close> is \<^typ>\<open>int option\<close>.
  \<^item> \<open>time.Time\<close> is an \<^typ>\<open>int\<close>, nanoseconds since the zero time; the reading of the clock is
    an argument of every operation that calls \<open>time.Now\<close>.
  \<^item> An error is a \<open>go_error\<close>; a fallible operation returns a sum with the error on the left.
\<close>

named_theorems go_simps \<open>unfolding of the small Go helpers\<close>
named_theorems frame_simps \<open>what an operation leaves unchanged\<close>

type_synonym byte = "8 word"
type_synonym bytes = "byte list"
type_synonym address = bytes
type_synonym hash = bytes
type_synonym u64 = "64 word"
type_synonym u256 = "256 word"
type_synonym time = int

subsection \<open>Errors\<close>

text \<open>
  A sentinel error (\<open>errors.New\<close> at package level) is known by its name; \<open>fmt.Errorf\<close> builds
  an error from a format, its string arguments and, with the verb \<open>%w\<close>, a wrapped error.
  \<open>errors.Is\<close> walks the chain of wrapped errors.
\<close>

datatype go_error =
    Sentinel string
  | Errorf string "string list" "go_error option"

type_synonym 'a result = "go_error + 'a"

fun errors_Is :: "go_error \<Rightarrow> go_error \<Rightarrow> bool" where
  "errors_Is (Sentinel n) t = (Sentinel n = t)"
| "errors_Is (Errorf f as None) t = (Errorf f as None = t)"
| "errors_Is (Errorf f as (Some e)) t = (Errorf f as (Some e) = t \<or> errors_Is e t)"

lemma errors_Is_refl [simp]: "errors_Is e e"
  by (cases "(e, e)" rule: errors_Is.cases) auto

definition bind_result :: "'a result \<Rightarrow> ('a \<Rightarrow> 'b result) \<Rightarrow> 'b result" where
  "bind_result r f = (case r of Inl e \<Rightarrow> Inl e | Inr x \<Rightarrow> f x)"

lemma bind_result_simps [simp]:
  "bind_result (Inl e) f = Inl e" "bind_result (Inr x) f = f x"
  by (simp_all add: bind_result_def)

lemma bind_result_Inr_iff:
  "bind_result r f = Inr y \<longleftrightarrow> (\<exists>x. r = Inr x \<and> f x = Inr y)"
  by (cases r) auto

text \<open>Remote procedure calls fail with a status code beside the error.\<close>

datatype connect_code =
    CodeInvalidArgument
  | CodeNotFound
  | CodePermissionDenied
  | CodeUnauthenticated
  | CodeResourceExhausted
  | CodeFailedPrecondition
  | CodeAborted
  | CodeUnavailable
  | CodeDeadlineExceeded
  | CodeInternal

type_synonym 'a rpc = "(connect_code \<times> go_error) + 'a"

subsection \<open>Go's machine int\<close>

definition i64 :: "int \<Rightarrow> int" where
  "i64 x = signed_take_bit 63 x"

definition in_i64 :: "int \<Rightarrow> bool" where
  "in_i64 x \<longleftrightarrow> - (2 ^ 63) \<le> x \<and> x < 2 ^ 63"

lemma i64_id [simp]: "in_i64 x \<Longrightarrow> i64 x = x"
  by (simp add: i64_def in_i64_def signed_take_bit_int_eq_self)

lemma in_i64_i64 [simp]: "in_i64 (i64 x)"
  unfolding i64_def in_i64_def
  by (intro conjI signed_take_bit_int_less_exp signed_take_bit_int_greater_eq_minus_exp)

lemma i64_between: "0 \<le> x \<Longrightarrow> x \<le> m \<Longrightarrow> in_i64 m \<Longrightarrow> i64 x = x"
  by (intro i64_id) (simp add: in_i64_def)

text \<open>\<open>Time.UnixNano\<close>: nanoseconds since 1970, 62135596800 seconds after the zero time.\<close>

definition UnixNano :: "time \<Rightarrow> int" where
  "UnixNano t = i64 (t - 62135596800 * 1000000000)"

subsection \<open>Strings\<close>

definition HasPrefix :: "string \<Rightarrow> string \<Rightarrow> bool" where
  "HasPrefix s p \<longleftrightarrow> take (length p) s = p"

definition HasSuffix :: "string \<Rightarrow> string \<Rightarrow> bool" where
  "HasSuffix s p \<longleftrightarrow> length p \<le> length s \<and> drop (length s - length p) s = p"

lemma HasPrefix_append [simp]: "HasPrefix (p @ s) p"
  by (simp add: HasPrefix_def)

lemma HasSuffix_append [simp]: "HasSuffix (s @ p) p"
  by (simp add: HasSuffix_def)

lemma HasPrefix_split: "HasPrefix s p \<Longrightarrow> s = p @ drop (length p) s"
  unfolding HasPrefix_def by (metis append_take_drop_id)

text \<open>\<open>strings.Contains\<close>, \<open>strings.Cut\<close> and \<open>strings.Split\<close> with a one-byte separator.\<close>

fun Contains :: "string \<Rightarrow> string \<Rightarrow> bool" where
  "Contains [] sub = (sub = [])"
| "Contains (c # s) sub = (HasPrefix (c # s) sub \<or> Contains s sub)"

fun Cut :: "string \<Rightarrow> string \<Rightarrow> string \<times> string \<times> bool" where
  "Cut [] sep = ([], [], sep = [])"
| "Cut (c # s) sep =
     (if HasPrefix (c # s) sep then ([], drop (length sep) (c # s), True)
      else (case Cut s sep of (before, after, found) \<Rightarrow> (c # before, after, found)))"

fun Split :: "char \<Rightarrow> string \<Rightarrow> string list" where
  "Split d [] = [[]]"
| "Split d (c # s) =
     (if c = d then [] # Split d s
      else (case Split d s of [] \<Rightarrow> [[c]] | w # ws \<Rightarrow> (c # w) # ws))"

lemma Split_not_Nil [simp]: "Split d s \<noteq> []"
  by (induction s) (auto split: list.splits)

lemma Split_no_sep [simp]: "d \<notin> set s \<Longrightarrow> Split d s = [s]"
  by (induction s) auto

lemma Split_sep: "d \<notin> set a \<Longrightarrow> Split d (a @ d # b) = a # Split d b"
  by (induction a) auto

text \<open>The separator and the string are recovered from a successful cut.\<close>

lemma Cut_found: "Cut s sep = (a, b, True) \<Longrightarrow> s = a @ sep @ b"
proof (induction s arbitrary: a)
  case Nil
  then show ?case by simp
next
  case (Cons c s)
  then show ?case
    by (auto split: if_splits prod.splits dest: HasPrefix_split)
qed

text \<open>
  \<open>strings.TrimSpace\<close> removes Unicode white space at both ends. The white space characters are
  listed by their UTF-8 encodings; a malformed sequence is not a space and is kept.
\<close>

definition spaces :: "string list" where
  "spaces =
     [[CHR 0x09], [CHR 0x0A], [CHR 0x0B], [CHR 0x0C], [CHR 0x0D], [CHR 0x20],
      [CHR 0xC2, CHR 0x85], [CHR 0xC2, CHR 0xA0], [CHR 0xE1, CHR 0x9A, CHR 0x80],
      [CHR 0xE2, CHR 0x80, CHR 0x80], [CHR 0xE2, CHR 0x80, CHR 0x81],
      [CHR 0xE2, CHR 0x80, CHR 0x82], [CHR 0xE2, CHR 0x80, CHR 0x83],
      [CHR 0xE2, CHR 0x80, CHR 0x84], [CHR 0xE2, CHR 0x80, CHR 0x85],
      [CHR 0xE2, CHR 0x80, CHR 0x86], [CHR 0xE2, CHR 0x80, CHR 0x87],
      [CHR 0xE2, CHR 0x80, CHR 0x88], [CHR 0xE2, CHR 0x80, CHR 0x89],
      [CHR 0xE2, CHR 0x80, CHR 0x8A], [CHR 0xE2, CHR 0x80, CHR 0xA8],
      [CHR 0xE2, CHR 0x80, CHR 0xA9], [CHR 0xE2, CHR 0x80, CHR 0xAF],
      [CHR 0xE2, CHR 0x81, CHR 0x9F], [CHR 0xE3, CHR 0x80, CHR 0x80]]"

definition strip_one :: "string list \<Rightarrow> string \<Rightarrow> string option" where
  "strip_one ws s =
     (case find (\<lambda>w. w \<noteq> [] \<and> HasPrefix s w) ws of
        None \<Rightarrow> None | Some w \<Rightarrow> Some (drop (length w) s))"

lemma strip_one_shorter: "strip_one ws s = Some t \<Longrightarrow> length t < length s"
  by (auto simp: strip_one_def HasPrefix_def find_Some_iff split: option.splits)
    (metis diff_less length_greater_0_conv take_eq_Nil)

function trim_left :: "string list \<Rightarrow> string \<Rightarrow> string" where
  "trim_left ws s = (case strip_one ws s of None \<Rightarrow> s | Some t \<Rightarrow> trim_left ws t)"
  by pat_completeness auto
termination
  by (relation "measure (\<lambda>(ws, s). length s)") (auto dest: strip_one_shorter)

declare trim_left.simps [simp del]

definition TrimSpace :: "string \<Rightarrow> string" where
  "TrimSpace s = rev (trim_left (map rev spaces) (rev (trim_left spaces s)))"

text \<open>A string whose first and last byte start and end no space is left alone.\<close>

lemma trim_left_id:
  assumes "\<And>w. w \<in> set ws \<Longrightarrow> w \<noteq> [] \<Longrightarrow> hd w \<noteq> c"
  shows "trim_left ws (c # s) = c # s"
proof -
  have "find (\<lambda>w. w \<noteq> [] \<and> HasPrefix (c # s) w) ws = None"
    unfolding find_None_iff
  proof
    assume "\<exists>w. w \<in> set ws \<and> w \<noteq> [] \<and> HasPrefix (c # s) w"
    then obtain w where w: "w \<in> set ws" "w \<noteq> []" "HasPrefix (c # s) w" by blast
    from w(2,3) have "hd w = c" by (cases w) (simp_all add: HasPrefix_def)
    with assms w show False by blast
  qed
  then show ?thesis by (subst trim_left.simps) (simp add: strip_one_def)
qed

lemma trim_left_Nil [simp]: "trim_left ws [] = []"
proof -
  have "find (\<lambda>w. w \<noteq> [] \<and> HasPrefix [] w) ws = None"
    unfolding find_None_iff by (auto simp: HasPrefix_def)
  then show ?thesis by (subst trim_left.simps) (simp add: strip_one_def)
qed

text \<open>Printable ASCII other than the space neither starts nor ends a white space character.\<close>

definition solid :: "char \<Rightarrow> bool" where
  "solid c \<longleftrightarrow> 33 \<le> (of_char c :: nat) \<and> (of_char c :: nat) \<le> 126"

lemma spaces_hd: "w \<in> set spaces \<Longrightarrow> \<not> solid (hd w)"
  by (auto simp: spaces_def solid_def)

lemma spaces_last: "w \<in> set (map rev spaces) \<Longrightarrow> \<not> solid (hd w)"
  by (auto simp: spaces_def solid_def)

lemma TrimSpace_solid:
  assumes "s \<noteq> []" "solid (hd s)" "solid (last s)"
  shows "TrimSpace s = s"
proof -
  obtain c t where s: "s = c # t" using assms(1) by (cases s) auto
  have l: "trim_left spaces s = s"
    using assms(2) spaces_hd unfolding s by (intro trim_left_id) auto
  obtain d u where r: "rev s = d # u" using assms(1) by (cases "rev s") auto
  have "last s = d" using r by (metis hd_rev list.sel(1))
  then have "trim_left (map rev spaces) (rev s) = rev s"
    using assms(3) spaces_last unfolding r by (intro trim_left_id) metis
  then show ?thesis by (simp add: TrimSpace_def l)
qed

lemma TrimSpace_Nil [simp]: "TrimSpace [] = []"
  by (simp add: TrimSpace_def)

text \<open>One trailing blank after a solid byte is removed.\<close>

lemma TrimSpace_snoc_blank:
  assumes "s \<noteq> []" "solid (hd s)" "solid (last s)"
  shows "TrimSpace (s @ '' '') = s"
proof -
  obtain c t where s: "s = c # t" using assms(1) by (cases s) auto
  have l: "trim_left spaces (s @ '' '') = s @ '' ''"
    using assms(2) spaces_hd unfolding s append_Cons by (intro trim_left_id) auto
  obtain d u where r: "rev s = d # u" using assms(1) by (cases "rev s") auto
  have d: "last s = d" using r by (metis hd_rev list.sel(1))
  have "strip_one (map rev spaces) (CHR '' '' # d # u) = Some (d # u)"
    by (simp add: strip_one_def spaces_def HasPrefix_def)
  then have "trim_left (map rev spaces) (CHR '' '' # d # u) = trim_left (map rev spaces) (d # u)"
    by (subst trim_left.simps) simp
  also have "\<dots> = d # u"
    using assms(3) spaces_last d by (intro trim_left_id) metis
  finally show ?thesis by (simp add: TrimSpace_def l r [symmetric])
qed

text \<open>\<open>strings.ToUpper\<close> and \<open>strings.ToLower\<close>, on the ASCII letters the code tests for.\<close>

definition to_upper_char :: "char \<Rightarrow> char" where
  "to_upper_char c =
     (let n = of_char c :: nat in if 97 \<le> n \<and> n \<le> 122 then char_of (n - 32) else c)"

definition to_lower_char :: "char \<Rightarrow> char" where
  "to_lower_char c =
     (let n = of_char c :: nat in if 65 \<le> n \<and> n \<le> 90 then char_of (n + 32) else c)"

definition ToUpper :: "string \<Rightarrow> string" where
  "ToUpper s = map to_upper_char s"

definition ToLower :: "string \<Rightarrow> string" where
  "ToLower s = map to_lower_char s"

end
