(* ===== verification/Sds_Encoding.thy ===== *)
theory Sds_Encoding
  imports Sds_Prelude
begin

text \<open>
  Numbers as text and as bytes: the decimal reader and printer of \<open>math/big\<close>
  (\<open>SetString(s, 10)\<close>, \<open>String\<close>, the verb \<open>%018d\<close>), its big-endian byte conversions
  (\<open>Bytes\<close>, \<open>SetBytes\<close>), \<open>binary.BigEndian.PutUint64\<close> and \<open>hex.EncodeToString\<close>, each with
  the round trip the components rely on.
\<close>

subsection \<open>Decimal digits\<close>

definition is_digit :: "char \<Rightarrow> bool" where
  "is_digit c \<longleftrightarrow> 48 \<le> (of_char c :: nat) \<and> (of_char c :: nat) \<le> 57"

definition digit_val :: "char \<Rightarrow> nat" where
  "digit_val c = of_char c - 48"

definition digit :: "nat \<Rightarrow> char" where
  "digit n = char_of (48 + n)"

lemma of_char_digit [simp]: "n < 10 \<Longrightarrow> (of_char (digit n) :: nat) = 48 + n"
  by (simp add: digit_def)

lemma digit_props [simp]:
  assumes "n < 10"
  shows "is_digit (digit n)" "digit_val (digit n) = n" "solid (digit n)"
  using assms by (simp_all add: is_digit_def digit_val_def solid_def)

lemma is_digit_solid: "is_digit c \<Longrightarrow> solid c"
  by (simp add: is_digit_def solid_def)

text \<open>Reading digits, most significant first, into an accumulator.\<close>

fun dec_digits :: "nat \<Rightarrow> string \<Rightarrow> nat option" where
  "dec_digits acc [] = Some acc"
| "dec_digits acc (c # s) =
     (if is_digit c then dec_digits (10 * acc + digit_val c) s else None)"

text \<open>\<open>(*big.Int).SetString(s, 10)\<close>: an optional sign, then at least one digit and nothing else.\<close>

definition SetString10 :: "string \<Rightarrow> int option" where
  "SetString10 s =
     (case s of
        [] \<Rightarrow> None
      | c # cs \<Rightarrow>
          if c = CHR ''-'' then (if cs = [] then None else map_option (\<lambda>n. - int n) (dec_digits 0 cs))
          else if c = CHR ''+'' then (if cs = [] then None else map_option int (dec_digits 0 cs))
          else map_option int (dec_digits 0 (c # cs)))"

text \<open>\<open>(*big.Int).String\<close> of a non-negative number.\<close>

fun dec_string :: "nat \<Rightarrow> string" where
  "dec_string n = (if n < 10 then [digit n] else dec_string (n div 10) @ [digit (n mod 10)])"

declare dec_string.simps [simp del]

lemma dec_digits_append:
  "dec_digits acc (s @ t) = Option.bind (dec_digits acc s) (\<lambda>a. dec_digits a t)"
  by (induction acc s rule: dec_digits.induct) auto

lemma dec_string_digits: "c \<in> set (dec_string n) \<Longrightarrow> is_digit c"
proof (induction n rule: dec_string.induct)
  case (1 n)
  then show ?case by (subst (asm) dec_string.simps) (auto split: if_splits)
qed

lemma dec_string_not_Nil [simp]: "dec_string n \<noteq> []"
  by (subst dec_string.simps) simp

lemma dec_digits_dec_string: "dec_digits 0 (dec_string n) = Some n"
proof (induction n rule: dec_string.induct)
  case (1 n)
  show ?case
  proof (cases "n < 10")
    case True
    then show ?thesis by (subst dec_string.simps) simp
  next
    case False
    with 1 have "dec_digits 0 (dec_string (n div 10)) = Some (n div 10)" by blast
    with False show ?thesis by (subst dec_string.simps) (simp add: dec_digits_append)
  qed
qed

lemma is_digit_neq_sign: "is_digit c \<Longrightarrow> c \<noteq> CHR ''-'' \<and> c \<noteq> CHR ''+'' \<and> c \<noteq> CHR ''.''"
  by (auto simp: is_digit_def)

lemma SetString10_digits:
  assumes "s \<noteq> []" "\<And>c. c \<in> set s \<Longrightarrow> is_digit c"
  shows "SetString10 s = map_option int (dec_digits 0 s)"
  using assms is_digit_neq_sign by (cases s) (auto simp: SetString10_def)

text \<open>The \<open>%s\<close> form of a \<open>*big.Int\<close>.\<close>

definition bigint_string :: "int option \<Rightarrow> string" where
  "bigint_string v =
     (case v of
        None \<Rightarrow> ''<nil>''
      | Some n \<Rightarrow> if n < 0 then CHR ''-'' # dec_string (nat (- n)) else dec_string (nat n))"

lemma SetString10_dec_string [simp]: "SetString10 (dec_string n) = Some (int n)"
  using dec_string_digits by (simp add: SetString10_digits dec_digits_dec_string)

text \<open>Leading and trailing zeros: what padding to a width does to the value read back.\<close>

lemma dec_digits_all_zero: "dec_digits acc (replicate k (digit 0) @ s) = dec_digits (acc * 10 ^ k) s"
  by (induction k arbitrary: acc) (auto simp: algebra_simps)

lemma dec_digits_trailing_zeros:
  assumes "dec_digits acc s = Some v"
  shows "dec_digits acc (s @ replicate k (digit 0)) = Some (v * 10 ^ k)"
  using assms dec_digits_all_zero[of v k "[]"] by (simp add: dec_digits_append)

lemma dec_string_length: "n < 10 ^ k \<Longrightarrow> 0 < k \<Longrightarrow> length (dec_string n) \<le> k"
proof (induction n arbitrary: k rule: dec_string.induct)
  case (1 n)
  show ?case
  proof (cases "n < 10")
    case True
    with 1 show ?thesis by (subst dec_string.simps) simp
  next
    case False
    then obtain j where j: "k = Suc j" "0 < j"
      using 1(2,3) by (cases k; cases "k - 1") auto
    have "n div 10 < 10 ^ j" using 1(2) j by (simp add: less_mult_imp_div_less mult.commute)
    with 1(1) False j have "length (dec_string (n div 10)) \<le> j" by simp
    with False j show ?thesis by (subst dec_string.simps) simp
  qed
qed

text \<open>\<open>fmt.Sprintf("%018d", n)\<close>.\<close>

definition pad18 :: "nat \<Rightarrow> string" where
  "pad18 n = replicate (18 - length (dec_string n)) (digit 0) @ dec_string n"

lemma pad18_digits: "c \<in> set (pad18 n) \<Longrightarrow> is_digit c"
  by (auto simp: pad18_def dest: dec_string_digits)

lemma pad18_value [simp]: "dec_digits 0 (pad18 n) = Some n"
  by (simp add: pad18_def dec_digits_all_zero dec_digits_dec_string)

lemma pad18_length: "n < 10 ^ 18 \<Longrightarrow> length (pad18 n) = 18"
  using dec_string_length[of n 18] by (simp add: pad18_def)

text \<open>\<open>strings.TrimRight(s, "0")\<close>.\<close>

definition TrimRight0 :: "string \<Rightarrow> string" where
  "TrimRight0 s = rev (dropWhile (\<lambda>c. c = digit 0) (rev s))"

lemma TrimRight0_restore:
  "TrimRight0 s @ replicate (length s - length (TrimRight0 s)) (digit 0) = s"
proof -
  let ?z = "takeWhile (\<lambda>c. c = digit 0) (rev s)"
  have "\<forall>c \<in> set ?z. c = digit 0" by (auto dest: set_takeWhileD)
  then have z: "rev ?z = replicate (length ?z) (digit 0)"
    by (intro replicate_eqI) auto
  have s: "s = TrimRight0 s @ rev ?z"
    unfolding TrimRight0_def rev_append [symmetric] takeWhile_dropWhile_id by simp
  then have "length s = length (TrimRight0 s) + length ?z"
    by (metis length_append length_rev)
  then show ?thesis using s z by simp
qed

lemma TrimRight0_subset: "set (TrimRight0 s) \<subseteq> set s"
  by (auto simp: TrimRight0_def dest: set_dropWhileD)

subsection \<open>Big-endian bytes\<close>

fun big_Bytes :: "nat \<Rightarrow> bytes" where
  "big_Bytes n = (if n = 0 then [] else big_Bytes (n div 256) @ [word_of_nat (n mod 256)])"

declare big_Bytes.simps [simp del]

definition big_SetBytes :: "bytes \<Rightarrow> nat" where
  "big_SetBytes bs = foldl (\<lambda>a b. 256 * a + unat b) 0 bs"

lemma big_SetBytes_simps [simp]:
  "big_SetBytes [] = 0"
  "big_SetBytes (bs @ [b]) = 256 * big_SetBytes bs + unat b"
  by (simp_all add: big_SetBytes_def)

lemma byte_less [simp]: "unat (b :: byte) < 256"
  using unsigned_less[of b, where 'a = nat] by simp

lemma unat_byte_mod [simp]: "unat (word_of_nat (n mod 256) :: byte) = n mod 256"
  by (simp add: unat_of_nat)

lemma big_SetBytes_big_Bytes [simp]: "big_SetBytes (big_Bytes n) = n"
proof (induction n rule: big_Bytes.induct)
  case (1 n)
  then show ?case by (subst big_Bytes.simps) simp
qed

lemma big_SetBytes_less: "big_SetBytes bs < 256 ^ length bs"
proof (induction bs rule: rev_induct)
  case Nil
  then show ?case by simp
next
  case (snoc b bs)
  then have "256 * big_SetBytes bs + 256 \<le> 256 * 256 ^ length bs" by linarith
  then have "256 * big_SetBytes bs + unat b < 256 * 256 ^ length bs"
    using byte_less[of b] by linarith
  then show ?case by simp
qed

lemma big_Bytes_length: "n < 256 ^ k \<Longrightarrow> length (big_Bytes n) \<le> k"
proof (induction n arbitrary: k rule: big_Bytes.induct)
  case (1 n)
  show ?case
  proof (cases "n = 0")
    case True
    then show ?thesis by (subst big_Bytes.simps) simp
  next
    case False
    with 1(2) obtain j where j: "k = Suc j" by (cases k) auto
    have "n div 256 < 256 ^ j" using 1(2) j by (simp add: less_mult_imp_div_less mult.commute)
    with 1(1) False have "length (big_Bytes (n div 256)) \<le> j" by blast
    with False j show ?thesis by (subst big_Bytes.simps) simp
  qed
qed

lemma big_SetBytes_zeros [simp]: "big_SetBytes (replicate k 0 @ bs) = big_SetBytes bs"
proof -
  have "foldl (\<lambda>a b. 256 * a + unat b) 0 (replicate k (0 :: byte)) = 0"
    by (induction k) auto
  then show ?thesis by (simp add: big_SetBytes_def)
qed

lemma big_SetBytes_inj:
  "length as = length bs \<Longrightarrow> big_SetBytes as = big_SetBytes bs \<Longrightarrow> as = bs"
proof (induction as arbitrary: bs rule: rev_induct)
  case Nil
  then show ?case by simp
next
  case (snoc a as)
  obtain b bs' where bs: "bs = bs' @ [b]"
    using snoc.prems(1) by (cases bs rule: rev_cases) auto
  have eq: "256 * big_SetBytes as + unat a = 256 * big_SetBytes bs' + unat b"
    using snoc.prems(2) by (simp add: bs)
  from arg_cong[OF eq, of "\<lambda>n. n div 256"] have "big_SetBytes as = big_SetBytes bs'" by simp
  moreover from arg_cong[OF eq, of "\<lambda>n. n mod 256"] have "unat a = unat b" by simp
  ultimately have "as = bs'" "a = b"
    using snoc.IH snoc.prems(1) unsigned_word_eqI by (simp_all add: bs)
  with bs show ?case by simp
qed

subsection \<open>Hexadecimal text\<close>

definition hex_digit :: "nat \<Rightarrow> char" where
  "hex_digit n = (if n < 10 then char_of (48 + n) else char_of (87 + n))"

definition hex_EncodeToString :: "bytes \<Rightarrow> string" where
  "hex_EncodeToString bs =
     concat (map (\<lambda>b. [hex_digit (unat b div 16), hex_digit (unat b mod 16)]) bs)"

lemma of_char_hex_digit:
  "n < 16 \<Longrightarrow> (of_char (hex_digit n) :: nat) = (if n < 10 then 48 + n else 87 + n)"
  by (simp add: hex_digit_def)

lemma hex_digit_inj: "m < 16 \<Longrightarrow> n < 16 \<Longrightarrow> hex_digit m = hex_digit n \<Longrightarrow> m = n"
  by (drule arg_cong[where f = "of_char :: char \<Rightarrow> nat"])
    (auto simp: of_char_hex_digit split: if_splits)

lemma hex_digit_not_bar: "n < 16 \<Longrightarrow> hex_digit n \<noteq> CHR ''|''"
  by (rule notI, drule arg_cong[where f = "of_char :: char \<Rightarrow> nat"])
    (auto simp: of_char_hex_digit split: if_splits)

lemma byte_nibbles: "unat (b :: byte) div 16 < 16" "unat (b :: byte) mod 16 < 16"
  using byte_less[of b] by (simp_all add: less_mult_imp_div_less)

lemma hex_length [simp]: "length (hex_EncodeToString bs) = 2 * length bs"
  by (induction bs) (simp_all add: hex_EncodeToString_def)

lemma hex_no_bar: "CHR ''|'' \<notin> set (hex_EncodeToString bs)"
  using hex_digit_not_bar[OF byte_nibbles(1)] hex_digit_not_bar[OF byte_nibbles(2)]
  by (simp add: hex_EncodeToString_def) metis

lemma hex_inj: "hex_EncodeToString as = hex_EncodeToString bs \<Longrightarrow> as = bs"
proof (induction as arbitrary: bs)
  case Nil
  then show ?case by (cases bs) (simp_all add: hex_EncodeToString_def)
next
  case (Cons a as)
  obtain b bs' where bs: "bs = b # bs'"
    using Cons.prems by (cases bs) (simp_all add: hex_EncodeToString_def)
  have "hex_digit (unat a div 16) = hex_digit (unat b div 16)"
    "hex_digit (unat a mod 16) = hex_digit (unat b mod 16)"
    "hex_EncodeToString as = hex_EncodeToString bs'"
    using Cons.prems by (simp_all add: bs hex_EncodeToString_def)
  then have "unat a div 16 = unat b div 16" "unat a mod 16 = unat b mod 16" "as = bs'"
    using hex_digit_inj[OF byte_nibbles(1) byte_nibbles(1)]
      hex_digit_inj[OF byte_nibbles(2) byte_nibbles(2)] Cons.IH by blast+
  then have "a = b" by (metis div_mult_mod_eq unsigned_word_eqI)
  with \<open>as = bs'\<close> bs show ?case by simp
qed

end
