(* ===== verification/Sds_Grt.thy ===== *)
theory Sds_Grt
  imports Sds_Encoding
begin

text \<open>
  Token amounts and prices (\<open>grt.go\<close>): the type \<open>GRT\<close> with its constructors, arithmetic,
  decimal reader and printer and text, JSON and YAML codecs, and the pricing of usage.

  The struct wraps a \<open>uint256.Int\<close>, a 256-bit machine integer, here a \<^typ>\<open>u256\<close> whose ring
  operations wrap. The conversion \<open>uint256.FromBig\<close> of that package is the argument \<open>fromBig\<close>
  of the operations that call it; \<open>FromBig_ok\<close> states what its documentation promises.
\<close>

record GRT =
  grt_raw :: u256

abbreviation mkGRT :: "u256 \<Rightarrow> GRT" where
  "mkGRT w \<equiv> \<lparr>grt_raw = w\<rparr>"

definition GRTDecimals :: nat where
  "GRTDecimals = 18"

definition grtBaseBig :: int where
  "grtBaseBig = 10 ^ GRTDecimals"

type_synonym from_big = "int \<Rightarrow> u256 \<times> bool"

text \<open>
  \<open>FromBig\<close> returns the 256-bit value and whether the argument overflows 256 bits; nothing is
  assumed of negative arguments.
\<close>

definition FromBig_ok :: "from_big \<Rightarrow> bool" where
  "FromBig_ok fromBig \<longleftrightarrow>
     (\<forall>v. 0 \<le> v \<longrightarrow> v < 2 ^ 256 \<longrightarrow> fromBig v = (word_of_int v, False)) \<and>
     (\<forall>v. 2 ^ 256 \<le> v \<longrightarrow> snd (fromBig v))"

subsection \<open>Constructors\<close>

definition ZeroGRT :: GRT where
  "ZeroGRT = mkGRT 0"

definition NewGRTFromInt64 :: "64 word \<Rightarrow> GRT" where
  "NewGRTFromInt64 r =
     (let unsigned = (if sint r < 0 then - r else r);
          value = (ucast unsigned :: u256)
      in mkGRT (if sint r < 0 then - value else value))"

definition NewGRTFromUint64 :: "u64 \<Rightarrow> GRT" where
  "NewGRTFromUint64 r = mkGRT (ucast r)"

definition NewGRTFromUint256 :: "u256 option \<Rightarrow> GRT" where
  "NewGRTFromUint256 r = (case r of None \<Rightarrow> mkGRT 0 | Some w \<Rightarrow> mkGRT w)"

definition NewGRTFromBigInt :: "from_big \<Rightarrow> int option \<Rightarrow> GRT" where
  "NewGRTFromBigInt fromBig r =
     (case r of
        None \<Rightarrow> mkGRT 0
      | Some v \<Rightarrow> (case fromBig v of (w, overflow) \<Rightarrow> mkGRT (if overflow then - 1 else w)))"

subsection \<open>Reading\<close>

definition pad_fraction :: "string \<Rightarrow> string" where
  "pad_fraction fracPart =
     (if length fracPart > GRTDecimals then take GRTDecimals fracPart
      else fracPart @ replicate (GRTDecimals - length fracPart) CHR ''0'')"

definition base_units :: "int \<Rightarrow> string list \<Rightarrow> int result" where
  "base_units intValue parts =
     (if length parts = 2 then
        (let fracPart = pad_fraction (parts ! 1) in
         case SetString10 fracPart of
           None \<Rightarrow> Inl (Errorf ''invalid fractional part: %s'' [fracPart] None)
         | Some fracValue \<Rightarrow> Inr (intValue * grtBaseBig + fracValue))
      else Inr (intValue * grtBaseBig))"

definition parseDecimalToGRT :: "from_big \<Rightarrow> string \<Rightarrow> GRT result" where
  "parseDecimalToGRT fromBig decimal0 =
     (let decimal1 = TrimSpace decimal0 in
      if decimal1 = [] then Inr (mkGRT 0)
      else
        let negative = HasPrefix decimal1 ''-'';
            decimal = (if negative then drop 1 decimal1 else decimal1);
            parts = Split CHR ''.'' decimal
        in if length parts > 2 then Inl (Errorf ''invalid decimal format: %s'' [decimal] None)
        else
          let intPart = (if parts ! 0 = [] then ''0'' else parts ! 0) in
          case SetString10 intPart of
            None \<Rightarrow> Inl (Errorf ''invalid integer part: %s'' [intPart] None)
          | Some intValue \<Rightarrow>
              bind_result (base_units intValue parts)
                (\<lambda>abs.
                   case fromBig (if negative then - abs else abs) of
                     (v, overflow) \<Rightarrow>
                       if overflow then Inl (Errorf ''value overflow: %s'' [decimal] None)
                       else Inr (mkGRT v)))"

definition ParseGRT :: "from_big \<Rightarrow> string \<Rightarrow> GRT result" where
  "ParseGRT fromBig s0 =
     (let s = TrimSpace s0 in
      if s = [] then Inr (mkGRT 0)
      else parseDecimalToGRT fromBig
             (if HasSuffix (ToUpper s) ''GRT'' then TrimSpace (take (length s - 3) s) else s))"

definition NewGRTFromString :: "from_big \<Rightarrow> string \<Rightarrow> GRT result" where
  "NewGRTFromString fromBig s = ParseGRT fromBig s"

text \<open>
  \<open>NewGRT\<close> dispatches on the dynamic type of its argument. The signed types up to 64 bits are
  converted by \<open>int64(v)\<close> and the unsigned ones by \<open>uint64(v)\<close>, which keep the value.
\<close>

datatype grt_input =
    InSigned "64 word"
  | InUnsigned u64
  | InBigInt "int option"
  | InUint256 "u256 option"
  | InString string
  | InOther string

fun NewGRT :: "from_big \<Rightarrow> grt_input \<Rightarrow> GRT result" where
  "NewGRT fromBig (InSigned v) = Inr (NewGRTFromInt64 v)"
| "NewGRT fromBig (InUnsigned v) = Inr (NewGRTFromUint64 v)"
| "NewGRT fromBig (InBigInt v) = Inr (NewGRTFromBigInt fromBig v)"
| "NewGRT fromBig (InUint256 v) = Inr (NewGRTFromUint256 v)"
| "NewGRT fromBig (InString s) = NewGRTFromString fromBig s"
| "NewGRT fromBig (InOther t) = Inl (Errorf ''unsupported input type: %T'' [t] None)"

text \<open>\<open>MustNewGRT\<close> panics on an error: no value is returned.\<close>

definition MustNewGRT :: "from_big \<Rightarrow> grt_input \<Rightarrow> GRT option" where
  "MustNewGRT fromBig input = (case NewGRT fromBig input of Inl _ \<Rightarrow> None | Inr g \<Rightarrow> Some g)"

subsection \<open>Arithmetic\<close>

definition BigInt :: "GRT \<Rightarrow> int" where
  "BigInt g = uint (grt_raw g)"

definition GRT_IsZero :: "GRT \<Rightarrow> bool" where
  "GRT_IsZero g \<longleftrightarrow> grt_raw g = 0"

definition GRT_Cmp :: "GRT \<Rightarrow> GRT \<Rightarrow> int" where
  "GRT_Cmp g other =
     (if grt_raw g < grt_raw other then - 1 else if grt_raw g = grt_raw other then 0 else 1)"

definition GRT_Add :: "GRT \<Rightarrow> GRT \<Rightarrow> GRT" where
  "GRT_Add g other = mkGRT (grt_raw g + grt_raw other)"

definition GRT_Sub :: "GRT \<Rightarrow> GRT \<Rightarrow> GRT" where
  "GRT_Sub g other =
     (if GRT_Cmp g other < 0 then mkGRT 0 else mkGRT (grt_raw g - grt_raw other))"

definition GRT_Mul :: "GRT \<Rightarrow> u64 \<Rightarrow> GRT" where
  "GRT_Mul g n = mkGRT (grt_raw g * ucast n)"

subsection \<open>Printing and codecs\<close>

definition ToDecimalString :: "GRT \<Rightarrow> string" where
  "ToDecimalString g =
     (if GRT_IsZero g then ''0''
      else
        let r = nat (BigInt g);
            grt = r div 10 ^ GRTDecimals;
            remainder = r mod 10 ^ GRTDecimals
        in if remainder = 0 then dec_string grt
           else dec_string grt @ ''.'' @ TrimRight0 (pad18 remainder))"

definition GRT_String :: "GRT \<Rightarrow> string" where
  "GRT_String g = ToDecimalString g @ '' GRT''"

definition MarshalText :: "GRT \<Rightarrow> string" where
  "MarshalText g = GRT_String g"

definition UnmarshalText :: "from_big \<Rightarrow> string \<Rightarrow> GRT result" where
  "UnmarshalText fromBig text = ParseGRT fromBig text"

definition MarshalJSON :: "GRT \<Rightarrow> string" where
  "MarshalJSON g = [CHR 0x22] @ GRT_String g @ [CHR 0x22]"

definition UnmarshalJSON :: "from_big \<Rightarrow> string \<Rightarrow> GRT result" where
  "UnmarshalJSON fromBig s =
     UnmarshalText fromBig
       (if length s \<ge> 2 \<and> s ! 0 = CHR 0x22 \<and> s ! (length s - 1) = CHR 0x22
        then take (length s - 2) (drop 1 s) else s)"

definition MarshalYAML :: "GRT \<Rightarrow> string" where
  "MarshalYAML g = GRT_String g"

text \<open>The YAML library hands the scalar over through \<open>unmarshal\<close>, which may fail.\<close>

definition UnmarshalYAML :: "from_big \<Rightarrow> string result \<Rightarrow> GRT result" where
  "UnmarshalYAML fromBig unmarshalled = bind_result unmarshalled (UnmarshalText fromBig)"

subsection \<open>Pricing\<close>

record PricingConfig =
  PricePerBlock :: GRT
  PricePerByte :: GRT

definition CalculateUsageCost :: "PricingConfig \<Rightarrow> u64 \<Rightarrow> u64 \<Rightarrow> GRT" where
  "CalculateUsageCost c blocksProcessed bytesTransferred =
     (let blockCost = GRT_Mul (PricePerBlock c) blocksProcessed;
          byteCost = GRT_Mul (PricePerByte c) bytesTransferred
      in GRT_Add blockCost byteCost)"

definition parsed_or_zero :: "GRT result \<Rightarrow> GRT" where
  "parsed_or_zero r = (case r of Inl _ \<Rightarrow> mkGRT 0 | Inr g \<Rightarrow> g)"

definition DefaultPricingConfig :: "from_big \<Rightarrow> PricingConfig" where
  "DefaultPricingConfig fromBig =
     \<lparr>PricePerBlock = parsed_or_zero (ParseGRT fromBig ''0.000115 GRT''),
      PricePerByte = parsed_or_zero (ParseGRT fromBig ''0.0000000061 GRT'')\<rparr>"


subsection \<open>Arithmetic is exact where it does not overflow\<close>

lemma GRT_Sub_saturates: "BigInt (GRT_Sub g other) = max 0 (BigInt g - BigInt other)"
  by (auto simp: GRT_Sub_def GRT_Cmp_def BigInt_def word_less_def uint_sub_if' max_def not_less)

lemma uint_ucast_u64 [simp]: "uint (ucast (n :: u64) :: u256) = uint n"
  by (simp add: uint_up_ucast is_up)

lemma CalculateUsageCost_mod:
  "BigInt (CalculateUsageCost c blocks bytes) =
     (BigInt (PricePerBlock c) * uint blocks + BigInt (PricePerByte c) * uint bytes) mod 2 ^ 256"
  by (simp add: CalculateUsageCost_def GRT_Add_def GRT_Mul_def BigInt_def uint_word_ariths
      mod_add_left_eq mod_add_right_eq)

lemma BigInt_nonneg [simp]: "0 \<le> BigInt g"
  by (simp add: BigInt_def)

lemma BigInt_less: "BigInt g < 2 ^ 256"
  using uint_lt2p[of "grt_raw g"] by (simp add: BigInt_def)

lemma BigInt_mkGRT: "0 \<le> v \<Longrightarrow> v < 2 ^ 256 \<Longrightarrow> BigInt (mkGRT (word_of_int v)) = v"
  by (simp add: BigInt_def uint_word_of_int)

lemma mkGRT_BigInt [simp]: "mkGRT (word_of_int (BigInt g)) = g"
  by (simp add: BigInt_def)

lemma FromBig_ok_fits:
  "FromBig_ok fromBig \<Longrightarrow> 0 \<le> v \<Longrightarrow> v < 2 ^ 256 \<Longrightarrow> fromBig v = (word_of_int v, False)"
  unfolding FromBig_ok_def by blast

lemma FromBig_ok_overflows: "FromBig_ok fromBig \<Longrightarrow> 2 ^ 256 \<le> v \<Longrightarrow> snd (fromBig v)"
  unfolding FromBig_ok_def by blast

text \<open>Big integers that fit keep their value, larger ones are clamped to the maximum.\<close>

lemma NewGRTFromBigInt_value:
  assumes "FromBig_ok fromBig" "0 \<le> v"
  shows "BigInt (NewGRTFromBigInt fromBig (Some v)) = min v (2 ^ 256 - 1)"
proof (cases "v < 2 ^ 256")
  case True
  with assms show ?thesis
    by (simp add: NewGRTFromBigInt_def FromBig_ok_fits BigInt_mkGRT del: of_int_numeral)
next
  case False
  then have "snd (fromBig v)" using assms FromBig_ok_overflows by auto
  then have "NewGRTFromBigInt fromBig (Some v) = mkGRT (- 1)"
    by (simp add: NewGRTFromBigInt_def split_beta)
  moreover have "BigInt (mkGRT (- 1)) = 2 ^ 256 - 1"
    by (simp add: BigInt_def unsigned_minus_1_eq_mask mask_eq_exp_minus_1)
  ultimately show ?thesis using False by simp
qed

subsection \<open>Reading decimals\<close>

lemma dec_digits_all: "dec_digits a s = Some v \<Longrightarrow> c \<in> set s \<Longrightarrow> is_digit c"
  by (induction a s rule: dec_digits.induct) (auto split: if_splits)

lemma SetString10_read:
  assumes "s \<noteq> []" "dec_digits 0 s = Some v"
  shows "SetString10 s = Some (int v)"
  using assms dec_digits_all[OF assms(2)] by (simp add: SetString10_digits)

lemma zero_char: "CHR ''0'' = digit 0"
  by (simp add: digit_def char_of_eq_iff eq_commute)

lemma pad_fraction_value:
  assumes "dec_digits 0 f = Some b" "length f \<le> 18"
  shows "SetString10 (pad_fraction f) = Some (int (b * 10 ^ (18 - length f)))"
proof -
  have "dec_digits 0 (f @ replicate (18 - length f) (digit 0)) = Some (b * 10 ^ (18 - length f))"
    using assms(1) by (rule dec_digits_trailing_zeros)
  moreover have "f @ replicate (18 - length f) (digit 0) \<noteq> []"
    using assms(2) by (cases f) auto
  ultimately show ?thesis
    using assms(2) SetString10_read by (simp add: pad_fraction_def GRTDecimals_def zero_char)
qed

text \<open>
  A decimal is digits, optionally followed by a point and at most 18 digits. \<open>decimal_text\<close> and
  \<open>decimal_units\<close> are its text and its value in base units.
\<close>

definition decimal_text :: "string \<Rightarrow> string option \<Rightarrow> string" where
  "decimal_text i f = i @ (case f of None \<Rightarrow> [] | Some f \<Rightarrow> CHR ''.'' # f)"

definition decimal_ok :: "string \<Rightarrow> string option \<Rightarrow> bool" where
  "decimal_ok i f \<longleftrightarrow>
     i \<noteq> [] \<and> list_all is_digit i \<and>
     (case f of None \<Rightarrow> True | Some f \<Rightarrow> list_all is_digit f \<and> length f \<le> 18)"

definition digits_value :: "string \<Rightarrow> nat" where
  "digits_value s = (case dec_digits 0 s of None \<Rightarrow> 0 | Some v \<Rightarrow> v)"

definition decimal_units :: "string \<Rightarrow> string option \<Rightarrow> int" where
  "decimal_units i f =
     int (digits_value i) * 10 ^ 18 +
     (case f of None \<Rightarrow> 0 | Some f \<Rightarrow> int (digits_value f * 10 ^ (18 - length f)))"

lemma digits_value_read: "list_all is_digit s \<Longrightarrow> dec_digits 0 s = Some (digits_value s)"
proof -
  assume "list_all is_digit s"
  then have "\<exists>v. dec_digits a s = Some v" for a
    by (induction s arbitrary: a) auto
  then show ?thesis by (metis digits_value_def option.simps(5))
qed

lemma no_dot: "list_all is_digit s \<Longrightarrow> CHR ''.'' \<notin> set s"
  using is_digit_neq_sign by (auto simp: list_all_iff)

lemma Split_decimal:
  assumes "decimal_ok i f"
  shows "Split CHR ''.'' (decimal_text i f) = i # (case f of None \<Rightarrow> [] | Some f \<Rightarrow> [f])"
  using assms no_dot
  by (auto simp: decimal_ok_def decimal_text_def Split_sep split: option.splits)

lemma decimal_text_ends:
  assumes "decimal_ok i f"
  shows "decimal_text i f \<noteq> []" "is_digit (hd (decimal_text i f))" "is_digit (last (decimal_text i f)) \<or> last (decimal_text i f) = CHR ''.''"
proof -
  show "decimal_text i f \<noteq> []" using assms by (simp add: decimal_ok_def decimal_text_def)
  show "is_digit (hd (decimal_text i f))"
    using assms by (cases i) (auto simp: decimal_ok_def decimal_text_def)
  have "list_all is_digit s \<Longrightarrow> s \<noteq> [] \<Longrightarrow> is_digit (last s)" for s
    by (simp add: list_all_iff)
  then show "is_digit (last (decimal_text i f)) \<or> last (decimal_text i f) = CHR ''.''"
    using assms by (auto simp: decimal_ok_def decimal_text_def split: option.splits)
qed

lemma parseDecimalToGRT_decimal:
  assumes ok: "decimal_ok i f" and fb: "FromBig_ok fromBig"
  shows "parseDecimalToGRT fromBig (decimal_text i f) =
     (if decimal_units i f < 2 ^ 256 then Inr (mkGRT (word_of_int (decimal_units i f)))
      else Inl (Errorf ''value overflow: %s'' [decimal_text i f] None))"
proof -
  let ?s = "decimal_text i f"
  note ends = decimal_text_ends[OF ok]
  have trim: "TrimSpace ?s = ?s"
    using ends is_digit_solid by (intro TrimSpace_solid) (auto simp: solid_def)
  have neg: "\<not> HasPrefix ?s ''-''"
    using ends(1,2) is_digit_neq_sign by (cases ?s) (auto simp: HasPrefix_def)
  have i: "i \<noteq> []" "list_all is_digit i" using ok by (simp_all add: decimal_ok_def)
  then have int_part: "SetString10 i = Some (int (digits_value i))"
    by (intro SetString10_read digits_value_read)
  have base: "grtBaseBig = 10 ^ 18" by (simp add: grtBaseBig_def GRTDecimals_def)
  have nonneg: "0 \<le> decimal_units i f"
    by (auto simp: decimal_units_def split: option.splits)
  have sum: "base_units (int (digits_value i)) (Split CHR ''.'' ?s) = Inr (decimal_units i f)"
  proof (cases f)
    case None
    then show ?thesis using Split_decimal[OF ok] by (simp add: base_units_def decimal_units_def base)
  next
    case (Some g)
    then have "SetString10 (pad_fraction g) = Some (int (digits_value g * 10 ^ (18 - length g)))"
      using ok by (intro pad_fraction_value digits_value_read) (auto simp: decimal_ok_def)
    with Some show ?thesis using Split_decimal[OF ok] by (simp add: base_units_def decimal_units_def base)
  qed
  have len: "\<not> length (Split CHR ''.'' ?s) > 2" "Split CHR ''.'' ?s ! 0 = i"
    using Split_decimal[OF ok] by (auto split: option.splits)
  have "parseDecimalToGRT fromBig ?s =
      (case fromBig (decimal_units i f) of (v, overflow) \<Rightarrow>
         if overflow then Inl (Errorf ''value overflow: %s'' [?s] None) else Inr (mkGRT v))"
    using ends(1) i(1) len
    by (simp add: parseDecimalToGRT_def trim neg int_part sum Let_def)
  then show ?thesis
    using FromBig_ok_fits[OF fb nonneg] FromBig_ok_overflows[OF fb, of "decimal_units i f"]
    by (cases "decimal_units i f < 2 ^ 256") (simp_all add: split_beta)
qed

text \<open>The unit may be left out, or written in any of these ways.\<close>

definition unit_suffixes :: "string list" where
  "unit_suffixes = ['''', ''GRT'', '' GRT'', ''grt'', '' grt'']"

lemma ToUpper_append [simp]: "ToUpper (a @ b) = ToUpper a @ ToUpper b"
  by (simp add: ToUpper_def)

lemma ParseGRT_no_unit:
  assumes ok: "decimal_ok i f"
  shows "ParseGRT fromBig (decimal_text i f) = parseDecimalToGRT fromBig (decimal_text i f)"
proof -
  let ?s = "decimal_text i f"
  note ends = decimal_text_ends[OF ok]
  have trim: "TrimSpace ?s = ?s"
    using ends is_digit_solid by (intro TrimSpace_solid) (auto simp: solid_def)
  have "last (ToUpper ?s) \<noteq> CHR ''T''"
    using ends(1,3)
    by (auto simp: ToUpper_def last_map to_upper_char_def is_digit_def)
  then have "\<not> HasSuffix (ToUpper ?s) ''GRT''"
    by (auto simp: HasSuffix_def dest!: arg_cong[where f = last])
  with ends(1) show ?thesis by (simp add: ParseGRT_def trim)
qed

lemma ParseGRT_unit:
  assumes ok: "decimal_ok i f"
    and g: "g = ''GRT'' \<or> g = ''grt''" and b: "b = '''' \<or> b = '' ''"
  shows "ParseGRT fromBig (decimal_text i f @ b @ g) = parseDecimalToGRT fromBig (decimal_text i f)"
proof -
  let ?d = "decimal_text i f"
  note ends = decimal_text_ends[OF ok]
  have solid_ends: "solid (hd ?d)" "solid (last ?d)"
    using ends is_digit_solid by (auto simp: solid_def)
  have trim: "TrimSpace (?d @ b @ g) = ?d @ b @ g"
    using ends(1) solid_ends g by (intro TrimSpace_solid) (auto simp: solid_def)
  have up: "ToUpper g = ''GRT''"
    using g by (auto simp: ToUpper_def to_upper_char_def char_of_eq_iff)
  have "HasSuffix (ToUpper (?d @ b @ g)) ''GRT''"
    using HasSuffix_append[of "ToUpper (?d @ b)" "''GRT''"] by (simp add: up)
  moreover have "TrimSpace (?d @ b) = ?d"
    using b ends(1) solid_ends TrimSpace_solid TrimSpace_snoc_blank by auto
  moreover have "take (length (?d @ b @ g) - 3) (?d @ b @ g) = ?d @ b"
    using g by auto
  ultimately show ?thesis
    using ends(1) by (simp add: ParseGRT_def trim)
qed

lemma ParseGRT_decimal:
  assumes "decimal_ok i f" "FromBig_ok fromBig" "u \<in> set unit_suffixes"
  shows "ParseGRT fromBig (decimal_text i f @ u) =
     (if decimal_units i f < 2 ^ 256 then Inr (mkGRT (word_of_int (decimal_units i f)))
      else Inl (Errorf ''value overflow: %s'' [decimal_text i f] None))"
  using assms(3) ParseGRT_no_unit[OF assms(1), of fromBig]
    ParseGRT_unit[OF assms(1), of "''GRT''" "''''" fromBig]
    ParseGRT_unit[OF assms(1), of "''GRT''" "'' ''" fromBig]
    ParseGRT_unit[OF assms(1), of "''grt''" "''''" fromBig]
    ParseGRT_unit[OF assms(1), of "''grt''" "'' ''" fromBig]
    parseDecimalToGRT_decimal[OF assms(1,2)]
  by (auto simp: unit_suffixes_def)

subsection \<open>Printing\<close>

text \<open>The integer part and the fraction \<open>ToDecimalString\<close> prints, and that they spell the amount.\<close>

definition shown_fraction :: "GRT \<Rightarrow> string option" where
  "shown_fraction g =
     (let r = nat (BigInt g) mod 10 ^ 18 in if r = 0 then None else Some (TrimRight0 (pad18 r)))"

lemma ToDecimalString_decimal_text:
  "ToDecimalString g = decimal_text (dec_string (nat (BigInt g) div 10 ^ 18)) (shown_fraction g)"
proof (cases "GRT_IsZero g")
  case True
  then show ?thesis
    by (simp add: ToDecimalString_def decimal_text_def shown_fraction_def GRT_IsZero_def BigInt_def
        dec_string.simps zero_char)
next
  case False
  then show ?thesis
    by (simp add: ToDecimalString_def decimal_text_def shown_fraction_def GRTDecimals_def Let_def)
qed

lemma TrimRight0_pad18:
  assumes "r < 10 ^ 18"
  shows "list_all is_digit (TrimRight0 (pad18 r))" "length (TrimRight0 (pad18 r)) \<le> 18"
    "digits_value (TrimRight0 (pad18 r)) * 10 ^ (18 - length (TrimRight0 (pad18 r))) = r"
proof -
  let ?t = "TrimRight0 (pad18 r)"
  show digits: "list_all is_digit ?t"
    using TrimRight0_subset pad18_digits by (fastforce simp: list_all_iff)
  have len: "length (pad18 r) = 18" using assms by (rule pad18_length)
  show "length ?t \<le> 18"
    using len unfolding TrimRight0_def by (metis length_dropWhile_le length_rev)
  have "dec_digits 0 (?t @ replicate (18 - length ?t) (digit 0)) =
      Some (digits_value ?t * 10 ^ (18 - length ?t))"
    using digits by (intro dec_digits_trailing_zeros digits_value_read)
  then show "digits_value ?t * 10 ^ (18 - length ?t) = r"
    using TrimRight0_restore[of "pad18 r"] len by simp
qed

lemma shown_decimal_ok: "decimal_ok (dec_string n) (shown_fraction g)"
  using TrimRight0_pad18(1,2)[of "nat (BigInt g) mod 10 ^ 18"] dec_string_digits
  by (auto simp: decimal_ok_def shown_fraction_def list_all_iff Let_def)

lemma shown_decimal_units:
  "decimal_units (dec_string (nat (BigInt g) div 10 ^ 18)) (shown_fraction g) = BigInt g"
proof -
  let ?r = "nat (BigInt g)"
  have i: "digits_value (dec_string (?r div 10 ^ 18)) = ?r div 10 ^ 18"
    by (simp add: digits_value_def dec_digits_dec_string)
  have f: "(case shown_fraction g of None \<Rightarrow> 0
      | Some f \<Rightarrow> int (digits_value f * 10 ^ (18 - length f))) = int (?r mod 10 ^ 18)"
    using TrimRight0_pad18(3)[of "?r mod 10 ^ 18"] by (simp add: shown_fraction_def Let_def)
  have "decimal_units (dec_string (?r div 10 ^ 18)) (shown_fraction g) =
      int (?r div 10 ^ 18 * 10 ^ 18 + ?r mod 10 ^ 18)"
    unfolding decimal_units_def f i by (simp only: of_nat_add of_nat_mult of_nat_power of_nat_numeral)
  also have "\<dots> = int ?r" unfolding div_mult_mod_eq by (rule refl)
  also have "\<dots> = BigInt g" by simp
  finally show ?thesis .
qed

lemma ParseGRT_ToDecimalString:
  assumes "FromBig_ok fromBig" "u \<in> set unit_suffixes"
  shows "ParseGRT fromBig (ToDecimalString g @ u) = Inr g"
  unfolding ToDecimalString_decimal_text ParseGRT_decimal[OF shown_decimal_ok assms]
    shown_decimal_units
  using BigInt_less[of g] by (simp only: if_True mkGRT_BigInt)

subsection \<open>Properties\<close>

text \<open>A concrete conversion with the documented behaviour, for the witnesses.\<close>

definition FromBig_std :: from_big where
  "FromBig_std v = (word_of_int v, 2 ^ 256 \<le> \<bar>v\<bar>)"

lemma FromBig_std_ok: "FromBig_ok FromBig_std"
  by (auto simp: FromBig_ok_def FromBig_std_def)

text \<open>
  Every codec of a token amount reads back what it writes: an amount printed in canonical form,
  or as its decimal with any accepted spelling of the unit, parses to the same 256-bit amount, and
  so do the text, JSON and YAML marshallers.
\<close>

theorem GRT_codec_roundtrip:
  assumes "FromBig_ok fromBig" and "u \<in> set unit_suffixes"
  shows "ParseGRT fromBig (GRT_String g) = Inr g \<and>
    ParseGRT fromBig (ToDecimalString g @ u) = Inr g \<and>
    UnmarshalText fromBig (MarshalText g) = Inr g \<and>
    UnmarshalJSON fromBig (MarshalJSON g) = Inr g \<and>
    UnmarshalYAML fromBig (Inr (MarshalYAML g)) = Inr g"
proof -
  have canonical: "ParseGRT fromBig (GRT_String g) = Inr g"
    unfolding GRT_String_def
    by (rule ParseGRT_ToDecimalString[OF assms(1)]) (simp add: unit_suffixes_def)
  have "ParseGRT fromBig (ToDecimalString g @ u) = Inr g"
    by (rule ParseGRT_ToDecimalString[OF assms])
  moreover have "UnmarshalJSON fromBig (MarshalJSON g) = Inr g"
    by (simp add: UnmarshalJSON_def MarshalJSON_def UnmarshalText_def canonical nth_append)
  ultimately show ?thesis
    by (simp add: UnmarshalText_def MarshalText_def UnmarshalYAML_def MarshalYAML_def canonical)
qed

theorem GRT_codec_roundtrip_witness:
  "FromBig_ok FromBig_std \<and> '' grt'' \<in> set unit_suffixes \<and>
   ParseGRT FromBig_std (ToDecimalString (mkGRT 1500000000000000000) @ '' grt'') =
     Inr (mkGRT 1500000000000000000)"
proof -
  have u: "'' grt'' \<in> set unit_suffixes" by (simp add: unit_suffixes_def)
  show ?thesis using GRT_codec_roundtrip[OF FromBig_std_ok u] FromBig_std_ok u by blast
qed

text \<open>
  A decimal amount with at most 18 fractional digits is read without rounding: the parsed amount
  is the integer part times \<open>10 ^ 18\<close> plus the fraction scaled to 18 places, and an amount
  of \<open>2 ^ 256\<close> base units or more is refused with an overflow error.
\<close>

theorem ParseGRT_exact:
  assumes "decimal_ok i f" and "FromBig_ok fromBig" and "u \<in> set unit_suffixes"
  shows "ParseGRT fromBig (decimal_text i f @ u) =
     (if decimal_units i f < 2 ^ 256 then Inr (mkGRT (word_of_int (decimal_units i f)))
      else Inl (Errorf ''value overflow: %s'' [decimal_text i f] None))"
  by (rule ParseGRT_decimal[OF assms])

theorem ParseGRT_exact_witness:
  "decimal_ok ''1'' (Some ''5'') \<and> FromBig_ok FromBig_std \<and> '''' \<in> set unit_suffixes \<and>
   ParseGRT FromBig_std (decimal_text ''1'' (Some ''5'') @ '''') =
     Inr (mkGRT (word_of_int (decimal_units ''1'' (Some ''5'')))) \<and>
   decimal_units ''1'' (Some ''5'') = 1500000000000000000"
proof -
  have ok: "decimal_ok ''1'' (Some ''5'')" by (simp add: decimal_ok_def is_digit_def)
  have u: "'''' \<in> set unit_suffixes" by (simp add: unit_suffixes_def)
  have v: "decimal_units ''1'' (Some ''5'') = 1500000000000000000"
    by (simp add: decimal_units_def digits_value_def is_digit_def digit_val_def)
  show ?thesis using ParseGRT_exact[OF ok FromBig_std_ok u] ok FromBig_std_ok u v by simp
qed

text \<open>
  C36: The cost of usage is the exact linear price, blocks times the block price plus bytes times the
  byte price, whenever that price fits 256 bits; beyond that it is reduced modulo \<open>2 ^ 256\<close>.
  Subtraction of amounts never goes below zero.
\<close>

definition linear_price :: "PricingConfig \<Rightarrow> u64 \<Rightarrow> u64 \<Rightarrow> int" where
  "linear_price c blocks bytes =
     BigInt (PricePerBlock c) * uint blocks + BigInt (PricePerByte c) * uint bytes"

theorem CalculateUsageCost_exact:
  "BigInt (CalculateUsageCost c blocks bytes) = linear_price c blocks bytes mod 2 ^ 256 \<and>
   (linear_price c blocks bytes < 2 ^ 256 \<longrightarrow>
      BigInt (CalculateUsageCost c blocks bytes) = linear_price c blocks bytes) \<and>
   BigInt (GRT_Sub g h) = max 0 (BigInt g - BigInt h)"
proof -
  have eq: "BigInt (CalculateUsageCost c blocks bytes) = linear_price c blocks bytes mod 2 ^ 256"
    unfolding linear_price_def by (rule CalculateUsageCost_mod)
  moreover have "0 \<le> linear_price c blocks bytes" by (simp add: linear_price_def)
  ultimately show ?thesis by (simp add: GRT_Sub_saturates)
qed

theorem CalculateUsageCost_exact_witness:
  "linear_price \<lparr>PricePerBlock = mkGRT 3, PricePerByte = mkGRT 2\<rparr> 10 5 < 2 ^ 256 \<and>
   BigInt (CalculateUsageCost \<lparr>PricePerBlock = mkGRT 3, PricePerByte = mkGRT 2\<rparr> 10 5) = 40"
proof -
  have "linear_price \<lparr>PricePerBlock = mkGRT 3, PricePerByte = mkGRT 2\<rparr> 10 5 = 40"
    by (simp add: linear_price_def BigInt_def)
  then show ?thesis
    using CalculateUsageCost_exact[of "\<lparr>PricePerBlock = mkGRT 3, PricePerByte = mkGRT 2\<rparr>" 10 5]
    by simp
qed

text \<open>
  A sign inside the fractional part is accepted by the reader, which takes a malformed amount such
  as \<open>1.-5\<close> for 0.95 GRT instead of refusing it.
\<close>

theorem ParseGRT_accepts_signed_fraction:
  "ParseGRT FromBig_std ''1.-5 GRT'' = Inr (mkGRT 950000000000000000)"
proof -
  have t: "TrimSpace ''1.-5 GRT'' = ''1.-5 GRT''" "TrimSpace ''1.-5'' = ''1.-5''"
    "TrimSpace ''1.-5 '' = ''1.-5''"
    using TrimSpace_snoc_blank[of "''1.-5''"] by (simp_all add: TrimSpace_solid solid_def)
  have suffix: "HasSuffix (ToUpper ''1.-5 GRT'') ''GRT''"
    by (simp add: HasSuffix_def ToUpper_def to_upper_char_def)
  have p: "SetString10 (pad_fraction ''-5'') = Some (- 50000000000000000)"
    using dec_digits_all_zero[of 5 16 "[]"]
    by (simp add: pad_fraction_def GRTDecimals_def SetString10_def is_digit_def digit_val_def zero_char)
  have "base_units 1 [''1'', ''-5''] = Inr 950000000000000000"
    by (simp add: base_units_def p grtBaseBig_def GRTDecimals_def)
  moreover have "SetString10 ''1'' = Some 1"
    by (simp add: SetString10_def is_digit_def digit_val_def)
  ultimately have "parseDecimalToGRT FromBig_std ''1.-5'' = Inr (mkGRT 950000000000000000)"
    by (simp add: parseDecimalToGRT_def t HasPrefix_def FromBig_std_def)
  then show ?thesis by (simp add: ParseGRT_def t suffix)
qed

end
