(* ===== verification/Sds_Horizon.thy ===== *)
theory Sds_Horizon
  imports Sds_Encoding
begin

text \<open>
  Horizon vouchers (\<open>horizon/\<close>): receipts and receipt aggregate vouchers (RAVs), their EIP-712
  encoding and signing hash (\<open>eip712.go\<close>, \<open>signed_message.go\<close>), signature normalisation
  (\<open>signature.go\<close>) and the aggregator that turns validated receipts into a voucher
  (\<open>aggregator.go\<close>).

  The hash function, signing, signer recovery and the printed form of an address belong to the
  Ethereum library: they are the arguments \<open>keccak\<close>, \<open>sign\<close>, \<open>recover\<close> and \<open>pretty\<close>. A result
  of \<^const>\<open>None\<close> is a Go panic (a nil dereference or a negative slice index).
\<close>

unbundle bit_operations_syntax

type_synonym signature = bytes
type_synonym private_key = bytes
type_synonym keccak_fun = "bytes \<Rightarrow> hash"
type_synonym recover_fun = "signature \<Rightarrow> hash \<Rightarrow> address result"
type_synonym sign_fun = "private_key \<Rightarrow> hash \<Rightarrow> signature result"
type_synonym pretty_fun = "address \<Rightarrow> string"

subsection \<open>Receipts, vouchers, signed messages\<close>

record Receipt =
  rc_CollectionID :: bytes
  rc_Payer :: address
  rc_DataService :: address
  rc_ServiceProvider :: address
  rc_TimestampNs :: u64
  rc_Nonce :: u64
  rc_Value :: "int option"

record RAV =
  CollectionID :: bytes
  Payer :: address
  ServiceProvider :: address
  DataService :: address
  TimestampNs :: u64
  ValueAggregate :: "int option"
  RAV_Metadata :: bytes

record SignedReceipt =
  sr_Message :: Receipt
  sr_Signature :: signature

text \<open>The message of a signed RAV is a pointer the code tests for nil.\<close>

record SignedRAV =
  Message :: "RAV option"
  Signature :: signature

definition MaxUint128 :: int where
  "MaxUint128 = 2 ^ 128 - 1"

definition NewReceipt ::
  "bytes \<Rightarrow> address \<Rightarrow> address \<Rightarrow> address \<Rightarrow> int option \<Rightarrow> int \<Rightarrow> u64 \<Rightarrow> Receipt option" where
  "NewReceipt collectionID payer dataService serviceProvider value nowNs nonce =
     map_option (\<lambda>v. \<lparr>rc_CollectionID = collectionID, rc_Payer = payer, rc_DataService = dataService,
        rc_ServiceProvider = serviceProvider, rc_TimestampNs = word_of_int nowNs, rc_Nonce = nonce,
        rc_Value = Some v\<rparr>) value"

text \<open>\<open>randomUint64\<close> reads eight random bytes, least significant first.\<close>

definition randomUint64 :: "bytes \<Rightarrow> u64" where
  "randomUint64 b =
     ucast (b ! 0) OR push_bit 8 (ucast (b ! 1)) OR push_bit 16 (ucast (b ! 2)) OR
     push_bit 24 (ucast (b ! 3)) OR push_bit 32 (ucast (b ! 4)) OR push_bit 40 (ucast (b ! 5)) OR
     push_bit 48 (ucast (b ! 6)) OR push_bit 56 (ucast (b ! 7))"

subsection \<open>EIP-712 encoding\<close>

record Domain =
  dom_Name :: string
  dom_Version :: string
  dom_ChainID :: int
  dom_VerifyingContract :: address

definition str_bytes :: "string \<Rightarrow> bytes" where
  "str_bytes s = map (\<lambda>c. word_of_nat (of_char c)) s"

definition padLeft :: "bytes \<Rightarrow> nat \<Rightarrow> bytes" where
  "padLeft b n =
     (if length b \<ge> n then drop (length b - n) b else replicate (n - length b) 0 @ b)"

text \<open>\<open>binary.BigEndian.PutUint64\<close> into the last eight of 32 bytes.\<close>

definition encodeUint64 :: "u64 \<Rightarrow> bytes" where
  "encodeUint64 v = replicate 24 0 @ map (\<lambda>i. ucast (drop_bit (8 * i) v)) (rev [0..<8])"

text \<open>
  \<open>copy(result[32-len(b):], b)\<close> panics when the magnitude needs more than 32 bytes; the sign of
  the number is not encoded.
\<close>

definition encodeUint128 :: "int option \<Rightarrow> bytes option" where
  "encodeUint128 v =
     (case v of
        None \<Rightarrow> Some (replicate 32 0)
      | Some n \<Rightarrow>
          let b = big_Bytes (nat \<bar>n\<bar>) in
          if length b > 32 then None else Some (replicate (32 - length b) 0 @ b))"

definition eip712DomainTypeString :: string where
  "eip712DomainTypeString =
     ''EIP712Domain(string name,string version,uint256 chainId,address verifyingContract)''"

definition receiptTypeString :: string where
  "receiptTypeString =
     ''Receipt(bytes32 collection_id,address payer,address data_service,address service_provider,uint64 timestamp_ns,uint64 nonce,uint128 value)''"

definition ravTypeString :: string where
  "ravTypeString =
     ''ReceiptAggregateVoucher(bytes32 collectionId,address payer,address serviceProvider,address dataService,uint64 timestampNs,uint128 valueAggregate,bytes metadata)''"

definition NewDomain :: "u64 \<Rightarrow> address \<Rightarrow> Domain" where
  "NewDomain chainID verifyingContract =
     \<lparr>dom_Name = ''GraphTallyCollector'', dom_Version = ''1'', dom_ChainID = sint chainID,
      dom_VerifyingContract = verifyingContract\<rparr>"

definition Separator :: "keccak_fun \<Rightarrow> Domain \<Rightarrow> hash" where
  "Separator keccak d =
     keccak (keccak (str_bytes eip712DomainTypeString) @
       keccak (str_bytes (dom_Name d)) @ keccak (str_bytes (dom_Version d)) @
       padLeft (big_Bytes (nat \<bar>dom_ChainID d\<bar>)) 32 @ padLeft (dom_VerifyingContract d) 32)"

definition Receipt_EIP712EncodeData :: "Receipt \<Rightarrow> bytes option" where
  "Receipt_EIP712EncodeData r =
     map_option (\<lambda>value.
       rc_CollectionID r @ padLeft (rc_Payer r) 32 @ padLeft (rc_DataService r) 32 @
       padLeft (rc_ServiceProvider r) 32 @ encodeUint64 (rc_TimestampNs r) @
       encodeUint64 (rc_Nonce r) @ value) (encodeUint128 (rc_Value r))"

definition RAV_EIP712EncodeData :: "keccak_fun \<Rightarrow> RAV \<Rightarrow> bytes option" where
  "RAV_EIP712EncodeData keccak r =
     map_option (\<lambda>value.
       CollectionID r @ padLeft (Payer r) 32 @ padLeft (ServiceProvider r) 32 @
       padLeft (DataService r) 32 @ encodeUint64 (TimestampNs r) @ value @
       keccak (RAV_Metadata r)) (encodeUint128 (ValueAggregate r))"

definition hashStruct :: "keccak_fun \<Rightarrow> hash \<Rightarrow> bytes \<Rightarrow> hash" where
  "hashStruct keccak typeHash encodedData = keccak (typeHash @ encodedData)"

definition HashTypedData :: "keccak_fun \<Rightarrow> Domain \<Rightarrow> hash \<Rightarrow> bytes \<Rightarrow> hash" where
  "HashTypedData keccak domain typeHash encodedData =
     keccak ([0x19, 0x01] @ Separator keccak domain @ hashStruct keccak typeHash encodedData)"

definition Receipt_hash :: "keccak_fun \<Rightarrow> Domain \<Rightarrow> Receipt \<Rightarrow> hash option" where
  "Receipt_hash keccak d r =
     map_option (HashTypedData keccak d (keccak (str_bytes receiptTypeString)))
       (Receipt_EIP712EncodeData r)"

definition RAV_hash :: "keccak_fun \<Rightarrow> Domain \<Rightarrow> RAV \<Rightarrow> hash option" where
  "RAV_hash keccak d r =
     map_option (HashTypedData keccak d (keccak (str_bytes ravTypeString)))
       (RAV_EIP712EncodeData keccak r)"

subsection \<open>Signing and recovering\<close>

definition Sign_RAV :: "keccak_fun \<Rightarrow> sign_fun \<Rightarrow> Domain \<Rightarrow> RAV \<Rightarrow> private_key \<Rightarrow> SignedRAV result option" where
  "Sign_RAV keccak sign domain message key =
     map_option (\<lambda>h.
       case sign key h of
         Inl err \<Rightarrow> Inl (Errorf ''signing message: %w'' [] (Some err))
       | Inr sig \<Rightarrow> Inr \<lparr>Message = Some message, Signature = sig\<rparr>) (RAV_hash keccak domain message)"

definition Receipt_RecoverSigner ::
  "keccak_fun \<Rightarrow> recover_fun \<Rightarrow> Domain \<Rightarrow> SignedReceipt \<Rightarrow> address result option" where
  "Receipt_RecoverSigner keccak recover domain sm =
     map_option (recover (sr_Signature sm)) (Receipt_hash keccak domain (sr_Message sm))"

text \<open>A nil message panics in \<open>EIP712EncodeData\<close>.\<close>

definition RAV_RecoverSigner ::
  "keccak_fun \<Rightarrow> recover_fun \<Rightarrow> Domain \<Rightarrow> SignedRAV \<Rightarrow> address result option" where
  "RAV_RecoverSigner keccak recover domain sm =
     Option.bind (Message sm) (\<lambda>m.
       map_option (recover (Signature sm)) (RAV_hash keccak domain m))"

subsection \<open>Signature normalisation\<close>

definition secp256k1N :: int where
  "secp256k1N = 0xFFFFFFFFFFFFFFFFFFFFFFFFFFFFFFFEBAAEDCE6AF48A03BBFD25E8CD0364141"

definition secp256k1HalfN :: int where
  "secp256k1HalfN = secp256k1N div 2"

definition flipSignatureV :: "byte \<Rightarrow> byte" where
  "flipSignatureV v =
     (if v < 27 then v XOR 1
      else
        let header = v - 27;
            recID = header AND 1;
            flags = header AND NOT 1
        in 27 + (recID XOR 1) + flags)"

text \<open>A signature is V (1 byte), R (32 bytes), S (32 bytes).\<close>

definition normalizeSignature :: "signature \<Rightarrow> bytes" where
  "normalizeSignature sig =
     (let s = int (big_SetBytes (drop 33 sig)) in
      if s > secp256k1HalfN then
        (let sBytes = big_Bytes (nat \<bar>secp256k1N - s\<bar>) in
         flipSignatureV (sig ! 0) # take 32 (drop 1 sig) @
           replicate (32 - length sBytes) 0 @ sBytes)
      else sig)"

definition SignaturesEqual :: "signature \<Rightarrow> signature \<Rightarrow> bool" where
  "SignaturesEqual a b \<longleftrightarrow> normalizeSignature a = normalizeSignature b"

definition UniqueID :: "SignedRAV \<Rightarrow> bytes" where
  "UniqueID sm = normalizeSignature (Signature sm)"

subsection \<open>The aggregator\<close>

definition ErrNoReceipts :: go_error where
  "ErrNoReceipts = Sentinel ''no valid receipts for RAV request''"

definition ErrAggregateOverflow :: go_error where
  "ErrAggregateOverflow = Sentinel ''aggregating receipt results in overflow''"

definition ErrDuplicateSignature :: go_error where
  "ErrDuplicateSignature = Sentinel ''duplicate receipt signature detected''"

definition ErrInvalidTimestamp :: go_error where
  "ErrInvalidTimestamp = Sentinel ''receipt timestamp not greater than previous RAV''"

definition ErrCollectionMismatch :: go_error where
  "ErrCollectionMismatch = Sentinel ''receipts have different collection IDs''"

definition ErrPayerMismatch :: go_error where
  "ErrPayerMismatch = Sentinel ''receipts have different payer addresses''"

definition ErrServiceProviderMismatch :: go_error where
  "ErrServiceProviderMismatch = Sentinel ''receipts have different service provider addresses''"

definition ErrDataServiceMismatch :: go_error where
  "ErrDataServiceMismatch = Sentinel ''receipts have different data service addresses''"

definition ErrInvalidSigner :: go_error where
  "ErrInvalidSigner = Sentinel ''receipt signed by unauthorized signer''"

definition ErrRAVSignerMismatch :: go_error where
  "ErrRAVSignerMismatch = Sentinel ''previous RAV signed by unauthorized signer''"

lemmas aggregator_errors = ErrNoReceipts_def ErrAggregateOverflow_def ErrDuplicateSignature_def
  ErrInvalidTimestamp_def ErrCollectionMismatch_def ErrPayerMismatch_def
  ErrServiceProviderMismatch_def ErrDataServiceMismatch_def ErrInvalidSigner_def
  ErrRAVSignerMismatch_def

record Aggregator =
  ag_domain :: Domain
  ag_signerKey :: private_key
  ag_acceptedSigners :: "string \<rightharpoonup> bool"

definition NewAggregator :: "pretty_fun \<Rightarrow> Domain \<Rightarrow> private_key \<Rightarrow> address list \<Rightarrow> Aggregator" where
  "NewAggregator pretty domain signerKey acceptedSigners =
     \<lparr>ag_domain = domain, ag_signerKey = signerKey,
      ag_acceptedSigners = foldl (\<lambda>m addr. m(pretty addr \<mapsto> True)) Map.empty acceptedSigners\<rparr>"

definition accepted :: "Aggregator \<Rightarrow> string \<Rightarrow> bool" where
  "accepted a s \<longleftrightarrow> ag_acceptedSigners a s = Some True"

fun addressesEqual :: "address \<Rightarrow> address \<Rightarrow> bool" where
  "addressesEqual [] [] = True"
| "addressesEqual (x # a) (y # b) = (x = y \<and> addressesEqual a b)"
| "addressesEqual _ _ = False"

fun checkSignaturesUnique_loop :: "bytes list \<Rightarrow> SignedReceipt list \<Rightarrow> unit result" where
  "checkSignaturesUnique_loop seen [] = Inr ()"
| "checkSignaturesUnique_loop seen (r # rs) =
     (let normalized = normalizeSignature (sr_Signature r) in
      if normalized \<in> set seen then Inl ErrDuplicateSignature
      else checkSignaturesUnique_loop (normalized # seen) rs)"

definition checkSignaturesUnique :: "SignedReceipt list \<Rightarrow> unit result" where
  "checkSignaturesUnique receipts = checkSignaturesUnique_loop [] receipts"

fun verifyReceiptSigners ::
  "keccak_fun \<Rightarrow> recover_fun \<Rightarrow> pretty_fun \<Rightarrow> Aggregator \<Rightarrow> SignedReceipt list \<Rightarrow> unit result option" where
  "verifyReceiptSigners keccak recover pretty a [] = Some (Inr ())"
| "verifyReceiptSigners keccak recover pretty a (r # rs) =
     (case Receipt_RecoverSigner keccak recover (ag_domain a) r of
        None \<Rightarrow> None
      | Some (Inl err) \<Rightarrow> Some (Inl err)
      | Some (Inr signer) \<Rightarrow>
          if accepted a (pretty signer) then verifyReceiptSigners keccak recover pretty a rs
          else Some (Inl ErrInvalidSigner))"

definition verifyRAVSigner ::
  "keccak_fun \<Rightarrow> recover_fun \<Rightarrow> pretty_fun \<Rightarrow> Aggregator \<Rightarrow> SignedRAV \<Rightarrow> unit result option" where
  "verifyRAVSigner keccak recover pretty a rav =
     (case RAV_RecoverSigner keccak recover (ag_domain a) rav of
        None \<Rightarrow> None
      | Some (Inl err) \<Rightarrow> Some (Inl err)
      | Some (Inr signer) \<Rightarrow>
          Some (if accepted a (pretty signer) then Inr () else Inl ErrRAVSignerMismatch))"

definition checkReceiptTimestamps :: "SignedReceipt list \<Rightarrow> RAV option \<Rightarrow> unit result" where
  "checkReceiptTimestamps receipts previousRAV =
     (case previousRAV of
        None \<Rightarrow> Inr ()
      | Some prev \<Rightarrow>
          if \<exists>r \<in> set receipts. rc_TimestampNs (sr_Message r) \<le> TimestampNs prev
          then Inl ErrInvalidTimestamp else Inr ())"

fun validateReceiptConsistency_loop :: "Receipt \<Rightarrow> SignedReceipt list \<Rightarrow> unit result" where
  "validateReceiptConsistency_loop first [] = Inr ()"
| "validateReceiptConsistency_loop first (r # rs) =
     (let m = sr_Message r in
      if rc_CollectionID m \<noteq> rc_CollectionID first then Inl ErrCollectionMismatch
      else if \<not> addressesEqual (rc_Payer m) (rc_Payer first) then Inl ErrPayerMismatch
      else if \<not> addressesEqual (rc_ServiceProvider m) (rc_ServiceProvider first)
        then Inl ErrServiceProviderMismatch
      else if \<not> addressesEqual (rc_DataService m) (rc_DataService first)
        then Inl ErrDataServiceMismatch
      else validateReceiptConsistency_loop first rs)"

definition validateReceiptConsistency :: "SignedReceipt list \<Rightarrow> unit result" where
  "validateReceiptConsistency receipts =
     (case receipts of [] \<Rightarrow> Inr () | r # rs \<Rightarrow> validateReceiptConsistency_loop (sr_Message r) rs)"

definition validateRAVConsistency :: "Receipt \<Rightarrow> RAV \<Rightarrow> unit result" where
  "validateRAVConsistency receipt rav =
     (if rc_CollectionID receipt \<noteq> CollectionID rav then Inl ErrCollectionMismatch
      else if \<not> addressesEqual (rc_Payer receipt) (Payer rav) then Inl ErrPayerMismatch
      else if \<not> addressesEqual (rc_ServiceProvider receipt) (ServiceProvider rav)
        then Inl ErrServiceProviderMismatch
      else if \<not> addressesEqual (rc_DataService receipt) (DataService rav)
        then Inl ErrDataServiceMismatch
      else Inr ())"

text \<open>
  The loop of \<open>aggregate\<close>: the running value, refused as soon as it passes 128 bits, and the
  latest timestamp. Adding a nil value panics.
\<close>

fun aggregate_loop :: "int \<Rightarrow> u64 \<Rightarrow> SignedReceipt list \<Rightarrow> (int \<times> u64) result option" where
  "aggregate_loop valueAggregate timestampMax [] = Some (Inr (valueAggregate, timestampMax))"
| "aggregate_loop valueAggregate timestampMax (r # rs) =
     (case rc_Value (sr_Message r) of
        None \<Rightarrow> None
      | Some value \<Rightarrow>
          let newValue = valueAggregate + value in
          if newValue > MaxUint128 then Some (Inl ErrAggregateOverflow)
          else aggregate_loop newValue
            (if rc_TimestampNs (sr_Message r) > timestampMax
             then rc_TimestampNs (sr_Message r) else timestampMax) rs)"

definition aggregate :: "SignedReceipt list \<Rightarrow> RAV option \<Rightarrow> RAV result option" where
  "aggregate receipts previousRAV =
     (case receipts of
        [] \<Rightarrow> None
      | r # _ \<Rightarrow>
          let first = sr_Message r in
          Option.bind
            (case previousRAV of
               None \<Rightarrow> Some (0, 0)
             | Some prev \<Rightarrow> map_option (\<lambda>v. (v, TimestampNs prev)) (ValueAggregate prev))
            (\<lambda>(value0, timestamp0).
               map_option (\<lambda>res. bind_result res (\<lambda>(valueAggregate, timestampMax).
                 Inr \<lparr>CollectionID = rc_CollectionID first, Payer = rc_Payer first,
                      ServiceProvider = rc_ServiceProvider first,
                      DataService = rc_DataService first, TimestampNs = timestampMax,
                      ValueAggregate = Some valueAggregate, RAV_Metadata = []\<rparr>))
               (aggregate_loop value0 timestamp0 receipts)))"

text \<open>Sequencing of steps that may panic or fail, as the early returns do.\<close>

definition seq_step :: "unit result option \<Rightarrow> 'b result option \<Rightarrow> 'b result option" where
  "seq_step s k = (case s of None \<Rightarrow> None | Some (Inl e) \<Rightarrow> Some (Inl e) | Some (Inr _) \<Rightarrow> k)"

definition AggregateReceipts ::
  "keccak_fun \<Rightarrow> recover_fun \<Rightarrow> sign_fun \<Rightarrow> pretty_fun \<Rightarrow> Aggregator \<Rightarrow>
   SignedReceipt list \<Rightarrow> SignedRAV option \<Rightarrow> SignedRAV result option" where
  "AggregateReceipts keccak recover sign pretty a receipts previousRAV =
     (case receipts of
        [] \<Rightarrow> Some (Inl ErrNoReceipts)
      | r # _ \<Rightarrow>
          seq_step (Some (checkSignaturesUnique receipts))
          (seq_step (verifyReceiptSigners keccak recover pretty a receipts)
          (seq_step (case previousRAV of None \<Rightarrow> Some (Inr ())
                     | Some prev \<Rightarrow> verifyRAVSigner keccak recover pretty a prev)
          (seq_step (case previousRAV of None \<Rightarrow> Some (Inr ())
                     | Some prev \<Rightarrow> map_option (\<lambda>m. checkReceiptTimestamps receipts (Some m)) (Message prev))
          (seq_step (Some (validateReceiptConsistency receipts))
          (seq_step (case previousRAV of None \<Rightarrow> Some (Inr ())
                     | Some prev \<Rightarrow> map_option (validateRAVConsistency (sr_Message r)) (Message prev))
          (case aggregate receipts (Option.bind previousRAV Message) of
             None \<Rightarrow> None
           | Some (Inl err) \<Rightarrow> Some (Inl err)
           | Some (Inr rav) \<Rightarrow> Sign_RAV keccak sign (ag_domain a) rav (ag_signerKey a))))))))"

subsection \<open>Signature normalisation: canonical form and malleability\<close>

definition be32 :: "nat \<Rightarrow> bytes" where
  "be32 n = replicate (32 - length (big_Bytes n)) 0 @ big_Bytes n"

lemma be32_props:
  assumes "n < 2 ^ 256"
  shows "length (be32 n) = 32" "big_SetBytes (be32 n) = n"
proof -
  have "length (big_Bytes n) \<le> 32"
    using assms by (intro big_Bytes_length) simp
  then show "length (be32 n) = 32" by (simp add: be32_def)
qed (simp add: be32_def)

lemma be32_big_SetBytes: "length bs = 32 \<Longrightarrow> be32 (big_SetBytes bs) = bs"
  using big_SetBytes_less[of bs] be32_props[of "big_SetBytes bs"]
  by (intro big_SetBytes_inj) simp_all

lemma be32_inj: "m < 2 ^ 256 \<Longrightarrow> n < 2 ^ 256 \<Longrightarrow> be32 m = be32 n \<Longrightarrow> m = n"
  using be32_props(2) by metis

definition sig_S :: "signature \<Rightarrow> int" where
  "sig_S sig = int (big_SetBytes (drop 33 sig))"

lemma sig_split:
  assumes "length sig = 65"
  shows "sig = sig ! 0 # take 32 (drop 1 sig) @ drop 33 sig"
proof -
  have "sig = sig ! 0 # drop 1 sig" using assms by (cases sig) auto
  moreover have "drop 1 sig = take 32 (drop 1 sig) @ drop 33 sig"
    using append_take_drop_id[of 32 "drop 1 sig"] by simp
  ultimately show ?thesis by simp
qed

lemma sig_S_bounds: "length sig = 65 \<Longrightarrow> 0 \<le> sig_S sig \<and> sig_S sig < 2 ^ 256"
  using big_SetBytes_less[of "drop 33 sig"] by (simp add: sig_S_def)

text \<open>The signature with S replaced by N - S and the recovery bit flipped.\<close>

definition malleated :: "signature \<Rightarrow> signature" where
  "malleated sig = flipSignatureV (sig ! 0) # take 32 (drop 1 sig) @ be32 (nat \<bar>secp256k1N - sig_S sig\<bar>)"

lemma secp256k1N_props:
  "secp256k1HalfN + secp256k1HalfN + 1 = secp256k1N"
  "secp256k1N < 2 ^ 256" "2 ^ 256 - secp256k1N \<le> secp256k1HalfN"
  by (simp_all add: secp256k1N_def secp256k1HalfN_def)

lemma normalizeSignature_alt:
  "normalizeSignature sig = (if sig_S sig > secp256k1HalfN then malleated sig else sig)"
  by (simp add: normalizeSignature_def malleated_def sig_S_def be32_def Let_def)

lemma sig_S_malleated:
  assumes "length sig = 65"
  shows "length (malleated sig) = 65" "sig_S (malleated sig) = \<bar>secp256k1N - sig_S sig\<bar>"
proof -
  let ?n = "nat \<bar>secp256k1N - sig_S sig\<bar>"
  have lt: "?n < 2 ^ 256"
    using sig_S_bounds[OF assms] by (auto simp: nat_less_iff secp256k1N_def abs_if)
  have len: "length (take 32 (drop 1 sig)) = 32" using assms by simp
  show "length (malleated sig) = 65" using len be32_props(1)[OF lt] by (simp add: malleated_def)
  have "drop 33 (malleated sig) = be32 ?n" using len by (simp add: malleated_def)
  then show "sig_S (malleated sig) = \<bar>secp256k1N - sig_S sig\<bar>"
    unfolding sig_S_def[of "malleated sig"] using be32_props(2)[OF lt] by simp
qed

lemma normalizeSignature_low:
  assumes "length sig = 65"
  shows "length (normalizeSignature sig) = 65" "sig_S (normalizeSignature sig) \<le> secp256k1HalfN"
  using sig_S_malleated[OF assms] sig_S_bounds[OF assms] secp256k1N_props assms
  by (auto simp: normalizeSignature_alt)

lemma malleated_malleated:
  assumes "length sig = 65" "flipSignatureV (flipSignatureV (sig ! 0)) = sig ! 0"
    "sig_S sig \<le> secp256k1N"
  shows "malleated (malleated sig) = sig"
proof -
  have "nat \<bar>secp256k1N - sig_S (malleated sig)\<bar> = big_SetBytes (drop 33 sig)"
    using sig_S_malleated(2)[OF assms(1)] assms(3) by (simp add: sig_S_def)
  moreover have "be32 (big_SetBytes (drop 33 sig)) = drop 33 sig"
    using assms(1) by (intro be32_big_SetBytes) simp
  ultimately have "malleated (malleated sig) =
      flipSignatureV (malleated sig ! 0) # take 32 (drop 1 (malleated sig)) @ drop 33 sig"
    by (simp add: malleated_def)
  also have "\<dots> = sig ! 0 # take 32 (drop 1 sig) @ drop 33 sig"
    using assms by (simp add: malleated_def)
  finally show ?thesis using sig_split[OF assms(1)] by simp
qed

subsection \<open>The recovery byte\<close>

lemma even_byte: "even (v :: byte) = even (unat v)"
  by transfer (simp add: even_nat_iff)

lemma byte_and_not_one: "(x :: byte) AND NOT 1 = x - of_bool (odd x)"
proof -
  have "(x AND NOT 1) + (x AND 1) = (x AND NOT 1) OR (x AND 1)"
    by (rule disjunctive_add_eq_or, rule bit_word_eqI)
      (auto simp only: bit_simps bit_0_eq bot_apply bot_bool_def)
  also have "\<dots> = x"
    by (rule bit_word_eqI) (auto simp only: bit_simps possible_bit_word)
  finally show ?thesis by (simp only: eq_diff_eq and_one_eq mod_2_eq_odd)
qed

lemma flipSignatureV_step: "flipSignatureV v = (if (v < 27) = even v then v + 1 else v - 1)"
proof -
  have e: "even (v - 27) = odd v" if "\<not> v < 27"
    using that unat_sub[of 27 v] by (simp add: even_byte not_less word_le_nat_alt)
  show ?thesis
    unfolding flipSignatureV_def Let_def byte_and_not_one
    using e by (auto simp: xor_one_eq and_one_eq mod_2_eq_odd algebra_simps)
qed

lemma unat_flipSignatureV: "unat (flipSignatureV v) =
   (if (unat v < 27) = even (unat v) then (unat v + 1) mod 256 else unat v - 1)"
proof -
  have "unat (v - 1) = unat v - 1" if "(unat v < 27) \<noteq> even (unat v)"
  proof -
    have "unat v \<noteq> 0" using that by (cases "unat v = 0") auto
    then show ?thesis using unat_sub[of 1 v] by (simp add: word_le_nat_alt)
  qed
  then show ?thesis
    by (auto simp: flipSignatureV_step word_less_nat_alt unat_word_ariths even_byte)
qed

lemma flipSignatureV_involution:
  "flipSignatureV (flipSignatureV v) = v \<longleftrightarrow> v \<noteq> 26 \<and> v \<noteq> 255"
proof -
  define n where "n = unat v"
  have n: "n < 256" by (simp add: n_def)
  define g where "g = (\<lambda>n::nat. if (n < 27) = even n then (n + 1) mod 256 else n - 1)"
  have "g (g n) = n \<longleftrightarrow> n \<noteq> 26 \<and> n \<noteq> 255"
    using n unfolding g_def
    by (cases "n = 26"; cases "n = 27"; cases "n = 255"; cases "even n") (auto split: if_splits)
  then show ?thesis
    unfolding word_unat_eq_iff[of _ v] word_unat_eq_iff[of v] unat_flipSignatureV n_def g_def
    by simp
qed



subsection \<open>EIP-712: the signing hash binds every field\<close>

lemma padLeft_length: "length (padLeft b n) = n"
  by (simp add: padLeft_def)

lemma padLeft_inj:
  "length a = length b \<Longrightarrow> length a \<le> n \<Longrightarrow> padLeft a n = padLeft b n \<Longrightarrow> a = b"
  by (auto simp: padLeft_def split: if_splits)

lemma padLeft_be32: "n < 2 ^ 256 \<Longrightarrow> padLeft (big_Bytes n) 32 = be32 n"
  using be32_props(1)[of n] by (auto simp: padLeft_def be32_def)

lemma encodeUint64_length [simp]: "length (encodeUint64 v) = 32"
  by (simp add: encodeUint64_def)

lemma encodeUint64_value: "big_SetBytes (encodeUint64 v) = unat v"
proof -
  define b where "b = (\<lambda>i. unat (ucast (drop_bit (8 * i) v) :: byte))"
  have b: "b i = unat v div 256 ^ i mod 256" for i
  proof -
    have "take_bit 64 (unat v) = unat v"
      using unsigned_less[of v, where 'a = nat] by (intro take_bit_nat_eq_self) simp
    then have "b i = take_bit 8 (drop_bit (8 * i) (unat v))"
      by (simp add: b_def unsigned_ucast_eq unsigned_drop_bit_eq)
    then show ?thesis by (simp add: drop_bit_eq_div take_bit_eq_mod power_mult)
  qed
  have "map (\<lambda>i. ucast (drop_bit (8 * i) v) :: byte) (rev [0..<8]) =
      map (\<lambda>i. ucast (drop_bit (8 * i) v)) [7, 6, 5, 4, 3, 2, 1, 0]"
    by (simp add: upt_rec numeral_eq_Suc)
  then have "big_SetBytes (encodeUint64 v) =
      256 * (256 * (256 * (256 * (256 * (256 * (256 * b 7 + b 6) + b 5) + b 4) + b 3) + b 2) + b 1) + b 0"
    unfolding encodeUint64_def big_SetBytes_zeros by (simp add: big_SetBytes_def b_def)
  also have "\<dots> = unat v"
  proof -
    define d where "d = (\<lambda>i. unat v div 256 ^ i)"
    have step: "d i = 256 * d (Suc i) + b i" for i
      unfolding b d_def by (simp only: power_Suc2 div_mult2_eq mult_div_mod_eq)
    have "d 0 = 256 * d 1 + b 0" "d 1 = 256 * d 2 + b 1" "d 2 = 256 * d 3 + b 2"
      "d 3 = 256 * d 4 + b 3" "d 4 = 256 * d 5 + b 4" "d 5 = 256 * d 6 + b 5"
      "d 6 = 256 * d 7 + b 6" "d 7 = 256 * d 8 + b 7"
      using step[of 0] step[of 1] step[of 2] step[of 3] step[of 4] step[of 5] step[of 6] step[of 7]
      by (simp_all add: numeral_2_eq_2[symmetric])
    moreover have "d 8 = 0" using unsigned_less[of v, where 'a = nat] by (simp add: d_def)
    moreover have "d 0 = unat v" by (simp add: d_def)
    ultimately show ?thesis by simp
  qed
  finally show ?thesis .
qed

lemma encodeUint64_inj: "encodeUint64 v = encodeUint64 w \<Longrightarrow> v = w"
  using encodeUint64_value unsigned_word_eqI by metis

lemma encodeUint128_be32:
  assumes "0 \<le> n" "n < 2 ^ 256"
  shows "encodeUint128 (Some n) = Some (be32 (nat n))"
proof -
  have "length (big_Bytes (nat n)) \<le> 32"
    using assms by (intro big_Bytes_length) (simp add: nat_less_iff)
  with assms(1) show ?thesis by (simp add: encodeUint128_def be32_def Let_def)
qed

text \<open>
  Vouchers as the code builds them: 32-byte collection, 20-byte addresses, a value of at most
  256 bits; domains with a 20-byte contract and a chain identifier that fits an int64.
\<close>

definition wf_RAV :: "RAV \<Rightarrow> bool" where
  "wf_RAV r \<longleftrightarrow> length (CollectionID r) = 32 \<and> length (Payer r) = 20 \<and>
     length (ServiceProvider r) = 20 \<and> length (DataService r) = 20 \<and>
     (case ValueAggregate r of None \<Rightarrow> False | Some v \<Rightarrow> 0 \<le> v \<and> v < 2 ^ 256)"

definition wf_Domain :: "Domain \<Rightarrow> bool" where
  "wf_Domain d \<longleftrightarrow> length (dom_VerifyingContract d) = 20 \<and> 0 \<le> dom_ChainID d \<and> dom_ChainID d < 2 ^ 63"

definition Separator_input :: "keccak_fun \<Rightarrow> Domain \<Rightarrow> bytes" where
  "Separator_input keccak d =
     keccak (str_bytes eip712DomainTypeString) @
       keccak (str_bytes (dom_Name d)) @ keccak (str_bytes (dom_Version d)) @
       padLeft (big_Bytes (nat \<bar>dom_ChainID d\<bar>)) 32 @ padLeft (dom_VerifyingContract d) 32"

definition struct_input :: "keccak_fun \<Rightarrow> RAV \<Rightarrow> bytes" where
  "struct_input keccak r =
     keccak (str_bytes ravTypeString) @ the (RAV_EIP712EncodeData keccak r)"

definition hash_input :: "keccak_fun \<Rightarrow> Domain \<Rightarrow> RAV \<Rightarrow> bytes" where
  "hash_input keccak d r =
     [0x19, 0x01] @ keccak (Separator_input keccak d) @ keccak (struct_input keccak r)"

text \<open>The six byte strings that are hashed on the way to a voucher's signing hash.\<close>

definition hashed_inputs :: "keccak_fun \<Rightarrow> Domain \<Rightarrow> RAV \<Rightarrow> bytes list" where
  "hashed_inputs keccak d r =
     [hash_input keccak d r, Separator_input keccak d, struct_input keccak r,
      str_bytes (dom_Name d), str_bytes (dom_Version d), RAV_Metadata r]"

lemma wf_RAV_encodes:
  assumes "wf_RAV r"
  shows "RAV_EIP712EncodeData keccak r =
    Some (CollectionID r @ padLeft (Payer r) 32 @ padLeft (ServiceProvider r) 32 @
       padLeft (DataService r) 32 @ encodeUint64 (TimestampNs r) @
       be32 (nat (the (ValueAggregate r))) @ keccak (RAV_Metadata r))"
  using assms encodeUint128_be32
  by (auto simp: wf_RAV_def RAV_EIP712EncodeData_def split: option.splits)

lemma RAV_hash_input:
  "wf_RAV r \<Longrightarrow> RAV_hash keccak d r = Some (keccak (hash_input keccak d r))"
  by (simp add: RAV_hash_def wf_RAV_encodes HashTypedData_def hashStruct_def hash_input_def
      Separator_def Separator_input_def struct_input_def)

lemma byte_of_char_inj: "inj (\<lambda>c. word_of_nat (of_char c) :: byte)"
proof (rule injI)
  fix c d assume "(word_of_nat (of_char c) :: byte) = word_of_nat (of_char d)"
  then have "unat (word_of_nat (of_char c) :: byte) = unat (word_of_nat (of_char d) :: byte)" by simp
  then have "(of_char c :: nat) = of_char d" by (simp add: unat_of_nat)
  then show "c = d" by (metis char_of_char)
qed

lemma str_bytes_inj: "str_bytes s = str_bytes t \<Longrightarrow> s = t"
  unfolding str_bytes_def by (rule injD[OF inj_mapI[OF byte_of_char_inj]])

lemma be32_length_int: "0 \<le> n \<Longrightarrow> n < 2 ^ 256 \<Longrightarrow> length (be32 (nat n)) = 32"
  by (rule be32_props(1)) (simp add: nat_less_iff)

lemma struct_input_inj:
  assumes k: "\<And>b. length (keccak b) = 32" and wf: "wf_RAV r" "wf_RAV r'"
    and eq: "struct_input keccak r = struct_input keccak r'"
    and meta: "keccak (RAV_Metadata r) = keccak (RAV_Metadata r') \<Longrightarrow> RAV_Metadata r = RAV_Metadata r'"
  shows "r = r'"
proof -
  obtain v where v: "ValueAggregate r = Some v" "0 \<le> v" "v < 2 ^ 256"
    using wf(1) by (auto simp: wf_RAV_def split: option.splits)
  obtain v' where v': "ValueAggregate r' = Some v'" "0 \<le> v'" "v' < 2 ^ 256"
    using wf(2) by (auto simp: wf_RAV_def split: option.splits)
  note len = be32_length_int[OF v(2,3)] be32_length_int[OF v'(2,3)]
  have "CollectionID r = CollectionID r'" "padLeft (Payer r) 32 = padLeft (Payer r') 32"
    "padLeft (ServiceProvider r) 32 = padLeft (ServiceProvider r') 32"
    "padLeft (DataService r) 32 = padLeft (DataService r') 32"
    "encodeUint64 (TimestampNs r) = encodeUint64 (TimestampNs r')"
    "be32 (nat v) = be32 (nat v')" "keccak (RAV_Metadata r) = keccak (RAV_Metadata r')"
    using eq wf unfolding struct_input_def wf_RAV_encodes[OF wf(1)] wf_RAV_encodes[OF wf(2)]
    by (auto simp: wf_RAV_def v v' len k padLeft_length)
  then have "CollectionID r = CollectionID r'" "Payer r = Payer r'"
    "ServiceProvider r = ServiceProvider r'" "DataService r = DataService r'"
    "TimestampNs r = TimestampNs r'" "nat v = nat v'" "RAV_Metadata r = RAV_Metadata r'"
    using wf meta v v' by (auto simp: wf_RAV_def dest: padLeft_inj[rotated 2] encodeUint64_inj
        be32_inj[rotated 2])
  then show ?thesis using v v' by (intro RAV.equality) simp_all
qed

lemma Separator_input_inj:
  assumes k: "\<And>b. length (keccak b) = 32" and wf: "wf_Domain d" "wf_Domain d'"
    and eq: "Separator_input keccak d = Separator_input keccak d'"
    and name: "keccak (str_bytes (dom_Name d)) = keccak (str_bytes (dom_Name d')) \<Longrightarrow>
      str_bytes (dom_Name d) = str_bytes (dom_Name d')"
    and version: "keccak (str_bytes (dom_Version d)) = keccak (str_bytes (dom_Version d')) \<Longrightarrow>
      str_bytes (dom_Version d) = str_bytes (dom_Version d')"
  shows "d = d'"
proof -
  have lt: "nat (dom_ChainID d) < 2 ^ 256" "nat (dom_ChainID d') < 2 ^ 256"
    using wf by (simp_all add: wf_Domain_def nat_less_iff)
  have "be32 (nat (dom_ChainID d)) = be32 (nat (dom_ChainID d'))"
    "padLeft (dom_VerifyingContract d) 32 = padLeft (dom_VerifyingContract d') 32"
    "keccak (str_bytes (dom_Name d)) = keccak (str_bytes (dom_Name d'))"
    "keccak (str_bytes (dom_Version d)) = keccak (str_bytes (dom_Version d'))"
    using eq wf
    by (simp_all add: Separator_input_def wf_Domain_def k padLeft_length padLeft_be32[OF lt(1)]
        padLeft_be32[OF lt(2)] be32_props(1)[OF lt(1)] be32_props(1)[OF lt(2)])
  then have "dom_ChainID d = dom_ChainID d'" "dom_VerifyingContract d = dom_VerifyingContract d'"
    "dom_Name d = dom_Name d'" "dom_Version d = dom_Version d'"
    using wf be32_inj[OF lt] padLeft_inj[of "dom_VerifyingContract d" "dom_VerifyingContract d'" 32]
      name version str_bytes_inj by (auto simp: wf_Domain_def)
  then show ?thesis by (intro Domain.equality) simp_all
qed

definition collide :: "keccak_fun \<Rightarrow> bytes \<times> bytes \<Rightarrow> bool" where
  "collide keccak xy \<longleftrightarrow> fst xy \<noteq> snd xy \<and> keccak (fst xy) = keccak (snd xy)"

text \<open>
  C21: A signature on a voucher cannot be reused for another one (\<open>eip712.go\<close>). For a hash function
  with 32-byte results, two well-formed vouchers in well-formed domains with equal signing
  hashes are the same voucher in the same domain, unless one of the six pairs of byte strings
  hashed on the way is a collision of the hash function.
\<close>

theorem RAV_hash_binding:
  assumes k: "\<And>b. length (keccak b) = 32"
    and wf: "wf_RAV r" "wf_RAV r'" "wf_Domain d" "wf_Domain d'"
    and eq: "RAV_hash keccak d r = RAV_hash keccak d' r'"
  shows "(d = d' \<and> r = r') \<or>
    list_ex (collide keccak) (zip (hashed_inputs keccak d r) (hashed_inputs keccak d' r'))"
proof (rule disjCI)
  assume "\<not> list_ex (collide keccak) (zip (hashed_inputs keccak d r) (hashed_inputs keccak d' r'))"
  then have nc: "keccak (hash_input keccak d r) = keccak (hash_input keccak d' r') \<Longrightarrow>
      hash_input keccak d r = hash_input keccak d' r'"
    "keccak (Separator_input keccak d) = keccak (Separator_input keccak d') \<Longrightarrow>
      Separator_input keccak d = Separator_input keccak d'"
    "keccak (struct_input keccak r) = keccak (struct_input keccak r') \<Longrightarrow>
      struct_input keccak r = struct_input keccak r'"
    "keccak (str_bytes (dom_Name d)) = keccak (str_bytes (dom_Name d')) \<Longrightarrow>
      str_bytes (dom_Name d) = str_bytes (dom_Name d')"
    "keccak (str_bytes (dom_Version d)) = keccak (str_bytes (dom_Version d')) \<Longrightarrow>
      str_bytes (dom_Version d) = str_bytes (dom_Version d')"
    "keccak (RAV_Metadata r) = keccak (RAV_Metadata r') \<Longrightarrow> RAV_Metadata r = RAV_Metadata r'"
    by (auto simp: hashed_inputs_def collide_def)
  have "hash_input keccak d r = hash_input keccak d' r'"
    using eq wf(1,2) nc(1) by (simp add: RAV_hash_input)
  then have "keccak (Separator_input keccak d) = keccak (Separator_input keccak d')"
    "keccak (struct_input keccak r) = keccak (struct_input keccak r')"
    by (auto simp: hash_input_def k)
  then show "d = d' \<and> r = r'"
    using Separator_input_inj[OF k wf(3,4) nc(2) nc(4,5)] struct_input_inj[OF k wf(1,2) nc(3) nc(6)]
    by blast
qed

text \<open>A constant hash of 32 bytes: vouchers of different value collide.\<close>

theorem RAV_hash_binding_witness:
  "let k = (\<lambda>_. replicate 32 0);
       d = NewDomain 1 (replicate 20 1);
       r = \<lparr>CollectionID = replicate 32 2, Payer = replicate 20 3, ServiceProvider = replicate 20 4,
            DataService = replicate 20 5, TimestampNs = 7, ValueAggregate = Some 10, RAV_Metadata = []\<rparr>
   in list_ex (collide k)
        (zip (hashed_inputs k d r) (hashed_inputs k d (r\<lparr>ValueAggregate := Some 11\<rparr>)))"
  using RAV_hash_binding[of "\<lambda>_. replicate 32 0"
      "\<lparr>CollectionID = replicate 32 2, Payer = replicate 20 3, ServiceProvider = replicate 20 4,
        DataService = replicate 20 5, TimestampNs = 7, ValueAggregate = Some 10, RAV_Metadata = []\<rparr>"
      "\<lparr>CollectionID = replicate 32 2, Payer = replicate 20 3, ServiceProvider = replicate 20 4,
        DataService = replicate 20 5, TimestampNs = 7, ValueAggregate = Some 11, RAV_Metadata = []\<rparr>"
      "NewDomain 1 (replicate 20 1)" "NewDomain 1 (replicate 20 1)"]
  by (simp add: wf_RAV_def wf_Domain_def NewDomain_def RAV_hash_input)

subsection \<open>The aggregator accepts only sound batches\<close>

lemma addressesEqual_eq [simp]: "addressesEqual a b \<longleftrightarrow> a = b"
  by (induction a b rule: addressesEqual.induct) auto

lemma seq_step_Inr_iff [go_simps]:
  "seq_step s k = Some (Inr x) \<longleftrightarrow> s = Some (Inr ()) \<and> k = Some (Inr x)"
  by (auto simp: seq_step_def split: option.splits sum.splits)

lemma checkSignaturesUnique_loop_iff:
  "checkSignaturesUnique_loop seen rs = Inr () \<longleftrightarrow>
     distinct (map (normalizeSignature \<circ> sr_Signature) rs) \<and>
     set seen \<inter> set (map (normalizeSignature \<circ> sr_Signature) rs) = {}"
  by (induction seen rs rule: checkSignaturesUnique_loop.induct) (auto simp: Let_def)

lemma checkSignaturesUnique_iff [go_simps]:
  "checkSignaturesUnique rs = Inr () \<longleftrightarrow> distinct (map (normalizeSignature \<circ> sr_Signature) rs)"
  by (simp add: checkSignaturesUnique_def checkSignaturesUnique_loop_iff)

lemma verifyReceiptSigners_iff [go_simps]:
  "verifyReceiptSigners keccak recover pretty a rs = Some (Inr ()) \<longleftrightarrow>
     (\<forall>r \<in> set rs. \<exists>s. Receipt_RecoverSigner keccak recover (ag_domain a) r = Some (Inr s) \<and>
        accepted a (pretty s))"
  by (induction rs) (auto split: option.splits sum.splits)

lemma verifyRAVSigner_iff [go_simps]:
  "verifyRAVSigner keccak recover pretty a rav = Some (Inr ()) \<longleftrightarrow>
     (\<exists>s. RAV_RecoverSigner keccak recover (ag_domain a) rav = Some (Inr s) \<and> accepted a (pretty s))"
  by (auto simp: verifyRAVSigner_def split: option.splits sum.splits)

lemma checkReceiptTimestamps_iff [go_simps]:
  "checkReceiptTimestamps rs (Some m) = Inr () \<longleftrightarrow>
     (\<forall>r \<in> set rs. TimestampNs m < rc_TimestampNs (sr_Message r))"
  by (auto simp: checkReceiptTimestamps_def not_le not_less)

text \<open>Same collection and same three parties.\<close>

definition same_parties :: "Receipt \<Rightarrow> RAV \<Rightarrow> bool" where
  "same_parties m r \<longleftrightarrow> rc_CollectionID m = CollectionID r \<and> rc_Payer m = Payer r \<and>
     rc_ServiceProvider m = ServiceProvider r \<and> rc_DataService m = DataService r"

lemma validateRAVConsistency_iff [go_simps]:
  "validateRAVConsistency m r = Inr () \<longleftrightarrow> same_parties m r"
  by (simp add: validateRAVConsistency_def same_parties_def)

lemma validateReceiptConsistency_loop_iff:
  "validateReceiptConsistency_loop first rs = Inr () \<longleftrightarrow>
     (\<forall>r \<in> set rs. rc_CollectionID (sr_Message r) = rc_CollectionID first \<and>
        rc_Payer (sr_Message r) = rc_Payer first \<and>
        rc_ServiceProvider (sr_Message r) = rc_ServiceProvider first \<and>
        rc_DataService (sr_Message r) = rc_DataService first)"
  by (induction first rs rule: validateReceiptConsistency_loop.induct) (auto simp: Let_def)

definition receipt_values :: "SignedReceipt list \<Rightarrow> int list" where
  "receipt_values rs = map (the \<circ> rc_Value \<circ> sr_Message) rs"

text \<open>
  The aggregation loop against its specification: the sum of the values and the greatest
  timestamp; it fails exactly when some running sum exceeds 128 bits.
\<close>

lemma Sign_RAV_Message: "Sign_RAV keccak sign d m key = Some (Inr sm) \<Longrightarrow> Message sm = Some m"
  by (auto simp: Sign_RAV_def map_option_case split: option.split_asm sum.split_asm)

lemma later_timestamp: "(if t < x then x else t) = max x (t :: u64)"
  by (auto simp: max_def)

lemma aggregate_loop_Inr:
  assumes "aggregate_loop v t rs = Some (Inr (v', t'))"
  shows "v' = v + sum_list (receipt_values rs) \<and>
    t' = fold max (map (rc_TimestampNs \<circ> sr_Message) rs) t \<and> (v \<le> MaxUint128 \<longrightarrow> v' \<le> MaxUint128)"
  using assms
  by (induction v t rs rule: aggregate_loop.induct)
    (auto simp: receipt_values_def Let_def later_timestamp add.assoc split: option.splits if_split_asm)

lemma aggregate_loop_total:
  assumes "\<And>r. r \<in> set rs \<Longrightarrow> \<exists>n \<ge> 0. rc_Value (sr_Message r) = Some n" "v \<le> MaxUint128"
  shows "aggregate_loop v t rs =
    Some (if v + sum_list (receipt_values rs) \<le> MaxUint128
          then Inr (v + sum_list (receipt_values rs), fold max (map (rc_TimestampNs \<circ> sr_Message) rs) t)
          else Inl ErrAggregateOverflow)"
  using assms
proof (induction v t rs rule: aggregate_loop.induct)
  case (1 v t)
  then show ?case by (simp add: receipt_values_def)
next
  case (2 v t r rs)
  obtain n where n: "rc_Value (sr_Message r) = Some n" "n \<ge> 0" using 2(2)[of r] by auto
  have nonneg: "sum_list (receipt_values rs) \<ge> 0"
    using 2(2) by (fastforce simp: receipt_values_def intro!: sum_list_nonneg)
  show ?case
  proof (cases "v + n > MaxUint128")
    case True
    then show ?thesis using n nonneg by (simp add: receipt_values_def)
  next
    case False
    then show ?thesis
      using 2(1)[OF n(1) refl] 2(2) n
      by (simp add: receipt_values_def later_timestamp add.assoc)
  qed
qed

lemma aggregate_Inr:
  assumes "aggregate (r # rs) p = Some (Inr rav)"
  shows "\<exists>v' t'. aggregate_loop (case p of None \<Rightarrow> 0 | Some m \<Rightarrow> the (ValueAggregate m))
      (case p of None \<Rightarrow> 0 | Some m \<Rightarrow> TimestampNs m) (r # rs) = Some (Inr (v', t')) \<and>
    rav = \<lparr>CollectionID = rc_CollectionID (sr_Message r), Payer = rc_Payer (sr_Message r),
         ServiceProvider = rc_ServiceProvider (sr_Message r),
         DataService = rc_DataService (sr_Message r), TimestampNs = t',
         ValueAggregate = Some v', RAV_Metadata = []\<rparr>"
  using assms
  by (cases p) (auto simp: aggregate_def bind_result_Inr_iff Let_def bind_eq_Some_conv
      simp del: aggregate_loop.simps)

lemma AggregateReceipts_Inr:
  assumes "AggregateReceipts keccak recover sign pretty a receipts prev = Some (Inr sr)"
  shows "\<exists>r rs rav. receipts = r # rs \<and> Message sr = Some rav \<and>
    aggregate receipts (Option.bind prev Message) = Some (Inr rav) \<and>
    checkSignaturesUnique receipts = Inr () \<and>
    verifyReceiptSigners keccak recover pretty a receipts = Some (Inr ()) \<and>
    validateReceiptConsistency receipts = Inr ()"
proof -
  obtain r rs where rs: "receipts = r # rs"
    using assms by (cases receipts) (auto simp: AggregateReceipts_def)
  show ?thesis
    using assms[unfolded AggregateReceipts_def rs list.case seq_step_Inr_iff]
    unfolding rs by (auto split: option.split_asm sum.split_asm dest: Sign_RAV_Message)
qed

lemma AggregateReceipts_previous:
  assumes "AggregateReceipts keccak recover sign pretty a receipts (Some p) = Some (Inr sr)"
  shows "\<exists>m s. Message p = Some m \<and>
    RAV_RecoverSigner keccak recover (ag_domain a) p = Some (Inr s) \<and> accepted a (pretty s) \<and>
    same_parties (sr_Message (hd receipts)) m \<and>
    (\<forall>x \<in> set receipts. TimestampNs m < rc_TimestampNs (sr_Message x))"
proof -
  obtain r rs where rs: "receipts = r # rs"
    using AggregateReceipts_Inr[OF assms] by blast
  show ?thesis
    using assms[unfolded AggregateReceipts_def rs list.case seq_step_Inr_iff]
    unfolding rs list.sel
    by (auto simp: verifyRAVSigner_iff validateRAVConsistency_iff checkReceiptTimestamps_iff
        simp del: verifyReceiptSigners.simps)
qed

text \<open>
  C23: Every voucher the aggregator signs is backed by its receipts (\<open>aggregator.go\<close>). On success
  the value is the previous voucher's value plus the sum of all receipt values and fits in 128
  bits; the timestamp is the greatest one seen; no two receipts carry the same normalised
  signature; every receipt is signed by an accepted signer, names the parties and collection
  of the new voucher and is later than the previous voucher; the previous voucher is signed by
  an accepted signer and has the same parties and collection.
\<close>

theorem AggregateReceipts_sound:
  assumes "AggregateReceipts keccak recover sign pretty a receipts prev = Some (Inr sr)"
    and "\<forall>p m. prev = Some p \<longrightarrow> Message p = Some m \<longrightarrow> the (ValueAggregate m) \<le> MaxUint128"
  shows "\<exists>rav. Message sr = Some rav \<and>
    ValueAggregate rav =
      Some ((case Option.bind prev Message of None \<Rightarrow> 0 | Some m \<Rightarrow> the (ValueAggregate m)) +
            sum_list (receipt_values receipts)) \<and>
    the (ValueAggregate rav) \<le> MaxUint128 \<and>
    TimestampNs rav = fold max (map (rc_TimestampNs \<circ> sr_Message) receipts)
      (case Option.bind prev Message of None \<Rightarrow> 0 | Some m \<Rightarrow> TimestampNs m) \<and>
    distinct (map (normalizeSignature \<circ> sr_Signature) receipts) \<and>
    (\<forall>r \<in> set receipts. same_parties (sr_Message r) rav \<and>
       (\<exists>s. Receipt_RecoverSigner keccak recover (ag_domain a) r = Some (Inr s) \<and> accepted a (pretty s))) \<and>
    (\<forall>p. prev = Some p \<longrightarrow> (\<exists>m s. Message p = Some m \<and>
       RAV_RecoverSigner keccak recover (ag_domain a) p = Some (Inr s) \<and> accepted a (pretty s) \<and>
       (\<forall>r \<in> set receipts. same_parties (sr_Message r) m \<and>
          TimestampNs m < rc_TimestampNs (sr_Message r))))"
proof -
  obtain r rs rav where rs: "receipts = r # rs" and rav: "Message sr = Some rav"
      "aggregate receipts (Option.bind prev Message) = Some (Inr rav)"
    and checks: "checkSignaturesUnique receipts = Inr ()"
      "verifyReceiptSigners keccak recover pretty a receipts = Some (Inr ())"
      "validateReceiptConsistency receipts = Inr ()"
    using AggregateReceipts_Inr[OF assms(1)] by blast
  obtain v' t' where agg: "aggregate_loop
        (case Option.bind prev Message of None \<Rightarrow> 0 | Some m \<Rightarrow> the (ValueAggregate m))
        (case Option.bind prev Message of None \<Rightarrow> 0 | Some m \<Rightarrow> TimestampNs m) receipts = Some (Inr (v', t'))"
      and fields: "ValueAggregate rav = Some v'" "TimestampNs rav = t'" "same_parties (sr_Message r) rav"
    using aggregate_Inr[OF rav(2)[unfolded rs]] unfolding rs same_parties_def
    by (auto simp del: aggregate_loop.simps)
  have cons: "\<forall>x \<in> set receipts. same_parties (sr_Message x) rav"
    using checks(3) fields(3)
    by (auto simp: rs validateReceiptConsistency_def validateReceiptConsistency_loop_iff same_parties_def)
  have "(case Option.bind prev Message of None \<Rightarrow> 0 | Some m \<Rightarrow> the (ValueAggregate m)) \<le> MaxUint128"
    using assms(2) by (auto simp: MaxUint128_def bind_eq_Some_conv split: option.splits)
  note loop = aggregate_loop_Inr[OF agg] this
  have prev: "\<forall>p. prev = Some p \<longrightarrow> (\<exists>m s. Message p = Some m \<and>
       RAV_RecoverSigner keccak recover (ag_domain a) p = Some (Inr s) \<and> accepted a (pretty s) \<and>
       (\<forall>x \<in> set receipts. same_parties (sr_Message x) m \<and>
          TimestampNs m < rc_TimestampNs (sr_Message x)))"
  proof (intro allI impI)
    fix p assume p: "prev = Some p"
    obtain m s where ms: "Message p = Some m"
        "RAV_RecoverSigner keccak recover (ag_domain a) p = Some (Inr s)" "accepted a (pretty s)"
        "same_parties (sr_Message r) m" "\<forall>x \<in> set receipts. TimestampNs m < rc_TimestampNs (sr_Message x)"
      using AggregateReceipts_previous[OF assms(1)[unfolded p]] rs by auto
    moreover have "\<forall>x \<in> set receipts. same_parties (sr_Message x) m"
      using cons fields(3) ms(4) by (simp add: same_parties_def)
    ultimately show "\<exists>m s. Message p = Some m \<and>
       RAV_RecoverSigner keccak recover (ag_domain a) p = Some (Inr s) \<and> accepted a (pretty s) \<and>
       (\<forall>x \<in> set receipts. same_parties (sr_Message x) m \<and>
          TimestampNs m < rc_TimestampNs (sr_Message x))" by blast
  qed
  show ?thesis
    by (intro exI[of _ rav] conjI prev rav(1)
        checks(1)[unfolded checkSignaturesUnique_iff])
      (use loop fields cons checks(2)[unfolded verifyReceiptSigners_iff] in simp_all)
qed

definition sample_receipt :: SignedReceipt where
  "sample_receipt =
     \<lparr>sr_Message = \<lparr>rc_CollectionID = replicate 32 1, rc_Payer = replicate 20 2,
        rc_DataService = replicate 20 3, rc_ServiceProvider = replicate 20 4,
        rc_TimestampNs = 9, rc_Nonce = 1, rc_Value = Some 5\<rparr>,
      sr_Signature = replicate 65 0\<rparr>"

lemma sample_receipt_encodes: "\<exists>b. Receipt_EIP712EncodeData (sr_Message sample_receipt) = Some b"
  using encodeUint128_be32[of 5] by (simp add: sample_receipt_def Receipt_EIP712EncodeData_def)

lemma sample_RAV_encodes:
  "0 \<le> v \<Longrightarrow> v < 2 ^ 256 \<Longrightarrow> ValueAggregate r = Some v \<Longrightarrow> \<exists>b. RAV_EIP712EncodeData k r = Some b"
  using encodeUint128_be32[of v] by (simp add: RAV_EIP712EncodeData_def)

text \<open>One receipt of value 5 by an accepted signer, with a hash, recovery and signing that are constant.\<close>

theorem AggregateReceipts_sound_witness:
  "\<exists>signed_rav rav.
     AggregateReceipts (\<lambda>_. replicate 32 0) (\<lambda>_ _. Inr [7]) (\<lambda>_ _. Inr (replicate 65 1)) hex_EncodeToString
       (NewAggregator hex_EncodeToString (NewDomain 1 (replicate 20 1)) [] [[7]]) [sample_receipt] None
       = Some (Inr signed_rav) \<and>
     Message signed_rav = Some rav \<and> ValueAggregate rav = Some 5"
proof -
  let ?agg = "AggregateReceipts (\<lambda>_. replicate 32 0) (\<lambda>_ _. Inr [7]) (\<lambda>_ _. Inr (replicate 65 1))
    hex_EncodeToString
    (NewAggregator hex_EncodeToString (NewDomain 1 (replicate 20 1)) [] [[7]]) [sample_receipt] None"
  obtain b where "Receipt_EIP712EncodeData (sr_Message sample_receipt) = Some b"
    using sample_receipt_encodes by blast
  then obtain sm where sm: "?agg = Some (Inr sm)"
    using sample_RAV_encodes[of 5 _ "\<lambda>_. replicate 32 0"]
    by (auto simp: AggregateReceipts_def seq_step_def checkSignaturesUnique_def
        Receipt_RecoverSigner_def Receipt_hash_def accepted_def NewAggregator_def
        validateReceiptConsistency_def aggregate_def bind_result_def sample_receipt_def
        MaxUint128_def Sign_RAV_def RAV_hash_def RAV_EIP712EncodeData_def encodeUint128_be32)
  show ?thesis
    using sm AggregateReceipts_sound[OF sm] by (auto simp: receipt_values_def sample_receipt_def)
qed

text \<open>
  Aggregation is total on receipts that carry non-negative values (\<open>aggregate\<close> of
  \<open>aggregator.go\<close>): it never panics, returns the exact sum when the sum fits in 128 bits, and
  returns the overflow error exactly when it does not.
\<close>

theorem aggregate_exact:
  assumes "receipts \<noteq> []"
    and "\<forall>r \<in> set receipts. \<exists>n \<ge> 0. rc_Value (sr_Message r) = Some n"
    and "\<forall>m. prev = Some m \<longrightarrow> (\<exists>v \<le> MaxUint128. ValueAggregate m = Some v)"
  shows "let total = (case prev of None \<Rightarrow> 0 | Some m \<Rightarrow> the (ValueAggregate m)) +
           sum_list (receipt_values receipts)
    in if total \<le> MaxUint128
       then \<exists>rav. aggregate receipts prev = Some (Inr rav) \<and> ValueAggregate rav = Some total
       else aggregate receipts prev = Some (Inl ErrAggregateOverflow)"
proof -
  obtain r rs where rs: "receipts = r # rs" using assms(1) by (cases receipts) auto
  let ?v = "case prev of None \<Rightarrow> 0 | Some m \<Rightarrow> the (ValueAggregate m)"
  let ?t = "case prev of None \<Rightarrow> 0 | Some m \<Rightarrow> TimestampNs m"
  have "?v \<le> MaxUint128" using assms(3) by (auto simp: MaxUint128_def split: option.splits)
  then have loop: "aggregate_loop ?v ?t receipts =
      Some (if ?v + sum_list (receipt_values receipts) \<le> MaxUint128
          then Inr (?v + sum_list (receipt_values receipts),
                    fold max (map (rc_TimestampNs \<circ> sr_Message) receipts) ?t)
          else Inl ErrAggregateOverflow)"
    using assms(2) by (intro aggregate_loop_total) auto
  have "(case prev of None \<Rightarrow> Some (0, 0)
         | Some p \<Rightarrow> map_option (\<lambda>v. (v, TimestampNs p)) (ValueAggregate p)) = Some (?v, ?t)"
    using assms(3) by (auto split: option.splits)
  then show ?thesis
    using loop unfolding rs aggregate_def by (simp add: Let_def bind_result_def del: aggregate_loop.simps)
qed

theorem aggregate_exact_witness:
  "\<exists>rav. aggregate [sample_receipt] None = Some (Inr rav) \<and> ValueAggregate rav = Some 5"
  using aggregate_exact[of "[sample_receipt]" None]
  by (simp add: sample_receipt_def receipt_values_def MaxUint128_def)

end
