(* ===== verification/Sds_Proto.thy ===== *)
theory Sds_Proto
  imports Sds_Grt Sds_Horizon
begin

text \<open>
  Wire messages (\<open>proto/.../common/v1/types.proto\<close>) and their conversions: the helpers of
  \<open>pb/.../common/v1/types_helpers.go\<close> and the voucher conversions of \<open>sidecar/convert.go\<close>.
  A message field of message type is a pointer and may be nil, hence an option.
\<close>

subsection \<open>Messages\<close>

record pb_Address = addr_Bytes :: bytes

record pb_BigInt = bigint_Bytes :: bytes

record pb_GRT = pgrt_Bytes :: bytes

record pb_PricingConfig =
  pb_PricePerBlock :: "pb_GRT option"
  pb_PricePerByte :: "pb_GRT option"

record pb_RAV =
  pr_CollectionId :: bytes
  pr_Payer :: "pb_Address option"
  pr_DataService :: "pb_Address option"
  pr_ServiceProvider :: "pb_Address option"
  pr_TimestampNs :: u64
  pr_ValueAggregate :: "pb_GRT option"
  pr_Metadata :: bytes

record pb_SignedRAV =
  psr_Rav :: "pb_RAV option"
  psr_Signature :: bytes

record pb_Usage =
  pu_BlocksProcessed :: u64
  pu_BytesTransferred :: u64
  pu_Requests :: u64
  pu_Cost :: "pb_GRT option"

record pb_EscrowAccount =
  ea_Payer :: "pb_Address option"
  ea_Receiver :: "pb_Address option"
  ea_DataService :: "pb_Address option"

record pb_SessionInfo =
  si_SessionId :: string
  si_EscrowAccount :: "pb_EscrowAccount option"
  si_CurrentRav :: "pb_SignedRAV option"
  si_AccumulatedUsage :: "pb_Usage option"
  si_PricingConfig :: "pb_PricingConfig option"

record pb_PaymentStatus =
  ps_CurrentRavValue :: "pb_GRT option"
  ps_AccumulatedUsageValue :: "pb_GRT option"
  ps_EscrowBalance :: "pb_GRT option"
  ps_FundsSufficient :: bool
  ps_EstimatedBlocksRemaining :: u64

text \<open>An enumeration is open: a number without a name is kept as it is.\<close>

datatype EndReason =
    END_REASON_UNSPECIFIED
  | END_REASON_COMPLETE
  | END_REASON_CLIENT_DISCONNECT
  | END_REASON_PROVIDER_STOP
  | END_REASON_ERROR
  | END_REASON_PAYMENT_ISSUE
  | EndReason_unnamed int

subsection \<open>Helpers\<close>

definition ToEth :: "pb_Address option \<Rightarrow> address result" where
  "ToEth a =
     (case a of
        None \<Rightarrow> Inl (Errorf ''address is required'' [] None)
      | Some a \<Rightarrow>
          if length (addr_Bytes a) \<noteq> 20
          then Inl (Errorf ''invalid address length: got %d bytes, want 20''
                      [dec_string (length (addr_Bytes a))] None)
          else Inr (addr_Bytes a))"

definition AddressFromEth :: "address \<Rightarrow> pb_Address" where
  "AddressFromEth addr = \<lparr>addr_Bytes = addr\<rparr>"

definition BigInt_ToNative :: "pb_BigInt \<Rightarrow> int" where
  "BigInt_ToNative b = int (big_SetBytes (bigint_Bytes b))"

definition BigIntFromNative :: "int \<Rightarrow> pb_BigInt" where
  "BigIntFromNative i = \<lparr>bigint_Bytes = big_Bytes (nat \<bar>i\<bar>)\<rparr>"

definition GRT_ToNative :: "from_big \<Rightarrow> pb_GRT option \<Rightarrow> GRT" where
  "GRT_ToNative fromBig g =
     (case g of
        None \<Rightarrow> ZeroGRT
      | Some g \<Rightarrow>
          if pgrt_Bytes g = [] then ZeroGRT
          else NewGRTFromBigInt fromBig (Some (int (big_SetBytes (pgrt_Bytes g)))))"

definition GRT_ToBigInt :: "from_big \<Rightarrow> pb_GRT option \<Rightarrow> int" where
  "GRT_ToBigInt fromBig g = BigInt (GRT_ToNative fromBig g)"

text \<open>\<open>Int64\<close> and \<open>Uint64\<close> of a \<open>big.Int\<close> keep the low 64 bits.\<close>

definition GRT_ToInt64 :: "from_big \<Rightarrow> pb_GRT option \<Rightarrow> 64 word" where
  "GRT_ToInt64 fromBig g = word_of_int (BigInt (GRT_ToNative fromBig g))"

definition GRT_ToUint64 :: "from_big \<Rightarrow> pb_GRT option \<Rightarrow> u64" where
  "GRT_ToUint64 fromBig g = word_of_int (BigInt (GRT_ToNative fromBig g))"

definition GRTFromNative :: "GRT \<Rightarrow> pb_GRT" where
  "GRTFromNative grt = \<lparr>pgrt_Bytes = big_Bytes (nat \<bar>BigInt grt\<bar>)\<rparr>"

definition GRTFromBigInt :: "from_big \<Rightarrow> int option \<Rightarrow> pb_GRT" where
  "GRTFromBigInt fromBig i = GRTFromNative (NewGRTFromBigInt fromBig i)"

definition PricingConfig_ToNative :: "from_big \<Rightarrow> pb_PricingConfig option \<Rightarrow> PricingConfig option" where
  "PricingConfig_ToNative fromBig p =
     map_option (\<lambda>p. \<lparr>PricePerBlock = GRT_ToNative fromBig (pb_PricePerBlock p),
                      PricePerByte = GRT_ToNative fromBig (pb_PricePerByte p)\<rparr>) p"

definition PricingConfigFromNative :: "PricingConfig option \<Rightarrow> pb_PricingConfig option" where
  "PricingConfigFromNative cfg =
     map_option (\<lambda>c. \<lparr>pb_PricePerBlock = Some (GRTFromNative (PricePerBlock c)),
                      pb_PricePerByte = Some (GRTFromNative (PricePerByte c))\<rparr>) cfg"

subsection \<open>Vouchers\<close>

definition ProtoRAVToHorizon :: "from_big \<Rightarrow> pb_RAV option \<Rightarrow> RAV option result" where
  "ProtoRAVToHorizon fromBig pr =
     (case pr of
        None \<Rightarrow> Inr None
      | Some pr \<Rightarrow>
          if length (pr_CollectionId pr) = 0
          then Inl (Errorf ''collection_id is required'' [] None)
          else if length (pr_CollectionId pr) \<noteq> 32
          then Inl (Errorf ''collection_id: want 32 bytes, got %d''
                      [dec_string (length (pr_CollectionId pr))] None)
          else (case ToEth (pr_Payer pr) of
            Inl err \<Rightarrow> Inl (Errorf ''payer: %w'' [] (Some err))
          | Inr payer \<Rightarrow>
          (case ToEth (pr_DataService pr) of
            Inl err \<Rightarrow> Inl (Errorf ''data_service: %w'' [] (Some err))
          | Inr dataService \<Rightarrow>
          (case ToEth (pr_ServiceProvider pr) of
            Inl err \<Rightarrow> Inl (Errorf ''service_provider: %w'' [] (Some err))
          | Inr serviceProvider \<Rightarrow>
             if pr_ValueAggregate pr = None
             then Inl (Errorf ''value_aggregate is required'' [] None)
             else Inr (Some \<lparr>CollectionID = pr_CollectionId pr, Payer = payer,
                      ServiceProvider = serviceProvider, DataService = dataService,
                      TimestampNs = pr_TimestampNs pr,
                      ValueAggregate = Some (GRT_ToBigInt fromBig (pr_ValueAggregate pr)),
                      RAV_Metadata = pr_Metadata pr\<rparr>)))))"

definition HorizonRAVToProto :: "from_big \<Rightarrow> RAV option \<Rightarrow> pb_RAV option" where
  "HorizonRAVToProto fromBig hr =
     map_option (\<lambda>hr. \<lparr>pr_CollectionId = CollectionID hr,
       pr_Payer = Some (AddressFromEth (Payer hr)),
       pr_DataService = Some (AddressFromEth (DataService hr)),
       pr_ServiceProvider = Some (AddressFromEth (ServiceProvider hr)),
       pr_TimestampNs = TimestampNs hr,
       pr_ValueAggregate = Some (GRTFromBigInt fromBig (ValueAggregate hr)),
       pr_Metadata = RAV_Metadata hr\<rparr>) hr"

text \<open>\<open>eth.NewSignatureFromBytes\<close> is the parameter \<open>newSig\<close>.\<close>

type_synonym new_sig = "bytes \<Rightarrow> signature result"

definition ProtoSignedRAVToHorizon ::
  "from_big \<Rightarrow> new_sig \<Rightarrow> pb_SignedRAV option \<Rightarrow> SignedRAV option result" where
  "ProtoSignedRAVToHorizon fromBig newSig psr =
     (case psr of
        None \<Rightarrow> Inr None
      | Some psr \<Rightarrow>
          (case ProtoRAVToHorizon fromBig (psr_Rav psr) of
             Inl err \<Rightarrow> Inl err
           | Inr None \<Rightarrow> Inl (Errorf ''rav is required'' [] None)
           | Inr (Some rav) \<Rightarrow>
               (case newSig (psr_Signature psr) of
                  Inl err \<Rightarrow> Inl (Errorf ''signature: %w'' [] (Some err))
                | Inr sig \<Rightarrow> Inr (Some \<lparr>Message = Some rav, Signature = sig\<rparr>))))"

definition HorizonSignedRAVToProto :: "from_big \<Rightarrow> SignedRAV option \<Rightarrow> pb_SignedRAV option" where
  "HorizonSignedRAVToProto fromBig hsr =
     map_option (\<lambda>hsr. \<lparr>psr_Rav = HorizonRAVToProto fromBig (Message hsr),
                        psr_Signature = Signature hsr\<rparr>) hsr"

definition AddressesEqual :: "address \<Rightarrow> address \<Rightarrow> bool" where
  "AddressesEqual a b \<longleftrightarrow> a = b"

text \<open>
  What the Ethereum library documents of \<open>NewSignatureFromBytes\<close>: it accepts exactly 65 bytes
  and keeps them.
\<close>

definition NewSig_ok :: "new_sig \<Rightarrow> bool" where
  "NewSig_ok newSig \<longleftrightarrow>
     (\<forall>b. length b = 65 \<longrightarrow> newSig b = Inr b) \<and> (\<forall>b. length b \<noteq> 65 \<longrightarrow> (\<exists>e. newSig b = Inl e))"

definition NewSig_std :: new_sig where
  "NewSig_std b = (if length b = 65 then Inr b else Inl (Errorf ''invalid signature length'' [] None))"

lemma NewSig_std_ok: "NewSig_ok NewSig_std"
  by (simp add: NewSig_ok_def NewSig_std_def)

subsection \<open>Values survive the wire\<close>

lemma GRT_ToBigInt_FromBigInt:
  assumes "FromBig_ok fromBig" "0 \<le> v" "v < 2 ^ 256"
  shows "GRT_ToBigInt fromBig (Some (GRTFromBigInt fromBig (Some v))) = v"
proof -
  let ?b = "pgrt_Bytes (GRTFromBigInt fromBig (Some v))"
  have "BigInt (NewGRTFromBigInt fromBig (Some v)) = v"
    using NewGRTFromBigInt_value[OF assms(1,2)] assms(3) by (simp only: min_def) auto
  then have b: "?b = big_Bytes (nat v)"
    using assms(2) by (simp add: GRTFromBigInt_def GRTFromNative_def)
  have "?b = [] \<longleftrightarrow> v = 0"
    using assms(2) unfolding b by (subst big_Bytes.simps) auto
  then show ?thesis
    using NewGRTFromBigInt_value[OF assms(1,2)] assms
    by (auto simp: GRT_ToBigInt_def GRT_ToNative_def b ZeroGRT_def BigInt_def[of "mkGRT 0"] min_def)
qed

lemma GRT_ToNative_FromNative:
  assumes "FromBig_ok fromBig"
  shows "GRT_ToNative fromBig (Some (GRTFromNative g)) = g"
proof (cases "BigInt g = 0")
  case True
  then have "g = mkGRT 0" using mkGRT_BigInt[of g] by simp
  moreover have "big_Bytes 0 = []" by (subst big_Bytes.simps) simp
  ultimately show ?thesis by (simp add: GRT_ToNative_def GRTFromNative_def ZeroGRT_def BigInt_def)
next
  case False
  then have "0 < nat (BigInt g)" using BigInt_nonneg[of g] by linarith
  then have "big_Bytes (nat (BigInt g)) \<noteq> []" by (subst big_Bytes.simps) simp
  moreover have "fromBig (BigInt g) = (word_of_int (BigInt g), False)"
    by (rule FromBig_ok_fits[OF assms BigInt_nonneg BigInt_less])
  ultimately show ?thesis
    by (simp add: GRT_ToNative_def GRTFromNative_def NewGRTFromBigInt_def)
qed

lemma GRT_ToBigInt_range: "0 \<le> GRT_ToBigInt fromBig g \<and> GRT_ToBigInt fromBig g < 2 ^ 256"
  using BigInt_less[of "GRT_ToNative fromBig g"] by (simp add: GRT_ToBigInt_def del: One_nat_def)

lemma ToEth_Inr: "ToEth a = Inr x \<longleftrightarrow> (\<exists>p. a = Some p \<and> length (addr_Bytes p) = 20 \<and> x = addr_Bytes p)"
  by (auto simp: ToEth_def split: option.splits if_splits)

lemma ProtoSignedRAV_roundtrip:
  assumes "FromBig_ok fromBig" "NewSig_ok newSig" and wf: "wf_RAV rav" "length sig = 65"
  shows "ProtoSignedRAVToHorizon fromBig newSig
      (HorizonSignedRAVToProto fromBig (Some \<lparr>Message = Some rav, Signature = sig\<rparr>)) =
      Inr (Some \<lparr>Message = Some rav, Signature = sig\<rparr>)"
proof -
  obtain v where v: "ValueAggregate rav = Some v" "0 \<le> v" "v < 2 ^ 256"
    using wf by (auto simp: wf_RAV_def split: option.splits)
  have sig: "newSig sig = Inr sig" using assms(2) wf by (simp add: NewSig_ok_def)
  have "rav = \<lparr>CollectionID = CollectionID rav, Payer = Payer rav,
      ServiceProvider = ServiceProvider rav, DataService = DataService rav,
      TimestampNs = TimestampNs rav, ValueAggregate = Some v, RAV_Metadata = RAV_Metadata rav\<rparr>"
    using v(1) by simp
  then show ?thesis
    using wf sig GRT_ToBigInt_FromBigInt[OF assms(1) v(2,3)]
    by (simp add: ProtoSignedRAVToHorizon_def HorizonSignedRAVToProto_def ProtoRAVToHorizon_def
        HorizonRAVToProto_def wf_RAV_def ToEth_def AddressFromEth_def v(1))
qed

lemma ProtoSignedRAV_wf:
  assumes "NewSig_ok newSig" "ProtoSignedRAVToHorizon fromBig newSig psr = Inr (Some sr)"
  obtains rav where "Message sr = Some rav" "wf_RAV rav" "length (Signature sr) = 65"
proof -
  obtain p rav sig where p: "psr = Some p" "ProtoRAVToHorizon fromBig (psr_Rav p) = Inr (Some rav)"
      "newSig (psr_Signature p) = Inr sig" "sr = \<lparr>Message = Some rav, Signature = sig\<rparr>"
    using assms(2) by (auto simp: ProtoSignedRAVToHorizon_def split: option.splits sum.splits)
  have "wf_RAV rav"
    using p(2) GRT_ToBigInt_range
    by (auto simp: ProtoRAVToHorizon_def wf_RAV_def ToEth_Inr split: option.splits sum.splits if_splits)
  moreover have "length (Signature sr) = 65"
    using p(3,4) assms(1) unfolding NewSig_ok_def
    by (cases "length (psr_Signature p) = 65") (simp, metis Inl_Inr_False)
  ultimately show thesis using that p(4) by simp
qed

lemma ProtoSignedRAV_not_None: "ProtoSignedRAVToHorizon fromBig newSig (Some p) \<noteq> Inr None"
  by (auto simp: ProtoSignedRAVToHorizon_def split: option.splits sum.splits)

text \<open>
  C27: Vouchers survive the wire (\<open>convert.go\<close>, \<open>types_helpers.go\<close>). Sending a well-formed signed
  voucher as a message and reading it back gives the same voucher, every field included; and
  whatever message is accepted, the voucher read from it is well-formed: a 32-byte collection,
  20-byte addresses, a value of at most 256 bits and a 65-byte signature.
\<close>

theorem SignedRAV_wire_roundtrip:
  assumes "FromBig_ok fromBig" "NewSig_ok newSig"
  shows "(\<forall>rav sig. wf_RAV rav \<and> length sig = 65 \<longrightarrow>
      ProtoSignedRAVToHorizon fromBig newSig
        (HorizonSignedRAVToProto fromBig (Some \<lparr>Message = Some rav, Signature = sig\<rparr>)) =
        Inr (Some \<lparr>Message = Some rav, Signature = sig\<rparr>)) \<and>
    (\<forall>psr sr. ProtoSignedRAVToHorizon fromBig newSig psr = Inr (Some sr) \<longrightarrow>
      (\<exists>rav. Message sr = Some rav \<and> wf_RAV rav) \<and> length (Signature sr) = 65)"
  using ProtoSignedRAV_roundtrip[OF assms] ProtoSignedRAV_wf[OF assms(2)] by metis

definition sample_RAV :: RAV where
  "sample_RAV = \<lparr>CollectionID = replicate 32 1, Payer = replicate 20 2,
     ServiceProvider = replicate 20 3, DataService = replicate 20 4, TimestampNs = 5,
     ValueAggregate = Some 1000, RAV_Metadata = [9]\<rparr>"

theorem SignedRAV_wire_roundtrip_witness:
  "FromBig_ok FromBig_std \<and> NewSig_ok NewSig_std \<and>
   ProtoSignedRAVToHorizon FromBig_std NewSig_std
     (HorizonSignedRAVToProto FromBig_std (Some \<lparr>Message = Some sample_RAV, Signature = replicate 65 7\<rparr>)) =
     Inr (Some \<lparr>Message = Some sample_RAV, Signature = replicate 65 7\<rparr>)"
proof -
  have "wf_RAV sample_RAV \<and> length (replicate 65 7 :: bytes) = 65"
    by (simp add: wf_RAV_def sample_RAV_def)
  then show ?thesis
    using SignedRAV_wire_roundtrip[OF FromBig_std_ok NewSig_std_ok] FromBig_std_ok NewSig_std_ok
    by blast
qed

end
