(* ===== verification/Sds_Repository.thy ===== *)
theory Sds_Repository
  imports Sds_Proto
begin

text \<open>
  The data the provider stores (\<open>provider/repository/repository.go\<close>): sessions with their usage,
  baseline and accepted voucher, workers, quota counters, usage events and collection records,
  with the operations on a session value.
\<close>

definition ErrNotFound :: go_error where
  "ErrNotFound = Sentinel ''not found''"

definition ErrQuotaExceeded :: go_error where
  "ErrQuotaExceeded = Sentinel ''quota exceeded''"

definition ErrCollectionConflict :: go_error where
  "ErrCollectionConflict = Sentinel ''collection record conflict''"

definition ErrInvalidCollectionTransition :: go_error where
  "ErrInvalidCollectionTransition = Sentinel ''invalid collection state transition''"

lemmas repository_errors [go_simps] = ErrNotFound_def ErrQuotaExceeded_def
  ErrCollectionConflict_def ErrInvalidCollectionTransition_def

datatype SessionStatus = SessionStatusActive | SessionStatusPaused | SessionStatusTerminated

datatype CollectionState =
    CollectionStateCollectible
  | CollectionStateCollectPending
  | CollectionStateCollected
  | CollectionStateCollectFailedRetryable

record CollectionKey =
  ck_SessionID :: string
  ck_CollectionID :: bytes
  ck_Payer :: address
  ck_ServiceProvider :: address
  ck_DataService :: address

record CollectionRecord =
  cr_Key :: CollectionKey
  cr_SignedRAV :: "SignedRAV option"
  cr_ValueAggregate :: "int option"
  cr_State :: CollectionState
  cr_AttemptCount :: int
  cr_LastTxHash :: string
  cr_LastError :: string
  cr_CollectedAmount :: "int option"
  cr_CreatedAt :: time
  cr_UpdatedAt :: time

record CollectionFilter =
  cf_SessionID :: "string option"
  cf_State :: "CollectionState option"
  cf_Payer :: "address option"

record Session =
  ses_ID :: string
  ses_CreatedAt :: time
  ses_UpdatedAt :: time
  ses_LastKeepAlive :: time
  ses_Status :: SessionStatus
  ses_Metadata :: "string \<rightharpoonup> string"
  ses_EndedAt :: "time option"
  ses_EndReason :: EndReason
  ses_Payer :: address
  ses_Receiver :: address
  ses_DataService :: address
  ses_CurrentRAV :: "SignedRAV option"
  ses_BlocksProcessed :: u64
  ses_BytesTransferred :: u64
  ses_Requests :: u64
  ses_TotalCost :: "int option"
  ses_BaselineBlocks :: u64
  ses_BaselineBytes :: u64
  ses_BaselineReqs :: u64
  ses_BaselineCost :: "int option"
  ses_PricingConfig :: PricingConfig

record Worker =
  w_Key :: string
  w_SessionID :: string
  w_Payer :: address
  w_CreatedAt :: time
  w_TraceID :: string

record QuotaUsage =
  q_Payer :: address
  q_ActiveSessions :: int
  q_ActiveWorkers :: int
  q_LastUpdated :: time

record UsageEvent =
  ue_Timestamp :: time
  ue_Blocks :: "64 word"
  ue_Bytes :: "64 word"
  ue_Requests :: "64 word"

record SessionFilter =
  sf_Payer :: "address option"
  sf_Status :: "SessionStatus option"
  sf_CreatedAfter :: "time option"

definition NewSession ::
  "string \<Rightarrow> address \<Rightarrow> address \<Rightarrow> address \<Rightarrow> PricingConfig \<Rightarrow> time \<Rightarrow> Session" where
  "NewSession id' payer receiver dataService pricingConfig now =
     \<lparr>ses_ID = id', ses_CreatedAt = now, ses_UpdatedAt = now, ses_LastKeepAlive = now,
      ses_Status = SessionStatusActive, ses_Metadata = Map.empty, ses_EndedAt = None,
      ses_EndReason = END_REASON_UNSPECIFIED, ses_Payer = payer, ses_Receiver = receiver,
      ses_DataService = dataService, ses_CurrentRAV = None, ses_BlocksProcessed = 0,
      ses_BytesTransferred = 0, ses_Requests = 0, ses_TotalCost = Some 0, ses_BaselineBlocks = 0,
      ses_BaselineBytes = 0, ses_BaselineReqs = 0, ses_BaselineCost = Some 0,
      ses_PricingConfig = pricingConfig\<rparr>"

definition IsActive :: "Session \<Rightarrow> bool" where
  "IsActive s \<longleftrightarrow> ses_Status s = SessionStatusActive"

definition AddUsage :: "u64 \<Rightarrow> u64 \<Rightarrow> u64 \<Rightarrow> int option \<Rightarrow> time \<Rightarrow> Session \<Rightarrow> Session" where
  "AddUsage blocks bytes requests cost now s =
     s\<lparr>ses_BlocksProcessed := ses_BlocksProcessed s + blocks,
       ses_BytesTransferred := ses_BytesTransferred s + bytes,
       ses_Requests := ses_Requests s + requests,
       ses_TotalCost :=
         (case cost of
            None \<Rightarrow> ses_TotalCost s
          | Some c \<Rightarrow> Some ((case ses_TotalCost s of None \<Rightarrow> 0 | Some t \<Rightarrow> t) + c)),
       ses_UpdatedAt := now\<rparr>"

definition UsageDeltaSinceBaseline :: "Session \<Rightarrow> u64 \<times> u64 \<times> u64 \<times> int" where
  "UsageDeltaSinceBaseline s =
     ((if ses_BlocksProcessed s \<ge> ses_BaselineBlocks s
       then ses_BlocksProcessed s - ses_BaselineBlocks s else 0),
      (if ses_BytesTransferred s \<ge> ses_BaselineBytes s
       then ses_BytesTransferred s - ses_BaselineBytes s else 0),
      (if ses_Requests s \<ge> ses_BaselineReqs s
       then ses_Requests s - ses_BaselineReqs s else 0),
      (case ses_TotalCost s of
         None \<Rightarrow> 0
       | Some tot \<Rightarrow>
           (case ses_BaselineCost s of
              None \<Rightarrow> tot
            | Some base \<Rightarrow> let cost = tot - base in if cost < 0 then 0 else cost)))"

definition MarkBaseline :: "Session \<Rightarrow> Session" where
  "MarkBaseline s =
     s\<lparr>ses_BaselineBlocks := ses_BlocksProcessed s,
       ses_BaselineBytes := ses_BytesTransferred s,
       ses_BaselineReqs := ses_Requests s,
       ses_BaselineCost := (case ses_TotalCost s of Some t \<Rightarrow> Some t | None \<Rightarrow> Some 0)\<rparr>"

definition SetPricingConfig :: "PricingConfig \<Rightarrow> Session \<Rightarrow> Session" where
  "SetPricingConfig config s = s\<lparr>ses_PricingConfig := config\<rparr>"

definition Session_CalculateUsageCost :: "Session \<Rightarrow> u64 \<Rightarrow> u64 \<Rightarrow> int" where
  "Session_CalculateUsageCost s blocksProcessed bytesTransferred =
     BigInt (CalculateUsageCost (ses_PricingConfig s) blocksProcessed bytesTransferred)"

definition Session_End :: "EndReason \<Rightarrow> time \<Rightarrow> Session \<Rightarrow> Session" where
  "Session_End reason now s =
     s\<lparr>ses_Status := SessionStatusTerminated, ses_EndedAt := Some now, ses_EndReason := reason,
       ses_UpdatedAt := now\<rparr>"

definition Session_GetUsage :: "from_big \<Rightarrow> Session \<Rightarrow> pb_Usage" where
  "Session_GetUsage fromBig s =
     \<lparr>pu_BlocksProcessed = ses_BlocksProcessed s, pu_BytesTransferred = ses_BytesTransferred s,
      pu_Requests = ses_Requests s, pu_Cost = Some (GRTFromBigInt fromBig (ses_TotalCost s))\<rparr>"

definition sanitizeUsageMetric :: "64 word \<Rightarrow> u64" where
  "sanitizeUsageMetric v = (if sint v \<le> 0 then 0 else v)"

definition SanitizedTotals :: "UsageEvent option \<Rightarrow> u64 \<times> u64 \<times> u64" where
  "SanitizedTotals u =
     (case u of
        None \<Rightarrow> (0, 0, 0)
      | Some u \<Rightarrow> (sanitizeUsageMetric (ue_Blocks u), sanitizeUsageMetric (ue_Bytes u),
                   sanitizeUsageMetric (ue_Requests u)))"

subsection \<open>Accounting on a session value\<close>

definition total_cost :: "Session \<Rightarrow> int" where
  "total_cost s = (case ses_TotalCost s of None \<Rightarrow> 0 | Some c \<Rightarrow> c)"

definition baseline_cost :: "Session \<Rightarrow> int" where
  "baseline_cost s = (case ses_BaselineCost s of None \<Rightarrow> 0 | Some c \<Rightarrow> c)"

definition delta_cost :: "Session \<Rightarrow> int" where
  "delta_cost s = snd (snd (snd (UsageDeltaSinceBaseline s)))"

lemma total_cost_AddUsage [simp]:
  "total_cost (AddUsage b y r (Some c) now s) = total_cost s + c"
  "total_cost (AddUsage b y r None now s) = total_cost s"
  by (simp_all add: total_cost_def AddUsage_def split: option.splits)

lemma baseline_cost_AddUsage [simp]:
  "baseline_cost (AddUsage b y r c now s) = baseline_cost s"
  by (simp add: baseline_cost_def AddUsage_def)

lemma delta_cost_eq:
  assumes "0 \<le> baseline_cost s" "ses_TotalCost s = None \<longrightarrow> total_cost s \<le> baseline_cost s"
  shows "delta_cost s = (case ses_BaselineCost s of None \<Rightarrow> total_cost s | Some _ \<Rightarrow> max 0 (total_cost s - baseline_cost s))"
  using assms
  by (auto simp: delta_cost_def UsageDeltaSinceBaseline_def total_cost_def baseline_cost_def Let_def
      split: option.splits)

lemma sanitizeUsageMetric_value: "uint (sanitizeUsageMetric v) = max 0 (sint v)"
proof (cases "sint v \<le> 0")
  case False
  then have "uint v = sint v"
    using sint_lt[of v] by (subst uint_sint) (simp add: take_bit_int_eq_self_iff)
  then show ?thesis using False by (simp add: sanitizeUsageMetric_def)
qed (simp add: sanitizeUsageMetric_def)

lemma MarkBaseline_delta: "UsageDeltaSinceBaseline (MarkBaseline s) = (0, 0, 0, 0)"
  by (simp add: UsageDeltaSinceBaseline_def MarkBaseline_def split: option.splits)

end
