(* ===== verification/Sds_InMemory.thy ===== *)
theory Sds_InMemory
  imports Sds_Repository
begin

text \<open>
  The in-memory repository (\<open>provider/repository/inmemory.go\<close>). The concurrent hash maps are
  maps from strings; every operation takes the repository and returns its result with the next
  repository. \<open>pretty\<close> is the Ethereum library's printed form of an address, \<open>now\<close> the reading
  of the clock. The retry loops around compare-and-swap succeed at their first attempt when an
  operation runs alone; their interleavings are the subject of \<open>Sds_Concurrency\<close>. A listing
  visits the keys in an order the hash map does not specify: the argument \<open>order\<close>.
\<close>

record InMemoryRepository =
  sessions :: "string \<rightharpoonup> Session"
  workers :: "string \<rightharpoonup> Worker"
  quotas :: "string \<rightharpoonup> QuotaUsage"
  records :: "string \<rightharpoonup> CollectionRecord"
  usage :: "string \<rightharpoonup> UsageEvent list"

definition NewInMemoryRepository :: InMemoryRepository where
  "NewInMemoryRepository =
     \<lparr>sessions = Map.empty, workers = Map.empty, quotas = Map.empty, records = Map.empty,
      usage = Map.empty\<rparr>"

subsection \<open>Clones\<close>

definition cloneBigInt :: "int option \<Rightarrow> int option" where
  "cloneBigInt value = (case value of None \<Rightarrow> None | Some v \<Rightarrow> Some v)"

definition cloneTimePtr :: "time option \<Rightarrow> time option" where
  "cloneTimePtr value = (case value of None \<Rightarrow> None | Some v \<Rightarrow> Some v)"

definition cloneStringMap :: "(string \<rightharpoonup> string) \<Rightarrow> (string \<rightharpoonup> string)" where
  "cloneStringMap values = (\<lambda>key. case values key of None \<Rightarrow> None | Some value \<Rightarrow> Some value)"

definition cloneRAV :: "RAV \<Rightarrow> RAV" where
  "cloneRAV rav =
     rav\<lparr>ValueAggregate := cloneBigInt (ValueAggregate rav), RAV_Metadata := [] @ RAV_Metadata rav\<rparr>"

definition cloneSignedRAV :: "SignedRAV option \<Rightarrow> SignedRAV option" where
  "cloneSignedRAV rav =
     (case rav of
        None \<Rightarrow> None
      | Some r \<Rightarrow> Some \<lparr>Message = map_option cloneRAV (Message r), Signature = Signature r\<rparr>)"

definition cloneSession :: "Session \<Rightarrow> Session" where
  "cloneSession s =
     s\<lparr>ses_Metadata := cloneStringMap (ses_Metadata s), ses_EndedAt := cloneTimePtr (ses_EndedAt s),
       ses_CurrentRAV := cloneSignedRAV (ses_CurrentRAV s),
       ses_TotalCost := cloneBigInt (ses_TotalCost s),
       ses_BaselineCost := cloneBigInt (ses_BaselineCost s)\<rparr>"

definition cloneCollectionRecord :: "CollectionRecord \<Rightarrow> CollectionRecord" where
  "cloneCollectionRecord r =
     r\<lparr>cr_SignedRAV := cloneSignedRAV (cr_SignedRAV r),
       cr_ValueAggregate := cloneBigInt (cr_ValueAggregate r),
       cr_CollectedAmount := cloneBigInt (cr_CollectedAmount r)\<rparr>"

subsection \<open>Collection records\<close>

definition newCollectionRecordFromRAV ::
  "string \<Rightarrow> SignedRAV option \<Rightarrow> time \<Rightarrow> CollectionRecord result" where
  "newCollectionRecordFromRAV sessionID rav now =
     (if sessionID = [] then Inl (Errorf ''session ID must not be empty'' [] None)
      else (case Option.bind rav Message of
        None \<Rightarrow> Inl (Errorf ''signed RAV must not be nil'' [] None)
      | Some m \<Rightarrow>
          if ValueAggregate m = None
          then Inl (Errorf ''signed RAV value aggregate must not be nil'' [] None)
          else Inr \<lparr>cr_Key = \<lparr>ck_SessionID = sessionID, ck_CollectionID = CollectionID m,
                        ck_Payer = Payer m, ck_ServiceProvider = ServiceProvider m,
                        ck_DataService = DataService m\<rparr>,
                    cr_SignedRAV = cloneSignedRAV rav,
                    cr_ValueAggregate = cloneBigInt (ValueAggregate m),
                    cr_State = CollectionStateCollectible, cr_AttemptCount = 0,
                    cr_LastTxHash = [], cr_LastError = [], cr_CollectedAmount = None,
                    cr_CreatedAt = now, cr_UpdatedAt = now\<rparr>))"

definition collectionMapKey :: "pretty_fun \<Rightarrow> CollectionKey \<Rightarrow> string" where
  "collectionMapKey pretty key =
     ck_SessionID key @ ''|'' @ hex_EncodeToString (ck_CollectionID key) @ ''|'' @
     pretty (ck_Payer key) @ ''|'' @ pretty (ck_ServiceProvider key) @ ''|'' @
     pretty (ck_DataService key)"

definition collectionValuesEqual :: "int option \<Rightarrow> int option \<Rightarrow> bool" where
  "collectionValuesEqual a b \<longleftrightarrow>
     (if a = None \<or> b = None then a = None \<and> b = None else the a = the b)"

definition collectionUpdatedAt :: "time \<Rightarrow> time \<Rightarrow> time" where
  "collectionUpdatedAt updatedAt now = (if updatedAt = 0 then now else updatedAt)"

definition collectionNextCollectibleLocked ::
  "pretty_fun \<Rightarrow> string \<Rightarrow> SignedRAV option \<Rightarrow> time \<Rightarrow> InMemoryRepository \<Rightarrow> CollectionRecord result" where
  "collectionNextCollectibleLocked pretty sessionID rav now r =
     (case newCollectionRecordFromRAV sessionID rav now of
        Inl err \<Rightarrow> Inl err
      | Inr record' \<Rightarrow>
          let key = collectionMapKey pretty (cr_Key record') in
          (case records r key of
             None \<Rightarrow> Inr (cloneCollectionRecord record')
           | Some current \<Rightarrow>
               if cr_State current = CollectionStateCollectPending then
                 (if collectionValuesEqual (cr_ValueAggregate current) (cr_ValueAggregate record')
                  then Inr (cloneCollectionRecord current)
                  else Inl (Errorf ''collection %q has pending value %s, new value %s: %w''
                              [key, bigint_string (cr_ValueAggregate current),
                               bigint_string (cr_ValueAggregate record')]
                              (Some ErrCollectionConflict)))
               else if cr_State current = CollectionStateCollected \<and>
                  collectionValuesEqual (cr_ValueAggregate current) (cr_ValueAggregate record')
               then Inr (cloneCollectionRecord current)
               else if cr_State current = CollectionStateCollected \<and>
                  the (cr_ValueAggregate record') < the (cr_ValueAggregate current)
               then Inl (Errorf ''collection %q has collected value %s, stale value %s: %w''
                           [key, bigint_string (cr_ValueAggregate current),
                            bigint_string (cr_ValueAggregate record')]
                           (Some ErrCollectionConflict))
               else Inr (cloneCollectionRecord
                      ((cloneCollectionRecord record')\<lparr>cr_CreatedAt := cr_CreatedAt current\<rparr>))))"

definition set_record :: "pretty_fun \<Rightarrow> CollectionRecord \<Rightarrow> InMemoryRepository \<Rightarrow> InMemoryRepository" where
  "set_record pretty next r =
     r\<lparr>records := (records r)(collectionMapKey pretty (cr_Key next) \<mapsto> cloneCollectionRecord next)\<rparr>"

definition CollectionCreateOrUpdateCollectible ::
  "pretty_fun \<Rightarrow> string \<Rightarrow> SignedRAV option \<Rightarrow> time \<Rightarrow> InMemoryRepository \<Rightarrow>
   CollectionRecord result \<times> InMemoryRepository" where
  "CollectionCreateOrUpdateCollectible pretty sessionID rav now r =
     (case collectionNextCollectibleLocked pretty sessionID rav now r of
        Inl err \<Rightarrow> (Inl err, r)
      | Inr next \<Rightarrow> (Inr (cloneCollectionRecord next), set_record pretty next r))"

definition CollectionGet ::
  "pretty_fun \<Rightarrow> CollectionKey \<Rightarrow> InMemoryRepository \<Rightarrow> CollectionRecord result" where
  "CollectionGet pretty key r =
     (case records r (collectionMapKey pretty key) of
        None \<Rightarrow> Inl ErrNotFound
      | Some record' \<Rightarrow> Inr (cloneCollectionRecord record'))"

definition collection_matches :: "pretty_fun \<Rightarrow> CollectionFilter \<Rightarrow> CollectionRecord \<Rightarrow> bool" where
  "collection_matches pretty f c \<longleftrightarrow>
     (case cf_SessionID f of None \<Rightarrow> True | Some i \<Rightarrow> ck_SessionID (cr_Key c) = i) \<and>
     (case cf_State f of None \<Rightarrow> True | Some s \<Rightarrow> cr_State c = s) \<and>
     (case cf_Payer f of None \<Rightarrow> True | Some p \<Rightarrow> pretty (ck_Payer (cr_Key c)) = pretty p)"

definition CollectionList ::
  "pretty_fun \<Rightarrow> string list \<Rightarrow> CollectionFilter \<Rightarrow> InMemoryRepository \<Rightarrow> CollectionRecord list" where
  "CollectionList pretty order f r =
     map cloneCollectionRecord
       (filter (collection_matches pretty f) (List.map_filter (records r) order))"

definition updateCollection ::
  "pretty_fun \<Rightarrow> CollectionKey \<Rightarrow> int option \<Rightarrow> (CollectionRecord \<Rightarrow> CollectionRecord result) \<Rightarrow>
   InMemoryRepository \<Rightarrow> CollectionRecord result \<times> InMemoryRepository" where
  "updateCollection pretty key expectedValue app r =
     (let mapKey = collectionMapKey pretty key in
      case records r mapKey of
        None \<Rightarrow> (Inl ErrNotFound, r)
      | Some current \<Rightarrow>
          if \<not> collectionValuesEqual (cr_ValueAggregate current) expectedValue
          then (Inl ErrCollectionConflict, r)
          else (case app (cloneCollectionRecord current) of
             Inl err \<Rightarrow> (Inl err, r)
           | Inr next \<Rightarrow>
               (Inr (cloneCollectionRecord next), r\<lparr>records := (records r)(mapKey \<mapsto> next)\<rparr>)))"

definition mark_pending :: "string \<Rightarrow> time \<Rightarrow> time \<Rightarrow> CollectionRecord \<Rightarrow> CollectionRecord result" where
  "mark_pending txHash updatedAt now c =
     (if cr_State c \<noteq> CollectionStateCollectible \<and> cr_State c \<noteq> CollectionStateCollectFailedRetryable
      then Inl ErrInvalidCollectionTransition
      else Inr (c\<lparr>cr_State := CollectionStateCollectPending,
                  cr_AttemptCount := i64 (cr_AttemptCount c + 1), cr_LastTxHash := txHash,
                  cr_LastError := [], cr_UpdatedAt := collectionUpdatedAt updatedAt now\<rparr>))"

definition CollectionMarkPending ::
  "pretty_fun \<Rightarrow> CollectionKey \<Rightarrow> int option \<Rightarrow> string \<Rightarrow> time \<Rightarrow> time \<Rightarrow>
   InMemoryRepository \<Rightarrow> CollectionRecord result \<times> InMemoryRepository" where
  "CollectionMarkPending pretty key expectedValue txHash updatedAt now r =
     updateCollection pretty key expectedValue (mark_pending txHash updatedAt now) r"

definition mark_collected ::
  "string \<Rightarrow> int option \<Rightarrow> time \<Rightarrow> time \<Rightarrow> CollectionRecord \<Rightarrow> CollectionRecord result" where
  "mark_collected txHash collectedAmount updatedAt now c =
     (if cr_State c \<noteq> CollectionStateCollectPending then Inl ErrInvalidCollectionTransition
      else Inr (c\<lparr>cr_State := CollectionStateCollected, cr_LastTxHash := txHash, cr_LastError := [],
                  cr_CollectedAmount := cloneBigInt collectedAmount,
                  cr_UpdatedAt := collectionUpdatedAt updatedAt now\<rparr>))"

definition CollectionMarkCollected ::
  "pretty_fun \<Rightarrow> CollectionKey \<Rightarrow> int option \<Rightarrow> string \<Rightarrow> int option \<Rightarrow> time \<Rightarrow> time \<Rightarrow>
   InMemoryRepository \<Rightarrow> CollectionRecord result \<times> InMemoryRepository" where
  "CollectionMarkCollected pretty key expectedValue txHash collectedAmount updatedAt now r =
     updateCollection pretty key expectedValue (mark_collected txHash collectedAmount updatedAt now) r"

definition mark_failed :: "string \<Rightarrow> string \<Rightarrow> time \<Rightarrow> time \<Rightarrow> CollectionRecord \<Rightarrow> CollectionRecord result" where
  "mark_failed txHash lastError updatedAt now c =
     (if cr_State c \<noteq> CollectionStateCollectPending then Inl ErrInvalidCollectionTransition
      else Inr (c\<lparr>cr_State := CollectionStateCollectFailedRetryable, cr_LastTxHash := txHash,
                  cr_LastError := lastError,
                  cr_UpdatedAt := collectionUpdatedAt updatedAt now\<rparr>))"

definition CollectionMarkFailedRetryable ::
  "pretty_fun \<Rightarrow> CollectionKey \<Rightarrow> int option \<Rightarrow> string \<Rightarrow> string \<Rightarrow> time \<Rightarrow> time \<Rightarrow>
   InMemoryRepository \<Rightarrow> CollectionRecord result \<times> InMemoryRepository" where
  "CollectionMarkFailedRetryable pretty key expectedValue txHash lastError updatedAt now r =
     updateCollection pretty key expectedValue (mark_failed txHash lastError updatedAt now) r"

subsection \<open>Sessions\<close>

text \<open>The collection record to write along with a session that carries a voucher.\<close>

definition collection_next_for ::
  "pretty_fun \<Rightarrow> string \<Rightarrow> SignedRAV option \<Rightarrow> time \<Rightarrow> InMemoryRepository \<Rightarrow> CollectionRecord option result" where
  "collection_next_for pretty sessionID rav now r =
     (if rav = None then Inr None
      else (case collectionNextCollectibleLocked pretty sessionID rav now r of
              Inl err \<Rightarrow> Inl err | Inr next \<Rightarrow> Inr (Some next)))"

definition set_record_opt ::
  "pretty_fun \<Rightarrow> CollectionRecord option \<Rightarrow> InMemoryRepository \<Rightarrow> InMemoryRepository" where
  "set_record_opt pretty next r = (case next of None \<Rightarrow> r | Some n \<Rightarrow> set_record pretty n r)"

definition put_session :: "string \<Rightarrow> Session \<Rightarrow> InMemoryRepository \<Rightarrow> InMemoryRepository" where
  "put_session i s r = r\<lparr>sessions := (sessions r)(i \<mapsto> s)\<rparr>"

definition SessionCreate ::
  "pretty_fun \<Rightarrow> Session option \<Rightarrow> time \<Rightarrow> InMemoryRepository \<Rightarrow> unit result \<times> InMemoryRepository" where
  "SessionCreate pretty session now r =
     (case session of
        None \<Rightarrow> (Inl (Errorf ''session must not be nil'' [] None), r)
      | Some s \<Rightarrow>
          if ses_ID s = [] then (Inl (Errorf ''session ID must not be empty'' [] None), r)
          else (case collection_next_for pretty (ses_ID s) (ses_CurrentRAV s) now r of
             Inl err \<Rightarrow> (Inl err, r)
           | Inr collectionNext \<Rightarrow>
               if sessions r (ses_ID s) \<noteq> None
               then (Inl (Errorf ''session %q already exists'' [ses_ID s] None), r)
               else (Inr (), set_record_opt pretty collectionNext
                       (put_session (ses_ID s) (cloneSession s) r))))"

definition session_not_found :: "string \<Rightarrow> go_error" where
  "session_not_found sessionID = Errorf ''session %q: %w'' [sessionID] (Some ErrNotFound)"

definition SessionGet :: "string \<Rightarrow> InMemoryRepository \<Rightarrow> Session result" where
  "SessionGet sessionID r =
     (case sessions r sessionID of
        None \<Rightarrow> Inl (session_not_found sessionID)
      | Some s \<Rightarrow> Inr (cloneSession s))"

definition SessionUpdate ::
  "pretty_fun \<Rightarrow> Session option \<Rightarrow> time \<Rightarrow> InMemoryRepository \<Rightarrow> unit result \<times> InMemoryRepository" where
  "SessionUpdate pretty session now r =
     (case session of
        None \<Rightarrow> (Inl (Errorf ''session must not be nil'' [] None), r)
      | Some s \<Rightarrow>
          (case collection_next_for pretty (ses_ID s) (ses_CurrentRAV s) now r of
             Inl err \<Rightarrow> (Inl err, r)
           | Inr collectionNext \<Rightarrow>
               if sessions r (ses_ID s) = None
               then (Inl (Errorf ''session %q not found'' [ses_ID s] None), r)
               else (Inr (), set_record_opt pretty collectionNext
                       (put_session (ses_ID s) (cloneSession s) r))))"

text \<open>The body of the compare-and-swap loops: what the next session is, from the current one.\<close>

definition touch_next :: "time \<Rightarrow> Session \<Rightarrow> Session" where
  "touch_next lastKeepAlive session =
     (let next = cloneSession session;
          next = (if lastKeepAlive > ses_LastKeepAlive next
                  then next\<lparr>ses_LastKeepAlive := lastKeepAlive\<rparr> else next)
      in if ses_LastKeepAlive next > ses_UpdatedAt next
         then next\<lparr>ses_UpdatedAt := ses_LastKeepAlive next\<rparr> else next)"

definition SessionTouch :: "string \<Rightarrow> time \<Rightarrow> InMemoryRepository \<Rightarrow> unit result \<times> InMemoryRepository" where
  "SessionTouch sessionID lastKeepAlive r =
     (case sessions r sessionID of
        None \<Rightarrow> (Inl (session_not_found sessionID), r)
      | Some session \<Rightarrow> (Inr (), put_session sessionID (touch_next lastKeepAlive session) r))"

definition runtime_next ::
  "SessionStatus \<Rightarrow> (string \<rightharpoonup> string) \<Rightarrow> time option \<Rightarrow> EndReason \<Rightarrow> time \<Rightarrow> Session \<Rightarrow> Session" where
  "runtime_next status metadata endedAt endReason updatedAt session =
     (let next = cloneSession session in
      if ses_Status next \<noteq> SessionStatusTerminated then
        (let next = next\<lparr>ses_Status := status, ses_Metadata := cloneStringMap metadata,
                         ses_EndedAt := cloneTimePtr endedAt, ses_EndReason := endReason\<rparr>
         in if updatedAt > ses_UpdatedAt next then next\<lparr>ses_UpdatedAt := updatedAt\<rparr> else next)
      else next)"

definition SessionUpdateRuntimeState ::
  "string \<Rightarrow> SessionStatus \<Rightarrow> (string \<rightharpoonup> string) \<Rightarrow> time option \<Rightarrow> EndReason \<Rightarrow> time \<Rightarrow>
   InMemoryRepository \<Rightarrow> unit result \<times> InMemoryRepository" where
  "SessionUpdateRuntimeState sessionID status metadata endedAt endReason updatedAt r =
     (case sessions r sessionID of
        None \<Rightarrow> (Inl (session_not_found sessionID), r)
      | Some session \<Rightarrow>
          (Inr (), put_session sessionID
                     (runtime_next status metadata endedAt endReason updatedAt session) r))"

definition baseline_next ::
  "SignedRAV option \<Rightarrow> u64 \<Rightarrow> u64 \<Rightarrow> u64 \<Rightarrow> int option \<Rightarrow> time \<Rightarrow> Session \<Rightarrow> Session" where
  "baseline_next currentRAV baselineBlocks baselineBytes baselineReqs baselineCost now session =
     (cloneSession session)\<lparr>ses_CurrentRAV := cloneSignedRAV currentRAV,
        ses_BaselineBlocks := baselineBlocks, ses_BaselineBytes := baselineBytes,
        ses_BaselineReqs := baselineReqs,
        ses_BaselineCost := (case baselineCost of None \<Rightarrow> Some 0 | Some c \<Rightarrow> Some c),
        ses_UpdatedAt := now\<rparr>"

definition SessionUpdateRAVAndBaseline ::
  "pretty_fun \<Rightarrow> string \<Rightarrow> SignedRAV option \<Rightarrow> u64 \<Rightarrow> u64 \<Rightarrow> u64 \<Rightarrow> int option \<Rightarrow> time \<Rightarrow>
   InMemoryRepository \<Rightarrow> unit result \<times> InMemoryRepository" where
  "SessionUpdateRAVAndBaseline pretty sessionID currentRAV baselineBlocks baselineBytes baselineReqs
       baselineCost now r =
     (case collection_next_for pretty sessionID currentRAV now r of
        Inl err \<Rightarrow> (Inl err, r)
      | Inr collectionNext \<Rightarrow>
          (case sessions r sessionID of
             None \<Rightarrow> (Inl (session_not_found sessionID), r)
           | Some session \<Rightarrow>
               (Inr (), set_record_opt pretty collectionNext
                  (put_session sessionID
                    (baseline_next currentRAV baselineBlocks baselineBytes baselineReqs
                       baselineCost now session) r))))"

definition UsageAdd ::
  "string \<Rightarrow> UsageEvent option \<Rightarrow> InMemoryRepository \<Rightarrow> unit result \<times> InMemoryRepository" where
  "UsageAdd sessionID u r =
     (case u of
        None \<Rightarrow> (Inl (Errorf ''usage event must not be nil'' [] None), r)
      | Some e \<Rightarrow>
          let events = (case usage r sessionID of None \<Rightarrow> [] | Some es \<Rightarrow> es) in
          (Inr (), r\<lparr>usage := (usage r)(sessionID \<mapsto> events @ [e])\<rparr>))"

definition apply_usage_next :: "UsageEvent option \<Rightarrow> int option \<Rightarrow> time \<Rightarrow> Session \<Rightarrow> Session" where
  "apply_usage_next u cost now session =
     (case SanitizedTotals u of (blocks, bytes, requests) \<Rightarrow>
        AddUsage blocks bytes requests cost now (cloneSession session))"

definition SessionApplyUsage ::
  "string \<Rightarrow> UsageEvent option \<Rightarrow> int option \<Rightarrow> time \<Rightarrow> InMemoryRepository \<Rightarrow> unit result \<times> InMemoryRepository" where
  "SessionApplyUsage sessionID u cost now r =
     (case u of
        None \<Rightarrow> (Inl (Errorf ''usage event must not be nil'' [] None), r)
      | Some _ \<Rightarrow>
          (case sessions r sessionID of
             None \<Rightarrow> (Inl (session_not_found sessionID), r)
           | Some session \<Rightarrow>
               UsageAdd sessionID u (put_session sessionID (apply_usage_next u cost now session) r)))"

definition session_matches :: "pretty_fun \<Rightarrow> SessionFilter \<Rightarrow> Session \<Rightarrow> bool" where
  "session_matches pretty f s \<longleftrightarrow>
     (case sf_Payer f of None \<Rightarrow> True | Some p \<Rightarrow> pretty (ses_Payer s) = pretty p) \<and>
     (case sf_Status f of None \<Rightarrow> True | Some st \<Rightarrow> ses_Status s = st) \<and>
     (case sf_CreatedAfter f of None \<Rightarrow> True | Some t \<Rightarrow> ses_CreatedAt s > t)"

definition SessionList ::
  "pretty_fun \<Rightarrow> string list \<Rightarrow> SessionFilter \<Rightarrow> InMemoryRepository \<Rightarrow> Session list" where
  "SessionList pretty order f r =
     map cloneSession (filter (session_matches pretty f) (List.map_filter (sessions r) order))"

definition SessionCount :: "InMemoryRepository \<Rightarrow> nat" where
  "SessionCount r = card (dom (sessions r))"

subsection \<open>Workers and quotas\<close>

definition put_worker :: "Worker \<Rightarrow> InMemoryRepository \<Rightarrow> InMemoryRepository" where
  "put_worker w r = r\<lparr>workers := (workers r)(w_Key w \<mapsto> w)\<rparr>"

definition put_quota :: "string \<Rightarrow> QuotaUsage \<Rightarrow> InMemoryRepository \<Rightarrow> InMemoryRepository" where
  "put_quota k q r = r\<lparr>quotas := (quotas r)(k \<mapsto> q)\<rparr>"

definition empty_quota :: "address \<Rightarrow> time \<Rightarrow> QuotaUsage" where
  "empty_quota payer now =
     \<lparr>q_Payer = payer, q_ActiveSessions = 0, q_ActiveWorkers = 0, q_LastUpdated = now\<rparr>"

definition WorkerCreate :: "Worker option \<Rightarrow> InMemoryRepository \<Rightarrow> unit result \<times> InMemoryRepository" where
  "WorkerCreate worker r =
     (case worker of
        None \<Rightarrow> (Inl (Errorf ''worker must not be nil'' [] None), r)
      | Some w \<Rightarrow>
          if w_Key w = [] then (Inl (Errorf ''worker key must not be empty'' [] None), r)
          else if workers r (w_Key w) \<noteq> None
          then (Inl (Errorf ''worker %q already exists'' [w_Key w] None), r)
          else (Inr (), put_worker w r))"

text \<open>The code returns the quota usage beside the error: the pair of both.\<close>

type_synonym quota_reply = "QuotaUsage option \<times> go_error option"

definition WorkerCreateAndReserveQuota ::
  "pretty_fun \<Rightarrow> Worker option \<Rightarrow> int \<Rightarrow> time \<Rightarrow> InMemoryRepository \<Rightarrow> quota_reply \<times> InMemoryRepository" where
  "WorkerCreateAndReserveQuota pretty worker maxWorkers now r =
     (case worker of
        None \<Rightarrow> ((None, Some (Errorf ''worker must not be nil'' [] None)), r)
      | Some w \<Rightarrow>
          if w_Key w = [] then ((None, Some (Errorf ''worker key must not be empty'' [] None)), r)
          else if maxWorkers < 0
          then ((None, Some (Errorf ''max workers must not be negative'' [] None)), r)
          else if workers r (w_Key w) \<noteq> None
          then ((None, Some (Errorf ''worker %q already exists'' [w_Key w] None)), r)
          else
            let payerKey = pretty (w_Payer w) in
            (case quotas r payerKey of
               None \<Rightarrow>
                 if 1 > maxWorkers then ((Some (empty_quota (w_Payer w) now), Some ErrQuotaExceeded), r)
                 else
                   let next = (empty_quota (w_Payer w) now)\<lparr>q_ActiveWorkers := 1\<rparr> in
                   ((Some next, None), put_quota payerKey next (put_worker w r))
             | Some current \<Rightarrow>
                 if i64 (q_ActiveWorkers current + 1) > maxWorkers
                 then ((Some current, Some ErrQuotaExceeded), r)
                 else
                   let next = current\<lparr>q_ActiveWorkers := i64 (q_ActiveWorkers current + 1),
                                      q_LastUpdated := now\<rparr> in
                   ((Some next, None), put_quota payerKey next (put_worker w r))))"

definition WorkerGet :: "string \<Rightarrow> InMemoryRepository \<Rightarrow> Worker result" where
  "WorkerGet workerKey r =
     (case workers r workerKey of
        None \<Rightarrow> Inl (Errorf ''worker %q: %w'' [workerKey] (Some ErrNotFound))
      | Some w \<Rightarrow> Inr w)"

definition WorkerCountBySession :: "string list \<Rightarrow> string \<Rightarrow> InMemoryRepository \<Rightarrow> nat" where
  "WorkerCountBySession order sessionID r =
     length (filter (\<lambda>w. w_SessionID w = sessionID) (List.map_filter (workers r) order))"

definition WorkerDelete :: "string \<Rightarrow> InMemoryRepository \<Rightarrow> unit result \<times> InMemoryRepository" where
  "WorkerDelete workerKey r =
     (if workers r workerKey = None then (Inl (Errorf ''worker %q not found'' [workerKey] None), r)
      else (Inr (), r\<lparr>workers := (workers r)(workerKey := None)\<rparr>))"

definition QuotaGet :: "pretty_fun \<Rightarrow> address \<Rightarrow> time \<Rightarrow> InMemoryRepository \<Rightarrow> QuotaUsage" where
  "QuotaGet pretty payer now r =
     (case quotas r (pretty payer) of None \<Rightarrow> empty_quota payer now | Some q \<Rightarrow> q)"

definition QuotaReserve ::
  "pretty_fun \<Rightarrow> address \<Rightarrow> int \<Rightarrow> int \<Rightarrow> time \<Rightarrow> InMemoryRepository \<Rightarrow> quota_reply \<times> InMemoryRepository" where
  "QuotaReserve pretty payer maxWorkers nworkers now r =
     (if nworkers \<le> 0 then ((None, Some (Errorf ''workers must be positive'' [] None)), r)
      else if maxWorkers < 0
      then ((None, Some (Errorf ''max workers must not be negative'' [] None)), r)
      else
        let payerKey = pretty payer in
        (case quotas r payerKey of
           None \<Rightarrow>
             if nworkers > maxWorkers
             then ((Some (empty_quota payer now), Some ErrQuotaExceeded), r)
             else
               let next = (empty_quota payer now)\<lparr>q_ActiveWorkers := nworkers\<rparr> in
               ((Some next, None), put_quota payerKey next r)
         | Some current \<Rightarrow>
             if i64 (q_ActiveWorkers current + nworkers) > maxWorkers
             then ((Some current, Some ErrQuotaExceeded), r)
             else
               let next = current\<lparr>q_ActiveWorkers := i64 (q_ActiveWorkers current + nworkers),
                                  q_LastUpdated := now\<rparr> in
               ((Some next, None), put_quota payerKey next r)))"

definition QuotaIncrement ::
  "pretty_fun \<Rightarrow> address \<Rightarrow> int \<Rightarrow> int \<Rightarrow> time \<Rightarrow> InMemoryRepository \<Rightarrow> InMemoryRepository" where
  "QuotaIncrement pretty payer nsessions nworkers now r =
     (let payerKey = pretty payer in
      put_quota payerKey
        (case quotas r payerKey of
           None \<Rightarrow> \<lparr>q_Payer = payer, q_ActiveSessions = nsessions, q_ActiveWorkers = nworkers,
                   q_LastUpdated = now\<rparr>
         | Some current \<Rightarrow>
             current\<lparr>q_ActiveSessions := i64 (q_ActiveSessions current + nsessions),
                     q_ActiveWorkers := i64 (q_ActiveWorkers current + nworkers),
                     q_LastUpdated := now\<rparr>) r)"

definition QuotaDecrement ::
  "pretty_fun \<Rightarrow> address \<Rightarrow> int \<Rightarrow> int \<Rightarrow> time \<Rightarrow> InMemoryRepository \<Rightarrow> InMemoryRepository" where
  "QuotaDecrement pretty payer nsessions nworkers now r =
     (let payerKey = pretty payer in
      case quotas r payerKey of
        None \<Rightarrow> r
      | Some current \<Rightarrow>
          let activeSessions = i64 (q_ActiveSessions current - nsessions);
              activeWorkers = i64 (q_ActiveWorkers current - nworkers)
          in put_quota payerKey
               (current\<lparr>q_ActiveSessions := (if activeSessions < 0 then 0 else activeSessions),
                        q_ActiveWorkers := (if activeWorkers < 0 then 0 else activeWorkers),
                        q_LastUpdated := now\<rparr>) r)"

subsection \<open>Basic laws\<close>

lemma clone_id [simp]:
  "cloneBigInt v = v" "cloneTimePtr t = t" "cloneStringMap m = m" "cloneRAV rav = rav"
  "cloneSignedRAV sr = sr" "cloneSession s = s" "cloneCollectionRecord c = c"
proof -
  show b: "cloneBigInt v = v" for v by (simp add: cloneBigInt_def split: option.splits)
  show t: "cloneTimePtr t = t" for t by (simp add: cloneTimePtr_def split: option.splits)
  show m: "cloneStringMap m = m" for m by (auto simp: cloneStringMap_def split: option.splits)
  show r: "cloneRAV rav = rav" for rav by (simp add: cloneRAV_def b)
  have "cloneRAV = id" by (rule ext) (simp add: r)
  then show s: "cloneSignedRAV sr = sr" for sr
    by (simp add: cloneSignedRAV_def option.map_id split: option.splits)
  show "cloneSession s = s" by (simp add: cloneSession_def b t m s)
  show "cloneCollectionRecord c = c" by (simp add: cloneCollectionRecord_def b s)
qed

lemma collectionValuesEqual_eq [simp]: "collectionValuesEqual a b \<longleftrightarrow> a = b"
  by (cases a; cases b) (auto simp: collectionValuesEqual_def)

lemma put_frames [simp, frame_simps]:
  "sessions (put_session i s r) = (sessions r)(i \<mapsto> s)" "workers (put_session i s r) = workers r"
  "quotas (put_session i s r) = quotas r" "records (put_session i s r) = records r"
  "usage (put_session i s r) = usage r"
  "sessions (put_worker w r) = sessions r" "workers (put_worker w r) = (workers r)(w_Key w \<mapsto> w)"
  "quotas (put_worker w r) = quotas r" "records (put_worker w r) = records r"
  "usage (put_worker w r) = usage r"
  "sessions (put_quota k q r) = sessions r" "workers (put_quota k q r) = workers r"
  "quotas (put_quota k q r) = (quotas r)(k \<mapsto> q)" "records (put_quota k q r) = records r"
  "usage (put_quota k q r) = usage r"
  "sessions (set_record pretty c r) = sessions r" "workers (set_record pretty c r) = workers r"
  "quotas (set_record pretty c r) = quotas r"
  "records (set_record pretty c r) = (records r)(collectionMapKey pretty (cr_Key c) \<mapsto> c)"
  "usage (set_record pretty c r) = usage r"
  by (simp_all add: put_session_def put_worker_def put_quota_def set_record_def)

lemma set_record_opt_frames [simp, frame_simps]:
  "sessions (set_record_opt pretty n r) = sessions r" "workers (set_record_opt pretty n r) = workers r"
  "quotas (set_record_opt pretty n r) = quotas r" "usage (set_record_opt pretty n r) = usage r"
  by (simp_all add: set_record_opt_def split: option.splits)

text \<open>
  What the code relies on of the printed form of an address: different addresses print
  differently and no address prints with the separator.
\<close>

definition Pretty_ok :: "pretty_fun \<Rightarrow> bool" where
  "Pretty_ok pretty \<longleftrightarrow> inj pretty \<and> (\<forall>a. CHR ''|'' \<notin> set (pretty a))"

lemma hex_Pretty_ok: "Pretty_ok hex_EncodeToString"
  using hex_inj hex_no_bar by (auto simp: Pretty_ok_def inj_def)

lemma bar_split_last:
  assumes "CHR ''|'' \<notin> set b" "CHR ''|'' \<notin> set d" "a @ ''|'' @ b = c @ ''|'' @ d"
  shows "a = c \<and> b = d"
proof -
  have "takeWhile (\<lambda>x. x \<noteq> CHR ''|'') (rev (a @ ''|'' @ b)) = rev b"
    using assms(1) by (subst rev_append, subst rev_append, subst append_assoc,
        subst takeWhile_append2) auto
  moreover have "takeWhile (\<lambda>x. x \<noteq> CHR ''|'') (rev (c @ ''|'' @ d)) = rev d"
    using assms(2) by (subst rev_append, subst rev_append, subst append_assoc,
        subst takeWhile_append2) auto
  ultimately have "b = d" using assms(3) by (metis rev_rev_ident)
  with assms(3) show ?thesis by simp
qed

lemma collectionMapKey_inj:
  assumes ok: "Pretty_ok pretty" and eq: "collectionMapKey pretty k = collectionMapKey pretty k'"
  shows "k = k'"
proof -
  have nb: "CHR ''|'' \<notin> set (pretty a)" and inj: "pretty a = pretty b \<Longrightarrow> a = b" for a b
    using ok by (auto simp: Pretty_ok_def inj_def)
  note eq' = eq[unfolded collectionMapKey_def append_assoc[symmetric]]
  note s1 = bar_split_last[OF nb nb, unfolded append_assoc[symmetric]]
  from s1[OF eq'] have p: "ck_DataService k = ck_DataService k'"
    and e1: "((((((ck_SessionID k @ ''|'') @ hex_EncodeToString (ck_CollectionID k)) @ ''|'') @
      pretty (ck_Payer k)) @ ''|'') @ pretty (ck_ServiceProvider k)) =
      ((((((ck_SessionID k' @ ''|'') @ hex_EncodeToString (ck_CollectionID k')) @ ''|'') @
      pretty (ck_Payer k')) @ ''|'') @ pretty (ck_ServiceProvider k'))"
    by (auto dest: inj)
  from s1[OF e1] have q: "ck_ServiceProvider k = ck_ServiceProvider k'"
    and e2: "((((ck_SessionID k @ ''|'') @ hex_EncodeToString (ck_CollectionID k)) @ ''|'') @ pretty (ck_Payer k)) =
      ((((ck_SessionID k' @ ''|'') @ hex_EncodeToString (ck_CollectionID k')) @ ''|'') @ pretty (ck_Payer k'))"
    by (auto dest: inj)
  from s1[OF e2] have s: "ck_Payer k = ck_Payer k'"
    and e3: "(ck_SessionID k @ ''|'') @ hex_EncodeToString (ck_CollectionID k) =
      (ck_SessionID k' @ ''|'') @ hex_EncodeToString (ck_CollectionID k')"
    by (auto dest: inj)
  from bar_split_last[OF hex_no_bar hex_no_bar, unfolded append_assoc[symmetric], OF e3]
  have "ck_SessionID k = ck_SessionID k'" "ck_CollectionID k = ck_CollectionID k'"
    by (auto dest: hex_inj)
  with p q s show ?thesis by (intro CollectionKey.equality) simp_all
qed

end
