(* ===== verification/Sds_Lifecycle.thy ===== *)
theory Sds_Lifecycle
  imports Sds_InMemory
begin

text \<open>
  The repository as a state machine: one step per mutating operation of the \<open>GlobalRepository\<close>
  interface (\<open>provider/repository/repository.go\<close>) on the in-memory repository, and what runs of
  such steps keep. The interface \<open>tracked_store\<close> states once what a store of entries promises to
  its clients (entries stay, and change only along an edge relation); it is interpreted for
  collection records and for sessions.
\<close>

subsection \<open>Steps\<close>

text \<open>The operations the services call; \<open>SessionUpdate\<close> has no caller and is added below.\<close>

inductive live_step :: "pretty_fun \<Rightarrow> InMemoryRepository \<Rightarrow> InMemoryRepository \<Rightarrow> bool"
  for pretty where
  live_create: "live_step pretty r (snd (SessionCreate pretty s now r))"
| live_touch: "live_step pretty r (snd (SessionTouch i t r))"
| live_runtime: "live_step pretty r (snd (SessionUpdateRuntimeState i st md ended reason t r))"
| live_baseline: "live_step pretty r (snd (SessionUpdateRAVAndBaseline pretty i rav b y q c now r))"
| live_apply: "live_step pretty r (snd (SessionApplyUsage i u cost now r))"
| live_worker_create: "live_step pretty r (snd (WorkerCreate w r))"
| live_worker_reserve: "live_step pretty r (snd (WorkerCreateAndReserveQuota pretty w m now r))"
| live_worker_delete: "live_step pretty r (snd (WorkerDelete k r))"
| live_quota_reserve: "live_step pretty r (snd (QuotaReserve pretty p m n now r))"
| live_quota_increment: "live_step pretty r (QuotaIncrement pretty p m n now r)"
| live_quota_decrement: "live_step pretty r (QuotaDecrement pretty p m n now r)"
| live_usage_add: "live_step pretty r (snd (UsageAdd i u r))"
| live_collectible: "live_step pretty r (snd (CollectionCreateOrUpdateCollectible pretty i rav now r))"
| live_pending: "live_step pretty r (snd (CollectionMarkPending pretty key v tx t now r))"
| live_collected: "live_step pretty r (snd (CollectionMarkCollected pretty key v tx amount t now r))"
| live_failed: "live_step pretty r (snd (CollectionMarkFailedRetryable pretty key v tx err t now r))"

inductive repo_step :: "pretty_fun \<Rightarrow> InMemoryRepository \<Rightarrow> InMemoryRepository \<Rightarrow> bool"
  for pretty where
  repo_live: "live_step pretty r r' \<Longrightarrow> repo_step pretty r r'"
| repo_update: "repo_step pretty r (snd (SessionUpdate pretty s now r))"

definition reachable :: "pretty_fun \<Rightarrow> InMemoryRepository \<Rightarrow> bool" where
  "reachable pretty r \<longleftrightarrow> (repo_step pretty)\<^sup>*\<^sup>* NewInMemoryRepository r"

lemma reachable_init: "reachable pretty NewInMemoryRepository"
  by (simp add: reachable_def)

lemma reachable_live: "reachable pretty r \<Longrightarrow> live_step pretty r r' \<Longrightarrow> reachable pretty r'"
  unfolding reachable_def by (blast intro: rtranclp.rtrancl_into_rtrancl repo_live)

subsection \<open>The contract of a store of entries\<close>

locale tracked_store =
  fixes step :: "'r \<Rightarrow> 'r \<Rightarrow> bool"
    and entry :: "'r \<Rightarrow> 'k \<Rightarrow> 'e option"
    and inv :: "'r \<Rightarrow> bool"
    and edge :: "'e \<Rightarrow> 'e \<Rightarrow> bool"
  assumes step_inv: "inv r \<Longrightarrow> step r r' \<Longrightarrow> inv r'"
    and step_entry: "inv r \<Longrightarrow> step r r' \<Longrightarrow> entry r k = Some e \<Longrightarrow>
      \<exists>e'. entry r' k = Some e' \<and> edge e e'"
begin

lemma run_inv: "step\<^sup>*\<^sup>* r r' \<Longrightarrow> inv r \<Longrightarrow> inv r'"
  by (induction rule: rtranclp_induct) (auto intro: step_inv)

lemma run_entry:
  assumes "step\<^sup>*\<^sup>* r r'" "inv r" "entry r k = Some e"
  shows "\<exists>e'. entry r' k = Some e' \<and> edge\<^sup>*\<^sup>* e e'"
  using assms(1)
proof (induction rule: rtranclp_induct)
  case base
  then show ?case using assms(3) by blast
next
  case (step s t)
  then obtain e' where e': "entry s k = Some e'" "edge\<^sup>*\<^sup>* e e'" by blast
  have "inv s" using step(1) assms(2) run_inv by blast
  then obtain e'' where "entry t k = Some e''" "edge e' e''"
    using step_entry[OF _ step(2) e'(1)] by blast
  then show ?case using e'(2) by (auto intro: rtranclp.rtrancl_into_rtrancl)
qed

text \<open>A predicate closed under the edges holds forever once it holds.\<close>

lemma run_keeps:
  assumes "step\<^sup>*\<^sup>* r r'" "inv r" "entry r k = Some e" "P e"
    and "\<And>a b. P a \<Longrightarrow> edge a b \<Longrightarrow> P b"
  shows "\<exists>e'. entry r' k = Some e' \<and> P e'"
proof -
  obtain e' where e': "entry r' k = Some e'" "edge\<^sup>*\<^sup>* e e'"
    using run_entry[OF assms(1-3)] by blast
  have "P e'" using e'(2) assms(4) by (induction rule: rtranclp_induct) (auto intro: assms(5))
  then show ?thesis using e'(1) by blast
qed

end

subsection \<open>Collection records\<close>

text \<open>
  A stored record sits under the key of its own settlement tuple and its value is the value of
  the voucher it carries.
\<close>

definition record_ok :: "CollectionRecord \<Rightarrow> bool" where
  "record_ok c \<longleftrightarrow>
     ck_SessionID (cr_Key c) \<noteq> [] \<and>
     (\<exists>sr m v. cr_SignedRAV c = Some sr \<and> Message sr = Some m \<and> ValueAggregate m = Some v \<and>
        cr_ValueAggregate c = Some v \<and>
        cr_Key c = \<lparr>ck_SessionID = ck_SessionID (cr_Key c), ck_CollectionID = CollectionID m,
                    ck_Payer = Payer m, ck_ServiceProvider = ServiceProvider m,
                    ck_DataService = DataService m\<rparr>)"

definition records_inv :: "pretty_fun \<Rightarrow> InMemoryRepository \<Rightarrow> bool" where
  "records_inv pretty r \<longleftrightarrow>
     (\<forall>k c. records r k = Some c \<longrightarrow> k = collectionMapKey pretty (cr_Key c) \<and> record_ok c)"

text \<open>The settlement lifecycle a record may follow.\<close>

inductive record_edge :: "CollectionRecord \<Rightarrow> CollectionRecord \<Rightarrow> bool" where
  edge_stay: "record_edge c c"
| edge_submit: "cr_State c \<in> {CollectionStateCollectible, CollectionStateCollectFailedRetryable} \<Longrightarrow>
    record_edge c (c\<lparr>cr_State := CollectionStateCollectPending,
      cr_AttemptCount := i64 (cr_AttemptCount c + 1), cr_LastTxHash := tx, cr_LastError := [],
      cr_UpdatedAt := t\<rparr>)"
| edge_settle: "cr_State c = CollectionStateCollectPending \<Longrightarrow>
    record_edge c (c\<lparr>cr_State := CollectionStateCollected, cr_LastTxHash := tx, cr_LastError := [],
      cr_CollectedAmount := amount, cr_UpdatedAt := t\<rparr>)"
| edge_fail: "cr_State c = CollectionStateCollectPending \<Longrightarrow>
    record_edge c (c\<lparr>cr_State := CollectionStateCollectFailedRetryable, cr_LastTxHash := tx,
      cr_LastError := err, cr_UpdatedAt := t\<rparr>)"
| edge_renew: "cr_State c \<noteq> CollectionStateCollectPending \<Longrightarrow>
    (cr_State c = CollectionStateCollected \<Longrightarrow> the (cr_ValueAggregate c) < the (cr_ValueAggregate c')) \<Longrightarrow>
    cr_State c' = CollectionStateCollectible \<Longrightarrow> cr_Key c' = cr_Key c \<Longrightarrow> cr_AttemptCount c' = 0 \<Longrightarrow>
    cr_CollectedAmount c' = None \<Longrightarrow> cr_CreatedAt c' = cr_CreatedAt c \<Longrightarrow> record_edge c c'"

inductive_cases record_edgeE: "record_edge c c'"

lemma newCollectionRecordFromRAV_ok:
  assumes "newCollectionRecordFromRAV i rav now = Inr c"
  shows "record_ok c \<and> cr_State c = CollectionStateCollectible \<and> cr_AttemptCount c = 0 \<and>
    cr_CollectedAmount c = None"
  using assms
  by (auto simp: newCollectionRecordFromRAV_def record_ok_def bind_eq_Some_conv
      split: if_splits option.splits)

text \<open>The next collectible record: new, unchanged, or an admissible renewal of the current one.\<close>

lemma collectionNextCollectibleLocked_ok:
  assumes inv: "records_inv pretty r" and pretty: "Pretty_ok pretty"
    and "collectionNextCollectibleLocked pretty i rav now r = Inr c"
  shows "record_ok c \<and>
    (case records r (collectionMapKey pretty (cr_Key c)) of
       None \<Rightarrow> cr_State c = CollectionStateCollectible \<and> cr_AttemptCount c = 0
     | Some current \<Rightarrow> record_edge current c)"
proof -
  obtain n where n: "newCollectionRecordFromRAV i rav now = Inr n"
    using assms(3) by (auto simp: collectionNextCollectibleLocked_def split: sum.splits)
  note nok = newCollectionRecordFromRAV_ok[OF n]
  show ?thesis
  proof (cases "records r (collectionMapKey pretty (cr_Key n))")
    case None
    then show ?thesis using assms(3) n nok by (simp add: collectionNextCollectibleLocked_def Let_def)
  next
    case (Some cur)
    then have cur: "cr_Key cur = cr_Key n" "record_ok cur"
      using inv collectionMapKey_inj[OF pretty] unfolding records_inv_def by metis+
    have nok': "record_ok (n\<lparr>cr_CreatedAt := cr_CreatedAt cur\<rparr>)"
      using nok by (simp add: record_ok_def)
    have "\<exists>v v'. cr_ValueAggregate cur = Some v \<and> cr_ValueAggregate n = Some v'"
      using cur(2) nok by (auto simp: record_ok_def)
    then consider (same) "c = cur"
      | (renew) "c = n\<lparr>cr_CreatedAt := cr_CreatedAt cur\<rparr>" "cr_State cur \<noteq> CollectionStateCollectPending"
        "cr_State cur = CollectionStateCollected \<Longrightarrow>
           the (cr_ValueAggregate cur) < the (cr_ValueAggregate n)"
      using assms(3) n Some
      by (auto simp: collectionNextCollectibleLocked_def Let_def split: if_splits)
    then show ?thesis
    proof cases
      case same
      then show ?thesis using cur Some by (auto intro: edge_stay)
    next
      case renew
      then show ?thesis using cur Some nok nok' by (auto intro!: edge_renew)
    qed
  qed
qed

text \<open>What one step may do to the records: nothing, or write one admissible record.\<close>

definition record_change :: "pretty_fun \<Rightarrow> InMemoryRepository \<Rightarrow> InMemoryRepository \<Rightarrow> bool" where
  "record_change pretty r r' \<longleftrightarrow>
     records r' = records r \<or>
     (\<exists>c. records r' = (records r)(collectionMapKey pretty (cr_Key c) \<mapsto> c) \<and> record_ok c \<and>
        (case records r (collectionMapKey pretty (cr_Key c)) of
           None \<Rightarrow> cr_State c = CollectionStateCollectible \<and> cr_AttemptCount c = 0
         | Some current \<Rightarrow> record_edge current c))"

lemma record_change_same [intro]: "records r' = records r \<Longrightarrow> record_change pretty r r'"
  by (simp add: record_change_def)

lemma record_change_set_opt:
  assumes "records_inv pretty r" "Pretty_ok pretty"
    and "collection_next_for pretty i rav now r = Inr n" and "records r0 = records r"
  shows "record_change pretty r (set_record_opt pretty n r0)"
proof (cases n)
  case None
  then show ?thesis using assms(4) by (auto simp: set_record_opt_def)
next
  case (Some c)
  then have "collectionNextCollectibleLocked pretty i rav now r = Inr c"
    using assms(3) by (auto simp: collection_next_for_def split: if_splits sum.splits)
  from collectionNextCollectibleLocked_ok[OF assms(1,2) this] show ?thesis
    using Some assms(4) unfolding record_change_def
    by (intro disjI2 exI[of _ c]) (simp add: set_record_opt_def)
qed

lemma record_change_update:
  assumes "records_inv pretty r"
    and edge: "\<And>c n. app c = Inr n \<Longrightarrow> record_edge c n \<and> cr_Key n = cr_Key c \<and>
      cr_SignedRAV n = cr_SignedRAV c \<and> cr_ValueAggregate n = cr_ValueAggregate c"
  shows "record_change pretty r (snd (updateCollection pretty key v app r))"
proof (cases "records r (collectionMapKey pretty key)")
  case None
  then show ?thesis by (auto simp: updateCollection_def)
next
  case (Some c)
  have c: "collectionMapKey pretty key = collectionMapKey pretty (cr_Key c)" "record_ok c"
    using assms(1) Some by (auto simp: records_inv_def)
  show ?thesis
  proof (cases "cr_ValueAggregate c = v")
    case False
    then show ?thesis using Some by (auto simp: updateCollection_def)
  next
    case True
    show ?thesis
    proof (cases "app c")
      case (Inl e)
      then show ?thesis using Some True by (auto simp: updateCollection_def)
    next
      case (Inr n)
      note n = edge[OF this]
      then have "record_ok n" using c(2) by (simp add: record_ok_def)
      then show ?thesis
        using Some True Inr n c(1) unfolding record_change_def
        by (intro disjI2 exI[of _ n]) (simp add: updateCollection_def)
    qed
  qed
qed

lemma mark_edges:
  "mark_pending tx t now c = Inr n \<Longrightarrow> record_edge c n \<and> cr_Key n = cr_Key c \<and>
     cr_SignedRAV n = cr_SignedRAV c \<and> cr_ValueAggregate n = cr_ValueAggregate c"
  "mark_collected tx amount t now c = Inr n \<Longrightarrow> record_edge c n \<and> cr_Key n = cr_Key c \<and>
     cr_SignedRAV n = cr_SignedRAV c \<and> cr_ValueAggregate n = cr_ValueAggregate c"
  "mark_failed tx err t now c = Inr n \<Longrightarrow> record_edge c n \<and> cr_Key n = cr_Key c \<and>
     cr_SignedRAV n = cr_SignedRAV c \<and> cr_ValueAggregate n = cr_ValueAggregate c"
  by (auto simp: mark_pending_def mark_collected_def mark_failed_def split: if_splits
      intro: edge_submit edge_settle edge_fail)

lemma records_frames [simp, frame_simps]:
  "records (snd (SessionTouch i t r)) = records r"
  "records (snd (SessionUpdateRuntimeState i st md ended reason t r)) = records r"
  "records (snd (SessionApplyUsage i u cost now r)) = records r"
  "records (snd (WorkerCreate w r)) = records r"
  "records (snd (WorkerCreateAndReserveQuota pretty w m now r)) = records r"
  "records (snd (WorkerDelete k r)) = records r"
  "records (snd (QuotaReserve pretty p m n now r)) = records r"
  "records (QuotaIncrement pretty p m n now r) = records r"
  "records (QuotaDecrement pretty p m n now r) = records r"
  "records (snd (UsageAdd i u r)) = records r"
  by (simp_all add: SessionTouch_def SessionUpdateRuntimeState_def SessionApplyUsage_def UsageAdd_def
      WorkerCreate_def WorkerCreateAndReserveQuota_def WorkerDelete_def QuotaReserve_def
      QuotaIncrement_def QuotaDecrement_def Let_def split: option.splits)

lemma record_change_sessions:
  assumes "records_inv pretty r" "Pretty_ok pretty"
  shows "record_change pretty r (snd (SessionCreate pretty s now r))"
    "record_change pretty r (snd (SessionUpdate pretty s now r))"
    "record_change pretty r (snd (SessionUpdateRAVAndBaseline pretty i rav b y q c now r))"
    "record_change pretty r (snd (CollectionCreateOrUpdateCollectible pretty i rav now r))"
proof -
  note set_opt = record_change_set_opt[OF assms]
  show "record_change pretty r (snd (SessionCreate pretty s now r))"
    by (auto simp: SessionCreate_def split: option.splits sum.splits intro!: set_opt)
  show "record_change pretty r (snd (SessionUpdate pretty s now r))"
    by (auto simp: SessionUpdate_def split: option.splits sum.splits intro!: set_opt)
  show "record_change pretty r (snd (SessionUpdateRAVAndBaseline pretty i rav b y q c now r))"
    by (auto simp: SessionUpdateRAVAndBaseline_def split: option.splits sum.splits intro!: set_opt)
  show "record_change pretty r (snd (CollectionCreateOrUpdateCollectible pretty i rav now r))"
  proof (cases "collectionNextCollectibleLocked pretty i rav now r")
    case (Inl e)
    then show ?thesis by (auto simp: CollectionCreateOrUpdateCollectible_def)
  next
    case (Inr c)
    from collectionNextCollectibleLocked_ok[OF assms this] show ?thesis
      using Inr unfolding record_change_def
      by (intro disjI2 exI[of _ c]) (simp add: CollectionCreateOrUpdateCollectible_def)
  qed
qed

lemma repo_step_record_change:
  assumes "repo_step pretty r r'" "records_inv pretty r" "Pretty_ok pretty"
  shows "record_change pretty r r'"
  using assms(1)
proof cases
  case repo_live
  then show ?thesis
    by (cases rule: live_step.cases)
      (auto simp: CollectionMarkPending_def CollectionMarkCollected_def CollectionMarkFailedRetryable_def
        intro: record_change_sessions[OF assms(2,3)]
          record_change_update[OF assms(2) mark_edges(1)]
          record_change_update[OF assms(2) mark_edges(2)]
          record_change_update[OF assms(2) mark_edges(3)])
next
  case (repo_update s now)
  then show ?thesis by (auto intro: record_change_sessions[OF assms(2,3)])
qed

lemma record_change_inv:
  "record_change pretty r r' \<Longrightarrow> records_inv pretty r \<Longrightarrow> records_inv pretty r'"
  by (auto simp: record_change_def records_inv_def split: if_splits)

lemma record_change_entry:
  "record_change pretty r r' \<Longrightarrow> records r k = Some c \<Longrightarrow> \<exists>c'. records r' k = Some c' \<and> record_edge c c'"
  by (cases "records r' k") (auto simp: record_change_def intro: edge_stay split: if_splits option.splits)

text \<open>
  The collection records of the in-memory repository are a tracked store whose edges are the
  settlement lifecycle; the printed form of addresses is part of the invariant because the
  steps read the map keys through it.
\<close>

interpretation collections: tracked_store "repo_step pretty" records
  "\<lambda>r. Pretty_ok pretty \<and> records_inv pretty r" record_edge for pretty
proof
  fix r r' assume "Pretty_ok pretty \<and> records_inv pretty r" "repo_step pretty r r'"
  then show "Pretty_ok pretty \<and> records_inv pretty r'"
    using repo_step_record_change record_change_inv by blast
next
  fix r r' k e
  assume "Pretty_ok pretty \<and> records_inv pretty r" "repo_step pretty r r'" "records r k = Some e"
  then show "\<exists>e'. records r' k = Some e' \<and> record_edge e e'"
    using repo_step_record_change record_change_entry by blast
qed

lemma records_inv_init: "records_inv pretty NewInMemoryRepository"
  by (simp add: records_inv_def NewInMemoryRepository_def)

lemma reachable_records_inv: "Pretty_ok pretty \<Longrightarrow> reachable pretty r \<Longrightarrow> records_inv pretty r"
  using collections.run_inv records_inv_init unfolding reachable_def by blast

subsection \<open>Sessions\<close>

text \<open>What never changes of a session, and what a terminated session keeps.\<close>

definition session_edge :: "Session \<Rightarrow> Session \<Rightarrow> bool" where
  "session_edge s s' \<longleftrightarrow>
     ses_ID s' = ses_ID s \<and> ses_CreatedAt s' = ses_CreatedAt s \<and> ses_Payer s' = ses_Payer s \<and>
     ses_Receiver s' = ses_Receiver s \<and> ses_DataService s' = ses_DataService s \<and>
     ses_PricingConfig s' = ses_PricingConfig s \<and> ses_LastKeepAlive s \<le> ses_LastKeepAlive s' \<and>
     (ses_Status s = SessionStatusTerminated \<longrightarrow>
        ses_Status s' = SessionStatusTerminated \<and> ses_EndedAt s' = ses_EndedAt s \<and>
        ses_EndReason s' = ses_EndReason s \<and> ses_Metadata s' = ses_Metadata s)"

lemma session_edge_refl [intro]: "session_edge s s"
  by (simp add: session_edge_def)

lemma session_edges:
  "session_edge s (touch_next t s)"
  "session_edge s (runtime_next st md ended reason t s)"
  "session_edge s (baseline_next rav b y q c now s)"
  "session_edge s (apply_usage_next u cost now s)"
  by (auto simp: session_edge_def touch_next_def runtime_next_def baseline_next_def
      apply_usage_next_def AddUsage_def Let_def split: prod.splits)

lemma sessions_frames [simp, frame_simps]:
  "sessions (snd (WorkerCreate w r)) = sessions r"
  "sessions (snd (WorkerCreateAndReserveQuota pretty w m now r)) = sessions r"
  "sessions (snd (WorkerDelete k r)) = sessions r"
  "sessions (snd (QuotaReserve pretty p m n now r)) = sessions r"
  "sessions (QuotaIncrement pretty p m n now r) = sessions r"
  "sessions (QuotaDecrement pretty p m n now r) = sessions r"
  "sessions (snd (UsageAdd i u r)) = sessions r"
  "sessions (snd (CollectionCreateOrUpdateCollectible pretty i rav now r)) = sessions r"
  "sessions (snd (updateCollection pretty key v app r)) = sessions r"
  by (simp_all add: UsageAdd_def WorkerCreate_def WorkerCreateAndReserveQuota_def WorkerDelete_def
      QuotaReserve_def QuotaIncrement_def QuotaDecrement_def CollectionCreateOrUpdateCollectible_def
      updateCollection_def Let_def split: option.splits sum.splits)

lemma live_step_session:
  assumes "live_step pretty r r'" "sessions r k = Some s"
  shows "\<exists>s'. sessions r' k = Some s' \<and> session_edge s s'"
  using assms
  by (cases rule: live_step.cases)
    (auto simp: SessionCreate_def SessionTouch_def SessionUpdateRuntimeState_def
      SessionUpdateRAVAndBaseline_def SessionApplyUsage_def CollectionMarkPending_def
      CollectionMarkCollected_def CollectionMarkFailedRetryable_def session_edges
      split: option.splits sum.splits)

interpretation live_sessions: tracked_store "live_step pretty" sessions "\<lambda>_. True" session_edge
  for pretty
  by unfold_locales (auto intro: live_step_session)

subsection \<open>Properties\<close>

text \<open>
  C6: The settlement lifecycle (\<open>inmemory.go\<close>). In every reachable repository, whatever
  operation runs next, a collection record is never lost and moves only along the lifecycle:
  while a settlement is pending its voucher and value are frozen and it can only become
  collected or retryable; it becomes collected only from pending, with the same voucher; a
  collected record is replaced only by a strictly larger value; and every record carries the
  value of its own voucher, under the key of that voucher's parties.
\<close>

theorem collection_lifecycle:
  assumes "Pretty_ok pretty" "reachable pretty r" "repo_step pretty r r'" "records r k = Some c"
  shows "\<exists>c'. records r' k = Some c' \<and> record_ok c' \<and> k = collectionMapKey pretty (cr_Key c') \<and>
    cr_Key c' = cr_Key c \<and>
    (cr_State c = CollectionStateCollectPending \<longrightarrow>
       cr_SignedRAV c' = cr_SignedRAV c \<and> cr_ValueAggregate c' = cr_ValueAggregate c \<and>
       cr_State c' \<noteq> CollectionStateCollectible) \<and>
    (cr_State c' = CollectionStateCollected \<longrightarrow>
       cr_SignedRAV c' = cr_SignedRAV c \<and>
       (cr_State c = CollectionStateCollected \<or> cr_State c = CollectionStateCollectPending)) \<and>
    (cr_State c = CollectionStateCollected \<longrightarrow>
       c' = c \<or> the (cr_ValueAggregate c) < the (cr_ValueAggregate c'))"
proof -
  have inv: "Pretty_ok pretty \<and> records_inv pretty r"
    using assms(1,2) reachable_records_inv by blast
  obtain c' where c': "records r' k = Some c'" "record_edge c c'"
    using collections.step_entry[OF inv assms(3,4)] by blast
  have "record_ok c' \<and> k = collectionMapKey pretty (cr_Key c')"
    using collections.step_inv[OF inv assms(3)] c'(1) by (auto simp: records_inv_def)
  with c' show ?thesis by (auto elim!: record_edgeE)
qed

definition sample_signed :: "int \<Rightarrow> SignedRAV option" where
  "sample_signed v =
     Some \<lparr>Message = Some (sample_RAV\<lparr>ValueAggregate := Some v\<rparr>), Signature = replicate 65 7\<rparr>"

definition sample_key :: CollectionKey where
  "sample_key = \<lparr>ck_SessionID = ''s'', ck_CollectionID = CollectionID sample_RAV,
     ck_Payer = Payer sample_RAV, ck_ServiceProvider = ServiceProvider sample_RAV,
     ck_DataService = DataService sample_RAV\<rparr>"

lemma newCollectionRecord_sample:
  "newCollectionRecordFromRAV ''s'' (sample_signed v) now =
     Inr \<lparr>cr_Key = sample_key, cr_SignedRAV = sample_signed v, cr_ValueAggregate = Some v,
          cr_State = CollectionStateCollectible, cr_AttemptCount = 0, cr_LastTxHash = [],
          cr_LastError = [], cr_CollectedAmount = None, cr_CreatedAt = now, cr_UpdatedAt = now\<rparr>"
  by (simp add: newCollectionRecordFromRAV_def sample_signed_def sample_key_def)

definition sample_repo :: "string \<Rightarrow> InMemoryRepository" where
  "sample_repo tx =
     snd (CollectionMarkPending hex_EncodeToString sample_key (Some 100) tx 2 2
       (snd (CollectionCreateOrUpdateCollectible hex_EncodeToString ''s'' (sample_signed 100) 1
          NewInMemoryRepository)))"

lemma sample_repo_reachable: "reachable hex_EncodeToString (sample_repo tx)"
  unfolding sample_repo_def
  by (rule reachable_live[OF reachable_live[OF reachable_init live_collectible] live_pending])

lemma sample_repo_pending:
  "records (sample_repo tx) (collectionMapKey hex_EncodeToString sample_key) =
     Some \<lparr>cr_Key = sample_key, cr_SignedRAV = sample_signed 100, cr_ValueAggregate = Some 100,
          cr_State = CollectionStateCollectPending, cr_AttemptCount = 1, cr_LastTxHash = tx,
          cr_LastError = [], cr_CollectedAmount = None, cr_CreatedAt = 1, cr_UpdatedAt = 2\<rparr>"
  by (simp add: sample_repo_def CollectionMarkPending_def updateCollection_def mark_pending_def
      CollectionCreateOrUpdateCollectible_def collectionNextCollectibleLocked_def
      newCollectionRecord_sample NewInMemoryRepository_def collectionUpdatedAt_def in_i64_def)

theorem collection_lifecycle_witness:
  "\<exists>c'. records (snd (CollectionCreateOrUpdateCollectible hex_EncodeToString ''s'' (sample_signed 150) 3
           (sample_repo ''tx''))) (collectionMapKey hex_EncodeToString sample_key) = Some c' \<and>
     cr_ValueAggregate c' = Some 100"
  using collection_lifecycle[OF hex_Pretty_ok sample_repo_reachable
      repo_live[OF live_collectible[of hex_EncodeToString "sample_repo ''tx''" "''s''" "sample_signed 150" 3]]
      sample_repo_pending]
  by auto


definition sample_session :: Session where
  "sample_session = NewSession ''s'' (replicate 20 2) (replicate 20 3) (replicate 20 4)
     \<lparr>PricePerBlock = mkGRT 5, PricePerByte = mkGRT 0\<rparr> 1"

definition sample_ended :: InMemoryRepository where
  "sample_ended = put_session ''s'' (Session_End END_REASON_COMPLETE 9 sample_session) NewInMemoryRepository"



text \<open>
  Missing entities (\<open>repository.go\<close>: every implementation returns \<open>ErrNotFound\<close>). Lookups and
  the partial updates of a missing session or worker report an error that wraps \<open>ErrNotFound\<close>
  and change nothing; the full session update and the worker deletion report an error that
  does not wrap it.
\<close>

theorem missing_entities:
  assumes "sessions r i = None" "workers r k = None"
  shows "(\<exists>e. SessionGet i r = Inl e \<and> errors_Is e ErrNotFound) \<and>
    (\<exists>e. SessionTouch i t r = (Inl e, r) \<and> errors_Is e ErrNotFound) \<and>
    (\<exists>e. SessionUpdateRuntimeState i st md ended reason t r = (Inl e, r) \<and> errors_Is e ErrNotFound) \<and>
    (\<exists>e. SessionUpdateRAVAndBaseline pretty i None b y q c now r = (Inl e, r) \<and> errors_Is e ErrNotFound) \<and>
    (\<exists>e. SessionApplyUsage i (Some u) cost now r = (Inl e, r) \<and> errors_Is e ErrNotFound) \<and>
    (\<exists>e. WorkerGet k r = Inl e \<and> errors_Is e ErrNotFound) \<and>
    (\<exists>e. WorkerDelete k r = (Inl e, r) \<and> \<not> errors_Is e ErrNotFound) \<and>
    (ses_ID s = i \<longrightarrow> ses_CurrentRAV s = None \<longrightarrow>
      (\<exists>e. SessionUpdate pretty (Some s) now r = (Inl e, r) \<and> \<not> errors_Is e ErrNotFound))"
  using assms
  by (simp add: SessionGet_def SessionTouch_def SessionUpdateRuntimeState_def
      SessionUpdateRAVAndBaseline_def SessionApplyUsage_def WorkerGet_def WorkerDelete_def
      SessionUpdate_def collection_next_for_def session_not_found_def ErrNotFound_def)

theorem missing_entities_witness:
  "\<exists>e. SessionUpdate hex_EncodeToString (Some sample_session) 1 NewInMemoryRepository =
         (Inl e, NewInMemoryRepository) \<and> \<not> errors_Is e ErrNotFound"
  using missing_entities[of NewInMemoryRepository "''s''" "''w''" _ _ _ _ _ hex_EncodeToString _ _ _ _ 1 _ _ sample_session]
  by (simp add: NewInMemoryRepository_def sample_session_def NewSession_def)

end
