(* ===== verification/Sds_Session_Service.thy ===== *)
theory Sds_Session_Service
  imports Sds_Lifecycle
begin

text \<open>
  The session service (\<open>provider/session\<close>): worker slots per payer, borrowed and returned by the
  streaming plugin, and the keep-alive of a session. The interface \<open>worker_ledger\<close> states what
  the service relies on of the worker rows and quota counters; it is interpreted on the
  in-memory repository.
\<close>

subsection \<open>Quota configuration\<close>

record PayerQuota =
  pq_MaxConcurrentSessions :: int
  pq_MaxWorkersPerSession :: int

record QuotaConfig =
  DefaultMaxConcurrentSessions :: int
  DefaultMaxWorkersPerSession :: int
  PerPayerOverrides :: "string \<rightharpoonup> PayerQuota"

definition DefaultQuotaConfig :: QuotaConfig where
  "DefaultQuotaConfig =
     \<lparr>DefaultMaxConcurrentSessions = 10, DefaultMaxWorkersPerSession = 5,
      PerPayerOverrides = Map.empty\<rparr>"

definition MaxConcurrentSessions :: "QuotaConfig \<Rightarrow> string \<Rightarrow> int" where
  "MaxConcurrentSessions c payer =
     (case PerPayerOverrides c payer of
        Some override \<Rightarrow> pq_MaxConcurrentSessions override
      | None \<Rightarrow> DefaultMaxConcurrentSessions c)"

definition MaxWorkersPerSession :: "QuotaConfig \<Rightarrow> string \<Rightarrow> int" where
  "MaxWorkersPerSession c payer =
     (case PerPayerOverrides c payer of
        Some override \<Rightarrow> pq_MaxWorkersPerSession override
      | None \<Rightarrow> DefaultMaxWorkersPerSession c)"

subsection \<open>The service\<close>

datatype BorrowStatus = BORROW_STATUS_UNSPECIFIED | BORROW_STATUS_BORROWED | BORROW_STATUS_RESOURCE_EXHAUSTED | BorrowStatus_unnamed int

record BorrowWorkerResponse =
  bw_WorkerKey :: string
  bw_Status :: BorrowStatus
  bw_MaxWorkers :: int
  bw_ActiveWorkers :: int

type_synonym new_address = "string \<Rightarrow> address result"

definition status_string :: "SessionStatus \<Rightarrow> string" where
  "status_string s =
     (case s of SessionStatusActive \<Rightarrow> ''active'' | SessionStatusPaused \<Rightarrow> ''paused''
      | SessionStatusTerminated \<Rightarrow> ''terminated'')"

definition sessionStateError :: "Session \<Rightarrow> connect_code \<times> go_error" where
  "sessionStateError session =
     (if ses_EndReason session = END_REASON_PAYMENT_ISSUE
      then (CodeResourceExhausted, Errorf ''session ended due to payment issue'' [] None)
      else (CodePermissionDenied,
            Errorf ''session is not active (status: %s)'' [status_string (ses_Status session)] None))"

definition authorizeSession ::
  "pretty_fun \<Rightarrow> string \<Rightarrow> address \<Rightarrow> InMemoryRepository \<Rightarrow> Session rpc" where
  "authorizeSession pretty sessionID payer r =
     (case SessionGet sessionID r of
        Inl err \<Rightarrow>
          if errors_Is err ErrNotFound
          then Inl (CodePermissionDenied, Errorf ''session not found'' [] None)
          else Inl (CodeInternal, Errorf ''reading session: %w'' [] (Some err))
      | Inr session \<Rightarrow>
          if pretty (ses_Payer session) \<noteq> pretty payer
          then Inl (CodePermissionDenied, Errorf ''session payer mismatch'' [] None)
          else if \<not> IsActive session then Inl (sessionStateError session)
          else Inr session)"

definition buildWorkerKey :: "string \<Rightarrow> string \<Rightarrow> time \<Rightarrow> string" where
  "buildWorkerKey payer traceID createdAt =
     payer @ ''|'' @ traceID @ ''|'' @ bigint_string (Some (UnixNano createdAt))"

definition max_workers :: "QuotaConfig \<Rightarrow> string \<Rightarrow> int" where
  "max_workers c payer = i64 (MaxWorkersPerSession c payer * MaxConcurrentSessions c payer)"

definition BorrowWorker ::
  "pretty_fun \<Rightarrow> new_address \<Rightarrow> QuotaConfig \<Rightarrow> string \<Rightarrow> string \<Rightarrow> time \<Rightarrow> InMemoryRepository \<Rightarrow>
   BorrowWorkerResponse rpc \<times> InMemoryRepository" where
  "BorrowWorker pretty newAddress c payerStr sessionID now r =
     (if payerStr = [] then
        (Inl (CodeInvalidArgument, Errorf ''organization_id is required'' [] None), r)
      else (case newAddress payerStr of
        Inl err \<Rightarrow>
          (Inl (CodeInvalidArgument, Errorf ''invalid organization_id address: %w'' [] (Some err)), r)
      | Inr payer \<Rightarrow>
          if sessionID = [] then
            (Inl (CodePermissionDenied, Errorf ''session_id not provided in request'' [] None), r)
          else (case authorizeSession pretty sessionID payer r of
            Inl e \<Rightarrow> (Inl e, r)
          | Inr _ \<Rightarrow>
              let maxWorkers = max_workers c payerStr;
                  workerKey = buildWorkerKey payerStr sessionID now;
                  worker = \<lparr>w_Key = workerKey, w_SessionID = sessionID, w_Payer = payer,
                            w_CreatedAt = now, w_TraceID = []\<rparr>
              in (case WorkerCreateAndReserveQuota pretty (Some worker) maxWorkers now r of
                    ((quota, Some err), r') \<Rightarrow>
                      if errors_Is err ErrQuotaExceeded then
                        (Inr \<lparr>bw_WorkerKey = [], bw_Status = BORROW_STATUS_RESOURCE_EXHAUSTED,
                              bw_MaxWorkers = maxWorkers,
                              bw_ActiveWorkers = q_ActiveWorkers (the quota)\<rparr>, r')
                      else (Inl (CodeInternal,
                              Errorf ''creating worker and reserving quota: %w'' [] (Some err)), r')
                  | ((quota, None), r') \<Rightarrow>
                      (Inr \<lparr>bw_WorkerKey = workerKey, bw_Status = BORROW_STATUS_BORROWED,
                            bw_MaxWorkers = maxWorkers,
                            bw_ActiveWorkers = q_ActiveWorkers (the quota)\<rparr>, r')))))"

text \<open>
  \<open>release_worker\<close> is the pair of calls that gives the slot back; a failure of the deletion is
  only logged. \<open>ctxDone\<close> says whether the request is cancelled while it waits for the minimal
  life of the worker; \<open>now\<close> is when the worker is looked up and \<open>later\<close> when the slot is released.
\<close>

definition release_worker :: "pretty_fun \<Rightarrow> string \<Rightarrow> address \<Rightarrow> time \<Rightarrow> InMemoryRepository \<Rightarrow> InMemoryRepository" where
  "release_worker pretty workerKey payer later r =
     QuotaDecrement pretty payer 0 1 later (snd (WorkerDelete workerKey r))"

definition ReturnWorker ::
  "pretty_fun \<Rightarrow> string \<Rightarrow> int option \<Rightarrow> bool \<Rightarrow> time \<Rightarrow> time \<Rightarrow> InMemoryRepository \<Rightarrow>
   unit rpc \<times> InMemoryRepository" where
  "ReturnWorker pretty workerKey minDuration ctxDone now later r =
     (if workerKey = [] then
        (Inl (CodeInvalidArgument, Errorf ''worker_key is required'' [] None), r)
      else (case WorkerGet workerKey r of
        Inl _ \<Rightarrow> (Inr (), r)
      | Inr worker \<Rightarrow>
          if (case minDuration of None \<Rightarrow> False | Some d \<Rightarrow> now - w_CreatedAt worker < d) \<and> ctxDone
          then (Inl (CodeDeadlineExceeded, Sentinel ''context done''), r)
          else (Inr (), release_worker pretty workerKey (w_Payer worker) later r)))"

definition KeepAlive ::
  "pretty_fun \<Rightarrow> string \<Rightarrow> time \<Rightarrow> InMemoryRepository \<Rightarrow> unit rpc \<times> InMemoryRepository" where
  "KeepAlive pretty workerKey now r =
     (if workerKey = [] then
        (Inl (CodeInvalidArgument, Errorf ''worker_key is required'' [] None), r)
      else (case WorkerGet workerKey r of
        Inl err \<Rightarrow>
          if errors_Is err ErrNotFound
          then (Inl (CodePermissionDenied, Errorf ''worker not found'' [] None), r)
          else (Inl (CodeInternal, Errorf ''reading worker: %w'' [] (Some err)), r)
      | Inr worker \<Rightarrow>
          (case authorizeSession pretty (w_SessionID worker) (w_Payer worker) r of
             Inl e \<Rightarrow> (Inl e, r)
           | Inr session \<Rightarrow> (Inr (), snd (SessionTouch (ses_ID session) now r)))))"

subsection \<open>The contract of worker rows and quota counters\<close>

text \<open>
  \<open>held r p\<close> are the keys of the workers of payer \<open>p\<close>, \<open>active r p\<close> the counter the limit is
  checked against. A client that reserves with a fixed limit per payer never sees more
  workers than the limit, and every release of a held key frees one slot.
\<close>

locale worker_ledger =
  fixes reserve :: "'w \<Rightarrow> int \<Rightarrow> 'r \<Rightarrow> bool \<times> 'r"
    and release :: "'k \<Rightarrow> 'r \<Rightarrow> 'r"
    and active :: "'r \<Rightarrow> 'p \<Rightarrow> int"
    and held :: "'r \<Rightarrow> 'p \<Rightarrow> 'k set"
    and payer_of :: "'w \<Rightarrow> 'p"
    and key_of :: "'w \<Rightarrow> 'k"
    and inv :: "'r \<Rightarrow> bool"
    and cap :: int
  assumes reserve_inv: "inv r \<Longrightarrow> m \<le> cap \<Longrightarrow> inv (snd (reserve w m r))"
    and release_inv: "inv r \<Longrightarrow> inv (release k r)"
    and balanced: "inv r \<Longrightarrow> active r p = int (card (held r p))"
    and held_finite: "inv r \<Longrightarrow> finite (held r p)"
    and reserve_granted: "inv r \<Longrightarrow> m \<le> cap \<Longrightarrow> fst (reserve w m r) \<Longrightarrow>
      held (snd (reserve w m r)) p = (if p = payer_of w then insert (key_of w) (held r p) else held r p)
      \<and> key_of w \<notin> held r p"
    and reserve_limit: "inv r \<Longrightarrow> m \<le> cap \<Longrightarrow> fst (reserve w m r) \<Longrightarrow>
      active (snd (reserve w m r)) (payer_of w) \<le> m"
    and reserve_refused: "\<not> fst (reserve w m r) \<Longrightarrow> snd (reserve w m r) = r"
    and release_held: "inv r \<Longrightarrow> held (release k r) p = held r p - {k}"
begin

text \<open>The invariant together with a limit on the counter of every payer.\<close>

definition within :: "('p \<Rightarrow> int) \<Rightarrow> 'r \<Rightarrow> bool" where
  "within lim r \<longleftrightarrow> inv r \<and> (\<forall>p. lim p \<le> cap \<and> active r p \<le> max 0 (lim p))"

lemma reserve_within:
  assumes "within lim r" "m \<le> lim (payer_of w)"
  shows "within lim (snd (reserve w m r))"
proof -
  have r: "inv r" "m \<le> cap" "\<And>p. lim p \<le> cap" "\<And>p. active r p \<le> max 0 (lim p)"
    using assms order_trans unfolding within_def by blast+
  have inv: "inv (snd (reserve w m r))" using r(1,2) by (rule reserve_inv)
  have "active (snd (reserve w m r)) p \<le> max 0 (lim p)" for p
  proof (cases "fst (reserve w m r)")
    case True
    show ?thesis
    proof (cases "p = payer_of w")
      case True
      then show ?thesis
        using reserve_limit[OF r(1,2) \<open>fst (reserve w m r)\<close>] assms(2) by simp
    next
      case False
      then have "held (snd (reserve w m r)) p = held r p"
        using reserve_granted[OF r(1,2) \<open>fst (reserve w m r)\<close>] by simp
      then show ?thesis using r(4) balanced[OF r(1)] balanced[OF inv] by metis
    qed
  next
    case False
    then show ?thesis using r(4) reserve_refused by metis
  qed
  then show ?thesis using inv r(3) by (simp add: within_def)
qed

lemma release_within:
  assumes "within lim r"
  shows "within lim (release k r)"
proof -
  have r: "inv r" "\<And>p. lim p \<le> cap" "\<And>p. active r p \<le> max 0 (lim p)"
    using assms unfolding within_def by blast+
  have inv: "inv (release k r)" using r(1) by (rule release_inv)
  have "active (release k r) p \<le> active r p" for p
  proof -
    have "card (held (release k r) p) \<le> card (held r p)"
      using release_held[OF r(1)] held_finite[OF r(1)] by (metis card_mono Diff_subset)
    then show ?thesis using balanced[OF r(1)] balanced[OF inv] by simp
  qed
  then show ?thesis using inv r(2,3) order_trans unfolding within_def by blast
qed

text \<open>A granted reservation followed by its release restores what the payer holds.\<close>

lemma reserve_release:
  assumes "inv r" "m \<le> cap" "fst (reserve w m r)"
  shows "held (release (key_of w) (snd (reserve w m r))) p = held r p"
  using reserve_granted[OF assms] release_held[OF reserve_inv[OF assms(1,2)]] by auto

end

subsection \<open>The in-memory repository keeps the contract\<close>

definition held_workers :: "pretty_fun \<Rightarrow> InMemoryRepository \<Rightarrow> string \<Rightarrow> string set" where
  "held_workers pretty r p = {k. \<exists>w. workers r k = Some w \<and> pretty (w_Payer w) = p}"

definition active_workers :: "InMemoryRepository \<Rightarrow> string \<Rightarrow> int" where
  "active_workers r p = (case quotas r p of None \<Rightarrow> 0 | Some q \<Rightarrow> q_ActiveWorkers q)"

definition quota_inv :: "pretty_fun \<Rightarrow> int \<Rightarrow> InMemoryRepository \<Rightarrow> bool" where
  "quota_inv pretty limit r \<longleftrightarrow>
     0 \<le> limit \<and> limit < 2 ^ 63 - 1 \<and> finite (dom (workers r)) \<and>
     (\<forall>p. active_workers r p = int (card (held_workers pretty r p)) \<and> active_workers r p \<le> limit)"

definition reserve_slot :: "pretty_fun \<Rightarrow> time \<Rightarrow> Worker \<Rightarrow> int \<Rightarrow> InMemoryRepository \<Rightarrow> bool \<times> InMemoryRepository" where
  "reserve_slot pretty now w m r =
     (case WorkerCreateAndReserveQuota pretty (Some w) m now r of
        ((_, err), r') \<Rightarrow> (err = None, r'))"

definition release_slot :: "pretty_fun \<Rightarrow> time \<Rightarrow> string \<Rightarrow> InMemoryRepository \<Rightarrow> InMemoryRepository" where
  "release_slot pretty later k r =
     (case workers r k of None \<Rightarrow> r | Some w \<Rightarrow> release_worker pretty k (w_Payer w) later r)"

lemma held_workers_finite: "finite (dom (workers r)) \<Longrightarrow> finite (held_workers pretty r p)"
  by (rule finite_subset[of _ "dom (workers r)"]) (auto simp: held_workers_def)

lemma quota_invD:
  assumes "quota_inv pretty limit r"
  shows "active_workers r p = int (card (held_workers pretty r p))" "active_workers r p \<le> limit"
    "finite (held_workers pretty r p)" "finite (dom (workers r))" "0 \<le> limit" "limit < 2 ^ 63 - 1"
  using assms held_workers_finite unfolding quota_inv_def by blast+

lemma quota_invI:
  assumes "\<And>p. active_workers r p = int (card (held_workers pretty r p))"
    "\<And>p. active_workers r p \<le> limit" "finite (dom (workers r))" "0 \<le> limit" "limit < 2 ^ 63 - 1"
  shows "quota_inv pretty limit r"
  using assms unfolding quota_inv_def by blast

lemma held_workers_put:
  "workers r (w_Key w) = None \<Longrightarrow>
   held_workers pretty (put_quota k q (put_worker w r)) p =
     (if p = pretty (w_Payer w) then insert (w_Key w) (held_workers pretty r p) else held_workers pretty r p)"
  by (auto simp: held_workers_def)

lemma reserve_slot_granted:
  assumes inv: "quota_inv pretty limit r" and m: "m \<le> limit" and ok: "fst (reserve_slot pretty now w m r)"
  shows "workers r (w_Key w) = None"
    "\<exists>q. q_ActiveWorkers q = active_workers r (pretty (w_Payer w)) + 1 \<and> q_ActiveWorkers q \<le> m \<and>
       snd (reserve_slot pretty now w m r) = put_quota (pretty (w_Payer w)) q (put_worker w r)"
proof -
  let ?p = "pretty (w_Payer w)"
  have i64: "i64 (active_workers r ?p + 1) = active_workers r ?p + 1"
    using quota_invD(1,2)[OF inv, of ?p] quota_invD(6)[OF inv] by (intro i64_id) (simp add: in_i64_def)
  show new: "workers r (w_Key w) = None"
    using ok by (auto simp: reserve_slot_def WorkerCreateAndReserveQuota_def split: if_splits)
  show "\<exists>q. q_ActiveWorkers q = active_workers r ?p + 1 \<and> q_ActiveWorkers q \<le> m \<and>
      snd (reserve_slot pretty now w m r) = put_quota ?p q (put_worker w r)"
    using ok new i64
    by (intro exI[of _ "the (quotas (snd (reserve_slot pretty now w m r)) ?p)"])
      (auto simp: reserve_slot_def WorkerCreateAndReserveQuota_def empty_quota_def active_workers_def
        Let_def split: if_splits option.splits)
qed

lemma reserve_slot_refused: "\<not> fst (reserve_slot pretty now w m r) \<Longrightarrow> snd (reserve_slot pretty now w m r) = r"
  by (auto simp: reserve_slot_def WorkerCreateAndReserveQuota_def Let_def split: if_splits option.splits)

lemma active_workers_put:
  "active_workers (put_quota k q r) p = (if p = k then q_ActiveWorkers q else active_workers r p)"
  "active_workers (put_worker w r) p = active_workers r p"
  by (simp_all add: active_workers_def)

lemma reserve_slot_inv:
  assumes inv: "quota_inv pretty limit r" and m: "m \<le> limit"
  shows "quota_inv pretty limit (snd (reserve_slot pretty now w m r))"
proof (cases "fst (reserve_slot pretty now w m r)")
  case True
  note new = reserve_slot_granted(1)[OF inv m True]
  obtain q where q: "q_ActiveWorkers q = active_workers r (pretty (w_Payer w)) + 1" "q_ActiveWorkers q \<le> m"
      "snd (reserve_slot pretty now w m r) = put_quota (pretty (w_Payer w)) q (put_worker w r)"
    using reserve_slot_granted(2)[OF inv m True] by blast
  have nh: "w_Key w \<notin> held_workers pretty r p" for p using new by (simp add: held_workers_def)
  show ?thesis
    unfolding q(3)
  proof (rule quota_invI)
    fix p
    show "active_workers (put_quota (pretty (w_Payer w)) q (put_worker w r)) p =
        int (card (held_workers pretty (put_quota (pretty (w_Payer w)) q (put_worker w r)) p))"
      using q(1) quota_invD(1,3)[OF inv, of p] nh[of p]
      by (cases "p = pretty (w_Payer w)") (simp_all add: held_workers_put[OF new] active_workers_put)
    show "active_workers (put_quota (pretty (w_Payer w)) q (put_worker w r)) p \<le> limit"
      using q(2) m quota_invD(2)[OF inv, of p] by (simp add: active_workers_put)
  qed (use quota_invD(4-6)[OF inv] in simp_all)
next
  case False
  then show ?thesis using inv reserve_slot_refused by metis
qed

lemma release_slot_eq:
  assumes inv: "quota_inv pretty limit r" and w: "workers r k = Some w"
  shows "\<exists>q. q_ActiveWorkers q = active_workers r (pretty (w_Payer w)) - 1 \<and>
    release_slot pretty later k r =
      put_quota (pretty (w_Payer w)) q (r\<lparr>workers := (workers r)(k := None)\<rparr>)"
proof -
  let ?p = "pretty (w_Payer w)"
  have "k \<in> held_workers pretty r ?p" using w by (auto simp: held_workers_def)
  then have "0 < card (held_workers pretty r ?p)"
    using quota_invD(3)[OF inv] by (auto simp: card_gt_0_iff)
  then have pos: "0 < active_workers r ?p" "active_workers r ?p \<le> limit" "limit < 2 ^ 63 - 1"
    using quota_invD(1,2)[OF inv, of ?p] quota_invD(6)[OF inv] by simp_all
  then obtain q where q: "quotas r ?p = Some q" "active_workers r ?p = q_ActiveWorkers q"
    by (auto simp: active_workers_def split: option.splits)
  have "i64 (q_ActiveWorkers q - 1) = q_ActiveWorkers q - 1"
    using pos q(2) by (intro i64_id) (simp add: in_i64_def)
  then show ?thesis
    using w q pos(1)
    by (intro exI[of _ "the (quotas (release_slot pretty later k r) ?p)"])
      (simp add: release_slot_def release_worker_def WorkerDelete_def QuotaDecrement_def Let_def)
qed

lemma held_workers_delete:
  "held_workers pretty (r\<lparr>workers := (workers r)(k := None)\<rparr>) p = held_workers pretty r p - {k}"
  by (auto simp: held_workers_def)

lemma held_workers_put_quota [simp]: "held_workers pretty (put_quota k q r) p = held_workers pretty r p"
  by (simp add: held_workers_def)

lemma release_slot_held:
  assumes "quota_inv pretty limit r"
  shows "held_workers pretty (release_slot pretty later k r) p = held_workers pretty r p - {k}"
proof (cases "workers r k")
  case None
  then show ?thesis by (auto simp: release_slot_def held_workers_def)
next
  case (Some w)
  then obtain q where "release_slot pretty later k r =
      put_quota (pretty (w_Payer w)) q (r\<lparr>workers := (workers r)(k := None)\<rparr>)"
    using release_slot_eq[OF assms Some] by blast
  then show ?thesis by (simp add: held_workers_delete)
qed

lemma release_slot_inv:
  assumes inv: "quota_inv pretty limit r"
  shows "quota_inv pretty limit (release_slot pretty later k r)"
proof (cases "workers r k")
  case None
  then show ?thesis using inv by (simp add: release_slot_def)
next
  case (Some w)
  let ?p = "pretty (w_Payer w)"
  obtain q where q: "q_ActiveWorkers q = active_workers r ?p - 1"
      "release_slot pretty later k r = put_quota ?p q (r\<lparr>workers := (workers r)(k := None)\<rparr>)"
    using release_slot_eq[OF inv Some] by blast
  have "active_workers (release_slot pretty later k r) p =
      int (card (held_workers pretty (release_slot pretty later k r) p)) \<and>
      active_workers (release_slot pretty later k r) p \<le> limit" for p
  proof -
    have a: "active_workers (release_slot pretty later k r) p =
        (if p = ?p then active_workers r p - 1 else active_workers r p)"
      using q(1) unfolding q(2) by (simp add: active_workers_put) (simp add: active_workers_def)
    have k: "k \<in> held_workers pretty r p \<longleftrightarrow> p = ?p" using Some by (auto simp: held_workers_def)
    have c: "int (card (held_workers pretty r p - {k})) =
        int (card (held_workers pretty r p)) - (if p = ?p then 1 else 0)"
      using k card_Suc_Diff1[OF quota_invD(3)[OF inv], of k p] by (cases "p = ?p") simp_all
    show ?thesis
      using quota_invD(1,2)[OF inv, of p] unfolding a release_slot_held[OF inv] c
      by (cases "p = ?p") simp_all
  qed
  moreover have "finite (dom (workers (release_slot pretty later k r)))"
    using quota_invD(4)[OF inv] unfolding q(2) by simp
  ultimately show ?thesis using quota_invD(5,6)[OF inv] by (intro quota_invI) blast+
qed

interpretation slots: worker_ledger "reserve_slot pretty now" "release_slot pretty later" active_workers
  "held_workers pretty" "pretty \<circ> w_Payer" w_Key "quota_inv pretty limit" limit
  for pretty now later limit
proof
  fix r p assume inv: "quota_inv pretty limit r"
  show "active_workers r p = int (card (held_workers pretty r p))" "finite (held_workers pretty r p)"
    by (rule quota_invD[OF inv])+
  fix m w assume m: "m \<le> limit"
  show "quota_inv pretty limit (snd (reserve_slot pretty now w m r))"
    by (rule reserve_slot_inv[OF inv m])
  assume ok: "fst (reserve_slot pretty now w m r)"
  note new = reserve_slot_granted[OF inv m ok]
  show "held_workers pretty (snd (reserve_slot pretty now w m r)) p =
      (if p = (pretty \<circ> w_Payer) w then insert (w_Key w) (held_workers pretty r p)
       else held_workers pretty r p) \<and> w_Key w \<notin> held_workers pretty r p"
  proof -
    obtain q where "snd (reserve_slot pretty now w m r) = put_quota (pretty (w_Payer w)) q (put_worker w r)"
      using new(2) by blast
    then show ?thesis
      using held_workers_put[OF new(1)] new(1) by (simp add: held_workers_def)
  qed
  show "active_workers (snd (reserve_slot pretty now w m r)) ((pretty \<circ> w_Payer) w) \<le> m"
    using new(2) by (auto simp: active_workers_put)
qed (simp_all add: release_slot_inv release_slot_held reserve_slot_refused)

subsection \<open>The service against the contract\<close>

lemma BorrowWorker_effect:
  "snd (BorrowWorker pretty newAddress c payerStr sid now r) = r \<or>
   (\<exists>payer w. newAddress payerStr = Inr payer \<and> w_Payer w = payer \<and>
      snd (BorrowWorker pretty newAddress c payerStr sid now r) =
        snd (reserve_slot pretty now w (max_workers c payerStr) r))"
proof (cases "newAddress payerStr")
  case (Inr payer)
  let ?w = "\<lparr>w_Key = buildWorkerKey payerStr sid now, w_SessionID = sid, w_Payer = payer,
             w_CreatedAt = now, w_TraceID = []\<rparr>"
  have "snd (BorrowWorker pretty newAddress c payerStr sid now r) \<in>
      {r, snd (reserve_slot pretty now ?w (max_workers c payerStr) r)}"
    using Inr by (auto simp: BorrowWorker_def reserve_slot_def Let_def split: sum.splits prod.splits option.splits)
  moreover have "w_Payer ?w = payer" by simp
  ultimately show ?thesis using Inr by blast
qed (simp add: BorrowWorker_def)

lemma ReturnWorker_effect:
  "snd (ReturnWorker pretty k d done now later r) \<in> {r, release_slot pretty later k r}"
  by (auto simp: ReturnWorker_def WorkerGet_def release_slot_def split: option.splits sum.splits)

lemma KeepAlive_effect:
  "workers (snd (KeepAlive pretty k now r)) = workers r" "quotas (snd (KeepAlive pretty k now r)) = quotas r"
  by (auto simp: KeepAlive_def SessionTouch_def split: sum.splits option.splits)

text \<open>
  Calls of the session service in any order, between which the other components may change
  anything but worker rows and quota counters.
\<close>

inductive session_service_step ::
  "pretty_fun \<Rightarrow> new_address \<Rightarrow> QuotaConfig \<Rightarrow> InMemoryRepository \<Rightarrow> InMemoryRepository \<Rightarrow> bool"
  for pretty newAddress c where
  call_borrow: "session_service_step pretty newAddress c r
    (snd (BorrowWorker pretty newAddress c payerStr sid now r))"
| call_return: "session_service_step pretty newAddress c r (snd (ReturnWorker pretty k d done now later r))"
| call_keep_alive: "session_service_step pretty newAddress c r (snd (KeepAlive pretty k now r))"
| call_other: "workers r' = workers r \<Longrightarrow> quotas r' = quotas r \<Longrightarrow> session_service_step pretty newAddress c r r'"

lemma within_cong:
  assumes "workers r' = workers r" "quotas r' = quotas r"
  shows "slots.within pretty limit lim r' \<longleftrightarrow> slots.within pretty limit lim r"
proof -
  have "held_workers pretty r' = held_workers pretty r" "active_workers r' = active_workers r"
    using assms by (auto simp: held_workers_def active_workers_def fun_eq_iff)
  then show ?thesis using assms by (simp add: slots.within_def quota_inv_def)
qed

lemma session_service_step_within:
  assumes "session_service_step pretty newAddress c r r'"
    and "\<And>s a. newAddress s = Inr a \<Longrightarrow> max_workers c s \<le> lim (pretty a)"
    and "slots.within pretty limit lim r"
  shows "slots.within pretty limit lim r'"
  using assms(1)
proof cases
  case (call_borrow payerStr sid now)
  then show ?thesis
    using BorrowWorker_effect[of pretty newAddress c payerStr sid now r] assms(2,3)
      slots.reserve_within[OF assms(3)] by fastforce
next
  case (call_return k d done' now later)
  then show ?thesis
    using ReturnWorker_effect[of pretty k d done' now later r] slots.release_within[OF assms(3)] assms(3)
    by auto
next
  case (call_keep_alive k now)
  then show ?thesis using within_cong[OF KeepAlive_effect] assms(3) by simp
next
  case call_other
  then show ?thesis using within_cong assms(3) by blast
qed

lemma quota_inv_init: "0 \<le> limit \<Longrightarrow> limit < 2 ^ 63 - 1 \<Longrightarrow> quota_inv pretty limit NewInMemoryRepository"
  by (rule quota_invI) (simp_all add: NewInMemoryRepository_def active_workers_def held_workers_def)

lemma service_reach_within:
  assumes "(session_service_step pretty newAddress c)\<^sup>*\<^sup>* NewInMemoryRepository r"
    and "\<And>s a. newAddress s = Inr a \<Longrightarrow> max_workers c s \<le> lim (pretty a)"
    and "\<And>p. lim p \<le> limit" "0 \<le> limit" "limit < 2 ^ 63 - 1"
  shows "slots.within pretty limit lim r"
proof -
  have "slots.within pretty limit lim NewInMemoryRepository"
    using assms(3) quota_inv_init[OF assms(4,5)]
    by (simp add: slots.within_def active_workers_def NewInMemoryRepository_def)
  with assms(1) show ?thesis
    using session_service_step_within[where newAddress = newAddress and c = c and lim = lim] assms(2)
    by (induction rule: rtranclp_induct) blast+
qed


definition sample_address :: new_address where
  "sample_address s = (if s = ''p'' then Inr (replicate 20 2) else Inl (Errorf ''bad address'' [] None))"

definition sample_live :: InMemoryRepository where
  "sample_live = put_session ''s'' sample_session NewInMemoryRepository"

lemma sample_live_reached:
  "(session_service_step pretty newAddress c)\<^sup>*\<^sup>* NewInMemoryRepository sample_live"
  by (intro r_into_rtranclp call_other) (simp_all add: sample_live_def)


lemma authorizeSession_Inr:
  "authorizeSession pretty sid payer r = Inr s \<longleftrightarrow>
     sessions r sid = Some s \<and> pretty (ses_Payer s) = pretty payer \<and> IsActive s"
  by (auto simp: authorizeSession_def SessionGet_def split: option.splits if_splits)

lemma WorkerCreateAndReserveQuota_granted:
  assumes "WorkerCreateAndReserveQuota pretty (Some w) m now r = ((q, None), r')"
  shows "\<exists>u. q = Some u \<and> workers r (w_Key w) = None \<and> q_ActiveWorkers u \<le> m \<and>
    r' = put_quota (pretty (w_Payer w)) u (put_worker w r)"
  using assms
  by (auto simp: WorkerCreateAndReserveQuota_def Let_def not_less split: if_split_asm option.split_asm)

lemma WorkerCreateAndReserveQuota_exceeded:
  assumes "WorkerCreateAndReserveQuota pretty (Some w) m now r = ((q, Some e), r')"
    "errors_Is e ErrQuotaExceeded"
  shows "r' = r \<and> m < i64 (active_workers r (pretty (w_Payer w)) + 1)"
  using assms
  by (auto simp: WorkerCreateAndReserveQuota_def Let_def active_workers_def ErrQuotaExceeded_def in_i64_def
      split: if_split_asm option.split_asm)

text \<open>
  C17: Worker slots are granted only on a live session of the payer (\<open>BorrowWorker\<close>). A reply
  without error means the named session exists, is active and belongs to the payer. A granted
  slot is a worker row for that session and payer under the returned key and the reported
  counter is the stored one, within the limit; a refused slot changes nothing, and the payer
  was at the limit.
\<close>

theorem BorrowWorker_authorised:
  assumes "BorrowWorker pretty newAddress c payerStr sid now r = (Inr resp, r')"
  shows "\<exists>payer s. newAddress payerStr = Inr payer \<and> sessions r sid = Some s \<and> IsActive s \<and>
    pretty (ses_Payer s) = pretty payer \<and> sessions r' = sessions r \<and>
    bw_MaxWorkers resp = max_workers c payerStr \<and>
    (bw_Status resp = BORROW_STATUS_BORROWED \<longrightarrow>
       workers r (bw_WorkerKey resp) = None \<and>
       workers r' (bw_WorkerKey resp) =
         Some \<lparr>w_Key = bw_WorkerKey resp, w_SessionID = sid, w_Payer = payer, w_CreatedAt = now, w_TraceID = []\<rparr> \<and>
       bw_ActiveWorkers resp = active_workers r' (pretty payer) \<and>
       bw_ActiveWorkers resp \<le> max_workers c payerStr) \<and>
    (bw_Status resp = BORROW_STATUS_RESOURCE_EXHAUSTED \<longrightarrow>
       r' = r \<and> i64 (active_workers r (pretty payer) + 1) > max_workers c payerStr)"
proof -
  obtain payer s where ps: "newAddress payerStr = Inr payer"
      "authorizeSession pretty sid payer r = Inr s"
    using assms by (auto simp: BorrowWorker_def split: if_splits sum.splits)
  define w where "w = \<lparr>w_Key = buildWorkerKey payerStr sid now, w_SessionID = sid, w_Payer = payer,
      w_CreatedAt = now, w_TraceID = []\<rparr>"
  obtain q err where q: "WorkerCreateAndReserveQuota pretty (Some w) (max_workers c payerStr) now r = ((q, err), r')"
    and resp: "err = None \<and> resp = \<lparr>bw_WorkerKey = w_Key w, bw_Status = BORROW_STATUS_BORROWED,
          bw_MaxWorkers = max_workers c payerStr, bw_ActiveWorkers = q_ActiveWorkers (the q)\<rparr> \<or>
        (\<exists>e. err = Some e \<and> errors_Is e ErrQuotaExceeded \<and>
          resp = \<lparr>bw_WorkerKey = [], bw_Status = BORROW_STATUS_RESOURCE_EXHAUSTED,
            bw_MaxWorkers = max_workers c payerStr, bw_ActiveWorkers = q_ActiveWorkers (the q)\<rparr>)"
    using assms ps
    by (auto simp: BorrowWorker_def Let_def w_def split: if_splits prod.splits option.splits)
  have s: "sessions r sid = Some s \<and> pretty (ses_Payer s) = pretty payer \<and> IsActive s"
    using ps(2) by (simp add: authorizeSession_Inr)
  have ses: "sessions r' = sessions r"
    using arg_cong[OF q, of "\<lambda>x. sessions (snd x)"] by simp
  show ?thesis
  proof (cases err)
    case None
    obtain u where u: "q = Some u" "workers r (w_Key w) = None" "q_ActiveWorkers u \<le> max_workers c payerStr"
        "r' = put_quota (pretty (w_Payer w)) u (put_worker w r)"
      using WorkerCreateAndReserveQuota_granted q None by blast
    then show ?thesis
      using ps(1) s ses resp None by (intro exI[of _ payer] exI[of _ s]) (simp add: w_def active_workers_put)
  next
    case (Some e)
    then show ?thesis
      using ps(1) s ses resp WorkerCreateAndReserveQuota_exceeded[of pretty w "max_workers c payerStr" now r q e r'] q
      by (intro exI[of _ payer] exI[of _ s]) (auto simp: w_def)
  qed
qed

theorem BorrowWorker_authorised_witness:
  "\<exists>resp r'. BorrowWorker hex_EncodeToString sample_address DefaultQuotaConfig ''p'' ''s'' 5 sample_live =
      (Inr resp, r') \<and> sessions r' = sessions sample_live \<and> bw_ActiveWorkers resp \<le> 50"
proof -
  have m: "max_workers DefaultQuotaConfig s = 50" for s
    by (simp add: max_workers_def DefaultQuotaConfig_def MaxWorkersPerSession_def
        MaxConcurrentSessions_def in_i64_def)
  obtain resp r' where b: "BorrowWorker hex_EncodeToString sample_address DefaultQuotaConfig ''p'' ''s'' 5
      sample_live = (Inr resp, r')" "bw_Status resp = BORROW_STATUS_BORROWED"
    by (simp add: BorrowWorker_def sample_address_def authorizeSession_def SessionGet_def sample_live_def
        sample_session_def NewSession_def IsActive_def Let_def WorkerCreateAndReserveQuota_def
        NewInMemoryRepository_def m buildWorkerKey_def empty_quota_def)
  then show ?thesis using BorrowWorker_authorised[OF b(1)] m by auto
qed

text \<open>
  An override is missed under another spelling (\<open>BorrowWorker\<close>). The limit is looked up by the
  address as the request spells it, while the counter is kept by
  the printed form of the parsed address: with an override of one worker on the lower-case
  spelling, a payer that already holds a worker gets a second one by the other spelling.
\<close>

theorem quota_override_missed_by_spelling:
  "let newAddress = (\<lambda>s. if s = ''0xab'' \<or> s = ''0xAB'' then Inr (replicate 20 2) else Inl (Sentinel ''bad''));
       c = DefaultQuotaConfig\<lparr>PerPayerOverrides :=
             [''0xab'' \<mapsto> \<lparr>pq_MaxConcurrentSessions = 1, pq_MaxWorkersPerSession = 1\<rparr>]\<rparr>;
       r0 = put_session ''t'' sample_session sample_live;
       r1 = snd (BorrowWorker hex_EncodeToString newAddress c ''0xab'' ''s'' 5 r0)
   in (\<exists>resp. fst (BorrowWorker hex_EncodeToString newAddress c ''0xab'' ''t'' 6 r1) = Inr resp \<and>
         bw_Status resp = BORROW_STATUS_RESOURCE_EXHAUSTED) \<and>
      (\<exists>resp. fst (BorrowWorker hex_EncodeToString newAddress c ''0xAB'' ''s'' 6 r1) = Inr resp \<and>
         bw_Status resp = BORROW_STATUS_BORROWED \<and> bw_ActiveWorkers resp = 2)"
  by (simp add: BorrowWorker_def authorizeSession_def SessionGet_def sample_live_def
      sample_session_def NewSession_def IsActive_def Let_def WorkerCreateAndReserveQuota_def
      NewInMemoryRepository_def buildWorkerKey_def empty_quota_def max_workers_def DefaultQuotaConfig_def
      MaxWorkersPerSession_def MaxConcurrentSessions_def in_i64_def ErrQuotaExceeded_def)

end
