(* ===== verification/Sds_Concurrency.thy ===== *)
theory Sds_Concurrency
  imports Sds_Session_Service
begin

text \<open>
  Interleavings. The partial session updates of the in-memory repository
  (\<open>provider/repository/inmemory.go\<close>) run in loops: load the stored session, compute the next
  one, publish it with a compare-and-swap, retry when another update came first. The first
  part runs any number of such loops in every order and shows that each update is applied
  exactly once and that the loops end. The second part interleaves the three repository calls
  of \<open>ReturnWorker\<close> (\<open>provider/session/service.go\<close>).
\<close>

subsection \<open>Compare-and-swap loops\<close>

text \<open>
  The stored pointer is identified by a version: every successful swap publishes a freshly
  allocated value. A loop is before its load, between load and swap, or finished.
\<close>

datatype 'a cas_pc = Start | Loaded nat 'a | Finished

type_synonym 'a cas_state = "nat \<times> 'a \<times> 'a cas_pc list"

inductive cas_step :: "('a \<Rightarrow> 'a) list \<Rightarrow> 'a cas_state \<Rightarrow> 'a cas_state \<Rightarrow> bool" for fs where
  cas_load: "i < length pcs \<Longrightarrow> pcs ! i = Start \<Longrightarrow>
    cas_step fs (ver, x, pcs) (ver, x, pcs[i := Loaded ver x])"
| cas_swap: "i < length pcs \<Longrightarrow> pcs ! i = Loaded ver y \<Longrightarrow>
    cas_step fs (ver, x, pcs) (Suc ver, (fs ! i) y, pcs[i := Finished])"
| cas_retry: "i < length pcs \<Longrightarrow> pcs ! i = Loaded ver' y \<Longrightarrow> ver' \<noteq> ver \<Longrightarrow>
    cas_step fs (ver, x, pcs) (ver, x, pcs[i := Start])"


definition cas_init :: "('a \<Rightarrow> 'a) list \<Rightarrow> 'a \<Rightarrow> 'a cas_state" where
  "cas_init fs x0 = (0, x0, replicate (length fs) Start)"

definition all_finished :: "'a cas_state \<Rightarrow> bool" where
  "all_finished s \<longleftrightarrow> (\<forall>pc \<in> set (snd (snd s)). pc = Finished)"

text \<open>
  The stored value is the composition of the finished updates in the order of their swaps, and
  a loop whose version is current holds the stored value.
\<close>

definition cas_inv :: "('a \<Rightarrow> 'a) list \<Rightarrow> 'a \<Rightarrow> 'a cas_state \<Rightarrow> bool" where
  "cas_inv fs x0 s \<longleftrightarrow>
     (case s of (ver, x, pcs) \<Rightarrow>
        length pcs = length fs \<and>
        (\<exists>order. distinct order \<and> set order = {i. i < length pcs \<and> pcs ! i = Finished} \<and>
           x = fold (\<lambda>i. fs ! i) order x0) \<and>
        (\<forall>i < length pcs. \<forall>v y. pcs ! i = Loaded v y \<longrightarrow> v \<le> ver \<and> (v = ver \<longrightarrow> y = x)))"

lemma cas_inv_init: "cas_inv fs x0 (cas_init fs x0)"
  by (auto simp: cas_inv_def cas_init_def intro: exI[of _ "[]"])

lemma cas_invI:
  assumes "length pcs = length fs" "distinct order"
    "set order = {i. i < length pcs \<and> pcs ! i = Finished}" "x = fold (\<lambda>i. fs ! i) order x0"
    "\<And>i v y. i < length pcs \<Longrightarrow> pcs ! i = Loaded v y \<Longrightarrow> v \<le> ver \<and> (v = ver \<longrightarrow> y = x)"
  shows "cas_inv fs x0 (ver, x, pcs)"
  using assms unfolding cas_inv_def by auto

lemma cas_invE:
  assumes "cas_inv fs x0 (ver, x, pcs)"
  obtains order where "length pcs = length fs" "distinct order"
    "set order = {i. i < length pcs \<and> pcs ! i = Finished}" "x = fold (\<lambda>i. fs ! i) order x0"
    "\<And>i v y. i < length pcs \<Longrightarrow> pcs ! i = Loaded v y \<Longrightarrow> v \<le> ver \<and> (v = ver \<longrightarrow> y = x)"
  using assms unfolding cas_inv_def by auto

text \<open>Loads and retries finish nothing.\<close>

lemma finished_update:
  assumes "i < length pcs" "pcs ! i \<noteq> Finished" "pc \<noteq> Finished"
  shows "{j. j < length (pcs[i := pc]) \<and> pcs[i := pc] ! j = Finished} =
    {j. j < length pcs \<and> pcs ! j = Finished}"
  using assms by (auto simp: nth_list_update)

lemma cas_inv_step:
  assumes "cas_inv fs x0 s" "cas_step fs s s'"
  shows "cas_inv fs x0 s'"
  using assms(2)
proof cases
  case (cas_load i pcs ver x)
  obtain order where o: "length pcs = length fs" "distinct order"
      "set order = {i. i < length pcs \<and> pcs ! i = Finished}" "x = fold (\<lambda>i. fs ! i) order x0"
      "\<And>i v y. i < length pcs \<Longrightarrow> pcs ! i = Loaded v y \<Longrightarrow> v \<le> ver \<and> (v = ver \<longrightarrow> y = x)"
    using assms(1) unfolding cas_load(1) by (rule cas_invE) blast
  show ?thesis unfolding cas_load(2)
  proof (rule cas_invI[OF _ o(2) _ o(4)])
    fix j v y assume j: "j < length (pcs[i := Loaded ver x])" "pcs[i := Loaded ver x] ! j = Loaded v y"
    then show "v \<le> ver \<and> (v = ver \<longrightarrow> y = x)"
      using o(5)[of j v y] by (cases "j = i") simp_all
  qed (use o(1,3) finished_update[OF cas_load(3)] cas_load(4) in simp_all)
next
  case (cas_swap i pcs ver y x)
  obtain order where o: "length pcs = length fs" "distinct order"
      "set order = {i. i < length pcs \<and> pcs ! i = Finished}" "x = fold (\<lambda>i. fs ! i) order x0"
      "\<And>i v y. i < length pcs \<Longrightarrow> pcs ! i = Loaded v y \<Longrightarrow> v \<le> ver \<and> (v = ver \<longrightarrow> y = x)"
    using assms(1) unfolding cas_swap(1) by (rule cas_invE) blast
  have y: "y = x" using o(5)[OF cas_swap(3,4)] by simp
  show ?thesis unfolding cas_swap(2)
  proof (rule cas_invI[of _ _ "order @ [i]"])
    show "set (order @ [i]) = {j. j < length (pcs[i := Finished]) \<and> pcs[i := Finished] ! j = Finished}"
      using o(3) cas_swap(3) by (auto simp: nth_list_update)
    fix j v z assume j: "j < length (pcs[i := Finished])" "pcs[i := Finished] ! j = Loaded v z"
    then have "v \<le> ver" using o(5)[of j v z] by (cases "j = i") simp_all
    then show "v \<le> Suc ver \<and> (v = Suc ver \<longrightarrow> z = (fs ! i) y)" by simp
  qed (use o cas_swap(4) y in auto)
next
  case (cas_retry i pcs ver' y ver x)
  obtain order where o: "length pcs = length fs" "distinct order"
      "set order = {i. i < length pcs \<and> pcs ! i = Finished}" "x = fold (\<lambda>i. fs ! i) order x0"
      "\<And>i v y. i < length pcs \<Longrightarrow> pcs ! i = Loaded v y \<Longrightarrow> v \<le> ver \<and> (v = ver \<longrightarrow> y = x)"
    using assms(1) unfolding cas_retry(1) by (rule cas_invE) blast
  show ?thesis unfolding cas_retry(2)
  proof (rule cas_invI[OF _ o(2) _ o(4)])
    fix j v y assume j: "j < length (pcs[i := Start])" "pcs[i := Start] ! j = Loaded v y"
    then show "v \<le> ver \<and> (v = ver \<longrightarrow> y = x)"
      using o(5)[of j v y] by (cases "j = i") simp_all
  qed (use o(1,3) finished_update[OF cas_retry(3)] cas_retry(4) in simp_all)
qed

lemma cas_run_inv: "(cas_step fs)\<^sup>*\<^sup>* (cas_init fs x0) s \<Longrightarrow> cas_inv fs x0 s"
  by (induction rule: rtranclp_induct) (auto intro: cas_inv_init cas_inv_step)

text \<open>When every loop has finished, all updates have been applied, each once, in some order.\<close>

lemma cas_linearizes:
  assumes "(cas_step fs)\<^sup>*\<^sup>* (cas_init fs x0) (ver, x, pcs)" "all_finished (ver, x, pcs)"
  shows "\<exists>order. distinct order \<and> set order = {..<length fs} \<and> x = fold (\<lambda>i. fs ! i) order x0"
proof -
  obtain order where "distinct order" "set order = {i. i < length pcs \<and> pcs ! i = Finished}"
      "x = fold (\<lambda>i. fs ! i) order x0" "length pcs = length fs"
    using cas_run_inv[OF assms(1)] by (auto simp: cas_inv_def)
  moreover have "{i. i < length pcs \<and> pcs ! i = Finished} = {..<length pcs}"
    using assms(2) by (auto simp: all_finished_def)
  ultimately show ?thesis by metis
qed

subsection \<open>The loops end\<close>

definition cas_weight :: "nat \<Rightarrow> 'a cas_pc \<Rightarrow> nat" where
  "cas_weight ver pc =
     (case pc of Start \<Rightarrow> 1 | Loaded v _ \<Rightarrow> (if v = ver then 0 else 2) | Finished \<Rightarrow> 0)"

definition cas_measure :: "'a cas_state \<Rightarrow> nat \<times> nat" where
  "cas_measure s =
     (case s of (ver, x, pcs) \<Rightarrow>
        (length (filter (\<lambda>pc. pc \<noteq> Finished) pcs), sum_list (map (cas_weight ver) pcs)))"

lemma filter_update:
  "i < length xs \<Longrightarrow> length (filter P (xs[i := y])) + of_bool (P (xs ! i)) =
     length (filter P xs) + of_bool (P y)"
proof (induction xs arbitrary: i)
  case (Cons a xs)
  then show ?case by (cases i) auto
qed simp

lemma sum_weight_update:
  "i < length xs \<Longrightarrow> sum_list (map f (xs[i := y])) + f (xs ! i) = sum_list (map f xs) + (f y :: nat)"
proof (induction xs arbitrary: i)
  case (Cons a xs)
  then show ?case by (cases i) auto
qed simp

lemma cas_step_decreases:
  assumes "cas_step fs s s'"
  shows "(cas_measure s', cas_measure s) \<in> less_than <*lex*> less_than"
  using assms
proof cases
  case (cas_load i pcs ver x)
  then show ?thesis
    using filter_update[of i pcs "\<lambda>pc. pc \<noteq> Finished" "Loaded ver x"]
      sum_weight_update[of i pcs "cas_weight ver" "Loaded ver x"]
    by (simp add: cas_measure_def cas_weight_def)
next
  case (cas_swap i pcs ver y x)
  then show ?thesis
    using filter_update[of i pcs "\<lambda>pc. pc \<noteq> Finished" Finished] by (simp add: cas_measure_def)
next
  case (cas_retry i pcs ver' y ver x)
  then show ?thesis
    using filter_update[of i pcs "\<lambda>pc. pc \<noteq> Finished" Start]
      sum_weight_update[of i pcs "cas_weight ver" Start]
    by (simp add: cas_measure_def cas_weight_def)
qed

lemma cas_step_wf: "wfp (\<lambda>s' s. cas_step fs s s')"
proof -
  have "wf (inv_image (less_than <*lex*> less_than) (cas_measure :: 'a cas_state \<Rightarrow> nat \<times> nat))"
    by (intro wf_inv_image wf_lex_prod wf_less_than)
  then have "wf {(s', s :: 'a cas_state). cas_step fs s s'}"
    by (rule wf_subset) (auto dest: cas_step_decreases simp: inv_image_def)
  then show ?thesis by (simp add: wfp_def)
qed

lemma cas_progress: "\<not> all_finished s \<Longrightarrow> \<exists>s'. cas_step fs s s'"
proof -
  assume "\<not> all_finished s"
  obtain ver x pcs where s: "s = (ver, x, pcs)" by (cases s)
  obtain i where i: "i < length pcs" "pcs ! i \<noteq> Finished"
    using \<open>\<not> all_finished s\<close> by (auto simp: all_finished_def s in_set_conv_nth)
  show ?thesis
  proof (cases "pcs ! i")
    case Start
    show ?thesis unfolding s by (rule exI, rule cas_load[OF i(1) Start])
  next
    case (Loaded v y)
    show ?thesis
    proof (cases "v = ver")
      case True
      show ?thesis unfolding s by (rule exI, rule cas_swap[OF i(1) Loaded[unfolded True]])
    next
      case False
      show ?thesis unfolding s by (rule exI, rule cas_retry[OF i(1) Loaded False])
    qed
  qed (use i in simp)
qed

subsection \<open>Partial session updates\<close>

datatype session_update =
    UTouch time
  | URuntime SessionStatus "string \<rightharpoonup> string" "time option" EndReason time
  | UBaseline "SignedRAV option" u64 u64 u64 "int option" time
  | UApply UsageEvent int time

fun update_fn :: "session_update \<Rightarrow> Session \<Rightarrow> Session" where
  "update_fn (UTouch t) = touch_next t"
| "update_fn (URuntime status metadata endedAt endReason updatedAt) =
     runtime_next status metadata endedAt endReason updatedAt"
| "update_fn (UBaseline rav b y q c now) = baseline_next rav b y q c now"
| "update_fn (UApply u cost now) = apply_usage_next (Some u) (Some cost) now"

fun update_cost :: "session_update \<Rightarrow> int" where
  "update_cost (UApply u cost now) = cost"
| "update_cost _ = 0"

fun update_blocks :: "session_update \<Rightarrow> u64" where
  "update_blocks (UApply u cost now) = sanitizeUsageMetric (ue_Blocks u)"
| "update_blocks _ = 0"

lemma next_total_cost:
  "total_cost (touch_next t s) = total_cost s"
  "total_cost (runtime_next st md ended reason t s) = total_cost s"
  "total_cost (baseline_next rav b y q c now s) = total_cost s"
  "total_cost (apply_usage_next (Some u) (Some cost) now s) = total_cost s + cost"
  by (simp_all add: total_cost_def[of "touch_next t s"] total_cost_def[of "runtime_next st md ended reason t s"]
      total_cost_def[of "baseline_next rav b y q c now s"] touch_next_def runtime_next_def
      baseline_next_def apply_usage_next_def SanitizedTotals_def Let_def)
    (simp_all add: total_cost_def)

lemma next_blocks:
  "ses_BlocksProcessed (touch_next t s) = ses_BlocksProcessed s"
  "ses_BlocksProcessed (runtime_next st md ended reason t s) = ses_BlocksProcessed s"
  "ses_BlocksProcessed (baseline_next rav b y q c now s) = ses_BlocksProcessed s"
  "ses_BlocksProcessed (apply_usage_next (Some u) cost now s) =
     ses_BlocksProcessed s + sanitizeUsageMetric (ue_Blocks u)"
  by (simp_all add: touch_next_def runtime_next_def baseline_next_def apply_usage_next_def
      SanitizedTotals_def AddUsage_def Let_def)

lemma update_fn_effect:
  "total_cost (update_fn u s) = total_cost s + update_cost u"
  "ses_BlocksProcessed (update_fn u s) = ses_BlocksProcessed s + update_blocks u"
  "session_edge s (update_fn u s)"
  by (cases u; simp add: next_total_cost next_blocks session_edges)+

lemma update_fn_terminated:
  "ses_Status s = SessionStatusTerminated \<Longrightarrow> ses_Status (update_fn u s) = SessionStatusTerminated"
  using update_fn_effect(3)[of s u] by (simp add: session_edge_def)

lemma fold_updates:
  "total_cost (fold (\<lambda>i. update_fn (us ! i)) order s) =
     total_cost s + sum_list (map (\<lambda>i. update_cost (us ! i)) order)"
  "ses_BlocksProcessed (fold (\<lambda>i. update_fn (us ! i)) order s) =
     ses_BlocksProcessed s + sum_list (map (\<lambda>i. update_blocks (us ! i)) order)"
  "ses_Status s = SessionStatusTerminated \<Longrightarrow>
     ses_Status (fold (\<lambda>i. update_fn (us ! i)) order s) = SessionStatusTerminated"
  by (induction order arbitrary: s) (auto simp: update_fn_effect update_fn_terminated algebra_simps)

text \<open>Summing over every index once is summing over the list.\<close>

lemma sum_list_permuted:
  fixes g :: "'b \<Rightarrow> 'c :: comm_monoid_add"
  assumes "distinct order" "set order = {..<length us}"
  shows "sum_list (map (\<lambda>i. g (us ! i)) order) = sum_list (map g us)"
proof -
  have "sum_list (map (\<lambda>i. g (us ! i)) order) = (\<Sum>i<length us. g (us ! i))"
    using assms by (simp add: sum.distinct_set_conv_list[symmetric])
  then show ?thesis by (simp add: sum_list_sum_nth atLeast0LessThan)
qed


definition sample_updates :: "session_update list" where
  "sample_updates =
     [UApply \<lparr>ue_Timestamp = 1, ue_Blocks = 3, ue_Bytes = 0, ue_Requests = 0\<rparr> 15 2, UTouch 9]"

text \<open>Both loops load first; the keep-alive swaps first, so the usage report has to retry.\<close>

lemma sample_interleaving:
  "\<exists>x. (cas_step (map update_fn sample_updates))\<^sup>*\<^sup>*
     (cas_init (map update_fn sample_updates) sample_session) (2, x, [Finished, Finished])"
proof -
  let ?fs = "map update_fn sample_updates" and ?s = "sample_session"
  have s1: "cas_step ?fs (0, ?s, [Start, Start]) (0, ?s, [Loaded 0 ?s, Start])"
    using cas_load[of 0 "[Start, Start]" ?fs 0 ?s] by simp
  have s2: "cas_step ?fs (0, ?s, [Loaded 0 ?s, Start]) (0, ?s, [Loaded 0 ?s, Loaded 0 ?s])"
    using cas_load[of 1 "[Loaded 0 ?s, Start]" ?fs 0 ?s] by simp
  have s3: "cas_step ?fs (0, ?s, [Loaded 0 ?s, Loaded 0 ?s]) (1, (?fs ! 1) ?s, [Loaded 0 ?s, Finished])"
    using cas_swap[of 1 "[Loaded 0 ?s, Loaded 0 ?s]" 0 ?s ?fs ?s] by simp
  have s4: "cas_step ?fs (1, (?fs ! 1) ?s, [Loaded 0 ?s, Finished]) (1, (?fs ! 1) ?s, [Start, Finished])"
    using cas_retry[of 0 "[Loaded 0 ?s, Finished]" 0 ?s 1 ?fs "(?fs ! 1) ?s"] by simp
  have s5: "cas_step ?fs (1, (?fs ! 1) ?s, [Start, Finished])
      (1, (?fs ! 1) ?s, [Loaded 1 ((?fs ! 1) ?s), Finished])"
    using cas_load[of 0 "[Start, Finished]" ?fs 1 "(?fs ! 1) ?s"] by simp
  have s6: "cas_step ?fs (1, (?fs ! 1) ?s, [Loaded 1 ((?fs ! 1) ?s), Finished])
      (2, (?fs ! 0) ((?fs ! 1) ?s), [Finished, Finished])"
    using cas_swap[of 0 "[Loaded 1 ((?fs ! 1) ?s), Finished]" 1 "(?fs ! 1) ?s" ?fs "(?fs ! 1) ?s"]
    by (simp add: numeral_2_eq_2)
  have init: "cas_init ?fs ?s = (0, ?s, [Start, Start])"
    by (simp add: cas_init_def sample_updates_def)
  note run = rtranclp.rtrancl_into_rtrancl[where r = "cas_step ?fs"]
  show ?thesis unfolding init
    by (rule exI, rule run[OF run[OF run[OF run[OF run[OF run[OF rtranclp.rtrancl_refl s1] s2] s3] s4] s5] s6])
qed


subsection \<open>Returning workers concurrently\<close>

text \<open>
  Requests to return workers, each between its lookup, its deletion and its decrement of the
  counter; \<open>ks\<close> are the worker keys they return.
\<close>

datatype return_pc = Lookup | Deleting address | Releasing address | Returned

inductive return_step ::
  "pretty_fun \<Rightarrow> time \<Rightarrow> string list \<Rightarrow> InMemoryRepository \<times> return_pc list \<Rightarrow>
   InMemoryRepository \<times> return_pc list \<Rightarrow> bool" for pretty now ks where
  ret_found: "i < length pcs \<Longrightarrow> pcs ! i = Lookup \<Longrightarrow> WorkerGet (ks ! i) r = Inr w \<Longrightarrow>
    return_step pretty now ks (r, pcs) (r, pcs[i := Deleting (w_Payer w)])"
| ret_missing: "i < length pcs \<Longrightarrow> pcs ! i = Lookup \<Longrightarrow> WorkerGet (ks ! i) r = Inl e \<Longrightarrow>
    return_step pretty now ks (r, pcs) (r, pcs[i := Returned])"
| ret_delete: "i < length pcs \<Longrightarrow> pcs ! i = Deleting p \<Longrightarrow>
    return_step pretty now ks (r, pcs) (snd (WorkerDelete (ks ! i) r), pcs[i := Releasing p])"
| ret_release: "i < length pcs \<Longrightarrow> pcs ! i = Releasing p \<Longrightarrow>
    return_step pretty now ks (r, pcs) (QuotaDecrement pretty p 0 1 now r, pcs[i := Returned])"

definition is_releasing :: "pretty_fun \<Rightarrow> string \<Rightarrow> return_pc \<Rightarrow> bool" where
  "is_releasing pretty p pc = (case pc of Releasing a \<Rightarrow> pretty a = p | _ \<Rightarrow> False)"

lemma is_releasing_simps [simp]:
  "\<not> is_releasing pretty p Lookup" "\<not> is_releasing pretty p (Deleting a)"
  "is_releasing pretty p (Releasing a) \<longleftrightarrow> pretty a = p" "\<not> is_releasing pretty p Returned"
  by (simp_all add: is_releasing_def)

definition releasing :: "pretty_fun \<Rightarrow> return_pc list \<Rightarrow> string \<Rightarrow> nat" where
  "releasing pretty pcs p = length (filter (is_releasing pretty p) pcs)"

lemma releasing_update:
  "i < length pcs \<Longrightarrow> releasing pretty (pcs[i := pc]) p + of_bool (is_releasing pretty p (pcs ! i)) =
     releasing pretty pcs p + of_bool (is_releasing pretty p pc)"
  unfolding releasing_def by (rule filter_update)

text \<open>The counter is the number of rows plus the requests that have deleted but not yet counted down.\<close>

definition return_inv ::
  "pretty_fun \<Rightarrow> int \<Rightarrow> string list \<Rightarrow> InMemoryRepository \<times> return_pc list \<Rightarrow> bool" where
  "return_inv pretty limit ks s \<longleftrightarrow>
     (case s of (r, pcs) \<Rightarrow>
        length pcs = length ks \<and> finite (dom (workers r)) \<and> limit < 2 ^ 63 - 1 \<and>
        (\<forall>p. active_workers r p = int (card (held_workers pretty r p) + releasing pretty pcs p)) \<and>
        (\<forall>p. active_workers r p \<le> limit) \<and>
        (\<forall>i < length pcs. \<forall>a. pcs ! i = Deleting a \<longrightarrow> (\<exists>w. workers r (ks ! i) = Some w \<and> w_Payer w = a)))"

lemma return_invI:
  assumes "length pcs = length ks" "finite (dom (workers r))" "limit < 2 ^ 63 - 1"
    "\<And>p. active_workers r p = int (card (held_workers pretty r p) + releasing pretty pcs p)"
    "\<And>p. active_workers r p \<le> limit"
    "\<And>i a. i < length pcs \<Longrightarrow> pcs ! i = Deleting a \<Longrightarrow> \<exists>w. workers r (ks ! i) = Some w \<and> w_Payer w = a"
  shows "return_inv pretty limit ks (r, pcs)"
  using assms unfolding return_inv_def by simp

lemma return_invD:
  assumes "return_inv pretty limit ks (r, pcs)"
  shows "length pcs = length ks" "finite (dom (workers r))" "limit < 2 ^ 63 - 1"
    "active_workers r p = int (card (held_workers pretty r p) + releasing pretty pcs p)"
    "active_workers r p \<le> limit"
    "i < length pcs \<Longrightarrow> pcs ! i = Deleting a \<Longrightarrow> \<exists>w. workers r (ks ! i) = Some w \<and> w_Payer w = a"
  using assms unfolding return_inv_def prod.case by blast+

lemma return_inv_idle:
  assumes "return_inv pretty limit ks (r, pcs)" "i < length pcs" "pcs ! i = Lookup"
    "\<And>p. \<not> is_releasing pretty p pc"
    "\<And>a. pc = Deleting a \<Longrightarrow> \<exists>w. workers r (ks ! i) = Some w \<and> w_Payer w = a"
  shows "return_inv pretty limit ks (r, pcs[i := pc])"
proof (rule return_invI)
  fix p show "active_workers r p = int (card (held_workers pretty r p) + releasing pretty (pcs[i := pc]) p)"
    using return_invD(4)[OF assms(1), of p] releasing_update[OF assms(2), of pretty pc p] assms(3,4) by simp
  show "active_workers r p \<le> limit" by (rule return_invD(5)[OF assms(1)])
next
  fix j a assume "j < length (pcs[i := pc])" "pcs[i := pc] ! j = Deleting a"
  then show "\<exists>w. workers r (ks ! j) = Some w \<and> w_Payer w = a"
    using assms(5) return_invD(6)[OF assms(1), of j a] by (cases "j = i") (simp_all add: assms(2))
qed (use return_invD(1-3)[OF assms(1)] in simp_all)

lemma WorkerDelete_effect:
  "workers r k = Some w \<Longrightarrow> snd (WorkerDelete k r) = r\<lparr>workers := (workers r)(k := None)\<rparr>"
  by (simp add: WorkerDelete_def)

lemma return_inv_delete:
  assumes inv: "return_inv pretty limit ks (r, pcs)" and dist: "distinct ks"
    and i: "i < length pcs" "pcs ! i = Deleting a"
  shows "return_inv pretty limit ks (snd (WorkerDelete (ks ! i) r), pcs[i := Releasing a])"
proof -
  obtain w where w: "workers r (ks ! i) = Some w" "w_Payer w = a"
    using return_invD(6)[OF inv i] by blast
  show ?thesis unfolding WorkerDelete_effect[OF w(1)]
  proof (rule return_invI)
    fix p
    have fin: "finite (held_workers pretty r p)" by (rule held_workers_finite[OF return_invD(2)[OF inv]])
    have "ks ! i \<in> held_workers pretty r p \<longleftrightarrow> pretty a = p" using w by (auto simp: held_workers_def)
    then have "card (held_workers pretty r p - {ks ! i}) + of_bool (pretty a = p) = card (held_workers pretty r p)"
      using card_Suc_Diff1[OF fin, of "ks ! i"] by (cases "pretty a = p") simp_all
    then show "active_workers (r\<lparr>workers := (workers r)(ks ! i := None)\<rparr>) p =
        int (card (held_workers pretty (r\<lparr>workers := (workers r)(ks ! i := None)\<rparr>) p) +
          releasing pretty (pcs[i := Releasing a]) p)"
      using return_invD(4)[OF inv, of p] releasing_update[OF i(1), of pretty "Releasing a" p] i(2)
      by (cases "pretty a = p") (simp_all add: held_workers_delete active_workers_def)
    show "active_workers (r\<lparr>workers := (workers r)(ks ! i := None)\<rparr>) p \<le> limit"
      using return_invD(5)[OF inv, of p] by (simp add: active_workers_def)
  next
    fix j b assume j: "j < length (pcs[i := Releasing a])" "pcs[i := Releasing a] ! j = Deleting b"
    then have "j \<noteq> i" using i(1) by auto
    moreover have "ks ! j \<noteq> ks ! i"
      using \<open>j \<noteq> i\<close> j(1) i(1) return_invD(1)[OF inv] dist by (simp add: nth_eq_iff_index_eq)
    ultimately show "\<exists>w. workers (r\<lparr>workers := (workers r)(ks ! i := None)\<rparr>) (ks ! j) = Some w \<and> w_Payer w = b"
      using return_invD(6)[OF inv, of j b] j by simp
  qed (use return_invD(1-3)[OF inv] in simp_all)
qed

lemma return_inv_release:
  assumes inv: "return_inv pretty limit ks (r, pcs)" and i: "i < length pcs" "pcs ! i = Releasing a"
  shows "return_inv pretty limit ks (QuotaDecrement pretty a 0 1 now r, pcs[i := Returned])"
proof -
  let ?r = "QuotaDecrement pretty a 0 1 now r"
  have "is_releasing pretty (pretty a) (pcs ! i)" using i(2) by simp
  then have "0 < releasing pretty pcs (pretty a)"
    using nth_mem[OF i(1)] unfolding releasing_def by (auto simp: filter_empty_conv)
  then have pos: "0 < active_workers r (pretty a)" "active_workers r (pretty a) \<le> limit" "limit < 2 ^ 63 - 1"
    using return_invD(4,5)[OF inv, of "pretty a"] return_invD(3)[OF inv] by simp_all
  then obtain q where q: "quotas r (pretty a) = Some q" "active_workers r (pretty a) = q_ActiveWorkers q"
    by (auto simp: active_workers_def split: option.splits)
  have i64: "i64 (q_ActiveWorkers q - 1) = q_ActiveWorkers q - 1"
    using pos q(2) by (intro i64_id) (simp add: in_i64_def)
  have act: "active_workers ?r p = active_workers r p - of_bool (pretty a = p)" for p
    using q i64 pos(1)
    by (cases "pretty a = p") (simp_all add: QuotaDecrement_def Let_def active_workers_put)
  have w: "workers ?r = workers r" by (simp add: QuotaDecrement_def Let_def split: option.splits)
  show ?thesis
  proof (rule return_invI)
    fix p
    have "held_workers pretty ?r p = held_workers pretty r p" using w by (simp add: held_workers_def)
    then show "active_workers ?r p =
        int (card (held_workers pretty ?r p) + releasing pretty (pcs[i := Returned]) p)"
      using return_invD(4)[OF inv, of p] releasing_update[OF i(1), of pretty Returned p] i(2)
      by (cases "pretty a = p") (simp_all add: act)
    show "active_workers ?r p \<le> limit"
      using return_invD(5)[OF inv, of p] by (cases "pretty a = p") (simp_all add: act)
  next
    fix j b assume j: "j < length (pcs[i := Returned])" "pcs[i := Returned] ! j = Deleting b"
    then show "\<exists>w. workers ?r (ks ! j) = Some w \<and> w_Payer w = b"
      using return_invD(6)[OF inv, of j b] unfolding w by (cases "j = i") simp_all
  qed (use return_invD(1-3)[OF inv] w in simp_all)
qed

lemma return_step_inv:
  assumes "return_step pretty now ks s s'" "distinct ks" "return_inv pretty limit ks s"
  shows "return_inv pretty limit ks s'"
  using assms(1)
proof cases
  case (ret_found i pcs r w)
  then show ?thesis using assms(3)
    by (auto intro!: return_inv_idle simp: WorkerGet_def split: option.splits)
next
  case (ret_missing i pcs r e)
  then show ?thesis using assms(3) by (auto intro!: return_inv_idle)
next
  case (ret_delete i pcs p r)
  then show ?thesis using assms(2,3) by (auto intro!: return_inv_delete)
next
  case (ret_release i pcs p r)
  then show ?thesis using assms(3) by (auto intro!: return_inv_release)
qed

lemma return_inv_init:
  assumes "quota_inv pretty limit r"
  shows "return_inv pretty limit ks (r, replicate (length ks) Lookup)"
proof (rule return_invI)
  fix p show "active_workers r p =
      int (card (held_workers pretty r p) + releasing pretty (replicate (length ks) Lookup) p)"
    using quota_invD(1)[OF assms] by (simp add: releasing_def)
qed (use quota_invD[OF assms] in simp_all)

text \<open>
  C34: Returning different workers at the same time keeps the quota sound (\<open>ReturnWorker\<close>). From a
  repository whose counters match its worker rows, in every interleaving of the lookups,
  deletions and decrements of requests for different workers, the counter of every payer is
  at any moment the number of its rows plus the requests between deletion and decrement, so
  it never undercounts; when all have returned it matches the rows again.
\<close>

theorem distinct_returns_balanced:
  assumes "quota_inv pretty limit r0" "distinct ks"
    and "(return_step pretty now ks)\<^sup>*\<^sup>* (r0, replicate (length ks) Lookup) (r, pcs)"
  shows "active_workers r p = int (card (held_workers pretty r p) + releasing pretty pcs p) \<and>
    ((\<forall>pc \<in> set pcs. pc = Returned) \<longrightarrow>
       active_workers r p = int (card (held_workers pretty r p)))"
proof -
  have "return_inv pretty limit ks (r, pcs)"
    using assms(3)
  proof (induction rule: rtranclp_induct)
    case base
    show ?case by (rule return_inv_init[OF assms(1)])
  next
    case (step s t)
    then show ?case using return_step_inv[OF step(2) assms(2)] by blast
  qed
  then have "active_workers r p = int (card (held_workers pretty r p) + releasing pretty pcs p)"
    by (rule return_invD(4))
  moreover have "releasing pretty pcs p = 0" if "\<forall>pc \<in> set pcs. pc = Returned"
    using that by (auto simp: releasing_def filter_empty_conv)
  ultimately show ?thesis by simp
qed

definition two_worker :: "string \<Rightarrow> Worker" where
  "two_worker k = \<lparr>w_Key = k, w_SessionID = ''s'', w_Payer = [2], w_CreatedAt = 1, w_TraceID = []\<rparr>"

definition two_workers :: InMemoryRepository where
  "two_workers =
     put_quota (hex_EncodeToString [2]) \<lparr>q_Payer = [2], q_ActiveSessions = 0, q_ActiveWorkers = 2, q_LastUpdated = 1\<rparr>
       (put_worker (two_worker ''k'') (put_worker (two_worker ''l'') NewInMemoryRepository))"

lemma two_workers_held:
  "held_workers hex_EncodeToString two_workers p = (if p = hex_EncodeToString [2] then {''k'', ''l''} else {})"
  by (auto simp: held_workers_def two_workers_def two_worker_def NewInMemoryRepository_def split: if_splits)

lemma two_workers_inv: "quota_inv hex_EncodeToString 50 two_workers"
proof (rule quota_invI)
  fix p
  show "active_workers two_workers p = int (card (held_workers hex_EncodeToString two_workers p))"
    unfolding two_workers_held
    by (simp add: two_workers_def active_workers_def NewInMemoryRepository_def)
  show "active_workers two_workers p \<le> 50"
    by (simp add: two_workers_def active_workers_def NewInMemoryRepository_def)
qed (simp_all add: two_workers_def NewInMemoryRepository_def)

theorem distinct_returns_balanced_witness:
  "active_workers (snd (WorkerDelete ''k'' two_workers)) (hex_EncodeToString [2]) =
     int (card (held_workers hex_EncodeToString (snd (WorkerDelete ''k'' two_workers)) (hex_EncodeToString [2])) + 1)"
proof -
  have found: "WorkerGet ''k'' two_workers = Inr (two_worker ''k'')"
    by (simp add: WorkerGet_def two_workers_def two_worker_def)
  have s1: "return_step hex_EncodeToString 9 [''k'', ''l''] (two_workers, [Lookup, Lookup])
      (two_workers, [Deleting [2], Lookup])"
    using ret_found[of 0 "[Lookup, Lookup]" "[''k'', ''l'']" two_workers "two_worker ''k''" hex_EncodeToString 9] found
    by (simp add: two_worker_def)
  have s2: "return_step hex_EncodeToString 9 [''k'', ''l''] (two_workers, [Deleting [2], Lookup])
      (snd (WorkerDelete ''k'' two_workers), [Releasing [2], Lookup])"
    using ret_delete[of 0 "[Deleting [2], Lookup]" "[2]" hex_EncodeToString 9 "[''k'', ''l'']" two_workers] by simp
  have "(return_step hex_EncodeToString 9 [''k'', ''l''])\<^sup>*\<^sup>*
      (two_workers, replicate (length [''k'', ''l'']) Lookup)
      (snd (WorkerDelete ''k'' two_workers), [Releasing [2], Lookup])"
    using s1 s2 by (simp add: numeral_2_eq_2)
  from distinct_returns_balanced[OF two_workers_inv _ this] show ?thesis by (simp add: releasing_def)
qed

text \<open>
  Returning the same worker twice at the same time frees a slot that is still in use
  (\<open>ReturnWorker\<close>, \<open>provider/session/service.go\<close>). The failed deletion of the second request is only
  logged and its decrement runs all the same: a payer that holds two workers ends with one
  worker row and a counter of zero.
\<close>

theorem double_return_undercounts:
  "\<exists>r. (return_step hex_EncodeToString 9 [''k'', ''k''])\<^sup>*\<^sup>* (two_workers, [Lookup, Lookup]) (r, [Returned, Returned]) \<and>
     quota_inv hex_EncodeToString 50 two_workers \<and>
     active_workers r (hex_EncodeToString [2]) = 0 \<and>
     card (held_workers hex_EncodeToString r (hex_EncodeToString [2])) = 1"
proof -
  let ?st = "return_step hex_EncodeToString 9 [''k'', ''k'']" and ?P = "hex_EncodeToString [2]"
  have found: "WorkerGet ''k'' two_workers = Inr (two_worker ''k'')"
    by (simp add: WorkerGet_def two_workers_def two_worker_def)
  define r1 where "r1 = two_workers\<lparr>workers := (workers two_workers)(''k'' := None)\<rparr>"
  define r2 where "r2 = QuotaDecrement hex_EncodeToString [2] 0 1 9 r1"
  define r3 where "r3 = QuotaDecrement hex_EncodeToString [2] 0 1 9 r2"
  have d: "snd (WorkerDelete ''k'' two_workers) = r1" "snd (WorkerDelete ''k'' r1) = r1"
    by (simp_all add: WorkerDelete_def r1_def two_workers_def two_worker_def)
  have s1: "?st (two_workers, [Lookup, Lookup]) (two_workers, [Deleting [2], Lookup])"
    using ret_found[of 0 "[Lookup, Lookup]" "[''k'', ''k'']" two_workers "two_worker ''k''" hex_EncodeToString 9] found
    by (simp add: two_worker_def)
  have s2: "?st (two_workers, [Deleting [2], Lookup]) (two_workers, [Deleting [2], Deleting [2]])"
    using ret_found[of 1 "[Deleting [2], Lookup]" "[''k'', ''k'']" two_workers "two_worker ''k''" hex_EncodeToString 9] found
    by (simp add: two_worker_def)
  have s3: "?st (two_workers, [Deleting [2], Deleting [2]]) (r1, [Releasing [2], Deleting [2]])"
    using ret_delete[of 0 "[Deleting [2], Deleting [2]]" "[2]" hex_EncodeToString 9 "[''k'', ''k'']" two_workers] d by simp
  have s4: "?st (r1, [Releasing [2], Deleting [2]]) (r1, [Releasing [2], Releasing [2]])"
    using ret_delete[of 1 "[Releasing [2], Deleting [2]]" "[2]" hex_EncodeToString 9 "[''k'', ''k'']" r1] d by simp
  have s5: "?st (r1, [Releasing [2], Releasing [2]]) (r2, [Returned, Releasing [2]])"
    using ret_release[of 0 "[Releasing [2], Releasing [2]]" "[2]" hex_EncodeToString 9 "[''k'', ''k'']" r1] by (simp add: r2_def)
  have s6: "?st (r2, [Returned, Releasing [2]]) (r3, [Returned, Returned])"
    using ret_release[of 1 "[Returned, Releasing [2]]" "[2]" hex_EncodeToString 9 "[''k'', ''k'']" r2] by (simp add: r3_def)
  note run = rtranclp.rtrancl_into_rtrancl[where r = ?st]
  have "?st\<^sup>*\<^sup>* (two_workers, [Lookup, Lookup]) (r3, [Returned, Returned])"
    by (rule run[OF run[OF run[OF run[OF run[OF run[OF rtranclp.rtrancl_refl s1] s2] s3] s4] s5] s6])
  moreover have "active_workers r3 ?P = 0"
    by (simp add: r3_def r2_def r1_def two_workers_def QuotaDecrement_def Let_def active_workers_def in_i64_def)
  moreover have "held_workers hex_EncodeToString r3 ?P = {''l''}"
    by (auto simp: held_workers_def r3_def r2_def r1_def QuotaDecrement_def Let_def two_workers_def
        two_worker_def NewInMemoryRepository_def split: option.splits if_splits)
  ultimately show ?thesis using two_workers_inv by fastforce
qed

end
