(* ===== verification/Sds_Lib.thy ===== *)
theory Sds_Lib
  imports Sds_InMemory
begin

text \<open>
  The third-party functions the services call, as one parameter: hashing, signing and signer
  recovery, the printed forms of an address and the readers of addresses, signatures and
  256-bit numbers. What the program relies on of them is \<open>lib_ok\<close>; \<open>lib_std\<close> is a concrete
  instance in which a signature carries the signer's address.
\<close>

record eth_lib =
  lib_keccak :: keccak_fun
  lib_recover :: recover_fun
  lib_sign :: sign_fun
  lib_pretty :: pretty_fun
  lib_String :: pretty_fun
  lib_fromBig :: from_big
  lib_newSig :: new_sig
  lib_newAddress :: "string \<Rightarrow> address result"

definition lib_ok :: "eth_lib \<Rightarrow> bool" where
  "lib_ok l \<longleftrightarrow> FromBig_ok (lib_fromBig l) \<and> NewSig_ok (lib_newSig l) \<and> Pretty_ok (lib_pretty l) \<and>
     Pretty_ok (lib_String l)"

lemma lib_okD:
  assumes "lib_ok l"
  shows "FromBig_ok (lib_fromBig l)" "NewSig_ok (lib_newSig l)" "Pretty_ok (lib_pretty l)"
    "Pretty_ok (lib_String l)"
  using assms by (simp_all add: lib_ok_def)

lemma lib_pretty_eq: "lib_ok l \<Longrightarrow> lib_pretty l a = lib_pretty l b \<longleftrightarrow> a = b"
  by (auto simp: lib_ok_def Pretty_ok_def inj_eq)

text \<open>A signature of \<open>lib_std\<close> is a recovery byte, the address of the signer and zeros.\<close>

definition std_signature :: "address \<Rightarrow> signature" where
  "std_signature a = 27 # a @ replicate (64 - length a) 0"

definition lib_std :: eth_lib where
  "lib_std =
     \<lparr>lib_keccak = (\<lambda>_. replicate 32 0), lib_recover = (\<lambda>sig _. Inr (take 20 (drop 1 sig))),
      lib_sign = (\<lambda>key _. Inr (std_signature key)), lib_pretty = hex_EncodeToString,
      lib_String = hex_EncodeToString, lib_fromBig = FromBig_std, lib_newSig = NewSig_std,
      lib_newAddress = (\<lambda>s. if length s = 20 then Inr (str_bytes s) else Inl (Sentinel ''invalid address''))\<rparr>"

lemma lib_std_sel [simp]:
  "lib_keccak lib_std = (\<lambda>_. replicate 32 0)" "lib_recover lib_std = (\<lambda>sig _. Inr (take 20 (drop 1 sig)))"
  "lib_sign lib_std = (\<lambda>key _. Inr (std_signature key))" "lib_pretty lib_std = hex_EncodeToString"
  "lib_String lib_std = hex_EncodeToString" "lib_fromBig lib_std = FromBig_std"
  "lib_newSig lib_std = NewSig_std"
  by (simp_all add: lib_std_def)

lemma lib_std_ok: "lib_ok lib_std"
  by (simp add: lib_ok_def FromBig_std_ok NewSig_std_ok hex_Pretty_ok)

lemma std_signature_props [simp]:
  "length a = 20 \<Longrightarrow> length (std_signature a) = 65"
  "length a = 20 \<Longrightarrow> take 20 (drop 1 (std_signature a)) = a"
  by (simp_all add: std_signature_def)

subsection \<open>Vouchers that can be hashed\<close>

lemma RAV_RecoverSigner_wf:
  assumes "Message sr = Some m" "wf_RAV m"
  shows "\<exists>h. RAV_RecoverSigner keccak recover d sr = Some (recover (Signature sr) h)"
  using assms by (auto simp: RAV_RecoverSigner_def RAV_hash_input)

lemma hex_eq_iff [simp]: "hex_EncodeToString a = hex_EncodeToString b \<longleftrightarrow> a = b"
  using hex_inj by blast

end
