(* ===== verification/Sds_Chain.thy ===== *)
theory Sds_Chain
  imports Sds_Lib
begin

text \<open>
  The two contract queries of the provider: whether a signer is authorised for a payer
  (\<open>sidecar/collector_querier.go\<close>) and the escrow balance of a payer
  (\<open>sidecar/escrow_querier.go\<close>). The node's \<open>eth_call\<close> is the parameter \<open>call\<close>, which answers a
  contract address and call data with a hexadecimal string; the encoder generated from the
  contract's interface is the parameter \<open>loadFn\<close>.
\<close>

subsection \<open>Hexadecimal answers\<close>

text \<open>\<open>hex.DecodeString\<close>: digits of either case, in pairs.\<close>

definition from_hex_char :: "char \<Rightarrow> nat option" where
  "from_hex_char c =
     (let n = of_char c :: nat in
      if 48 \<le> n \<and> n \<le> 57 then Some (n - 48)
      else if 97 \<le> n \<and> n \<le> 102 then Some (n - 87)
      else if 65 \<le> n \<and> n \<le> 70 then Some (n - 55)
      else None)"

fun hex_DecodeString :: "string \<Rightarrow> bytes result" where
  "hex_DecodeString [] = Inr []"
| "hex_DecodeString [c] =
     (case from_hex_char c of
        None \<Rightarrow> Inl (Sentinel ''invalid byte'')
      | Some _ \<Rightarrow> Inl (Sentinel ''odd length hex string''))"
| "hex_DecodeString (c # d # s) =
     (case (from_hex_char c, from_hex_char d) of
        (Some a, Some b) \<Rightarrow>
          (case hex_DecodeString s of
             Inl e \<Rightarrow> Inl e
           | Inr bs \<Rightarrow> Inr (word_of_nat (16 * a + b) # bs))
      | _ \<Rightarrow> Inl (Sentinel ''invalid byte''))"

definition strip0x :: "string \<Rightarrow> string" where
  "strip0x s = (if HasPrefix s ''0x'' then drop 2 s else s)"

subsection \<open>Queries\<close>

type_synonym eth_call = "address \<Rightarrow> bytes \<Rightarrow> string result"
type_synonym balance_fun = "address \<Rightarrow> address \<Rightarrow> address \<Rightarrow> int result"

text \<open>\<open>copy\<close> of an address into a field of twenty bytes of the call data.\<close>

definition copy20 :: "address \<Rightarrow> bytes" where
  "copy20 a = take 20 a @ replicate (20 - length a) 0"

definition isAuthorized_data :: "address \<Rightarrow> address \<Rightarrow> bytes" where
  "isAuthorized_data authorizer signer =
     [0x65, 0xe4, 0xad, 0x9e] @ replicate 12 0 @ copy20 authorizer @ replicate 12 0 @ copy20 signer"

definition IsAuthorized :: "eth_call \<Rightarrow> address \<Rightarrow> address \<Rightarrow> address \<Rightarrow> bool result" where
  "IsAuthorized call collectorAddr authorizer signer =
     (case call collectorAddr (isAuthorized_data authorizer signer) of
        Inl err \<Rightarrow> Inl (Errorf ''calling isAuthorized: %w'' [] (Some err))
      | Inr resultHex \<Rightarrow>
          (case hex_DecodeString (strip0x resultHex) of
             Inl err \<Rightarrow> Inl (Errorf ''decoding result: %w'' [] (Some err))
           | Inr resultBytes \<Rightarrow>
               if length resultBytes \<noteq> 32
               then Inl (Errorf ''unexpected result length: %d'' [dec_string (length resultBytes)] None)
               else Inr (resultBytes ! 31 = 1)))"

definition GetBalance ::
  "(address \<Rightarrow> address \<Rightarrow> address \<Rightarrow> bytes result) result \<Rightarrow> eth_call \<Rightarrow> address \<Rightarrow> balance_fun" where
  "GetBalance loadFn call escrowAddr payer collector receiver =
     (case loadFn of
        Inl err \<Rightarrow> Inl err
      | Inr encode \<Rightarrow>
          (case encode payer collector receiver of
             Inl err \<Rightarrow> Inl (Errorf ''encoding getBalance call: %w'' [] (Some err))
           | Inr data' \<Rightarrow>
               (case call escrowAddr data' of
                  Inl err \<Rightarrow> Inl (Errorf ''calling getBalance: %w'' [] (Some err))
                | Inr resultHex \<Rightarrow>
                    (case hex_DecodeString (strip0x resultHex) of
                       Inl err \<Rightarrow> Inl (Errorf ''decoding result: %w'' [] (Some err))
                     | Inr resultBytes \<Rightarrow>
                         if length resultBytes \<noteq> 32
                         then Inl (Errorf ''unexpected result length: %d''
                                     [dec_string (length resultBytes)] None)
                         else Inr (int (big_SetBytes resultBytes))))))"

subsection \<open>The answers are read back exactly\<close>

lemma from_hex_char_digit: "n < 16 \<Longrightarrow> from_hex_char (hex_digit n) = Some n"
  by (simp add: from_hex_char_def of_char_hex_digit)

lemma hex_roundtrip: "hex_DecodeString (hex_EncodeToString bs) = Inr bs"
proof (induction bs)
  case Nil
  show ?case by (simp add: hex_EncodeToString_def)
next
  case (Cons b bs)
  have lt: "unat b div 16 < 16" "unat b mod 16 < 16" using byte_less[of b] by (simp_all add: less_mult_imp_div_less)
  have "16 * (unat b div 16) + unat b mod 16 = unat b" by simp
  then have "word_of_nat (16 * (unat b div 16) + unat b mod 16) = b" by simp
  then show ?case
    using Cons by (simp add: hex_EncodeToString_def from_hex_char_digit[OF lt(1)] from_hex_char_digit[OF lt(2)])
qed

lemma strip0x_hex: "hex_DecodeString (strip0x (''0x'' @ hex_EncodeToString bs)) = Inr bs"
  by (simp add: strip0x_def HasPrefix_def hex_roundtrip)

lemma isAuthorized_data_abi:
  assumes "length a = 20" "length s = 20"
  shows "isAuthorized_data a s = [0x65, 0xe4, 0xad, 0x9e] @ padLeft a 32 @ padLeft s 32"
  using assms by (simp add: isAuthorized_data_def copy20_def padLeft_def)

text \<open>
  What the deployed contracts document: the collector answers \<open>isAuthorized(address,address)\<close> with
  one 32-byte word that is one or zero, the escrow answers \<open>getBalance\<close> with one 32-byte word.
\<close>

definition collector_contract :: "eth_call \<Rightarrow> address \<Rightarrow> (address \<Rightarrow> address \<Rightarrow> bool) \<Rightarrow> bool" where
  "collector_contract call addr auth \<longleftrightarrow>
     (\<forall>a s. length a = 20 \<and> length s = 20 \<longrightarrow>
        call addr ([0x65, 0xe4, 0xad, 0x9e] @ padLeft a 32 @ padLeft s 32) =
          Inr (''0x'' @ hex_EncodeToString (be32 (of_bool (auth a s)))))"

definition escrow_contract ::
  "(address \<Rightarrow> address \<Rightarrow> address \<Rightarrow> bytes result) \<Rightarrow> eth_call \<Rightarrow> address \<Rightarrow>
   (address \<Rightarrow> address \<Rightarrow> address \<Rightarrow> nat) \<Rightarrow> bool" where
  "escrow_contract encode call addr balance \<longleftrightarrow>
     (\<forall>p c r. \<exists>data. encode p c r = Inr data \<and> balance p c r < 2 ^ 256 \<and>
        call addr data = Inr (''0x'' @ hex_EncodeToString (be32 (balance p c r))))"

lemma last31: "length bs = 32 \<Longrightarrow> last bs = bs ! 31"
  by (cases "bs = []") (auto simp: last_conv_nth)

lemma be32_last: "be32 (of_bool b) ! 31 = (if b then 1 else 0)"
  by (cases b) (simp_all add: be32_def big_Bytes.simps nth_append)

text \<open>
  The contracts' answers reach the provider exactly (\<open>collector_querier.go\<close>, \<open>escrow_querier.go\<close>).
  The call data is the contract's encoding of the two addresses, the collector's word is read
  as the truth value it stands for and the escrow's word as the balance it stands for; and
  whatever a node answers, a balance is a number of at most 256 bits, and an answer that is not
  32 bytes of hexadecimal never authorises anybody.
\<close>

theorem chain_queries_exact:
  "(collector_contract call addr auth \<and> length a = 20 \<and> length s = 20 \<longrightarrow>
      IsAuthorized call addr a s = Inr (auth a s)) \<and>
   (escrow_contract encode call' escrow balance \<longrightarrow>
      GetBalance (Inr encode) call' escrow p c r = Inr (int (balance p c r))) \<and>
   (GetBalance loadFn call' escrow p c r = Inr v \<longrightarrow> 0 \<le> v \<and> v < 2 ^ 256) \<and>
   (IsAuthorized call addr a s = Inr True \<longrightarrow>
      (\<exists>answer bs. call addr (isAuthorized_data a s) = Inr answer \<and>
         hex_DecodeString (strip0x answer) = Inr bs \<and> length bs = 32 \<and> last bs = 1))"
proof (intro conjI impI)
  assume "collector_contract call addr auth \<and> length a = 20 \<and> length s = 20"
  then have "call addr (isAuthorized_data a s) =
      Inr (''0x'' @ hex_EncodeToString (be32 (of_bool (auth a s))))"
    by (simp add: collector_contract_def isAuthorized_data_abi)
  moreover have "length (be32 (of_bool (auth a s))) = 32" by (rule be32_props(1)) simp
  ultimately show "IsAuthorized call addr a s = Inr (auth a s)"
    using be32_last[of "auth a s"] by (simp add: IsAuthorized_def strip0x_hex del: append.simps)
next
  assume "escrow_contract encode call' escrow balance"
  then obtain data where "encode p c r = Inr data" "balance p c r < 2 ^ 256"
      "call' escrow data = Inr (''0x'' @ hex_EncodeToString (be32 (balance p c r)))"
    unfolding escrow_contract_def by blast
  then show "GetBalance (Inr encode) call' escrow p c r = Inr (int (balance p c r))"
    using be32_props[of "balance p c r"] by (simp add: GetBalance_def strip0x_hex del: append.simps)
next
  assume "GetBalance loadFn call' escrow p c r = Inr v"
  then obtain bs :: bytes where "length bs = 32" "v = int (big_SetBytes bs)"
    by (auto simp: GetBalance_def split: sum.splits if_splits)
  moreover have "(256 :: nat) ^ 32 = 2 ^ 256" by simp
  ultimately show "0 \<le> v" "v < 2 ^ 256" using big_SetBytes_less[of bs] by auto
next
  assume "IsAuthorized call addr a s = Inr True"
  then show "\<exists>answer bs. call addr (isAuthorized_data a s) = Inr answer \<and>
      hex_DecodeString (strip0x answer) = Inr bs \<and> length bs = 32 \<and> last bs = 1"
    by (auto simp: IsAuthorized_def last31 split: sum.splits if_splits)
qed

text \<open>A node that knows one authorised pair and one balance.\<close>

definition sample_call :: eth_call where
  "sample_call addr data =
     (if length data = 68
      then Inr (''0x'' @ hex_EncodeToString (be32 (of_bool (drop 48 data = replicate 20 8))))
      else Inr (''0x'' @ hex_EncodeToString (be32 500)))"

theorem chain_queries_exact_witness:
  "IsAuthorized sample_call [] (replicate 20 2) (replicate 20 8) = Inr True \<and>
   GetBalance (Inr (\<lambda>p c r. Inr [])) sample_call [] [] [] [] = Inr 500"
proof -
  have "collector_contract sample_call [] (\<lambda>a s. s = replicate 20 8)"
    by (simp add: collector_contract_def sample_call_def padLeft_def)
  moreover have "escrow_contract (\<lambda>p c r. Inr []) sample_call [] (\<lambda>p c r. 500)"
    by (simp add: escrow_contract_def sample_call_def)
  ultimately show ?thesis
    using chain_queries_exact[of sample_call "[]" "\<lambda>a s. s = replicate 20 8" "replicate 20 2" "replicate 20 8"
        "\<lambda>p c r. Inr []" sample_call "[]" "\<lambda>p c r. 500"] by simp
qed

end
