(* ===== verification/Sds_Base64.thy ===== *)
theory Sds_Base64
  imports Sds_Encoding
begin

text \<open>
  \<open>encoding/base64\<close> as the program uses it: the padded standard encoding and the unpadded URL
  encoding, with Go's decoder, which skips line breaks, wants the padding complete and nothing
  after it, and ignores the unused low bits of the last character.
\<close>

definition stdAlphabet :: string where
  "stdAlphabet = ''ABCDEFGHIJKLMNOPQRSTUVWXYZabcdefghijklmnopqrstuvwxyz0123456789+/''"

definition urlAlphabet :: string where
  "urlAlphabet = ''ABCDEFGHIJKLMNOPQRSTUVWXYZabcdefghijklmnopqrstuvwxyz0123456789-_''"

definition b64_index :: "string \<Rightarrow> char \<Rightarrow> nat option" where
  "b64_index alpha c =
     (let i = length (takeWhile (\<lambda>x. x \<noteq> c) alpha) in if i < length alpha then Some i else None)"

definition b64_pad :: char where
  "b64_pad = CHR ''=''"

text \<open>The three bytes of four sextets.\<close>

definition b64_1 :: "nat \<Rightarrow> nat \<Rightarrow> byte" where
  "b64_1 x y = word_of_nat (x * 4 + y div 16)"

definition b64_2 :: "nat \<Rightarrow> nat \<Rightarrow> byte" where
  "b64_2 y z = word_of_nat (y mod 16 * 16 + z div 4)"

definition b64_3 :: "nat \<Rightarrow> nat \<Rightarrow> byte" where
  "b64_3 z w = word_of_nat (z mod 4 * 64 + w)"

fun std_decode :: "string \<Rightarrow> bytes option" where
  "std_decode [] = Some []"
| "std_decode (a # b # c # d # rest) =
     (case (b64_index stdAlphabet a, b64_index stdAlphabet b) of
        (Some x, Some y) \<Rightarrow>
          if c = b64_pad then (if d = b64_pad \<and> rest = [] then Some [b64_1 x y] else None)
          else (case b64_index stdAlphabet c of
             None \<Rightarrow> None
           | Some z \<Rightarrow>
               if d = b64_pad then (if rest = [] then Some [b64_1 x y, b64_2 y z] else None)
               else (case b64_index stdAlphabet d of
                  None \<Rightarrow> None
                | Some w \<Rightarrow>
                    map_option (\<lambda>bs. b64_1 x y # b64_2 y z # b64_3 z w # bs) (std_decode rest)))
      | _ \<Rightarrow> None)"
| "std_decode _ = None"

fun url_decode :: "string \<Rightarrow> bytes option" where
  "url_decode [] = Some []"
| "url_decode [a] = None"
| "url_decode [a, b] =
     (case (b64_index urlAlphabet a, b64_index urlAlphabet b) of
        (Some x, Some y) \<Rightarrow> Some [b64_1 x y]
      | _ \<Rightarrow> None)"
| "url_decode [a, b, c] =
     (case (b64_index urlAlphabet a, b64_index urlAlphabet b, b64_index urlAlphabet c) of
        (Some x, Some y, Some z) \<Rightarrow> Some [b64_1 x y, b64_2 y z]
      | _ \<Rightarrow> None)"
| "url_decode (a # b # c # d # rest) =
     (case (b64_index urlAlphabet a, b64_index urlAlphabet b, b64_index urlAlphabet c,
            b64_index urlAlphabet d) of
        (Some x, Some y, Some z, Some w) \<Rightarrow>
          map_option (\<lambda>bs. b64_1 x y # b64_2 y z # b64_3 z w # bs) (url_decode rest)
      | _ \<Rightarrow> None)"

definition is_newline :: "char \<Rightarrow> bool" where
  "is_newline c \<longleftrightarrow> c = CHR 0x0A \<or> c = CHR 0x0D"

definition StdEncoding_DecodeString :: "string \<Rightarrow> bytes option" where
  "StdEncoding_DecodeString s = std_decode (filter (\<lambda>c. \<not> is_newline c) s)"

definition RawURLEncoding_DecodeString :: "string \<Rightarrow> bytes option" where
  "RawURLEncoding_DecodeString s = url_decode (filter (\<lambda>c. \<not> is_newline c) s)"

definition sextet1 :: "byte \<Rightarrow> nat" where "sextet1 a = unat a div 4"
definition sextet2 :: "byte \<Rightarrow> byte \<Rightarrow> nat" where "sextet2 a b = unat a mod 4 * 16 + unat b div 16"
definition sextet3 :: "byte \<Rightarrow> byte \<Rightarrow> nat" where "sextet3 b c = unat b mod 16 * 4 + unat c div 64"
definition sextet4 :: "byte \<Rightarrow> nat" where "sextet4 c = unat c mod 64"

fun StdEncoding_EncodeToString :: "bytes \<Rightarrow> string" where
  "StdEncoding_EncodeToString [] = []"
| "StdEncoding_EncodeToString [a] =
     [stdAlphabet ! sextet1 a, stdAlphabet ! sextet2 a 0, b64_pad, b64_pad]"
| "StdEncoding_EncodeToString [a, b] =
     [stdAlphabet ! sextet1 a, stdAlphabet ! sextet2 a b, stdAlphabet ! sextet3 b 0, b64_pad]"
| "StdEncoding_EncodeToString (a # b # c # rest) =
     stdAlphabet ! sextet1 a # stdAlphabet ! sextet2 a b # stdAlphabet ! sextet3 b c #
     stdAlphabet ! sextet4 c # StdEncoding_EncodeToString rest"

fun RawURLEncoding_EncodeToString :: "bytes \<Rightarrow> string" where
  "RawURLEncoding_EncodeToString [] = []"
| "RawURLEncoding_EncodeToString [a] = [urlAlphabet ! sextet1 a, urlAlphabet ! sextet2 a 0]"
| "RawURLEncoding_EncodeToString [a, b] =
     [urlAlphabet ! sextet1 a, urlAlphabet ! sextet2 a b, urlAlphabet ! sextet3 b 0]"
| "RawURLEncoding_EncodeToString (a # b # c # rest) =
     urlAlphabet ! sextet1 a # urlAlphabet ! sextet2 a b # urlAlphabet ! sextet3 b c #
     urlAlphabet ! sextet4 c # RawURLEncoding_EncodeToString rest"

subsection \<open>Decoding what was encoded\<close>

lemma takeWhile_nth: "distinct xs \<Longrightarrow> n < length xs \<Longrightarrow> takeWhile (\<lambda>x. x \<noteq> xs ! n) xs = take n xs"
proof (induction xs arbitrary: n)
  case (Cons x xs)
  then show ?case by (cases n) (auto simp: in_set_conv_nth)
qed simp

lemma b64_index_nth: "distinct alpha \<Longrightarrow> n < length alpha \<Longrightarrow> b64_index alpha (alpha ! n) = Some n"
  by (simp add: b64_index_def takeWhile_nth Let_def)

lemma alphabets [simp]:
  "distinct stdAlphabet" "length stdAlphabet = 64" "distinct urlAlphabet" "length urlAlphabet = 64"
  by (simp_all add: stdAlphabet_def urlAlphabet_def)

lemma sextet_less [simp]: "sextet1 a < 64" "sextet2 a b < 64" "sextet3 b c < 64" "sextet4 c < 64"
proof -
  have "unat a div 4 < 64" "unat b div 16 < 16" "unat c div 64 < 4"
    using byte_less[of a] byte_less[of b] byte_less[of c] by (simp_all add: less_mult_imp_div_less)
  moreover have "unat a mod 4 < 4" "unat b mod 16 < 16" by simp_all
  ultimately show "sextet1 a < 64" "sextet2 a b < 64" "sextet3 b c < 64" "sextet4 c < 64"
    unfolding sextet1_def sextet2_def sextet3_def sextet4_def by linarith+
qed

lemma index_sextet [simp]:
  "n < 64 \<Longrightarrow> b64_index stdAlphabet (stdAlphabet ! n) = Some n"
  "n < 64 \<Longrightarrow> b64_index urlAlphabet (urlAlphabet ! n) = Some n"
  by (simp_all add: b64_index_nth)

lemma std_nth_ne:
  assumes "n < 64"
  shows "stdAlphabet ! n \<noteq> b64_pad" "\<not> is_newline (stdAlphabet ! n)"
proof -
  have "stdAlphabet ! n \<in> set stdAlphabet" using assms by simp
  moreover have "b64_pad \<notin> set stdAlphabet" "\<forall>c \<in> set stdAlphabet. \<not> is_newline c"
    by (simp_all add: stdAlphabet_def b64_pad_def is_newline_def)
  ultimately show "stdAlphabet ! n \<noteq> b64_pad" "\<not> is_newline (stdAlphabet ! n)" by metis+
qed

lemma url_nth_ne: "n < 64 \<Longrightarrow> \<not> is_newline (urlAlphabet ! n)"
proof -
  assume "n < 64"
  then have "urlAlphabet ! n \<in> set urlAlphabet" by simp
  moreover have "\<forall>c \<in> set urlAlphabet. \<not> is_newline c"
    by (simp add: urlAlphabet_def is_newline_def)
  ultimately show ?thesis by blast
qed


lemma sextets_join [simp]:
  "b64_1 (sextet1 a) (sextet2 a b) = a" "b64_2 (sextet2 a b) (sextet3 b c) = b"
  "b64_3 (sextet3 b c) (sextet4 c) = c"
proof -
  have d: "unat b div 16 < 16" "unat c div 64 < 4"
    using byte_less[of b] byte_less[of c] by (simp_all add: less_mult_imp_div_less)
  have "sextet1 a * 4 + sextet2 a b div 16 = unat a"
    using d(1) by (simp add: sextet1_def sextet2_def)
  then show "b64_1 (sextet1 a) (sextet2 a b) = a" by (simp add: b64_1_def)
  have "sextet2 a b mod 16 * 16 + sextet3 b c div 4 = unat b"
    using d by (simp add: sextet2_def sextet3_def)
  then show "b64_2 (sextet2 a b) (sextet3 b c) = b" by (simp add: b64_2_def)
  have "sextet3 b c mod 4 * 64 + sextet4 c = unat c"
    using d(2) by (simp add: sextet3_def sextet4_def)
  then show "b64_3 (sextet3 b c) (sextet4 c) = c" by (simp add: b64_3_def)
qed

lemma std_no_newline: "filter (\<lambda>c. \<not> is_newline c) (StdEncoding_EncodeToString bs) = StdEncoding_EncodeToString bs"
  by (induction bs rule: StdEncoding_EncodeToString.induct)
    (simp_all add: std_nth_ne, simp_all add: b64_pad_def is_newline_def)

lemma url_no_newline:
  "filter (\<lambda>c. \<not> is_newline c) (RawURLEncoding_EncodeToString bs) = RawURLEncoding_EncodeToString bs"
  by (induction bs rule: RawURLEncoding_EncodeToString.induct) (simp_all add: url_nth_ne)

lemma std_roundtrip: "StdEncoding_DecodeString (StdEncoding_EncodeToString bs) = Some bs"
proof -
  have "std_decode (StdEncoding_EncodeToString bs) = Some bs"
    by (induction bs rule: StdEncoding_EncodeToString.induct) (simp_all add: std_nth_ne)
  then show ?thesis by (simp add: StdEncoding_DecodeString_def std_no_newline)
qed

lemma url_roundtrip: "RawURLEncoding_DecodeString (RawURLEncoding_EncodeToString bs) = Some bs"
proof -
  have "url_decode (RawURLEncoding_EncodeToString bs) = Some bs"
    by (induction bs rule: RawURLEncoding_EncodeToString.induct) simp_all
  then show ?thesis by (simp add: RawURLEncoding_DecodeString_def url_no_newline)
qed

end
