(* ===== verification/Sds_Auth.thy ===== *)
theory Sds_Auth
  imports Sds_Lib Sds_Base64 Sds_Session_Service
begin

text \<open>
  Authentication and authorisation: the auth service of the streaming plugin
  (\<open>provider/auth/service.go\<close>) and the bearer-token roles of the operator interface
  (\<open>internal/operatorauth/operatorauth.go\<close>).
\<close>

subsection \<open>Operator roles\<close>

type_synonym Role = string

definition RoleOperatorRead :: Role where "RoleOperatorRead = ''operator.read''"
definition RoleAdminWrite :: Role where "RoleAdminWrite = ''admin.write''"

definition Allows :: "Role \<Rightarrow> Role \<Rightarrow> bool" where
  "Allows r required =
     (if required = RoleOperatorRead then r = RoleOperatorRead \<or> r = RoleAdminWrite
      else if required = RoleAdminWrite then r = RoleAdminWrite
      else False)"

record OperatorAuthConfig =
  ReadBearerToken :: string
  AdminBearerToken :: string

text \<open>
  \<open>strings.EqualFold\<close> with the word \<open>Bearer\<close>: none of its letters folds with a letter outside ASCII,
  so it is equality up to the case of ASCII letters.
\<close>

definition EqualFold :: "string \<Rightarrow> string \<Rightarrow> bool" where
  "EqualFold s t \<longleftrightarrow> ToLower s = ToLower t"

definition malformed_header :: go_error where
  "malformed_header = Errorf ''malformed %s header: expected Bearer token'' [''Authorization''] None"

definition parseBearerToken :: "string \<Rightarrow> string result" where
  "parseBearerToken headerValue =
     (case Cut headerValue '' '' of (scheme, token, found) \<Rightarrow>
        if \<not> found \<or> \<not> EqualFold scheme ''Bearer'' then Inl malformed_header
        else
          let token = TrimSpace token in
          if token = [] \<or> Contains token '' '' then Inl malformed_header else Inr token)"

definition roleForToken :: "OperatorAuthConfig \<Rightarrow> string \<Rightarrow> Role option" where
  "roleForToken c token =
     (if token = [] then None
      else if token = AdminBearerToken c \<and> AdminBearerToken c \<noteq> [] then Some RoleAdminWrite
      else if token = ReadBearerToken c \<and> ReadBearerToken c \<noteq> [] then Some RoleOperatorRead
      else None)"

text \<open>
  The header value is the one \<open>Header.Get\<close> returns, empty when absent. The role that accompanies
  a permission error is not kept.
\<close>

definition AuthorizeHeader :: "string \<Rightarrow> OperatorAuthConfig \<Rightarrow> Role \<Rightarrow> Role rpc" where
  "AuthorizeHeader header config required =
     (let rawHeader = TrimSpace header in
      if rawHeader = [] then Inl (CodeUnauthenticated, Errorf ''missing %s header'' [''Authorization''] None)
      else (case parseBearerToken rawHeader of
         Inl err \<Rightarrow> Inl (CodeUnauthenticated, err)
       | Inr token \<Rightarrow>
           (case roleForToken config token of
              None \<Rightarrow> Inl (CodeUnauthenticated, Errorf ''invalid bearer token'' [] None)
            | Some role \<Rightarrow>
                if \<not> Allows role required
                then Inl (CodePermissionDenied, Errorf ''role %q does not satisfy %q''
                            [role, required] None)
                else Inr role)))"

subsection \<open>The auth service\<close>

text \<open>
  The configuration; the collector is asked whether a signer may act for a payer and may be
  absent. The cache keeps the answer with its expiry.
\<close>

record AuthService =
  au_serviceProvider :: address
  au_domain :: Domain

type_synonym auth_cache = "string \<rightharpoonup> bool \<times> time"
type_synonym collector_fun = "address \<Rightarrow> address \<Rightarrow> bool result"

definition second :: int where
  "second = 1000000000"

definition SessionKeepAliveTimeout :: int where
  "SessionKeepAliveTimeout = 5 * 60 * second"

definition isSignerAuthorized ::
  "eth_lib \<Rightarrow> collector_fun option \<Rightarrow> address \<Rightarrow> address \<Rightarrow> time \<Rightarrow> auth_cache \<Rightarrow> bool result \<times> auth_cache" where
  "isSignerAuthorized l collector payer signer now cache =
     (if AddressesEqual payer signer then (Inr True, cache)
      else (case collector of
         None \<Rightarrow> (Inr False, cache)
       | Some isAuthorized \<Rightarrow>
           let key = lib_String l payer @ ''|'' @ lib_String l signer in
           (case cache key of
              Some (ok, expires) \<Rightarrow>
                if now < expires then (Inr ok, cache)
                else (case isAuthorized payer signer of
                        Inl err \<Rightarrow> (Inl err, cache)
                      | Inr ok \<Rightarrow> (Inr ok, cache(key \<mapsto> (ok, now + 30 * second))))
            | None \<Rightarrow>
                (case isAuthorized payer signer of
                   Inl err \<Rightarrow> (Inl err, cache)
                 | Inr ok \<Rightarrow> (Inr ok, cache(key \<mapsto> (ok, now + 30 * second)))))))"

record AuthResult =
  ar_OrganizationId :: string
  ar_ApiKeyId :: string

text \<open>The outer option is a panic of the hashing; the errors carry their status code.\<close>

definition validateRAV ::
  "eth_lib \<Rightarrow> AuthService \<Rightarrow> collector_fun option \<Rightarrow> SignedRAV \<Rightarrow> time \<Rightarrow> auth_cache \<Rightarrow>
   (AuthResult rpc \<times> auth_cache) option" where
  "validateRAV l s collector signedRAV now cache =
     (case RAV_RecoverSigner (lib_keccak l) (lib_recover l) (au_domain s) signedRAV of
        None \<Rightarrow> None
      | Some (Inl err) \<Rightarrow>
          Some (Inl (CodeUnauthenticated, Errorf ''invalid signature: %v'' [] None), cache)
      | Some (Inr signerAddr) \<Rightarrow>
          let m = the (Message signedRAV); payer = Payer m in
          (case isSignerAuthorized l collector payer signerAddr now cache of
             (Inl err, cache') \<Rightarrow>
               Some (Inl (CodeInternal, Errorf ''authorization check failed: %v'' [] None), cache')
           | (Inr authorized, cache') \<Rightarrow>
               if \<not> authorized
               then Some (Inl (CodePermissionDenied, Errorf ''signer %s is not authorized for payer %s''
                            [lib_pretty l signerAddr, lib_pretty l payer] None), cache')
               else if \<not> AddressesEqual (ServiceProvider m) (au_serviceProvider s)
               then Some (Inl (CodePermissionDenied, Errorf ''RAV targets service provider %s, not %s''
                            [lib_pretty l (ServiceProvider m), lib_pretty l (au_serviceProvider s)] None), cache')
               else Some (Inr \<lparr>ar_OrganizationId = lib_pretty l payer, ar_ApiKeyId = []\<rparr>, cache')))"

text \<open>The comparison with \<open>ErrNotFound\<close> is by identity, not by \<open>errors.Is\<close>.\<close>

definition validateSession ::
  "eth_lib \<Rightarrow> string \<Rightarrow> string \<Rightarrow> time \<Rightarrow> time \<Rightarrow> InMemoryRepository option \<Rightarrow>
   unit result \<times> InMemoryRepository option" where
  "validateSession l sessionID organizationID now touched repository =
     (case repository of
        None \<Rightarrow> (Inl (Errorf ''session validation not available (repository not configured)'' [] None), None)
      | Some r \<Rightarrow>
          (case SessionGet sessionID r of
             Inl err \<Rightarrow>
               if err = ErrNotFound then (Inl (Errorf ''session not found'' [] None), Some r)
               else (Inl (Errorf ''failed to retrieve session: %w'' [] (Some err)), Some r)
           | Inr sess \<Rightarrow>
               if \<not> IsActive sess
               then (Inl (Errorf ''session is not active (status: %s)'' [status_string (ses_Status sess)] None), Some r)
               else if now - ses_LastKeepAlive sess > SessionKeepAliveTimeout
               then (Inl (Errorf ''session has been idle for too long (last activity: %v ago)'' [] None), Some r)
               else if lib_pretty l (ses_Payer sess) \<noteq> organizationID
               then (Inl (Errorf ''session payer mismatch (session: %s, auth: %s)''
                            [lib_pretty l (ses_Payer sess), organizationID] None), Some r)
               else (Inr (), Some (snd (SessionTouch sessionID touched r)))))"

text \<open>\<open>proto.Unmarshal\<close> is the parameter \<open>unmarshal\<close>.\<close>

definition decodeRAVFromHeader :: "(bytes \<Rightarrow> pb_SignedRAV result) \<Rightarrow> string \<Rightarrow> pb_SignedRAV result" where
  "decodeRAVFromHeader unmarshal headerValue =
     (case StdEncoding_DecodeString headerValue of
        Some data' \<Rightarrow> unmarshal data'
      | None \<Rightarrow>
          (case RawURLEncoding_DecodeString headerValue of
             Some data' \<Rightarrow> unmarshal data'
           | None \<Rightarrow> Inl (Sentinel ''illegal base64 data'')))"

text \<open>
  The headers of a request in the order the map iterates over them; names that differ only in
  case collapse onto one entry and the last one stays. Names are ASCII, as in HTTP.
\<close>

definition HeaderRAV :: string where "HeaderRAV = ''x-sds-rav''"
definition HeaderSessionID :: string where "HeaderSessionID = ''x-sds-session-id''"

definition lower_headers :: "(string \<times> string list option) list \<Rightarrow> (string \<rightharpoonup> string list)" where
  "lower_headers headers =
     foldl (\<lambda>m (name, values).
       case values of
         Some (v # vs) \<Rightarrow> m(ToLower name \<mapsto> v # vs)
       | _ \<Rightarrow> m) Map.empty headers"

text \<open>The names of the trusted headers of the plugin's library.\<close>

record dauth_names =
  dn_OrganizationID :: string
  dn_IP :: string
  dn_ApiKeyID :: string

definition trusted_headers ::
  "dauth_names \<Rightarrow> AuthResult \<Rightarrow> string \<Rightarrow> string \<Rightarrow> (string \<rightharpoonup> string)" where
  "trusted_headers dn result ip sessionID =
     (let h = [dn_OrganizationID dn \<mapsto> ar_OrganizationId result, dn_IP dn \<mapsto> ip,
               HeaderSessionID \<mapsto> sessionID] in
      if ar_ApiKeyId result \<noteq> [] then h(dn_ApiKeyID dn \<mapsto> ar_ApiKeyId result) else h)"

text \<open>
  The three readings of the clock are for the cache, for the idle time and for the keep-alive.
\<close>

type_synonym auth_state = "InMemoryRepository option \<times> auth_cache"

definition ValidateAuth ::
  "eth_lib \<Rightarrow> (bytes \<Rightarrow> pb_SignedRAV result) \<Rightarrow> dauth_names \<Rightarrow> AuthService \<Rightarrow> collector_fun option \<Rightarrow>
   (string \<times> string list option) list \<Rightarrow> string \<Rightarrow> time \<Rightarrow> time \<Rightarrow> time \<Rightarrow> auth_state \<Rightarrow>
   ((string \<rightharpoonup> string) rpc \<times> auth_state) option" where
  "ValidateAuth l unmarshal dn s collector headers ip t1 t2 t3 st =
     (let lowerHeaders = lower_headers headers in
      case lowerHeaders (ToLower HeaderRAV) of
        None \<Rightarrow> Some (Inl (CodeUnauthenticated, Errorf ''missing %s header'' [HeaderRAV] None), st)
      | Some [] \<Rightarrow> Some (Inl (CodeUnauthenticated, Errorf ''missing %s header'' [HeaderRAV] None), st)
      | Some (ravHeader # _) \<Rightarrow>
          (case decodeRAVFromHeader unmarshal ravHeader of
             Inl err \<Rightarrow>
               Some (Inl (CodeInvalidArgument, Errorf ''invalid %s header: %w'' [HeaderRAV] (Some err)), st)
           | Inr signedRAV \<Rightarrow>
               (case ProtoSignedRAVToHorizon (lib_fromBig l) (lib_newSig l) (Some signedRAV) of
                  Inl err \<Rightarrow> Some (Inl (CodeInvalidArgument, Errorf ''invalid RAV: %w'' [] (Some err)), st)
                | Inr None \<Rightarrow> None
                | Inr (Some horizonRAV) \<Rightarrow>
                    (case validateRAV l s collector horizonRAV t1 (snd st) of
                       None \<Rightarrow> None
                     | Some (Inl e, cache') \<Rightarrow> Some (Inl e, (fst st, cache'))
                     | Some (Inr result, cache') \<Rightarrow>
                         (case lowerHeaders (ToLower HeaderSessionID) of
                            Some (sessionID # _) \<Rightarrow>
                              (case validateSession l sessionID (ar_OrganizationId result) t2 t3 (fst st) of
                                 (Inl err, r') \<Rightarrow>
                                   Some (Inl (CodeUnauthenticated, Errorf ''invalid session: %w'' [] (Some err)), (r', cache'))
                               | (Inr _, r') \<Rightarrow>
                                   Some (Inr (trusted_headers dn result ip sessionID), (r', cache')))
                          | _ \<Rightarrow>
                              Some (Inl (CodeUnauthenticated, Errorf ''missing %s header'' [HeaderSessionID] None),
                                    (fst st, cache')))))))"


subsection \<open>The cache of authorisations\<close>

lemma bar_key_inj:
  assumes "lib_ok l" "lib_String l p @ ''|'' @ lib_String l s = lib_String l p' @ ''|'' @ lib_String l s'"
  shows "p = p' \<and> s = s'"
  using assms bar_split_last[OF _ _ assms(2)] by (auto simp: lib_ok_def Pretty_ok_def inj_eq)

text \<open>
  Every entry records what the chain answered at some earlier moment and expires thirty seconds
  after it. The chain is a function of time.
\<close>

type_synonym chain = "time \<Rightarrow> collector_fun"

definition cache_inv :: "eth_lib \<Rightarrow> chain \<Rightarrow> time \<Rightarrow> auth_cache \<Rightarrow> bool" where
  "cache_inv l chain now cache \<longleftrightarrow>
     (\<forall>p s ok expires. cache (lib_String l p @ ''|'' @ lib_String l s) = Some (ok, expires) \<longrightarrow>
        expires - 30 * second \<le> now \<and> chain (expires - 30 * second) p s = Inr ok)"

lemma cache_invD:
  assumes "cache_inv l chain now cache" "cache (lib_String l p @ ''|'' @ lib_String l s) = Some (ok, expires)"
  shows "expires - 30 * second \<le> now" "chain (expires - 30 * second) p s = Inr ok"
  using assms unfolding cache_inv_def by blast+

lemma cache_inv_later: "cache_inv l chain t cache \<Longrightarrow> t \<le> now \<Longrightarrow> cache_inv l chain now cache"
  unfolding cache_inv_def by (meson order_trans)

lemma cache_inv_set:
  assumes "lib_ok l" "cache_inv l chain now cache" "chain now p s = Inr ok"
  shows "cache_inv l chain now (cache(lib_String l p @ ''|'' @ lib_String l s \<mapsto> (ok, now + 30 * second)))"
  unfolding cache_inv_def
proof (intro allI impI)
  fix p' s' ok' e
  assume e: "(cache(lib_String l p @ ''|'' @ lib_String l s \<mapsto> (ok, now + 30 * second)))
    (lib_String l p' @ ''|'' @ lib_String l s') = Some (ok', e)"
  show "e - 30 * second \<le> now \<and> chain (e - 30 * second) p' s' = Inr ok'"
  proof (cases "p' = p \<and> s' = s")
    case True
    then show ?thesis using e assms(3) by auto
  next
    case False
    then have "lib_String l p' @ ''|'' @ lib_String l s' \<noteq> lib_String l p @ ''|'' @ lib_String l s"
      using bar_key_inj[OF assms(1)] by metis
    then show ?thesis using e cache_invD[OF assms(2)] by (auto split: if_splits)
  qed
qed

text \<open>What an answer of \<open>isSignerAuthorized\<close> rests on, and that the cache stays sound.\<close>

lemma isSignerAuthorized_inv:
  assumes "lib_ok l" "cache_inv l chain now cache"
    "isSignerAuthorized l (Some (chain now)) p s now cache = (res, cache')"
  shows "cache_inv l chain now cache'"
    "res = Inr True \<Longrightarrow> s = p \<or> (\<exists>t. now - 30 * second < t \<and> t \<le> now \<and> chain t p s = Inr True)"
proof -
  have sec: "second > 0" by (simp add: second_def)
  consider (same) "p = s" "res = Inr True" "cache' = cache"
    | (cached) ok e where "cache (lib_String l p @ ''|'' @ lib_String l s) = Some (ok, e)" "now < e"
        "res = Inr ok" "cache' = cache"
    | (failed) e where "res = Inl e" "cache' = cache"
    | (asked) ok where "chain now p s = Inr ok" "res = Inr ok"
        "cache' = cache(lib_String l p @ ''|'' @ lib_String l s \<mapsto> (ok, now + 30 * second))"
    using assms(3) unfolding isSignerAuthorized_def AddressesEqual_def Let_def
    by (auto split: option.splits prod.splits if_splits sum.splits dest!: sym[of "Inl e" for e])
  note C = this
  show "cache_inv l chain now cache'"
    using C by cases (use assms(2) cache_inv_set[OF assms(1,2)] in auto)
  show "s = p \<or> (\<exists>t. now - 30 * second < t \<and> t \<le> now \<and> chain t p s = Inr True)" if r: "res = Inr True"
    using C
  proof cases
    case (cached ok e)
    then show ?thesis using cache_invD[OF assms(2) cached(1)] r by (intro disjI2 exI[of _ "e - 30 * second"]) auto
  next
    case (asked ok)
    then show ?thesis using r sec by (intro disjI2 exI[of _ now]) auto
  qed (use r in auto)
qed

subsection \<open>What an accepted request guarantees\<close>

lemma validateRAV_Inr:
  assumes "validateRAV l s collector sr now cache = Some (Inr result, cache')"
  shows "\<exists>signer. RAV_RecoverSigner (lib_keccak l) (lib_recover l) (au_domain s) sr = Some (Inr signer) \<and>
    isSignerAuthorized l collector (Payer (the (Message sr))) signer now cache = (Inr True, cache') \<and>
    ServiceProvider (the (Message sr)) = au_serviceProvider s \<and>
    result = \<lparr>ar_OrganizationId = lib_pretty l (Payer (the (Message sr))), ar_ApiKeyId = []\<rparr>"
  using assms by (auto simp: validateRAV_def Let_def AddressesEqual_def
      split: option.splits sum.splits prod.splits if_splits)

lemma validateRAV_cache:
  assumes "lib_ok l" "cache_inv l chain now cache"
    "validateRAV l s (Some (chain now)) sr now cache = Some (res, cache')"
  shows "cache_inv l chain now cache'"
  using assms(3) isSignerAuthorized_inv(1)[OF assms(1,2)] assms(2)
  by (auto simp: validateRAV_def Let_def split: option.splits sum.splits prod.splits if_splits)

lemma validateSession_Inr:
  assumes "validateSession l sid org now touched repository = (Inr (), repository')"
  shows "\<exists>r sess. repository = Some r \<and> sessions r sid = Some sess \<and> IsActive (cloneSession sess) \<and>
    now - ses_LastKeepAlive (cloneSession sess) \<le> SessionKeepAliveTimeout \<and>
    lib_pretty l (ses_Payer (cloneSession sess)) = org \<and> repository' = Some (snd (SessionTouch sid touched r))"
  using assms by (auto simp: validateSession_def SessionGet_def not_less split: option.splits sum.splits if_splits)

text \<open>The steps of an accepted request.\<close>

lemma ValidateAuth_Inr:
  assumes "ValidateAuth l unmarshal dn s collector headers ip t1 t2 t3 st = Some (Inr trusted, st')"
  obtains h hs sid sids psr sr result where
    "lower_headers headers (ToLower HeaderRAV) = Some (h # hs)"
    "decodeRAVFromHeader unmarshal h = Inr psr"
    "ProtoSignedRAVToHorizon (lib_fromBig l) (lib_newSig l) (Some psr) = Inr (Some sr)"
    "validateRAV l s collector sr t1 (snd st) = Some (Inr result, snd st')"
    "lower_headers headers (ToLower HeaderSessionID) = Some (sid # sids)"
    "validateSession l sid (ar_OrganizationId result) t2 t3 (fst st) = (Inr (), fst st')"
    "trusted = trusted_headers dn result ip sid"
  using assms unfolding ValidateAuth_def Let_def
  by (auto split: option.splits list.splits sum.splits prod.splits)

text \<open>
  The service over time: requests in the order in which they read the clock, and any change of
  the repository by the other services in between.
\<close>

inductive auth_step ::
  "eth_lib \<Rightarrow> (bytes \<Rightarrow> pb_SignedRAV result) \<Rightarrow> dauth_names \<Rightarrow> AuthService \<Rightarrow> chain \<Rightarrow>
   time \<times> auth_state \<Rightarrow> time \<times> auth_state \<Rightarrow> bool" for l unmarshal dn s chain where
  auth_call: "clock \<le> t1 \<Longrightarrow>
    ValidateAuth l unmarshal dn s (Some (chain t1)) headers ip t1 t2 t3 st = Some (res, st') \<Longrightarrow>
    auth_step l unmarshal dn s chain (clock, st) (t1, st')"
| auth_other: "auth_step l unmarshal dn s chain (clock, (r, cache)) (clock, (r', cache))"

lemma ValidateAuth_cache:
  assumes "lib_ok l" "cache_inv l chain t1 (snd st)"
    "ValidateAuth l unmarshal dn s (Some (chain t1)) headers ip t1 t2 t3 st = Some (res, st')"
  shows "cache_inv l chain t1 (snd st')"
  using assms(3,2) validateRAV_cache[OF assms(1,2)] unfolding ValidateAuth_def Let_def
  by (auto split: option.splits list.splits sum.splits prod.splits)

lemma auth_run_cache:
  assumes "lib_ok l" "(auth_step l unmarshal dn s chain)\<^sup>*\<^sup>* (t0, (r0, Map.empty)) (clock, st)"
  shows "cache_inv l chain clock (snd st)"
  using assms(2)
proof (induction rule: rtranclp_induct2)
  case refl
  show ?case by (simp add: cache_inv_def)
next
  case (step c st c' st')
  from step(2) show ?case
  proof cases
    case (auth_call headers ip t2 t3 res)
    then show ?thesis
      using ValidateAuth_cache[OF assms(1) cache_inv_later[OF step(3)]] by blast
  qed (use step(3) in auto)
qed

text \<open>
  C2: Only paying consumers get through (\<open>ValidateAuth\<close>, \<open>provider/auth/service.go\<close>). Along every run of
  the service, a request is accepted only with a voucher for this provider whose signer is the
  payer itself or was authorised for the payer by the chain within the last thirty seconds, so a
  revoked signer is refused at the latest thirty seconds after; and only for a stored session of
  that payer that is active and was used within the last five minutes. The trusted headers name
  that payer, the peer address and that session, and the session is marked as used.
\<close>

theorem ValidateAuth_sound:
  assumes "lib_ok l"
    and "(auth_step l unmarshal dn s chain)\<^sup>*\<^sup>* (t0, (r0, Map.empty)) (clock, st)" "clock \<le> t1"
    and "ValidateAuth l unmarshal dn s (Some (chain t1)) headers ip t1 t2 t3 st = Some (Inr trusted, st')"
  shows "\<exists>h hs psr sr m signer sid sids r sess.
    lower_headers headers (ToLower HeaderRAV) = Some (h # hs) \<and> decodeRAVFromHeader unmarshal h = Inr psr \<and>
    ProtoSignedRAVToHorizon (lib_fromBig l) (lib_newSig l) (Some psr) = Inr (Some sr) \<and>
    Message sr = Some m \<and> wf_RAV m \<and>
    RAV_RecoverSigner (lib_keccak l) (lib_recover l) (au_domain s) sr = Some (Inr signer) \<and>
    (signer = Payer m \<or> (\<exists>t. t1 - 30 * second < t \<and> t \<le> t1 \<and> chain t (Payer m) signer = Inr True)) \<and>
    ServiceProvider m = au_serviceProvider s \<and>
    lower_headers headers (ToLower HeaderSessionID) = Some (sid # sids) \<and>
    fst st = Some r \<and> sessions r sid = Some sess \<and> IsActive sess \<and>
    t2 - ses_LastKeepAlive sess \<le> SessionKeepAliveTimeout \<and> ses_Payer sess = Payer m \<and>
    fst st' = Some (snd (SessionTouch sid t3 r)) \<and>
    trusted = [dn_OrganizationID dn \<mapsto> lib_pretty l (Payer m), dn_IP dn \<mapsto> ip, HeaderSessionID \<mapsto> sid]"
proof -
  have inv: "cache_inv l chain t1 (snd st)"
    by (rule cache_inv_later[OF auth_run_cache[OF assms(1,2)] assms(3)])
  obtain h hs sid sids psr sr result where a:
    "lower_headers headers (ToLower HeaderRAV) = Some (h # hs)" "decodeRAVFromHeader unmarshal h = Inr psr"
    "ProtoSignedRAVToHorizon (lib_fromBig l) (lib_newSig l) (Some psr) = Inr (Some sr)"
    "validateRAV l s (Some (chain t1)) sr t1 (snd st) = Some (Inr result, snd st')"
    "lower_headers headers (ToLower HeaderSessionID) = Some (sid # sids)"
    "validateSession l sid (ar_OrganizationId result) t2 t3 (fst st) = (Inr (), fst st')"
    "trusted = trusted_headers dn result ip sid"
    by (rule ValidateAuth_Inr[OF assms(4)])
  obtain m where m: "Message sr = Some m" "wf_RAV m"
    using ProtoSignedRAV_wf[OF lib_okD(2)[OF assms(1)] a(3)] by metis
  obtain signer where v: "RAV_RecoverSigner (lib_keccak l) (lib_recover l) (au_domain s) sr = Some (Inr signer)"
    "isSignerAuthorized l (Some (chain t1)) (Payer m) signer t1 (snd st) = (Inr True, snd st')"
    "ServiceProvider m = au_serviceProvider s"
    "result = \<lparr>ar_OrganizationId = lib_pretty l (Payer m), ar_ApiKeyId = []\<rparr>"
    using validateRAV_Inr[OF a(4)] m(1) by auto
  have auth: "signer = Payer m \<or> (\<exists>t. t1 - 30 * second < t \<and> t \<le> t1 \<and> chain t (Payer m) signer = Inr True)"
    using isSignerAuthorized_inv(2)[OF assms(1) inv v(2)] by simp
  obtain r sess where r: "fst st = Some r" "sessions r sid = Some sess" "IsActive sess"
    "t2 - ses_LastKeepAlive sess \<le> SessionKeepAliveTimeout" "ses_Payer sess = Payer m"
    "fst st' = Some (snd (SessionTouch sid t3 r))"
    using validateSession_Inr[OF a(6)] lib_pretty_eq[OF assms(1)] v(4) by auto
  have "trusted = [dn_OrganizationID dn \<mapsto> lib_pretty l (Payer m), dn_IP dn \<mapsto> ip, HeaderSessionID \<mapsto> sid]"
    using a(7) v(4) by (simp add: trusted_headers_def)
  then show ?thesis using a(1-3,5) m v(1,3) auth r by blast
qed

text \<open>A request with a delegated signer, which the chain authorises from time 5 on.\<close>

definition delegate :: address where
  "delegate = replicate 20 8"

definition delegated_RAV :: SignedRAV where
  "delegated_RAV = \<lparr>Message = Some sample_RAV, Signature = std_signature delegate\<rparr>"

definition delegated_unmarshal :: "bytes \<Rightarrow> pb_SignedRAV result" where
  "delegated_unmarshal _ = Inr (the (HorizonSignedRAVToProto FromBig_std (Some delegated_RAV)))"

definition delegated_chain :: chain where
  "delegated_chain t payer signer = Inr (payer = Payer sample_RAV \<and> signer = delegate \<and> 5 \<le> t)"

definition sample_service :: AuthService where
  "sample_service = \<lparr>au_serviceProvider = ServiceProvider sample_RAV, au_domain = NewDomain 1 (replicate 20 6)\<rparr>"

definition sample_headers :: "(string \<times> string list option) list" where
  "sample_headers = [(''X-Sds-Rav'', Some [''AAAA'']), (''x-sds-session-id'', Some [''s'']), (''empty'', None)]"

definition sample_dauth :: dauth_names where
  "sample_dauth = \<lparr>dn_OrganizationID = ''o'', dn_IP = ''i'', dn_ApiKeyID = ''k''\<rparr>"

lemma delegated_wire:
  "ProtoSignedRAVToHorizon FromBig_std NewSig_std (Some (the (HorizonSignedRAVToProto FromBig_std (Some delegated_RAV)))) =
     Inr (Some delegated_RAV)"
proof -
  have "wf_RAV sample_RAV" by (simp add: wf_RAV_def sample_RAV_def)
  moreover have "length (std_signature delegate) = 65" by (simp add: delegate_def)
  ultimately show ?thesis
    using ProtoSignedRAV_roundtrip[OF FromBig_std_ok NewSig_std_ok, of sample_RAV "std_signature delegate"]
    by (simp add: delegated_RAV_def HorizonSignedRAVToProto_def)
qed

lemma delegated_recover:
  "RAV_RecoverSigner (lib_keccak lib_std) (lib_recover lib_std) d delegated_RAV = Some (Inr delegate)"
proof -
  have "wf_RAV sample_RAV" by (simp add: wf_RAV_def sample_RAV_def)
  then show ?thesis
    by (simp add: RAV_RecoverSigner_def delegated_RAV_def RAV_hash_input delegate_def std_signature_def)
qed

lemma sample_lower_headers:
  "lower_headers sample_headers (ToLower HeaderRAV) = Some [''AAAA'']"
  "lower_headers sample_headers (ToLower HeaderSessionID) = Some [''s'']"
  by code_simp+

lemma sample_decode: "StdEncoding_DecodeString ''AAAA'' = Some [0, 0, 0]"
  by code_simp

lemma delegated_accepted:
  "ValidateAuth lib_std delegated_unmarshal sample_dauth sample_service (Some (delegated_chain 9)) sample_headers
     ''ip'' 9 9 9 (Some sample_live, Map.empty) =
   Some (Inr [''o'' \<mapsto> hex_EncodeToString (replicate 20 2), ''i'' \<mapsto> ''ip'', HeaderSessionID \<mapsto> ''s''],
     (Some (snd (SessionTouch ''s'' 9 sample_live)),
      [hex_EncodeToString (replicate 20 2) @ ''|'' @ hex_EncodeToString delegate \<mapsto> (True, 9 + 30 * second)]))"
  unfolding ValidateAuth_def Let_def sample_lower_headers option.case list.case decodeRAVFromHeader_def
    sample_decode delegated_unmarshal_def sum.case lib_std_sel delegated_wire validateRAV_def
    delegated_recover[unfolded lib_std_sel]
  by (simp add: isSignerAuthorized_def AddressesEqual_def delegated_RAV_def delegate_def sample_RAV_def
      delegated_chain_def sample_service_def validateSession_def SessionGet_def sample_live_def sample_session_def
      NewSession_def IsActive_def SessionKeepAliveTimeout_def second_def trusted_headers_def sample_dauth_def Let_def)

theorem ValidateAuth_sound_witness:
  "lib_ok lib_std \<and>
   (\<exists>t. 9 - 30 * second < t \<and> t \<le> 9 \<and> delegated_chain t (Payer sample_RAV) delegate = Inr True)"
proof -
  note s = ValidateAuth_sound[of lib_std delegated_unmarshal sample_dauth sample_service delegated_chain 9
      "Some sample_live" 9 "(Some sample_live, Map.empty)" 9, OF lib_std_ok rtranclp.rtrancl_refl order_refl
      delegated_accepted]
  have ne: "delegate \<noteq> Payer sample_RAV" by (simp add: delegate_def sample_RAV_def)
  from s ne delegated_recover delegated_wire show ?thesis
    using lib_std_ok sample_lower_headers sample_decode
    by (auto simp: decodeRAVFromHeader_def delegated_unmarshal_def delegated_RAV_def)
qed

text \<open>
  Every request is answered (\<open>ValidateAuth\<close>). Whatever the client sends, the service neither
  panics nor reports an unknown code: it accepts, or refuses with one of four codes and leaves
  every session as it was.
\<close>

theorem ValidateAuth_total:
  assumes "lib_ok l"
  shows "\<exists>res st'. ValidateAuth l unmarshal dn s collector headers ip t1 t2 t3 st = Some (res, st') \<and>
    (\<forall>code err. res = Inl (code, err) \<longrightarrow> fst st' = fst st \<and>
       code \<in> {CodeUnauthenticated, CodeInvalidArgument, CodePermissionDenied, CodeInternal})"
proof -
  have nopanic: "validateRAV l s collector sr t1 (snd st) \<noteq> None"
    if sr: "ProtoSignedRAVToHorizon (lib_fromBig l) (lib_newSig l) (Some psr) = Inr (Some sr)" for psr sr
  proof -
    obtain m where m: "Message sr = Some m" "wf_RAV m"
      using ProtoSignedRAV_wf[OF lib_okD(2)[OF assms] sr] by metis
    obtain h where "RAV_RecoverSigner (lib_keccak l) (lib_recover l) (au_domain s) sr =
        Some (lib_recover l (Signature sr) h)"
      using RAV_RecoverSigner_wf[OF m] by blast
    then show ?thesis
      by (cases "lib_recover l (Signature sr) h")
        (auto simp: validateRAV_def Let_def split: sum.splits prod.splits)
  qed
  have codes: "code \<in> {CodeUnauthenticated, CodePermissionDenied, CodeInternal}"
    if "validateRAV l s collector sr t1 (snd st) = Some (Inl (code, err), c)" for sr code err c
    using that by (auto simp: validateRAV_def Let_def split: option.splits sum.splits prod.splits if_splits)
  have frame: "r' = fst st" if "validateSession l sid org t2 t3 (fst st) = (Inl e, r')" for sid org e r'
    using that by (auto simp: validateSession_def split: option.splits sum.splits if_splits)
  have "ValidateAuth l unmarshal dn s collector headers ip t1 t2 t3 st \<noteq> None"
    unfolding ValidateAuth_def Let_def
    by (auto split: option.splits list.splits sum.splits prod.splits dest: nopanic
        simp: ProtoSignedRAV_not_None)
  then obtain res st' where res: "ValidateAuth l unmarshal dn s collector headers ip t1 t2 t3 st = Some (res, st')"
    by fastforce
  have "fst st' = fst st \<and> code \<in> {CodeUnauthenticated, CodeInvalidArgument, CodePermissionDenied, CodeInternal}"
    if "res = Inl (code, err)" for code err
    using res that unfolding ValidateAuth_def Let_def
    by (auto split: option.splits list.splits sum.splits prod.splits dest: codes frame)
  then show ?thesis using res by blast
qed

theorem ValidateAuth_total_witness:
  "lib_ok lib_std \<and>
   (\<exists>res st'. ValidateAuth lib_std delegated_unmarshal sample_dauth sample_service None sample_headers ''ip'' 9 9 9
      (None, Map.empty) = Some (res, st'))"
  using ValidateAuth_total[OF lib_std_ok] lib_std_ok by metis

text \<open>
  A missing session is reported as a failed lookup (\<open>validateSession\<close>). The branch for unknown
  sessions compares the error with \<open>ErrNotFound\<close> by identity, but the repository wraps it: the
  branch is never taken, and an unknown session gives the error of the other branch, which
  still wraps \<open>ErrNotFound\<close>.
\<close>

theorem validateSession_not_found_unreachable:
  "fst (validateSession l sid org now touched repository) \<noteq> Inl (Errorf ''session not found'' [] None) \<and>
   (sessions r sid = None \<longrightarrow>
     validateSession l sid org now touched (Some r) =
       (Inl (Errorf ''failed to retrieve session: %w'' [] (Some (session_not_found sid))), Some r) \<and>
     errors_Is (Errorf ''failed to retrieve session: %w'' [] (Some (session_not_found sid))) ErrNotFound)"
  by (auto simp: validateSession_def SessionGet_def session_not_found_def ErrNotFound_def
      split: option.splits sum.splits if_splits)

theorem validateSession_not_found_unreachable_witness:
  "fst (validateSession lib_std ''x'' ''o'' 1 1 (Some NewInMemoryRepository)) =
     Inl (Errorf ''failed to retrieve session: %w'' [] (Some (session_not_found ''x'')))"
  using validateSession_not_found_unreachable[of lib_std "''x''" "''o''" 1 1 None NewInMemoryRepository]
  by (simp add: NewInMemoryRepository_def)

subsection \<open>Operator roles\<close>

lemma Allows_iff:
  "Allows r required \<longleftrightarrow>
     required = RoleOperatorRead \<and> r \<in> {RoleOperatorRead, RoleAdminWrite} \<or>
     required = RoleAdminWrite \<and> r = RoleAdminWrite"
  by (auto simp: Allows_def RoleOperatorRead_def RoleAdminWrite_def)

lemma Cut_Bearer: "Cut (''Bearer '' @ t) '' '' = (''Bearer'', t, True)"
  by (simp add: HasPrefix_def)

lemma TrimSpace_Bearer:
  assumes "t \<noteq> []" "\<forall>c \<in> set t. solid c"
  shows "TrimSpace (''Bearer '' @ t) = ''Bearer '' @ t"
  using assms by (intro TrimSpace_solid) (auto simp: solid_def)

lemma no_space:
  assumes "\<forall>c \<in> set t. solid c" shows "\<not> Contains t '' ''"
  using assms by (induction t) (auto simp: HasPrefix_def solid_def)

lemma AuthorizeHeader_Bearer:
  assumes "t \<noteq> []" "\<forall>c \<in> set t. solid c"
  shows "AuthorizeHeader (''Bearer '' @ t) c required =
    (case roleForToken c t of
       None \<Rightarrow> Inl (CodeUnauthenticated, Errorf ''invalid bearer token'' [] None)
     | Some role \<Rightarrow>
         if \<not> Allows role required
         then Inl (CodePermissionDenied, Errorf ''role %q does not satisfy %q'' [role, required] None)
         else Inr role)"
proof -
  have "TrimSpace t = t" using assms by (intro TrimSpace_solid) auto
  then have "parseBearerToken (''Bearer '' @ t) = Inr t"
    unfolding parseBearerToken_def Cut_Bearer using assms no_space by (simp add: EqualFold_def)
  then show ?thesis unfolding AuthorizeHeader_def TrimSpace_Bearer[OF assms] Let_def by simp
qed

text \<open>
  C30: Operator access needs the configured token of a sufficient role (\<open>operatorauth.go\<close>). Whatever
  the header, a role is granted only for a non-empty configured token: writing needs the
  administrator's token, reading either one, and with no token configured nobody gets in. And
  a configured token made of printable characters is accepted: the administrator's for both
  purposes, the reader's for reading, while for writing it is refused as not permitted.
\<close>

theorem AuthorizeHeader_roles:
  "(AuthorizeHeader header c required = Inr role \<longrightarrow>
     Allows role required \<and>
     (\<exists>scheme rest token. TrimSpace header = scheme @ '' '' @ rest \<and> EqualFold scheme ''Bearer'' \<and>
        token = TrimSpace rest \<and> token \<noteq> [] \<and>
        (role = RoleAdminWrite \<and> token = AdminBearerToken c \<or>
         role = RoleOperatorRead \<and> required = RoleOperatorRead \<and> token = ReadBearerToken c))) \<and>
   (AdminBearerToken c \<noteq> [] \<and> (\<forall>x \<in> set (AdminBearerToken c). solid x) \<longrightarrow>
     (\<forall>need \<in> {RoleOperatorRead, RoleAdminWrite}.
        AuthorizeHeader (''Bearer '' @ AdminBearerToken c) c need = Inr RoleAdminWrite)) \<and>
   (ReadBearerToken c \<noteq> [] \<and> ReadBearerToken c \<noteq> AdminBearerToken c \<and>
      (\<forall>x \<in> set (ReadBearerToken c). solid x) \<longrightarrow>
     AuthorizeHeader (''Bearer '' @ ReadBearerToken c) c RoleOperatorRead = Inr RoleOperatorRead \<and>
     (\<exists>e. AuthorizeHeader (''Bearer '' @ ReadBearerToken c) c RoleAdminWrite = Inl (CodePermissionDenied, e)))"
proof (intro conjI impI)
  assume a: "AuthorizeHeader header c required = Inr role"
  then obtain token where t: "parseBearerToken (TrimSpace header) = Inr token"
      "roleForToken c token = Some role" "Allows role required"
    by (auto simp: AuthorizeHeader_def Let_def split: if_splits sum.splits option.splits)
  show "Allows role required" by (rule t(3))
  obtain scheme rest where s: "Cut (TrimSpace header) '' '' = (scheme, rest, True)"
      "EqualFold scheme ''Bearer''" "token = TrimSpace rest" "token \<noteq> []"
    using t(1) by (auto simp: parseBearerToken_def Let_def split: prod.splits if_splits)
  have "role = RoleAdminWrite \<and> token = AdminBearerToken c \<or>
      role = RoleOperatorRead \<and> required = RoleOperatorRead \<and> token = ReadBearerToken c"
    using t(2,3) by (auto simp: roleForToken_def Allows_iff RoleOperatorRead_def RoleAdminWrite_def split: if_splits)
  then show "\<exists>scheme rest token. TrimSpace header = scheme @ '' '' @ rest \<and> EqualFold scheme ''Bearer'' \<and>
        token = TrimSpace rest \<and> token \<noteq> [] \<and>
        (role = RoleAdminWrite \<and> token = AdminBearerToken c \<or>
         role = RoleOperatorRead \<and> required = RoleOperatorRead \<and> token = ReadBearerToken c)"
    using Cut_found[OF s(1)] s(2-4) by blast
qed (auto simp: AuthorizeHeader_Bearer roleForToken_def Allows_iff RoleOperatorRead_def RoleAdminWrite_def
       simp del: append.simps)

theorem AuthorizeHeader_roles_witness:
  "let c = \<lparr>ReadBearerToken = ''r'', AdminBearerToken = ''a''\<rparr> in
   AuthorizeHeader ''Bearer a'' c RoleAdminWrite = Inr RoleAdminWrite \<and>
   AuthorizeHeader ''Bearer r'' c RoleOperatorRead = Inr RoleOperatorRead"
  using AuthorizeHeader_roles[of "[]" "\<lparr>ReadBearerToken = ''r'', AdminBearerToken = ''a''\<rparr>"]
  by (simp add: solid_def)

end
