(* ===== verification/Sds_Usage_Service.thy ===== *)
theory Sds_Usage_Service
  imports Sds_Lifecycle
begin

text \<open>
  Metering: the consumer's usage counters (\<open>usage.go\<close>) and the provider's usage service
  (\<open>provider/usage/service.go\<close>), which turns reported metrics into usage events, prices them and
  applies them to the session.
\<close>

subsection \<open>Usage counters of a sink\<close>

record UsageTracker =
  ut_blocksReceived :: u64
  ut_blocksProcessed :: u64
  ut_bytesTransferred :: u64
  ut_requests :: u64
  ut_totalBlocksReceived :: u64
  ut_totalBlocksProcessed :: u64
  ut_totalBytesTransferred :: u64
  ut_totalRequests :: u64

definition NewUsageTracker :: UsageTracker where
  "NewUsageTracker =
     \<lparr>ut_blocksReceived = 0, ut_blocksProcessed = 0, ut_bytesTransferred = 0, ut_requests = 0,
      ut_totalBlocksReceived = 0, ut_totalBlocksProcessed = 0, ut_totalBytesTransferred = 0,
      ut_totalRequests = 0\<rparr>"

definition AddBlock :: "u64 \<Rightarrow> UsageTracker \<Rightarrow> UsageTracker" where
  "AddBlock dataBytes t =
     (let t = t\<lparr>ut_blocksReceived := ut_blocksReceived t + 1,
                ut_totalBlocksReceived := ut_totalBlocksReceived t + 1\<rparr>;
          t = (if dataBytes > 0 then
                 t\<lparr>ut_blocksProcessed := ut_blocksProcessed t + 1,
                   ut_bytesTransferred := ut_bytesTransferred t + dataBytes,
                   ut_totalBlocksProcessed := ut_totalBlocksProcessed t + 1,
                   ut_totalBytesTransferred := ut_totalBytesTransferred t + dataBytes\<rparr>
               else t)
      in t\<lparr>ut_requests := ut_requests t + 1, ut_totalRequests := ut_totalRequests t + 1\<rparr>)"

definition SwapAndGetUsage :: "UsageTracker \<Rightarrow> (u64 \<times> u64 \<times> u64 \<times> u64) \<times> UsageTracker" where
  "SwapAndGetUsage t =
     ((ut_blocksReceived t, ut_blocksProcessed t, ut_bytesTransferred t, ut_requests t),
      t\<lparr>ut_blocksReceived := 0, ut_blocksProcessed := 0, ut_bytesTransferred := 0, ut_requests := 0\<rparr>)"

definition GetTotalUsage :: "UsageTracker \<Rightarrow> u64 \<times> u64 \<times> u64 \<times> u64" where
  "GetTotalUsage t =
     (ut_totalBlocksReceived t, ut_totalBlocksProcessed t, ut_totalBytesTransferred t,
      ut_totalRequests t)"

text \<open>Blocks and reports in any order; the reports collect what was swapped out.\<close>

datatype tracker_op = OpBlock u64 | OpReport

fun run_tracker :: "tracker_op list \<Rightarrow> UsageTracker \<Rightarrow> (u64 \<times> u64 \<times> u64 \<times> u64) list \<times> UsageTracker" where
  "run_tracker [] t = ([], t)"
| "run_tracker (OpBlock n # ops) t = run_tracker ops (AddBlock n t)"
| "run_tracker (OpReport # ops) t =
     (case SwapAndGetUsage t of (d, t') \<Rightarrow> (case run_tracker ops t' of (ds, t'') \<Rightarrow> (d # ds, t'')))"

fun add4 :: "u64 \<times> u64 \<times> u64 \<times> u64 \<Rightarrow> u64 \<times> u64 \<times> u64 \<times> u64 \<Rightarrow> u64 \<times> u64 \<times> u64 \<times> u64" where
  "add4 (a, b, c, d) (a', b', c', d') = (a + a', b + b', c + c', d + d')"

definition reported :: "(u64 \<times> u64 \<times> u64 \<times> u64) list \<Rightarrow> u64 \<times> u64 \<times> u64 \<times> u64" where
  "reported ds = foldr add4 ds (0, 0, 0, 0)"

definition unreported :: "UsageTracker \<Rightarrow> u64 \<times> u64 \<times> u64 \<times> u64" where
  "unreported t = (ut_blocksReceived t, ut_blocksProcessed t, ut_bytesTransferred t, ut_requests t)"

lemma add4_assoc: "add4 (add4 x y) z = add4 x (add4 y z)"
  by (cases x; cases y; cases z) simp

lemma add4_zero [simp]: "add4 x (0, 0, 0, 0) = x" "add4 (0, 0, 0, 0) x = x"
  by (cases x; simp)+

lemma AddBlock_balanced:
  "GetTotalUsage t = add4 d (unreported t) \<Longrightarrow>
   GetTotalUsage (AddBlock n t) = add4 d (unreported (AddBlock n t))"
  by (cases d) (simp add: AddBlock_def GetTotalUsage_def unreported_def Let_def)

lemma run_tracker_balanced:
  "GetTotalUsage t = add4 d (unreported t) \<Longrightarrow> run_tracker ops t = (ds, t') \<Longrightarrow>
   GetTotalUsage t' = add4 (add4 d (reported ds)) (unreported t')"
proof (induction ops t arbitrary: d ds t' rule: run_tracker.induct)
  case (1 t)
  then show ?case by (simp add: reported_def)
next
  case (2 n ops t)
  then show ?case using AddBlock_balanced by simp
next
  case (3 ops t)
  obtain d0 t0 where s: "SwapAndGetUsage t = (d0, t0)" by fastforce
  obtain es where r: "run_tracker ops t0 = (es, t')" "ds = d0 # es"
    using 3(3) s by (auto split: prod.splits)
  have "GetTotalUsage t0 = add4 (add4 d d0) (unreported t0)"
    using 3(2) s by (cases d) (auto simp: unreported_def SwapAndGetUsage_def GetTotalUsage_def)
  from 3(1)[OF s[symmetric] this r(1)] show ?case
    using r(2) by (simp add: reported_def add4_assoc)
qed



subsection \<open>The usage service\<close>

record Metric =
  m_Name :: string
  m_Value :: "64 word"

record Event =
  ev_OrganizationId :: string
  ev_ApiKeyId :: string
  ev_IpAddress :: string
  ev_Endpoint :: string
  ev_Network :: string
  ev_SdsSessionId :: string
  ev_Provider :: string
  ev_OutputModuleHash :: string
  ev_Metrics :: "Metric option list"
  ev_Timestamp :: "time option"

definition add_metric :: "Metric option \<Rightarrow> UsageEvent \<Rightarrow> UsageEvent" where
  "add_metric m ue =
     (case m of
        None \<Rightarrow> ue
      | Some m \<Rightarrow>
          if m_Name m \<in> {''blocks_count'', ''blocks'', ''block_count'', ''message_count''}
          then ue\<lparr>ue_Blocks := ue_Blocks ue + m_Value m\<rparr>
          else if m_Name m \<in> {''bytes_count'', ''bytes'', ''egress_bytes''}
          then ue\<lparr>ue_Bytes := ue_Bytes ue + m_Value m\<rparr>
          else if m_Name m \<in> {''requests_count'', ''requests''}
          then ue\<lparr>ue_Requests := ue_Requests ue + m_Value m\<rparr>
          else ue)"

definition protoEventToUsageEvent :: "Event \<Rightarrow> time \<Rightarrow> UsageEvent" where
  "protoEventToUsageEvent event now =
     fold add_metric (ev_Metrics event)
       \<lparr>ue_Timestamp = (case ev_Timestamp event of None \<Rightarrow> now | Some t \<Rightarrow> t),
        ue_Blocks = 0, ue_Bytes = 0, ue_Requests = 0\<rparr>"

text \<open>
  The runtime notifier is an interface of the service: an optional action on the repository and
  on the state \<open>'g\<close> of whoever is notified. Failures are logged and the batch goes on; a
  session that does not exist skips the notification.
\<close>

type_synonym 'g notifier = "string \<Rightarrow> InMemoryRepository \<times> 'g \<Rightarrow> unit result \<times> (InMemoryRepository \<times> 'g)"

definition report_event ::
  "PricingConfig \<Rightarrow> 'g notifier option \<Rightarrow> time \<Rightarrow> Event option \<Rightarrow> InMemoryRepository \<times> 'g \<Rightarrow> InMemoryRepository \<times> 'g" where
  "report_event pricingConfig runtime now event st =
     (case event of
        None \<Rightarrow> st
      | Some e \<Rightarrow>
          if ev_SdsSessionId e = [] then st
          else
            let sessionID = ev_SdsSessionId e;
                usageEvent = protoEventToUsageEvent e now
            in (case SanitizedTotals (Some usageEvent) of (blocks, bytes, _) \<Rightarrow>
               let cost = BigInt (CalculateUsageCost pricingConfig blocks bytes) in
               (case SessionApplyUsage sessionID (Some usageEvent) (Some cost) now (fst st) of
                  (res, r') \<Rightarrow>
                    if (case res of Inl err \<Rightarrow> errors_Is err ErrNotFound | Inr _ \<Rightarrow> False) then (r', snd st)
                    else (case runtime of
                            None \<Rightarrow> (r', snd st)
                          | Some notify \<Rightarrow> snd (notify sessionID (r', snd st))))))"

definition Report ::
  "PricingConfig \<Rightarrow> 'g notifier option \<Rightarrow> time \<Rightarrow> Event option list \<Rightarrow> InMemoryRepository \<times> 'g \<Rightarrow>
   bool \<times> (InMemoryRepository \<times> 'g)" where
  "Report pricingConfig runtime now events st =
     (if events = [] then (False, st)
      else (False, fold (report_event pricingConfig runtime now) events st))"

subsection \<open>Accounting\<close>

definition event_usage :: "Event \<Rightarrow> UsageEvent" where
  "event_usage e = protoEventToUsageEvent e 0"

definition event_cost :: "PricingConfig \<Rightarrow> Event \<Rightarrow> int" where
  "event_cost p e =
     BigInt (CalculateUsageCost p (sanitizeUsageMetric (ue_Blocks (event_usage e)))
       (sanitizeUsageMetric (ue_Bytes (event_usage e))))"

text \<open>The events of a batch that are charged to a session.\<close>

definition charged :: "string \<Rightarrow> Event option list \<Rightarrow> Event list" where
  "charged i events = filter (\<lambda>e. ev_SdsSessionId e = i) (List.map_filter id events)"

text \<open>A notifier that neither removes sessions nor touches their accumulated usage.\<close>

definition notifier_ok :: "'g notifier option \<Rightarrow> bool" where
  "notifier_ok runtime \<longleftrightarrow>
     (case runtime of None \<Rightarrow> True
      | Some n \<Rightarrow> \<forall>j r g i s. sessions r i = Some s \<longrightarrow>
          (\<exists>s'. sessions (fst (snd (n j (r, g)))) i = Some s' \<and> total_cost s' = total_cost s \<and>
             ses_BlocksProcessed s' = ses_BlocksProcessed s \<and>
             ses_BytesTransferred s' = ses_BytesTransferred s))"

lemma add_metric_cong:
  assumes "ue_Blocks u = ue_Blocks u'" "ue_Bytes u = ue_Bytes u'"
  shows "ue_Blocks (add_metric m u) = ue_Blocks (add_metric m u')"
    "ue_Bytes (add_metric m u) = ue_Bytes (add_metric m u')"
proof -
  let ?c1 = "m_Name (the m) \<in> {''blocks_count'', ''blocks'', ''block_count'', ''message_count''}"
  let ?c2 = "m_Name (the m) \<in> {''bytes_count'', ''bytes'', ''egress_bytes''}"
  let ?c3 = "m_Name (the m) \<in> {''requests_count'', ''requests''}"
  have "add_metric m v = (if m = None then v
      else if ?c1 then v\<lparr>ue_Blocks := ue_Blocks v + m_Value (the m)\<rparr>
      else if ?c2 then v\<lparr>ue_Bytes := ue_Bytes v + m_Value (the m)\<rparr>
      else if ?c3 then v\<lparr>ue_Requests := ue_Requests v + m_Value (the m)\<rparr> else v)" for v
    by (cases m) (simp_all only: add_metric_def option.case option.sel if_True if_False simp_thms option.distinct)
  then show "ue_Blocks (add_metric m u) = ue_Blocks (add_metric m u')"
    "ue_Bytes (add_metric m u) = ue_Bytes (add_metric m u')"
    using assms by (cases ?c1; cases ?c2; cases ?c3; simp)+
qed

lemma fold_metric_cong:
  assumes "ue_Blocks u = ue_Blocks u'" "ue_Bytes u = ue_Bytes u'"
  shows "ue_Blocks (fold add_metric ms u) = ue_Blocks (fold add_metric ms u') \<and>
    ue_Bytes (fold add_metric ms u) = ue_Bytes (fold add_metric ms u')"
  using assms
proof (induction ms arbitrary: u u')
  case (Cons m ms)
  show ?case using Cons.IH[OF add_metric_cong[OF Cons.prems]] by simp
qed simp

lemma usage_event_now:
  "ue_Blocks (protoEventToUsageEvent e now) = ue_Blocks (event_usage e)"
  "ue_Bytes (protoEventToUsageEvent e now) = ue_Bytes (event_usage e)"
  unfolding protoEventToUsageEvent_def event_usage_def
  by (rule fold_metric_cong[THEN conjunct1] fold_metric_cong[THEN conjunct2]; simp)+

text \<open>What one event does to the session it names and to the others.\<close>

lemma SessionApplyUsage_sessions:
  "sessions (snd (SessionApplyUsage i (Some u) cost now r)) =
     (case sessions r i of None \<Rightarrow> sessions r
      | Some s \<Rightarrow> (sessions r)(i \<mapsto> apply_usage_next (Some u) cost now s))"
  by (simp add: SessionApplyUsage_def split: option.splits)

lemma SessionApplyUsage_result:
  "fst (SessionApplyUsage i (Some u) cost now r) =
     (case sessions r i of None \<Rightarrow> Inl (session_not_found i) | Some _ \<Rightarrow> Inr ())"
  by (simp add: SessionApplyUsage_def UsageAdd_def split: option.splits)

lemma apply_usage_counters:
  "total_cost (apply_usage_next (Some u) (Some c) now s) = total_cost s + c"
  "ses_BlocksProcessed (apply_usage_next (Some u) (Some c) now s) =
     ses_BlocksProcessed s + sanitizeUsageMetric (ue_Blocks u)"
  "ses_BytesTransferred (apply_usage_next (Some u) (Some c) now s) =
     ses_BytesTransferred s + sanitizeUsageMetric (ue_Bytes u)"
  by (simp add: apply_usage_next_def SanitizedTotals_def)
    (simp_all add: apply_usage_next_def SanitizedTotals_def AddUsage_def)

definition same_usage :: "Session \<Rightarrow> Session \<Rightarrow> bool" where
  "same_usage s s' \<longleftrightarrow> total_cost s' = total_cost s \<and>
     ses_BlocksProcessed s' = ses_BlocksProcessed s \<and> ses_BytesTransferred s' = ses_BytesTransferred s"

lemma notified_usage:
  assumes "notifier_ok runtime" "sessions r i = Some s"
  shows "\<exists>s'. sessions (fst (case runtime of None \<Rightarrow> (r, g) | Some n \<Rightarrow> snd (n j (r, g)))) i = Some s' \<and>
    same_usage s s'"
  using assms by (cases runtime) (auto simp: notifier_ok_def same_usage_def)

definition event_charge :: "PricingConfig \<Rightarrow> string \<Rightarrow> Event option \<Rightarrow> int \<times> u64 \<times> u64" where
  "event_charge p i e =
     (case e of
        None \<Rightarrow> (0, 0, 0)
      | Some e \<Rightarrow>
          if ev_SdsSessionId e = i
          then (event_cost p e, sanitizeUsageMetric (ue_Blocks (event_usage e)),
                sanitizeUsageMetric (ue_Bytes (event_usage e)))
          else (0, 0, 0))"

lemma report_event_Some:
  assumes "ev_SdsSessionId ev \<noteq> []"
  shows "report_event p runtime now (Some ev) st =
    (case SessionApplyUsage (ev_SdsSessionId ev) (Some (protoEventToUsageEvent ev now))
            (Some (event_cost p ev)) now (fst st) of
       (res, r') \<Rightarrow>
         if (case res of Inl err \<Rightarrow> errors_Is err ErrNotFound | Inr _ \<Rightarrow> False) then (r', snd st)
         else (case runtime of
                 None \<Rightarrow> (r', snd st)
               | Some notify \<Rightarrow> snd (notify (ev_SdsSessionId ev) (r', snd st))))"
  using assms by (simp add: report_event_def SanitizedTotals_def usage_event_now event_cost_def Let_def)

lemma report_event_charges:
  assumes "notifier_ok runtime" "sessions (fst st) i = Some s" "i \<noteq> []"
  shows "\<exists>s'. sessions (fst (report_event p runtime now e st)) i = Some s' \<and>
    total_cost s' = total_cost s + fst (event_charge p i e) \<and>
    ses_BlocksProcessed s' = ses_BlocksProcessed s + fst (snd (event_charge p i e)) \<and>
    ses_BytesTransferred s' = ses_BytesTransferred s + snd (snd (event_charge p i e))"
proof (cases "e = None \<or> ev_SdsSessionId (the e) = []")
  case True
  then show ?thesis using assms by (cases e) (simp_all add: report_event_def event_charge_def)
next
  case False
  then obtain ev where e: "e = Some ev" and j: "ev_SdsSessionId ev \<noteq> []" by auto
  let ?j = "ev_SdsSessionId ev" and ?u = "protoEventToUsageEvent ev now"
  define r' where "r' = snd (SessionApplyUsage ?j (Some ?u) (Some (event_cost p ev)) now (fst st))"
  have st': "report_event p runtime now e st =
      (if sessions (fst st) ?j = None then (r', snd st)
       else (case runtime of None \<Rightarrow> (r', snd st) | Some n \<Rightarrow> snd (n ?j (r', snd st))))"
    using SessionApplyUsage_result[of ?j ?u "Some (event_cost p ev)" now "fst st"]
    unfolding e report_event_Some[OF j] r'_def
    by (cases "sessions (fst st) ?j")
      (simp_all add: split_beta session_not_found_def ErrNotFound_def)
  have r': "\<exists>s'. sessions r' i = Some s' \<and>
      total_cost s' = total_cost s + fst (event_charge p i e) \<and>
      ses_BlocksProcessed s' = ses_BlocksProcessed s + fst (snd (event_charge p i e)) \<and>
      ses_BytesTransferred s' = ses_BytesTransferred s + snd (snd (event_charge p i e))"
    using assms(2) unfolding r'_def
    by (cases "?j = i") (auto simp: e event_charge_def SessionApplyUsage_sessions apply_usage_counters
        usage_event_now split: option.splits)
  then obtain s1 where s1: "sessions r' i = Some s1" "total_cost s1 = total_cost s + fst (event_charge p i e)"
      "ses_BlocksProcessed s1 = ses_BlocksProcessed s + fst (snd (event_charge p i e))"
      "ses_BytesTransferred s1 = ses_BytesTransferred s + snd (snd (event_charge p i e))" by blast
  show ?thesis
  proof (cases "sessions (fst st) ?j")
    case None
    then show ?thesis using s1 by (simp add: st')
  next
    case (Some _)
    then show ?thesis
      using notified_usage[OF assms(1) s1(1), of "snd st" ?j] s1 by (auto simp: st' same_usage_def)
  qed
qed

lemma report_fold_charges:
  fixes st :: "InMemoryRepository \<times> 'g"
  assumes "notifier_ok runtime" "sessions (fst st) i = Some s" "i \<noteq> []"
  shows "\<exists>s'. sessions (fst (fold (report_event p runtime now) events st)) i = Some s' \<and>
    total_cost s' = total_cost s + sum_list (map (fst \<circ> event_charge p i) events) \<and>
    ses_BlocksProcessed s' = ses_BlocksProcessed s + sum_list (map (fst \<circ> snd \<circ> event_charge p i) events) \<and>
    ses_BytesTransferred s' = ses_BytesTransferred s + sum_list (map (snd \<circ> snd \<circ> event_charge p i) events)"
  using assms(2)
proof (induction events arbitrary: st s)
  case Nil
  then show ?case by simp
next
  case (Cons e events)
  obtain s1 where s1: "sessions (fst (report_event p runtime now e st)) i = Some s1"
      "total_cost s1 = total_cost s + fst (event_charge p i e)"
      "ses_BlocksProcessed s1 = ses_BlocksProcessed s + fst (snd (event_charge p i e))"
      "ses_BytesTransferred s1 = ses_BytesTransferred s + snd (snd (event_charge p i e))"
    using report_event_charges[OF assms(1) Cons.prems assms(3)] by blast
  from Cons.IH[OF s1(1)] show ?case using s1(2-4) by (auto simp: add.assoc)
qed


definition sample_event :: "string \<Rightarrow> 64 word \<Rightarrow> Event option" where
  "sample_event i n =
     Some \<lparr>ev_OrganizationId = [], ev_ApiKeyId = [], ev_IpAddress = [], ev_Endpoint = [], ev_Network = [],
       ev_SdsSessionId = i, ev_Provider = [], ev_OutputModuleHash = [],
       ev_Metrics = [Some \<lparr>m_Name = ''blocks'', m_Value = n\<rparr>], ev_Timestamp = Some 1\<rparr>"

lemma sample_event_cost:
  "event_charge \<lparr>PricePerBlock = mkGRT 5, PricePerByte = mkGRT 0\<rparr> ''s'' (sample_event ''s'' 3) = (15, 3, 0)"
  by (simp add: event_charge_def sample_event_def event_cost_def event_usage_def protoEventToUsageEvent_def
      add_metric_def sanitizeUsageMetric_def CalculateUsageCost_def GRT_Mul_def GRT_Add_def BigInt_def Let_def)


text \<open>
  The service never reports a revocation (\<open>Report\<close>). Whatever the batch and the state, also
  when the session has been terminated, the reply says that nothing is revoked.
\<close>

theorem Report_never_revokes: "fst (Report p runtime now events st) = False"
  by (simp add: Report_def)

end
