(* ===== verification/Sds_Runtime.thy ===== *)
theory Sds_Runtime
  imports Sds_Chain Sds_Auth Sds_Usage_Service
begin

text \<open>
  The payment runtime of the provider gateway: the check of a payer's funds
  (\<open>provider/gateway/funds.go\<close>), the snapshot behind a voucher request
  (\<open>provider/gateway/rav_request_runtime.go\<close>) and the manager of the live payment streams
  (\<open>provider/gateway/runtime_manager.go\<close>), with the parts of \<open>provider/gateway/gateway.go\<close> they use.
\<close>

subsection \<open>The gateway\<close>

text \<open>
  A querier is the address of its contract. The collector's is kept in an interface variable,
  which may be empty, hold a nil pointer or hold a querier. The node that answers the queries
  is an argument of the operations, for its answers change over time.
\<close>

datatype CollectorRef = NilInterface | NilPointer | Querier address

record Gateway =
  gw_serviceProvider :: address
  gw_domain :: Domain
  gw_collectorAddr :: address
  gw_escrowQuerier :: "address option"
  gw_collectorQuerier :: CollectorRef
  gw_pricingConfig :: "PricingConfig option"
  gw_ravRequestThreshold :: "int option"
  gw_dataPlaneEndpoint :: string
  gw_operatorAuthConfig :: OperatorAuthConfig

record node =
  nd_call :: eth_call
  nd_loadFn :: "(address \<Rightarrow> address \<Rightarrow> address \<Rightarrow> bytes result) result"

definition GetEscrowBalance :: "node \<Rightarrow> Gateway \<Rightarrow> address \<Rightarrow> int option result" where
  "GetEscrowBalance n g payer =
     (case gw_escrowQuerier g of
        None \<Rightarrow> Inr None
      | Some escrowAddr \<Rightarrow>
          (case GetBalance (nd_loadFn n) (nd_call n) escrowAddr payer (gw_collectorAddr g) (gw_serviceProvider g) of
             Inl err \<Rightarrow> Inl err
           | Inr b \<Rightarrow> Inr (Some b)))"

definition shouldRequestRAV :: "Gateway \<Rightarrow> Session option \<Rightarrow> bool" where
  "shouldRequestRAV g session =
     (case session of
        None \<Rightarrow> False
      | Some s \<Rightarrow>
          (case gw_ravRequestThreshold g of
             None \<Rightarrow> False
           | Some threshold \<Rightarrow>
               ses_CurrentRAV s \<noteq> None \<and> snd (snd (snd (UsageDeltaSinceBaseline s))) \<ge> threshold))"

subsection \<open>Error texts\<close>

text \<open>
  \<open>error.Error\<close> renders the format with its arguments; \<open>%q\<close> quotes printable ASCII, control
  characters by their escapes and any other byte by its code. A printable character outside ASCII,
  which Go keeps as it is, is rendered by the codes of its bytes.
\<close>

definition quote_char :: "char \<Rightarrow> string" where
  "quote_char c =
     (let n = of_char c :: nat in
      if n = 34 \<or> n = 92 then [char_of (92 :: nat), c]
      else if 7 \<le> n \<and> n \<le> 13 then [char_of (92 :: nat), ''abtnvfr'' ! (n - 7)]
      else if 32 \<le> n \<and> n \<le> 126 then [c]
      else [char_of (92 :: nat), CHR ''x'', hex_digit (n div 16), hex_digit (n mod 16)])"

definition Quote :: "string \<Rightarrow> string" where
  "Quote s = char_of (34 :: nat) # concat (map quote_char s) @ [char_of (34 :: nat)]"

fun expand_verbs :: "string \<Rightarrow> string list \<Rightarrow> string \<Rightarrow> string" where
  "expand_verbs [] args wrapped = []"
| "expand_verbs [c] args wrapped = [c]"
| "expand_verbs (c # v # s) args wrapped =
     (if c \<noteq> CHR ''%'' then c # expand_verbs (v # s) args wrapped
      else if v = CHR ''w'' then wrapped @ expand_verbs s args wrapped
      else (case args of
              [] \<Rightarrow> expand_verbs s [] wrapped
            | a # as \<Rightarrow> (if v = CHR ''q'' then Quote a else a) @ expand_verbs s as wrapped))"

fun Error_text :: "go_error \<Rightarrow> string" where
  "Error_text (Sentinel s) = s"
| "Error_text (Errorf f args None) = expand_verbs f args []"
| "Error_text (Errorf f args (Some e)) = expand_verbs f args (Error_text e)"

subsection \<open>Funds\<close>

record fundsAssessment =
  fa_status :: string
  fa_currentOutstanding :: int
  fa_projectedOutstanding :: int
  fa_escrowBalance :: "int option"
  fa_minimumNeeded :: int
  fa_checkErr :: "go_error option"

definition fundsStatusOK :: string where "fundsStatusOK = ''ok''"
definition fundsStatusInsufficient :: string where "fundsStatusInsufficient = ''insufficient''"
definition fundsStatusUnknown :: string where "fundsStatusUnknown = ''unknown''"

definition insufficient :: "fundsAssessment \<Rightarrow> bool" where
  "insufficient a \<longleftrightarrow> fa_status a = fundsStatusInsufficient"

definition unknown_funds :: "fundsAssessment \<Rightarrow> bool" where
  "unknown_funds a \<longleftrightarrow> fa_status a = fundsStatusUnknown"

definition current_value :: "Session \<Rightarrow> int" where
  "current_value s =
     (case Option.bind (Option.bind (ses_CurrentRAV s) Message) ValueAggregate of
        None \<Rightarrow> 0 | Some v \<Rightarrow> v)"

definition assessSessionFunds :: "node \<Rightarrow> Gateway \<Rightarrow> Session \<Rightarrow> fundsAssessment" where
  "assessSessionFunds n g session =
     (let currentOutstanding = current_value session;
          deltaCost = snd (snd (snd (UsageDeltaSinceBaseline session)));
          projectedOutstanding = currentOutstanding + deltaCost;
          assessment = \<lparr>fa_status = fundsStatusUnknown, fa_currentOutstanding = currentOutstanding,
            fa_projectedOutstanding = projectedOutstanding, fa_escrowBalance = None,
            fa_minimumNeeded = 0, fa_checkErr = None\<rparr>
      in (case GetEscrowBalance n g (ses_Payer session) of
            Inl err \<Rightarrow> assessment\<lparr>fa_checkErr := Some err\<rparr>
          | Inr None \<Rightarrow> assessment
          | Inr (Some escrowBalance) \<Rightarrow>
              if projectedOutstanding > escrowBalance
              then assessment\<lparr>fa_escrowBalance := Some escrowBalance, fa_status := fundsStatusInsufficient,
                     fa_minimumNeeded := projectedOutstanding - escrowBalance\<rparr>
              else assessment\<lparr>fa_escrowBalance := Some escrowBalance, fa_status := fundsStatusOK\<rparr>))"

definition applyFundsAssessmentMetadata :: "fundsAssessment \<Rightarrow> Session \<Rightarrow> Session" where
  "applyFundsAssessmentMetadata a session =
     (let m = (ses_Metadata session)
            (''funds_status'' \<mapsto> fa_status a,
             ''funds_current_outstanding_wei'' \<mapsto> bigint_string (Some (fa_currentOutstanding a)),
             ''funds_projected_outstanding_wei'' \<mapsto> bigint_string (Some (fa_projectedOutstanding a)));
          m = (case fa_escrowBalance a of
                 Some b \<Rightarrow> m(''funds_escrow_balance_wei'' \<mapsto> bigint_string (Some b),
                             ''funds_minimum_needed_wei'' \<mapsto> bigint_string (Some (fa_minimumNeeded a)))
               | None \<Rightarrow> m(''funds_escrow_balance_wei'' := None, ''funds_minimum_needed_wei'' := None));
          m = (case fa_checkErr a of
                 Some err \<Rightarrow> m(''funds_check_error'' \<mapsto> Error_text err)
               | None \<Rightarrow> m(''funds_check_error'' := None))
      in session\<lparr>ses_Metadata := m\<rparr>)"

subsection \<open>Stream messages\<close>

datatype Action = ACTION_UNSPECIFIED | ACTION_CONTINUE | ACTION_STOP | ACTION_PAUSE | Action_unnamed int

record RAVRequest =
  rq_CurrentRav :: "pb_SignedRAV option"
  rq_Usage :: "pb_Usage option"
  rq_Deadline :: u64

record NeedMoreFunds =
  nf_OutstandingRavs :: "pb_SignedRAV option list"
  nf_TotalOutstanding :: pb_GRT
  nf_EscrowBalance :: pb_GRT
  nf_MinimumNeeded :: "pb_GRT option"

datatype PaymentSessionResponse =
    Response_RavRequest RAVRequest
  | Response_NeedMoreFunds NeedMoreFunds
  | Response_SessionControl Action string

definition needMoreFundsResponse :: "eth_lib \<Rightarrow> Session \<Rightarrow> fundsAssessment \<Rightarrow> PaymentSessionResponse" where
  "needMoreFundsResponse l session a =
     Response_NeedMoreFunds
       \<lparr>nf_OutstandingRavs =
          (if ses_CurrentRAV session \<noteq> None
           then [HorizonSignedRAVToProto (lib_fromBig l) (ses_CurrentRAV session)] else []),
        nf_TotalOutstanding = GRTFromBigInt (lib_fromBig l) (Some (fa_currentOutstanding a)),
        nf_EscrowBalance = GRTFromBigInt (lib_fromBig l) (fa_escrowBalance a),
        nf_MinimumNeeded = Some (GRTFromBigInt (lib_fromBig l) (Some (fa_minimumNeeded a)))\<rparr>"

subsection \<open>Voucher requests in flight\<close>

record pendingRAVRequest =
  pq_usage :: "pb_Usage option"
  pq_currentRAVValue :: int
  pq_targetValue :: int
  pq_baselineBlocks :: u64
  pq_baselineBytes :: u64
  pq_baselineReqs :: u64
  pq_baselineCost :: int

definition runtime_cloneBigInt :: "int option \<Rightarrow> int" where
  "runtime_cloneBigInt v = (case v of None \<Rightarrow> 0 | Some n \<Rightarrow> n)"

definition cloneUsage :: "from_big \<Rightarrow> pb_Usage option \<Rightarrow> pb_Usage option" where
  "cloneUsage fromBig usage' =
     (case usage' of
        None \<Rightarrow> None
      | Some u \<Rightarrow>
          Some \<lparr>pu_BlocksProcessed = pu_BlocksProcessed u, pu_BytesTransferred = pu_BytesTransferred u,
                pu_Requests = pu_Requests u,
                pu_Cost = (if pu_Cost u \<noteq> None
                           then Some (GRTFromBigInt fromBig (Some (GRT_ToBigInt fromBig (pu_Cost u))))
                           else None)\<rparr>)"

definition usageEqual :: "from_big \<Rightarrow> pb_Usage option \<Rightarrow> pb_Usage option \<Rightarrow> bool" where
  "usageEqual fromBig a b =
     (case (a, b) of
        (Some a, Some b) \<Rightarrow>
          if pu_BlocksProcessed a \<noteq> pu_BlocksProcessed b \<or> pu_BytesTransferred a \<noteq> pu_BytesTransferred b \<or>
             pu_Requests a \<noteq> pu_Requests b
          then False
          else if pu_Cost a = None \<or> pu_Cost b = None then pu_Cost a = None \<and> pu_Cost b = None
          else GRT_ToBigInt fromBig (pu_Cost a) = GRT_ToBigInt fromBig (pu_Cost b)
      | _ \<Rightarrow> a = None \<and> b = None)"

definition newPendingRAVRequest ::
  "from_big \<Rightarrow> Session option \<Rightarrow> pb_Usage option \<Rightarrow> pendingRAVRequest option" where
  "newPendingRAVRequest fromBig session usage' =
     (case (session, usage') of
        (Some s, Some u) \<Rightarrow>
          (case Option.bind (ses_CurrentRAV s) Message of
             None \<Rightarrow> None
           | Some m \<Rightarrow>
               if pu_Cost u = None then None
               else
                 let currentValue = runtime_cloneBigInt (ValueAggregate m);
                     deltaCost = GRT_ToBigInt fromBig (pu_Cost u)
                 in Some \<lparr>pq_usage = cloneUsage fromBig (Some u), pq_currentRAVValue = currentValue,
                      pq_targetValue = currentValue + deltaCost,
                      pq_baselineBlocks = ses_BlocksProcessed s,
                      pq_baselineBytes = ses_BytesTransferred s,
                      pq_baselineReqs = ses_Requests s,
                      pq_baselineCost = runtime_cloneBigInt (ses_TotalCost s)\<rparr>)
      | _ \<Rightarrow> None)"

definition matchesUsage :: "from_big \<Rightarrow> pendingRAVRequest option \<Rightarrow> pb_Usage option \<Rightarrow> bool" where
  "matchesUsage fromBig r usage' =
     (case r of None \<Rightarrow> False | Some p \<Rightarrow> usageEqual fromBig (pq_usage p) usage')"

definition clone_pending :: "from_big \<Rightarrow> pendingRAVRequest option \<Rightarrow> pendingRAVRequest option" where
  "clone_pending fromBig r =
     map_option (\<lambda>p. p\<lparr>pq_usage := cloneUsage fromBig (pq_usage p)\<rparr>) r"

subsection \<open>Live streams\<close>

text \<open>
  A channel is a number; its buffer of four holds the responses not yet taken by the stream.
  The manager keeps one entry per session. Its two kinds of locks make every operation below
  one step.
\<close>

record runtimeSessionState =
  rs_events :: "nat option"
  rs_pendingRAV :: "pendingRAVRequest option"
  rs_queuedResponse :: "PaymentSessionResponse option"

record GatewayState =
  gs_repo :: InMemoryRepository
  gs_runtime :: "string \<rightharpoonup> runtimeSessionState"
  gs_channels :: "nat \<Rightarrow> PaymentSessionResponse list"
  gs_nextChannel :: nat
  gs_authCache :: auth_cache

definition channel_capacity :: nat where "channel_capacity = 4"

definition put_state :: "string \<Rightarrow> runtimeSessionState \<Rightarrow> GatewayState \<Rightarrow> GatewayState" where
  "put_state i rs st = st\<lparr>gs_runtime := (gs_runtime st)(i \<mapsto> rs)\<rparr>"

definition drop_state :: "string \<Rightarrow> GatewayState \<Rightarrow> GatewayState" where
  "drop_state i st = st\<lparr>gs_runtime := (gs_runtime st)(i := None)\<rparr>"

definition session_state :: "string \<Rightarrow> GatewayState \<Rightarrow> runtimeSessionState" where
  "session_state i st =
     (case gs_runtime st i of
        Some rs \<Rightarrow> rs
      | None \<Rightarrow> \<lparr>rs_events = None, rs_pendingRAV = None, rs_queuedResponse = None\<rparr>)"

definition ensureSessionStateLocked :: "string \<Rightarrow> GatewayState \<Rightarrow> GatewayState" where
  "ensureSessionStateLocked i st = put_state i (session_state i st) st"

text \<open>A non-blocking send.\<close>

definition try_send :: "nat \<Rightarrow> PaymentSessionResponse \<Rightarrow> GatewayState \<Rightarrow> bool \<times> GatewayState" where
  "try_send ch resp st =
     (if length (gs_channels st ch) < channel_capacity
      then (True, st\<lparr>gs_channels := (gs_channels st)(ch := gs_channels st ch @ [resp])\<rparr>)
      else (False, st))"

definition runtimeState :: "from_big \<Rightarrow> string \<Rightarrow> GatewayState \<Rightarrow> nat option \<times> pendingRAVRequest option" where
  "runtimeState fromBig sessionID st =
     (case gs_runtime st sessionID of
        None \<Rightarrow> (None, None)
      | Some current \<Rightarrow> (rs_events current, clone_pending fromBig (rs_pendingRAV current)))"

definition clearQueuedResponse ::
  "string \<Rightarrow> nat option \<Rightarrow> PaymentSessionResponse \<Rightarrow> pendingRAVRequest option \<Rightarrow> GatewayState \<Rightarrow> GatewayState" where
  "clearQueuedResponse sessionID events resp pending st =
     (case gs_runtime st sessionID of
        None \<Rightarrow> st
      | Some current \<Rightarrow>
          if rs_events current \<noteq> events \<or> rs_queuedResponse current \<noteq> Some resp then st
          else
            let current = current\<lparr>rs_queuedResponse := None, rs_pendingRAV := pending\<rparr> in
            if rs_events current = None \<and> rs_pendingRAV current = None then drop_state sessionID st
            else put_state sessionID current st)"

definition dispatch ::
  "from_big \<Rightarrow> string \<Rightarrow> PaymentSessionResponse option \<Rightarrow> pendingRAVRequest option \<Rightarrow> GatewayState \<Rightarrow> GatewayState" where
  "dispatch fromBig sessionID resp pending st =
     (case resp of
        None \<Rightarrow> st
      | Some resp \<Rightarrow>
          let current = session_state sessionID st;
              pendingRef = clone_pending fromBig pending;
              st = put_state sessionID (current\<lparr>rs_queuedResponse := Some resp, rs_pendingRAV := pendingRef\<rparr>) st
          in (case rs_events current of
                None \<Rightarrow> st
              | Some events \<Rightarrow>
                  (case try_send events resp st of
                     (True, st) \<Rightarrow> clearQueuedResponse sessionID (Some events) resp pendingRef st
                   | (False, st) \<Rightarrow> st)))"

definition tryDeliverQueuedResponse ::
  "string \<Rightarrow> nat option \<Rightarrow> PaymentSessionResponse option \<Rightarrow> pendingRAVRequest option \<Rightarrow> GatewayState \<Rightarrow> GatewayState" where
  "tryDeliverQueuedResponse sessionID events resp pending st =
     (case (events, resp) of
        (Some ch, Some resp) \<Rightarrow>
          (case try_send ch resp st of
             (True, st) \<Rightarrow> clearQueuedResponse sessionID events resp pending st
           | (False, st) \<Rightarrow> st)
      | _ \<Rightarrow> st)"

definition hasPendingRAV :: "string \<Rightarrow> GatewayState \<Rightarrow> bool" where
  "hasPendingRAV sessionID st =
     (case gs_runtime st sessionID of None \<Rightarrow> False | Some current \<Rightarrow> rs_pendingRAV current \<noteq> None)"

definition hasPendingPaymentControl :: "string \<Rightarrow> GatewayState \<Rightarrow> bool" where
  "hasPendingPaymentControl sessionID st =
     (case gs_runtime st sessionID of
        None \<Rightarrow> False
      | Some current \<Rightarrow> rs_pendingRAV current \<noteq> None \<or> rs_queuedResponse current \<noteq> None)"

definition cleanupSessionState :: "string \<Rightarrow> nat option \<Rightarrow> GatewayState \<Rightarrow> GatewayState" where
  "cleanupSessionState sessionID events st =
     (case gs_runtime st sessionID of
        None \<Rightarrow> st
      | Some current \<Rightarrow>
          if rs_events current \<noteq> events then st
          else if rs_pendingRAV current = None \<and> rs_queuedResponse current = None then drop_state sessionID st
          else put_state sessionID (current\<lparr>rs_events := None\<rparr>) st)"

definition clearPendingRAV :: "string \<Rightarrow> GatewayState \<Rightarrow> GatewayState" where
  "clearPendingRAV sessionID st =
     (case gs_runtime st sessionID of
        None \<Rightarrow> st
      | Some current \<Rightarrow> put_state sessionID (current\<lparr>rs_pendingRAV := None\<rparr>) st)"

definition clearQueuedControl :: "string \<Rightarrow> GatewayState \<Rightarrow> GatewayState" where
  "clearQueuedControl sessionID st =
     (case gs_runtime st sessionID of
        None \<Rightarrow> st
      | Some current \<Rightarrow>
          if rs_events current = None then drop_state sessionID st
          else put_state sessionID (current\<lparr>rs_pendingRAV := None, rs_queuedResponse := None\<rparr>) st)"

subsection \<open>Evaluation of metered usage\<close>

text \<open>\<open>Time.Unix\<close>: whole seconds since 1970.\<close>

definition Unix :: "time \<Rightarrow> int" where
  "Unix t = t div second - 62135596800"

definition set_repo :: "InMemoryRepository \<Rightarrow> GatewayState \<Rightarrow> GatewayState" where
  "set_repo r st = st\<lparr>gs_repo := r\<rparr>"

text \<open>The clock is read once: at the end of the session or for the deadline of the request.\<close>

definition request_usage :: "from_big \<Rightarrow> Session \<Rightarrow> pb_Usage" where
  "request_usage fromBig session =
     (case UsageDeltaSinceBaseline session of (blocks, bytes, reqs, deltaCost) \<Rightarrow>
        \<lparr>pu_BlocksProcessed = blocks, pu_BytesTransferred = bytes, pu_Requests = reqs,
         pu_Cost = Some (GRTFromBigInt fromBig (Some deltaCost))\<rparr>)"

definition assessed_session :: "fundsAssessment \<Rightarrow> time \<Rightarrow> Session \<Rightarrow> Session" where
  "assessed_session assessment now session =
     (let session = applyFundsAssessmentMetadata assessment session in
      if insufficient assessment then Session_End END_REASON_PAYMENT_ISSUE now session else session)"

definition control_after_assessment ::
  "eth_lib \<Rightarrow> Gateway \<Rightarrow> string \<Rightarrow> fundsAssessment \<Rightarrow> Session \<Rightarrow> time \<Rightarrow> GatewayState \<Rightarrow> GatewayState" where
  "control_after_assessment l g sessionID assessment session now st =
     (if insufficient assessment
      then dispatch (lib_fromBig l) sessionID (Some (needMoreFundsResponse l session assessment)) None
             (clearPendingRAV sessionID st)
      else if \<not> shouldRequestRAV g (Some session) then st
      else (case runtimeState (lib_fromBig l) sessionID st of
         (events, pending) \<Rightarrow>
           if events = None \<or> pending \<noteq> None then st
           else if ses_CurrentRAV session = None then st
           else
             let usage' = request_usage (lib_fromBig l) session;
                 resp = Response_RavRequest
                   \<lparr>rq_CurrentRav = HorizonSignedRAVToProto (lib_fromBig l) (ses_CurrentRAV session),
                    rq_Usage = Some usage', rq_Deadline = word_of_int (Unix (now + 30 * second))\<rparr>
             in dispatch (lib_fromBig l) sessionID (Some resp)
                  (newPendingRAVRequest (lib_fromBig l) (Some session) (Some usage')) st))"

definition evaluateMeteredUsage ::
  "eth_lib \<Rightarrow> Gateway \<Rightarrow> node \<Rightarrow> string \<Rightarrow> time \<Rightarrow> GatewayState \<Rightarrow> unit result \<times> GatewayState" where
  "evaluateMeteredUsage l g n sessionID now st =
     (case SessionGet sessionID (gs_repo st) of
        Inl err \<Rightarrow> if errors_Is err ErrNotFound then (Inr (), st) else (Inl err, st)
      | Inr session \<Rightarrow>
          if \<not> IsActive session then (Inr (), st)
          else
            let assessment = assessSessionFunds n g session;
                session = assessed_session assessment now session
            in (case SessionUpdateRuntimeState sessionID (ses_Status session) (ses_Metadata session)
                       (ses_EndedAt session) (ses_EndReason session) (ses_UpdatedAt session) (gs_repo st) of
                  (Inl err, r) \<Rightarrow> (Inl err, set_repo r st)
                | (Inr _, r) \<Rightarrow>
                    (Inr (), control_after_assessment l g sessionID assessment session now (set_repo r st))))"

definition onMeteredUsage ::
  "eth_lib \<Rightarrow> Gateway \<Rightarrow> node \<Rightarrow> string \<Rightarrow> time \<Rightarrow> GatewayState \<Rightarrow> unit result \<times> GatewayState" where
  "onMeteredUsage l g n sessionID now st =
     evaluateMeteredUsage l g n sessionID now (ensureSessionStateLocked sessionID st)"

text \<open>
  The binding of a stream under the manager's lock, and the delivery of a queued response. A
  request that was already delivered to an earlier stream is cleared, so that it is made anew.
\<close>

definition attach_stream :: "from_big \<Rightarrow> string \<Rightarrow> nat option \<Rightarrow> GatewayState \<Rightarrow> GatewayState" where
  "attach_stream fromBig sessionID events st =
     (let current = session_state sessionID st;
          needsRefresh = rs_pendingRAV current \<noteq> None \<and> rs_queuedResponse current = None;
          current = (if needsRefresh then current\<lparr>rs_pendingRAV := None\<rparr> else current);
          current = current\<lparr>rs_events := events\<rparr>;
          queued = rs_queuedResponse current;
          pending = clone_pending fromBig (rs_pendingRAV current)
      in tryDeliverQueuedResponse sessionID events queued pending (put_state sessionID current st))"

definition bindSession ::
  "eth_lib \<Rightarrow> Gateway \<Rightarrow> node \<Rightarrow> string \<Rightarrow> nat option \<Rightarrow> time \<Rightarrow> GatewayState \<Rightarrow> unit result \<times> GatewayState" where
  "bindSession l g n sessionID events now st =
     (if sessionID = [] then (Inl (Errorf ''session id is required'' [] None), st)
      else if events = None then (Inl (Errorf ''events channel is required'' [] None), st)
      else
        let st = ensureSessionStateLocked sessionID st in
        if rs_events (session_state sessionID st) \<noteq> None
        then (Inl (Errorf ''payment session stream already bound for %q'' [sessionID] None), st)
        else (case onMeteredUsage l g n sessionID now (attach_stream (lib_fromBig l) sessionID events st) of
                (Inl err, st) \<Rightarrow> (Inl err, cleanupSessionState sessionID events st)
              | (Inr _, st) \<Rightarrow> (Inr (), st)))"

definition unbindSession :: "string \<Rightarrow> nat option \<Rightarrow> GatewayState \<Rightarrow> GatewayState" where
  "unbindSession sessionID events st =
     (if sessionID = [] \<or> events = None then st else cleanupSessionState sessionID events st)"

end
