(* ===== verification/Sds_Gateway.thy ===== *)
theory Sds_Gateway
  imports Sds_Runtime
begin

text \<open>
  The handlers of the payment gateway: its construction and signer check
  (\<open>provider/gateway/gateway.go\<close>), its price configuration (\<open>pricing_config.go\<close>), the start of a session
  (\<open>handler_start_session.go\<close>), unary voucher submission (\<open>handler_submit_rav.go\<close>), session status
  (\<open>handler_get_session_status.go\<close>) and the payment stream (\<open>handler_payment_session.go\<close>).

  An argument \<open>clk\<close> gives the readings of the clock of one request in the order in which they are
  taken. A result of \<open>None\<close> is a panic.
\<close>

subsection \<open>Session identifiers\<close>

text \<open>The sixteen random bytes are an argument.\<close>

definition GenerateID :: "bytes \<Rightarrow> string" where
  "GenerateID b = RawURLEncoding_EncodeToString b"

subsection \<open>Configuration\<close>

text \<open>The default is parsed when the program starts, which would panic on a malformed text.\<close>

definition DefaultRAVRequestThreshold :: "from_big \<Rightarrow> GRT" where
  "DefaultRAVRequestThreshold fromBig = the (MustNewGRT fromBig (InString ''10 GRT''))"

record ProviderPricingConfig =
  ppc_PricePerBlock :: GRT
  ppc_PricePerByte :: GRT
  ppc_RAVRequestThreshold :: GRT

definition DefaultProviderPricingConfig :: "from_big \<Rightarrow> ProviderPricingConfig" where
  "DefaultProviderPricingConfig fromBig =
     \<lparr>ppc_PricePerBlock = PricePerBlock (DefaultPricingConfig fromBig),
      ppc_PricePerByte = PricePerByte (DefaultPricingConfig fromBig),
      ppc_RAVRequestThreshold = DefaultRAVRequestThreshold fromBig\<rparr>"

text \<open>The YAML decoder is an argument: it yields the two prices and the optional threshold.\<close>

definition ParseProviderPricingConfig ::
  "from_big \<Rightarrow> (bytes \<Rightarrow> (GRT \<times> GRT \<times> GRT option) result) \<Rightarrow> bytes \<Rightarrow> ProviderPricingConfig result" where
  "ParseProviderPricingConfig fromBig unmarshal data' =
     (case unmarshal data' of
        Inl err \<Rightarrow> Inl (Errorf ''parsing pricing config: %w'' [] (Some err))
      | Inr (perBlock, perByte, raw) \<Rightarrow>
          if raw \<noteq> None \<and> GRT_IsZero (the raw)
          then Inl (Errorf ''invalid rav_request_threshold: must be greater than zero'' [] None)
          else Inr \<lparr>ppc_PricePerBlock = perBlock, ppc_PricePerByte = perByte,
                    ppc_RAVRequestThreshold =
                      (case raw of None \<Rightarrow> DefaultRAVRequestThreshold fromBig | Some t \<Rightarrow> t)\<rparr>)"

definition ToPricingConfig :: "ProviderPricingConfig option \<Rightarrow> PricingConfig option" where
  "ToPricingConfig c =
     map_option (\<lambda>c. \<lparr>PricePerBlock = ppc_PricePerBlock c, PricePerByte = ppc_PricePerByte c\<rparr>) c"

record GatewayConfig =
  gc_ServiceProvider :: address
  gc_Domain :: Domain
  gc_CollectorAddr :: "address option"
  gc_EscrowAddr :: "address option"
  gc_RPCEndpoint :: string
  gc_PricingConfig :: "PricingConfig option"
  gc_RAVRequestThreshold :: GRT
  gc_DataPlaneEndpoint :: string
  gc_OperatorAuthConfig :: OperatorAuthConfig
  gc_Repository :: "InMemoryRepository option"

text \<open>
  The collector's querier is assigned from a variable of pointer type: without an endpoint the
  interface holds a nil pointer and is not nil.
\<close>

definition Gateway_New :: "from_big \<Rightarrow> GatewayConfig option \<Rightarrow> (Gateway \<times> GatewayState) result" where
  "Gateway_New fromBig config =
     (case config of
        None \<Rightarrow> Inl (Errorf ''gateway config must not be nil'' [] None)
      | Some c \<Rightarrow>
          (case gc_Repository c of
             None \<Rightarrow> Inl (Errorf ''gateway repository must be provided explicitly'' [] None)
           | Some repo \<Rightarrow>
               let escrowQuerier = (if gc_RPCEndpoint c \<noteq> [] then gc_EscrowAddr c else None);
                   collectorQuerier =
                     (case gc_CollectorAddr c of
                        Some a \<Rightarrow> if gc_RPCEndpoint c \<noteq> [] then Querier a else NilPointer
                      | None \<Rightarrow> NilPointer);
                   pricingConfig =
                     (case gc_PricingConfig c of None \<Rightarrow> DefaultPricingConfig fromBig | Some p \<Rightarrow> p);
                   ravRequestThreshold =
                     (if GRT_IsZero (gc_RAVRequestThreshold c) then DefaultRAVRequestThreshold fromBig
                      else gc_RAVRequestThreshold c)
               in Inr (\<lparr>gw_serviceProvider = gc_ServiceProvider c, gw_domain = gc_Domain c,
                     gw_collectorAddr = (case gc_CollectorAddr c of None \<Rightarrow> [] | Some a \<Rightarrow> a),
                     gw_escrowQuerier = escrowQuerier, gw_collectorQuerier = collectorQuerier,
                     gw_pricingConfig = Some pricingConfig,
                     gw_ravRequestThreshold = Some (BigInt ravRequestThreshold),
                     gw_dataPlaneEndpoint = gc_DataPlaneEndpoint c,
                     gw_operatorAuthConfig = gc_OperatorAuthConfig c\<rparr>,
                    \<lparr>gs_repo = repo, gs_runtime = Map.empty, gs_channels = (\<lambda>_. []), gs_nextChannel = 0,
                     gs_authCache = Map.empty\<rparr>)))"

definition toRepoPricingConfig :: "PricingConfig option \<Rightarrow> PricingConfig" where
  "toRepoPricingConfig pc =
     (case pc of
        None \<Rightarrow> \<lparr>PricePerBlock = mkGRT 0, PricePerByte = mkGRT 0\<rparr>
      | Some p \<Rightarrow> \<lparr>PricePerBlock = PricePerBlock p, PricePerByte = PricePerByte p\<rparr>)"

definition authorizeOperator :: "Gateway \<Rightarrow> string \<Rightarrow> Role \<Rightarrow> Role rpc" where
  "authorizeOperator g header required = AuthorizeHeader header (gw_operatorAuthConfig g) required"

subsection \<open>Signers\<close>

text \<open>A call through a nil pointer panics when it reads the address of the contract.\<close>

definition gw_isSignerAuthorized ::
  "eth_lib \<Rightarrow> Gateway \<Rightarrow> node \<Rightarrow> address \<Rightarrow> address \<Rightarrow> time \<Rightarrow> time \<Rightarrow> auth_cache \<Rightarrow>
   (bool result \<times> auth_cache) option" where
  "gw_isSignerAuthorized l g n payer signer now later cache =
     (if AddressesEqual payer signer then Some (Inr True, cache)
      else if gw_collectorQuerier g = NilInterface then Some (Inr False, cache)
      else
        let key = lib_String l payer @ ''|'' @ lib_String l signer;
            ask = (case gw_collectorQuerier g of
                     Querier collectorAddr \<Rightarrow>
                       (case IsAuthorized (nd_call n) collectorAddr payer signer of
                          Inl err \<Rightarrow> Some (Inl err, cache)
                        | Inr ok \<Rightarrow> Some (Inr ok, cache(key \<mapsto> (ok, later + 30 * second))))
                   | _ \<Rightarrow> None)
        in (case cache key of
              Some (ok, expires) \<Rightarrow> if now < expires then Some (Inr ok, cache) else ask
            | None \<Rightarrow> ask))"

subsection \<open>Starting a session\<close>

record StartSessionRequest =
  ssq_EscrowAccount :: "pb_EscrowAccount option"
  ssq_InitialRav :: "pb_SignedRAV option"

record StartSessionResponse =
  ssr_SessionId :: string
  ssr_UseRav :: "pb_SignedRAV option"
  ssr_Accepted :: bool
  ssr_RejectionReason :: string
  ssr_PricingConfig :: "pb_PricingConfig option"
  ssr_DataPlaneEndpoint :: string

definition start_rejected :: "string \<Rightarrow> StartSessionResponse rpc" where
  "start_rejected reason =
     Inr \<lparr>ssr_SessionId = [], ssr_UseRav = None, ssr_Accepted = False, ssr_RejectionReason = reason,
          ssr_PricingConfig = None, ssr_DataPlaneEndpoint = []\<rparr>"

definition invalid_argument :: "string \<Rightarrow> 'a rpc" where
  "invalid_argument text = Inl (CodeInvalidArgument, Errorf text [] None)"

text \<open>The account of the request: payer, receiver and data service.\<close>

definition start_account :: "StartSessionRequest \<Rightarrow> (address \<times> address \<times> address) rpc" where
  "start_account req =
     (case ssq_EscrowAccount req of
        None \<Rightarrow> invalid_argument ''<escrow_account> is required''
      | Some ea \<Rightarrow>
          if ea_Payer ea = None then invalid_argument ''<escrow_account.payer> is required''
          else if ea_Receiver ea = None then invalid_argument ''<escrow_account.receiver> is required''
          else if ea_DataService ea = None then invalid_argument ''<escrow_account.data_service> is required''
          else (case ToEth (ea_Payer ea) of
             Inl err \<Rightarrow> Inl (CodeInvalidArgument, Errorf ''invalid <escrow_account.payer>: %w'' [] (Some err))
           | Inr payer \<Rightarrow>
          (case ToEth (ea_Receiver ea) of
             Inl err \<Rightarrow> Inl (CodeInvalidArgument, Errorf ''invalid <escrow_account.receiver>: %w'' [] (Some err))
           | Inr receiver \<Rightarrow>
          (case ToEth (ea_DataService ea) of
             Inl err \<Rightarrow> Inl (CodeInvalidArgument, Errorf ''invalid <escrow_account.data_service>: %w'' [] (Some err))
           | Inr dataService \<Rightarrow> Inr (payer, receiver, dataService)))))"

text \<open>The checks of an initial voucher: a reason to reject it, or none, and the cache.\<close>

definition check_initial_rav ::
  "eth_lib \<Rightarrow> Gateway \<Rightarrow> node \<Rightarrow> address \<Rightarrow> address \<Rightarrow> SignedRAV option \<Rightarrow> (nat \<Rightarrow> time) \<Rightarrow> auth_cache \<Rightarrow>
   (string option \<times> auth_cache) option" where
  "check_initial_rav l g n payer dataService initialRAV clk cache =
     (case Option.bind initialRAV Message of
        None \<Rightarrow> Some (None, cache)
      | Some m \<Rightarrow>
          (case RAV_RecoverSigner (lib_keccak l) (lib_recover l) (gw_domain g) (the initialRAV) of
             None \<Rightarrow> None
           | Some (Inl err) \<Rightarrow>
               Some (Some (''initial RAV signature verification failed: '' @ Error_text err), cache)
           | Some (Inr signerAddr) \<Rightarrow>
               (case gw_isSignerAuthorized l g n payer signerAddr (clk 0) (clk 1) cache of
                  None \<Rightarrow> None
                | Some (Inl err, cache) \<Rightarrow>
                    Some (Some (''authorization check failed: '' @ Error_text err), cache)
                | Some (Inr isAuthorized, cache) \<Rightarrow>
                    Some (if \<not> isAuthorized
                          then Some (''signer '' @ lib_pretty l signerAddr @ '' is not authorized'')
                          else if \<not> AddressesEqual (Payer m) payer
                          then Some ''RAV payer does not match escrow account payer''
                          else if \<not> AddressesEqual (ServiceProvider m) (gw_serviceProvider g)
                          then Some ''RAV service provider does not match''
                          else if \<not> AddressesEqual (DataService m) dataService
                          then Some ''RAV data service does not match escrow account data service''
                          else None, cache))))"

definition new_consumer_session ::
  "Gateway \<Rightarrow> string \<Rightarrow> address \<Rightarrow> address \<Rightarrow> SignedRAV option \<Rightarrow> time \<Rightarrow> Session" where
  "new_consumer_session g sessionID payer dataService initialRAV now =
     (let s = NewSession sessionID payer (gw_serviceProvider g) dataService
                (toRepoPricingConfig (gw_pricingConfig g)) now;
          s = (if initialRAV \<noteq> None then s\<lparr>ses_CurrentRAV := initialRAV\<rparr> else s)
      in MarkBaseline s)"

definition StartSession ::
  "eth_lib \<Rightarrow> Gateway \<Rightarrow> node \<Rightarrow> StartSessionRequest \<Rightarrow> bytes \<Rightarrow> (nat \<Rightarrow> time) \<Rightarrow> GatewayState \<Rightarrow>
   (StartSessionResponse rpc \<times> GatewayState) option" where
  "StartSession l g n req random clk st =
     (case start_account req of
        Inl e \<Rightarrow> Some (Inl e, st)
      | Inr (payer, receiver, dataService) \<Rightarrow>
          if \<not> AddressesEqual receiver (gw_serviceProvider g)
          then Some (start_rejected ''escrow account receiver does not match this service provider'', st)
          else (case ProtoSignedRAVToHorizon (lib_fromBig l) (lib_newSig l) (ssq_InitialRav req) of
             Inl err \<Rightarrow> Some (Inl (CodeInvalidArgument, Errorf ''invalid <initial_rav>: %w'' [] (Some err)), st)
           | Inr initialRAV \<Rightarrow>
               (case check_initial_rav l g n payer dataService initialRAV clk (gs_authCache st) of
                  None \<Rightarrow> None
                | Some (Some reason, cache) \<Rightarrow> Some (start_rejected reason, st\<lparr>gs_authCache := cache\<rparr>)
                | Some (None, cache) \<Rightarrow>
                    let st = st\<lparr>gs_authCache := cache\<rparr>;
                        sessionID = GenerateID random;
                        consumerSession = new_consumer_session g sessionID payer dataService initialRAV (clk 2)
                    in (case SessionCreate (lib_pretty l) (Some consumerSession) (clk 3) (gs_repo st) of
                          (Inl err, r) \<Rightarrow>
                            Some (Inl (CodeInternal, Errorf ''failed to create session: %w'' [] (Some err)),
                                  set_repo r st)
                        | (Inr _, r) \<Rightarrow>
                            let st = set_repo r st;
                                dataPlaneEndpoint = TrimSpace (gw_dataPlaneEndpoint g)
                            in if dataPlaneEndpoint = []
                               then Some (Inl (CodeInternal,
                                      Errorf ''provider data-plane endpoint is not configured'' [] None), st)
                               else Some (Inr \<lparr>ssr_SessionId = sessionID, ssr_UseRav = ssq_InitialRav req,
                                      ssr_Accepted = True, ssr_RejectionReason = [],
                                      ssr_PricingConfig = PricingConfigFromNative (gw_pricingConfig g),
                                      ssr_DataPlaneEndpoint = dataPlaneEndpoint\<rparr>, st)))))"

subsection \<open>Unary voucher submission\<close>

record SubmitRAVResponse =
  sur_Accepted :: bool
  sur_RejectionReason :: string
  sur_ShouldContinue :: bool

definition submit_rejected :: "string \<Rightarrow> bool \<Rightarrow> SubmitRAVResponse rpc" where
  "submit_rejected reason continue' =
     Inr \<lparr>sur_Accepted = False, sur_RejectionReason = reason, sur_ShouldContinue = continue'\<rparr>"

text \<open>
  The checks after the signer is known: \<open>None\<close> is the panic of comparing with a missing value,
  \<open>Some None\<close> passes.
\<close>

definition check_submitted_value ::
  "Gateway \<Rightarrow> Session \<Rightarrow> RAV \<Rightarrow> (string \<times> bool) option option" where
  "check_submitted_value g session m =
     (if \<not> AddressesEqual (Payer m) (ses_Payer session)
      then Some (Some (''RAV payer does not match session'', True))
      else if \<not> AddressesEqual (ServiceProvider m) (gw_serviceProvider g)
      then Some (Some (''RAV service provider does not match'', True))
      else
        (case ValueAggregate m of
           None \<Rightarrow> None
         | Some v \<Rightarrow>
             let current = Option.bind (ses_CurrentRAV session) Message;
                 currentValue = current_value session;
                 deltaCost = snd (snd (snd (UsageDeltaSinceBaseline session)));
                 minValue = currentValue + deltaCost
             in if current \<noteq> None \<and> ValueAggregate (the current) = None then None
                else if current \<noteq> None \<and> v < the (ValueAggregate (the current))
                then Some (Some (''RAV value is less than current RAV'', True))
                else if v < minValue
                then Some (Some (''RAV underpays usage: want >= '' @ bigint_string (Some minValue) @
                       '' (current '' @ bigint_string (Some currentValue) @ '' + delta '' @
                       bigint_string (Some deltaCost) @ '')'', False))
                else Some None))"

definition SubmitRAV ::
  "eth_lib \<Rightarrow> Gateway \<Rightarrow> node \<Rightarrow> string \<Rightarrow> pb_SignedRAV option \<Rightarrow> (nat \<Rightarrow> time) \<Rightarrow> GatewayState \<Rightarrow>
   (SubmitRAVResponse rpc \<times> GatewayState) option" where
  "SubmitRAV l g n sessionID reqRAV clk st =
     (case SessionGet sessionID (gs_repo st) of
        Inl err \<Rightarrow> Some (submit_rejected ''session not found'' False, st)
      | Inr session \<Rightarrow>
          if \<not> IsActive session then Some (submit_rejected ''session is not active'' False, st)
          else if hasPendingRAV sessionID st
          then Some (submit_rejected ''SubmitRAV is deprecated for provider-managed runtime requests; respond on the bound PaymentSession stream'' True, st)
          else if reqRAV = None then Some (submit_rejected ''invalid or missing RAV'' True, st)
          else (case ProtoSignedRAVToHorizon (lib_fromBig l) (lib_newSig l) reqRAV of
             Inl err \<Rightarrow> Some (Inl (CodeInvalidArgument, Errorf ''invalid <signed_rav>: %w'' [] (Some err)), st)
           | Inr None \<Rightarrow> None
           | Inr (Some signedRAV) \<Rightarrow>
               (case RAV_RecoverSigner (lib_keccak l) (lib_recover l) (gw_domain g) signedRAV of
                  None \<Rightarrow> None
                | Some (Inl err) \<Rightarrow>
                    Some (submit_rejected (''signature verification failed: '' @ Error_text err) True, st)
                | Some (Inr signerAddr) \<Rightarrow>
                    (case gw_isSignerAuthorized l g n (ses_Payer session) signerAddr (clk 0) (clk 1) (gs_authCache st) of
                       None \<Rightarrow> None
                     | Some (Inl err, cache) \<Rightarrow>
                         Some (submit_rejected (''authorization check failed: '' @ Error_text err) False,
                               st\<lparr>gs_authCache := cache\<rparr>)
                     | Some (Inr isAuthorized, cache) \<Rightarrow>
                         let st = st\<lparr>gs_authCache := cache\<rparr> in
                         if \<not> isAuthorized
                         then Some (submit_rejected (''signer '' @ lib_pretty l signerAddr @ '' is not authorized'') False, st)
                         else (case check_submitted_value g session (the (Message signedRAV)) of
                            None \<Rightarrow> None
                          | Some (Some (reason, continue')) \<Rightarrow> Some (submit_rejected reason continue', st)
                          | Some None \<Rightarrow>
                              Some (Inr \<lparr>sur_Accepted = True, sur_RejectionReason = [], sur_ShouldContinue = True\<rparr>,
                                set_repo (snd (SessionUpdateRAVAndBaseline (lib_pretty l) sessionID (Some signedRAV)
                                  (ses_BlocksProcessed session) (ses_BytesTransferred session) (ses_Requests session)
                                  (Some (runtime_cloneBigInt (ses_TotalCost session))) (clk 2) (gs_repo st))) st))))))"

subsection \<open>Status\<close>

definition paymentControlPending :: "Gateway \<Rightarrow> string list \<Rightarrow> Session option \<Rightarrow> GatewayState \<Rightarrow> bool" where
  "paymentControlPending g order session st =
     (case session of
        None \<Rightarrow> False
      | Some s \<Rightarrow>
          if \<not> IsActive s then False
          else WorkerCountBySession order (ses_ID s) (gs_repo st) > 0 \<or>
               hasPendingPaymentControl (ses_ID s) st \<or> shouldRequestRAV g (Some s))"

record GetSessionStatusResponse =
  gss_Active :: bool
  gss_CurrentRavValue :: pb_GRT
  gss_AccumulatedUsageValue :: pb_GRT
  gss_EndReason :: EndReason
  gss_PaymentControlPending :: bool

definition GetSessionStatus ::
  "eth_lib \<Rightarrow> Gateway \<Rightarrow> string list \<Rightarrow> string \<Rightarrow> GatewayState \<Rightarrow> GetSessionStatusResponse rpc" where
  "GetSessionStatus l g order reqID st =
     (let sessionID = TrimSpace reqID in
      if sessionID = [] then invalid_argument ''<session_id> is required''
      else (case SessionGet sessionID (gs_repo st) of
         Inl err \<Rightarrow> Inl (CodeNotFound, err)
       | Inr session \<Rightarrow>
           Inr \<lparr>gss_Active = IsActive session,
                gss_CurrentRavValue = GRTFromBigInt (lib_fromBig l) (Some (current_value session)),
                gss_AccumulatedUsageValue =
                  GRTFromBigInt (lib_fromBig l) (Some (runtime_cloneBigInt (ses_TotalCost session))),
                gss_EndReason = (if IsActive session then END_REASON_UNSPECIFIED else ses_EndReason session),
                gss_PaymentControlPending = paymentControlPending g order (Some session) st\<rparr>))"

subsection \<open>The payment stream\<close>

record SignedRAVSubmission =
  sb_SignedRav :: "pb_SignedRAV option"
  sb_Usage :: "pb_Usage option"

datatype PaymentSessionMessage =
    Message_RavSubmission "SignedRAVSubmission option"
  | Message_FundsAck "bool option"

record PaymentSessionRequest =
  psq_SessionId :: string
  psq_Message :: "PaymentSessionMessage option"

definition continuePaymentSessionResponse :: PaymentSessionResponse where
  "continuePaymentSessionResponse = Response_SessionControl ACTION_CONTINUE []"

definition stopPaymentSessionResponse :: "string \<Rightarrow> PaymentSessionResponse" where
  "stopPaymentSessionResponse reason = Response_SessionControl ACTION_STOP reason"

definition stopResponseForInactiveSession :: "Session \<Rightarrow> PaymentSessionResponse" where
  "stopResponseForInactiveSession session =
     stopPaymentSessionResponse
       (case ses_EndReason session of
          END_REASON_PAYMENT_ISSUE \<Rightarrow> ''need more funds''
        | END_REASON_COMPLETE \<Rightarrow> ''session completed''
        | END_REASON_CLIENT_DISCONNECT \<Rightarrow> ''client disconnected''
        | END_REASON_PROVIDER_STOP \<Rightarrow> ''provider ended stream''
        | END_REASON_ERROR \<Rightarrow> ''provider session error''
        | _ \<Rightarrow> ''session is not active'')"

definition isTerminalPaymentSessionResponse :: "PaymentSessionResponse option \<Rightarrow> bool" where
  "isTerminalPaymentSessionResponse resp =
     (case resp of
        None \<Rightarrow> False
      | Some (Response_NeedMoreFunds _) \<Rightarrow> True
      | Some (Response_SessionControl action _) \<Rightarrow> action \<noteq> ACTION_CONTINUE
      | Some (Response_RavRequest _) \<Rightarrow> False)"

definition commitAcceptedRAV ::
  "eth_lib \<Rightarrow> string \<Rightarrow> SignedRAV \<Rightarrow> pendingRAVRequest option \<Rightarrow> time \<Rightarrow> InMemoryRepository \<Rightarrow>
   unit result \<times> InMemoryRepository" where
  "commitAcceptedRAV l sessionID signedRAV pending now r =
     (case pending of
        None \<Rightarrow> (Inl (Errorf ''pending RAV request is required'' [] None), r)
      | Some p \<Rightarrow>
          SessionUpdateRAVAndBaseline (lib_pretty l) sessionID (Some signedRAV) (pq_baselineBlocks p)
            (pq_baselineBytes p) (pq_baselineReqs p) (Some (pq_baselineCost p)) now r)"

text \<open>
  The checks of a submitted voucher against the session and the request in flight: \<open>None\<close> is a
  panic, \<open>Inl\<close> the reason to stop, \<open>Inr\<close> the voucher.
\<close>

definition check_submission_parties ::
  "Gateway \<Rightarrow> Session \<Rightarrow> RAV \<Rightarrow> string option" where
  "check_submission_parties g session m =
     (if \<not> AddressesEqual (Payer m) (ses_Payer session) then Some ''RAV payer does not match session''
      else if \<not> AddressesEqual (ServiceProvider m) (gw_serviceProvider g)
      then Some ''RAV service provider does not match''
      else if \<not> AddressesEqual (DataService m) (ses_DataService session)
      then Some ''RAV data service does not match session''
      else None)"

definition check_submission_value ::
  "eth_lib \<Rightarrow> pendingRAVRequest \<Rightarrow> pb_Usage \<Rightarrow> int \<Rightarrow> string option" where
  "check_submission_value l pending u v =
     (if v < pq_currentRAVValue pending then Some ''RAV value is less than current RAV''
      else if v < pq_targetValue pending
      then Some (''RAV underpays usage: want exactly '' @ bigint_string (Some (pq_targetValue pending)) @
             '' (current '' @ bigint_string (Some (pq_currentRAVValue pending)) @ '' + requested delta '' @
             bigint_string (Some (GRT_ToBigInt (lib_fromBig l) (pu_Cost u))) @ '')'')
      else if v > pq_targetValue pending
      then Some (''RAV overpays in-flight request: want exactly '' @
             bigint_string (Some (pq_targetValue pending)) @ '', got '' @ bigint_string (Some v))
      else None)"

definition check_submission ::
  "eth_lib \<Rightarrow> Gateway \<Rightarrow> node \<Rightarrow> Session \<Rightarrow> SignedRAVSubmission \<Rightarrow> pendingRAVRequest \<Rightarrow> (nat \<Rightarrow> time) \<Rightarrow>
   auth_cache \<Rightarrow> ((string + SignedRAV) \<times> auth_cache) option" where
  "check_submission l g n session submission pending clk cache =
     (case sb_Usage submission of
        None \<Rightarrow> Some (Inl ''missing usage for rav_submission'', cache)
      | Some u \<Rightarrow>
          if \<not> matchesUsage (lib_fromBig l) (Some pending) (Some u)
          then Some (Inl ''rav_submission usage does not match the in-flight provider rav_request'', cache)
          else (case ProtoSignedRAVToHorizon (lib_fromBig l) (lib_newSig l) (sb_SignedRav submission) of
             Inl err \<Rightarrow> Some (Inl ''invalid RAV'', cache)
           | Inr None \<Rightarrow> None
           | Inr (Some signedRAV) \<Rightarrow>
               (case RAV_RecoverSigner (lib_keccak l) (lib_recover l) (gw_domain g) signedRAV of
                  None \<Rightarrow> None
                | Some (Inl err) \<Rightarrow> Some (Inl ''signature verification failed'', cache)
                | Some (Inr signerAddr) \<Rightarrow>
                    let m = the (Message signedRAV) in
                    (case check_submission_parties g session m of
                       Some reason \<Rightarrow> Some (Inl reason, cache)
                     | None \<Rightarrow>
                         (case gw_isSignerAuthorized l g n (ses_Payer session) signerAddr (clk 0) (clk 1) cache of
                            None \<Rightarrow> None
                          | Some (Inl err, cache) \<Rightarrow> Some (Inl ''authorization check failed'', cache)
                          | Some (Inr isAuthorized, cache) \<Rightarrow>
                              if \<not> isAuthorized then Some (Inl ''signer not authorized'', cache)
                              else (case ValueAggregate m of
                                 None \<Rightarrow> None
                               | Some v \<Rightarrow>
                                   (case check_submission_value l pending u v of
                                      Some reason \<Rightarrow> Some (Inl reason, cache)
                                    | None \<Rightarrow> Some (Inr signedRAV, cache))))))))"

text \<open>After the commit the request and any queued response are cleared.\<close>

definition settle_pending :: "string \<Rightarrow> GatewayState \<Rightarrow> GatewayState" where
  "settle_pending sessionID st =
     put_state sessionID ((session_state sessionID st)\<lparr>rs_pendingRAV := None, rs_queuedResponse := None\<rparr>) st"

definition handleRAVSubmission ::
  "eth_lib \<Rightarrow> Gateway \<Rightarrow> node \<Rightarrow> string \<Rightarrow> Session \<Rightarrow> SignedRAVSubmission option \<Rightarrow> (nat \<Rightarrow> time) \<Rightarrow>
   GatewayState \<Rightarrow> (PaymentSessionResponse \<times> GatewayState) option" where
  "handleRAVSubmission l g n sessionID session submission clk st =
     (case submission of
        None \<Rightarrow> Some (stopPaymentSessionResponse ''missing RAV submission'', st)
      | Some submission \<Rightarrow>
          if sb_SignedRav submission = None then Some (stopPaymentSessionResponse ''missing signed_rav'', st)
          else
            let st = ensureSessionStateLocked sessionID st in
            (case rs_pendingRAV (session_state sessionID st) of
               None \<Rightarrow>
                 Some ((case SessionGet sessionID (gs_repo st) of
                          Inr freshSession \<Rightarrow>
                            if \<not> IsActive freshSession then stopResponseForInactiveSession freshSession
                            else stopPaymentSessionResponse ''unexpected rav_submission without an in-flight provider rav_request; respond on PaymentSession only''
                        | Inl _ \<Rightarrow> stopPaymentSessionResponse ''unexpected rav_submission without an in-flight provider rav_request; respond on PaymentSession only''), st)
             | Some pending \<Rightarrow>
                 (case check_submission l g n session submission pending clk (gs_authCache st) of
                    None \<Rightarrow> None
                  | Some (Inl reason, cache) \<Rightarrow>
                      Some (stopPaymentSessionResponse reason, st\<lparr>gs_authCache := cache\<rparr>)
                  | Some (Inr signedRAV, cache) \<Rightarrow>
                      let st = st\<lparr>gs_authCache := cache\<rparr> in
                      (case commitAcceptedRAV l sessionID signedRAV (Some pending) (clk 2) (gs_repo st) of
                         (Inl err, r) \<Rightarrow>
                           Some (stopPaymentSessionResponse ''failed to update session state'', set_repo r st)
                       | (Inr _, r) \<Rightarrow>
                           Some (continuePaymentSessionResponse,
                                 snd (evaluateMeteredUsage l g n sessionID (clk 3)
                                        (settle_pending sessionID (set_repo r st))))))))"

definition handleFundsAcknowledgment ::
  "string \<Rightarrow> bool option \<Rightarrow> GatewayState \<Rightarrow> PaymentSessionResponse \<times> GatewayState" where
  "handleFundsAcknowledgment sessionID ack st =
     (case ack of
        None \<Rightarrow> (stopPaymentSessionResponse ''missing funds acknowledgment'', st)
      | Some willDeposit \<Rightarrow>
          if willDeposit then (continuePaymentSessionResponse, clearQueuedControl sessionID st)
          else (stopPaymentSessionResponse ''insufficient funds and no deposit planned'',
                clearQueuedControl sessionID st))"

text \<open>
  The loop of a stream, one iteration at a time: the variables that live across iterations, the
  three sources of an iteration, and the deferred unbinding when the loop returns. \<open>sent\<close> tells
  whether a send reaches the client; the first component of a result is what was sent.
\<close>

record PaymentStream =
  psm_sessionID :: string
  psm_events :: "nat option"
  psm_closed :: bool

definition stream_return :: "PaymentStream \<Rightarrow> GatewayState \<Rightarrow> PaymentStream \<times> GatewayState" where
  "stream_return str st =
     (str\<lparr>psm_closed := True\<rparr>,
      if psm_sessionID str \<noteq> [] \<and> psm_events str \<noteq> None
      then unbindSession (psm_sessionID str) (psm_events str) st else st)"

definition stream_stop ::
  "PaymentSessionResponse \<Rightarrow> PaymentStream \<Rightarrow> GatewayState \<Rightarrow>
   PaymentSessionResponse option \<times> PaymentStream \<times> GatewayState" where
  "stream_stop resp str st = (Some resp, stream_return str st)"

definition stream_send ::
  "bool \<Rightarrow> PaymentSessionResponse \<Rightarrow> PaymentStream \<Rightarrow> GatewayState \<Rightarrow>
   PaymentSessionResponse option \<times> PaymentStream \<times> GatewayState" where
  "stream_send sent resp str st =
     (if \<not> sent then (None, stream_return str st)
      else if isTerminalPaymentSessionResponse (Some resp) then (Some resp, stream_return str st)
      else (Some resp, str, st))"

definition stream_event ::
  "bool \<Rightarrow> PaymentStream \<Rightarrow> GatewayState \<Rightarrow> PaymentSessionResponse option \<times> PaymentStream \<times> GatewayState" where
  "stream_event sent str st =
     (case psm_events str of
        None \<Rightarrow> (None, str, st)
      | Some ch \<Rightarrow>
          (case gs_channels st ch of
             [] \<Rightarrow> (None, str, st)
           | resp # rest \<Rightarrow>
               stream_send sent resp str (st\<lparr>gs_channels := (gs_channels st)(ch := rest)\<rparr>)))"

definition stream_message ::
  "eth_lib \<Rightarrow> Gateway \<Rightarrow> node \<Rightarrow> bool \<Rightarrow> PaymentSessionMessage option \<Rightarrow> (nat \<Rightarrow> time) \<Rightarrow> PaymentStream \<Rightarrow>
   GatewayState \<Rightarrow> (PaymentSessionResponse option \<times> PaymentStream \<times> GatewayState) option" where
  "stream_message l g n sent msg clk str st =
     (case SessionGet (psm_sessionID str) (gs_repo st) of
        Inl err \<Rightarrow> Some (stream_stop (stopPaymentSessionResponse ''session not found'') str st)
      | Inr session \<Rightarrow>
          if \<not> IsActive session then Some (stream_stop (stopResponseForInactiveSession session) str st)
          else (case msg of
             None \<Rightarrow> Some (None, str, st)
           | Some (Message_RavSubmission submission) \<Rightarrow>
               (case handleRAVSubmission l g n (psm_sessionID str) session submission clk st of
                  None \<Rightarrow> None
                | Some (resp, st) \<Rightarrow> Some (stream_send sent resp str st))
           | Some (Message_FundsAck ack) \<Rightarrow>
               (case handleFundsAcknowledgment (psm_sessionID str) ack st of
                  (resp, st) \<Rightarrow> Some (stream_send sent resp str st))))"

definition stream_bind ::
  "eth_lib \<Rightarrow> Gateway \<Rightarrow> node \<Rightarrow> string \<Rightarrow> time \<Rightarrow> PaymentStream \<Rightarrow> GatewayState \<Rightarrow>
   unit result \<times> PaymentStream \<times> GatewayState" where
  "stream_bind l g n gotSessionID now str st =
     (let ch = gs_nextChannel st;
          st = st\<lparr>gs_nextChannel := Suc ch, gs_channels := (gs_channels st)(ch := [])\<rparr>;
          str = str\<lparr>psm_sessionID := gotSessionID, psm_events := Some ch\<rparr>
      in (case bindSession l g n gotSessionID (Some ch) now st of (res, st) \<Rightarrow> (res, str, st)))"

definition stream_request ::
  "eth_lib \<Rightarrow> Gateway \<Rightarrow> node \<Rightarrow> bool \<Rightarrow> PaymentSessionRequest option \<Rightarrow> (nat \<Rightarrow> time) \<Rightarrow> PaymentStream \<Rightarrow>
   GatewayState \<Rightarrow> (PaymentSessionResponse option \<times> PaymentStream \<times> GatewayState) option" where
  "stream_request l g n sent msg clk str st =
     (case msg of
        None \<Rightarrow> Some (None, str, st)
      | Some msg \<Rightarrow>
          let gotSessionID = TrimSpace (psq_SessionId msg) in
          if psm_sessionID str = [] then
            (if gotSessionID = []
             then Some (stream_stop (stopPaymentSessionResponse ''<session_id> is required'') str st)
             else (case SessionGet gotSessionID (gs_repo st) of
                Inl err \<Rightarrow> Some (stream_stop (stopPaymentSessionResponse ''session not found'') str st)
              | Inr session \<Rightarrow>
                  if \<not> IsActive session
                  then Some (stream_stop (stopResponseForInactiveSession session) str st)
                  else (case stream_bind l g n gotSessionID (clk 0) str st of
                     (Inl err, str, st) \<Rightarrow>
                       Some (stream_stop (stopPaymentSessionResponse (Error_text err)) str st)
                   | (Inr _, str, st) \<Rightarrow>
                       if psq_Message msg = None then Some (None, str, st)
                       else stream_message l g n sent (psq_Message msg) (\<lambda>i. clk (Suc i)) str st)))
          else if gotSessionID \<noteq> [] \<and> gotSessionID \<noteq> psm_sessionID str
          then Some (stream_stop (stopPaymentSessionResponse (''unexpected session_id '' @ Quote gotSessionID)) str st)
          else stream_message l g n sent (psq_Message msg) clk str st)"


end
