(* ===== verification/Sds_Payment.thy ===== *)
theory Sds_Payment
  imports Sds_Gateway
begin

text \<open>
  The payment protocol of the gateway over time: the interleaving of session starts, metered
  usage, payment streams and unary submissions, and what it guarantees on the money: the
  vouchers the provider holds cover exactly the usage it has marked as paid.
\<close>

subsection \<open>Requests in flight\<close>

definition pending_of :: "string \<Rightarrow> GatewayState \<Rightarrow> pendingRAVRequest option" where
  "pending_of i st = Option.bind (gs_runtime st i) rs_pendingRAV"

lemma session_state_pending: "rs_pendingRAV (session_state i st) = pending_of i st"
  by (simp add: session_state_def pending_of_def split: option.splits)

named_theorems runtime_frames

lemma put_state_frames [simp, runtime_frames]:
  "gs_repo (put_state i rs st) = gs_repo st" "gs_authCache (put_state i rs st) = gs_authCache st"
  "gs_channels (put_state i rs st) = gs_channels st" "gs_nextChannel (put_state i rs st) = gs_nextChannel st"
  "gs_runtime (put_state i rs st) = (gs_runtime st)(i \<mapsto> rs)"
  "pending_of j (put_state i rs st) = (if j = i then rs_pendingRAV rs else pending_of j st)"
  by (simp_all add: put_state_def pending_of_def)

lemma drop_state_frames [simp, runtime_frames]:
  "gs_repo (drop_state i st) = gs_repo st" "gs_authCache (drop_state i st) = gs_authCache st"
  "gs_channels (drop_state i st) = gs_channels st" "gs_nextChannel (drop_state i st) = gs_nextChannel st"
  "gs_runtime (drop_state i st) = (gs_runtime st)(i := None)"
  "pending_of j (drop_state i st) = (if j = i then None else pending_of j st)"
  by (simp_all add: drop_state_def pending_of_def)

lemma set_repo_frames [simp, runtime_frames]:
  "gs_repo (set_repo r st) = r" "gs_authCache (set_repo r st) = gs_authCache st"
  "gs_channels (set_repo r st) = gs_channels st" "gs_nextChannel (set_repo r st) = gs_nextChannel st"
  "gs_runtime (set_repo r st) = gs_runtime st" "pending_of j (set_repo r st) = pending_of j st"
  by (simp_all add: set_repo_def pending_of_def)

lemma pending_of_update [simp]:
  "pending_of j (st\<lparr>gs_authCache := c\<rparr>) = pending_of j st"
  "pending_of j (st\<lparr>gs_channels := cs\<rparr>) = pending_of j st"
  "pending_of j (st\<lparr>gs_nextChannel := k\<rparr>) = pending_of j st"
  by (simp_all add: pending_of_def)

lemma try_send_frames:
  assumes "try_send ch resp st = (ok, st')"
  shows "gs_repo st' = gs_repo st" "gs_runtime st' = gs_runtime st" "pending_of j st' = pending_of j st"
  using assms by (auto simp: try_send_def pending_of_def split: if_splits)

lemma ensure_frames [simp, runtime_frames]:
  "gs_repo (ensureSessionStateLocked i st) = gs_repo st"
  "gs_authCache (ensureSessionStateLocked i st) = gs_authCache st"
  "gs_channels (ensureSessionStateLocked i st) = gs_channels st"
  "gs_nextChannel (ensureSessionStateLocked i st) = gs_nextChannel st"
  "pending_of j (ensureSessionStateLocked i st) = pending_of j st"
  "session_state i (ensureSessionStateLocked i st) = session_state i st"
  by (simp_all add: ensureSessionStateLocked_def session_state_pending) (simp add: session_state_def)

lemma clearQueuedResponse_frames [simp, runtime_frames]:
  "gs_repo (clearQueuedResponse i e r p st) = gs_repo st"
  "j \<noteq> i \<Longrightarrow> pending_of j (clearQueuedResponse i e r p st) = pending_of j st"
  by (simp_all add: clearQueuedResponse_def Let_def split: option.splits)

lemma clearQueuedResponse_pending:
  "pending_of i (clearQueuedResponse i e r p st) \<in> {p, pending_of i st}"
  by (auto simp: clearQueuedResponse_def Let_def pending_of_def split: option.splits)

lemma dispatch_frames [simp, runtime_frames]:
  "gs_repo (dispatch fb i resp p st) = gs_repo st"
  "j \<noteq> i \<Longrightarrow> pending_of j (dispatch fb i resp p st) = pending_of j st"
  by (auto simp: dispatch_def Let_def try_send_frames split: option.splits prod.splits bool.splits)

lemma dispatch_pending: "pending_of i (dispatch fb i (Some resp) p st) = clone_pending fb p"
proof -
  have "pending_of i (clearQueuedResponse i e resp (clone_pending fb p) st') = clone_pending fb p"
    if "pending_of i st' = clone_pending fb p" for st' e
    using clearQueuedResponse_pending[of i e resp "clone_pending fb p" st'] that by auto
  then show ?thesis
    by (auto simp: dispatch_def Let_def try_send_frames split: option.splits prod.splits bool.splits)
qed

lemma clear_frames [simp, runtime_frames]:
  "gs_repo (clearPendingRAV i st) = gs_repo st" "gs_repo (clearQueuedControl i st) = gs_repo st"
  "pending_of j (clearPendingRAV i st) = (if j = i then None else pending_of j st)"
  "pending_of j (clearQueuedControl i st) = (if j = i then None else pending_of j st)"
  by (auto simp: clearPendingRAV_def clearQueuedControl_def pending_of_def split: option.splits)

lemma cleanup_frames [simp, runtime_frames]:
  "gs_repo (cleanupSessionState i e st) = gs_repo st"
  "pending_of j (cleanupSessionState i e st) = pending_of j st"
  by (auto simp: cleanupSessionState_def pending_of_def split: option.splits)

lemma unbind_frames [simp, runtime_frames]:
  "gs_repo (unbindSession i e st) = gs_repo st" "pending_of j (unbindSession i e st) = pending_of j st"
  by (simp_all add: unbindSession_def)

lemma tryDeliver_frames [simp, runtime_frames]:
  "gs_repo (tryDeliverQueuedResponse i e r p st) = gs_repo st"
  "j \<noteq> i \<Longrightarrow> pending_of j (tryDeliverQueuedResponse i e r p st) = pending_of j st"
  by (auto simp: tryDeliverQueuedResponse_def try_send_frames split: option.splits prod.splits bool.splits)

lemma tryDeliver_pending:
  "pending_of i (tryDeliverQueuedResponse i e r p st) \<in> {p, pending_of i st}"
proof -
  have "pending_of i (clearQueuedResponse i e resp p st') \<in> {p, pending_of i st}"
    if "pending_of i st' = pending_of i st" for resp st'
    using clearQueuedResponse_pending[of i e resp p st'] that by auto
  then show ?thesis
    unfolding tryDeliverQueuedResponse_def
    by (auto split: option.splits prod.splits bool.splits dest: try_send_frames(3))
qed

subsection \<open>The ledger of a session\<close>

text \<open>What a session is owed beyond its vouchers, and the fields that decide it.\<close>

definition advance :: "Session \<Rightarrow> int" where
  "advance s = current_value s - baseline_cost s"

definition session_ok :: "Session \<Rightarrow> bool" where
  "session_ok s \<longleftrightarrow> ses_TotalCost s \<noteq> None \<and> ses_BaselineCost s \<noteq> None \<and>
     0 \<le> baseline_cost s \<and> baseline_cost s \<le> total_cost s"

text \<open>
  A request in flight: it extends the current voucher by the cost between the baseline and the
  snapshot, as long as the cost fits the 256 bits of an amount.
\<close>

definition pend_ok :: "Session \<Rightarrow> pendingRAVRequest \<Rightarrow> bool" where
  "pend_ok s p \<longleftrightarrow> baseline_cost s \<le> pq_baselineCost p \<and> pq_baselineCost p \<le> total_cost s \<and>
     pq_currentRAVValue p = current_value s \<and>
     (total_cost s < 2 ^ 256 \<longrightarrow> pq_targetValue p = current_value s + (pq_baselineCost p - baseline_cost s))"

definition ledger_ok :: "Session option \<Rightarrow> pendingRAVRequest option \<Rightarrow> bool" where
  "ledger_ok so po =
     (case so of None \<Rightarrow> po = None | Some s \<Rightarrow> session_ok s \<and> (\<forall>p. po = Some p \<longrightarrow> pend_ok s p))"

definition gw_inv :: "GatewayState \<Rightarrow> bool" where
  "gw_inv st \<longleftrightarrow> (\<forall>i. ledger_ok (sessions (gs_repo st) i) (pending_of i st))"

definition same_ledger :: "Session \<Rightarrow> Session \<Rightarrow> bool" where
  "same_ledger s s' \<longleftrightarrow> ses_CurrentRAV s' = ses_CurrentRAV s \<and> ses_TotalCost s' = ses_TotalCost s \<and>
     ses_BaselineCost s' = ses_BaselineCost s \<and> ses_BlocksProcessed s' = ses_BlocksProcessed s \<and>
     ses_BytesTransferred s' = ses_BytesTransferred s \<and> ses_Requests s' = ses_Requests s \<and>
     ses_BaselineBlocks s' = ses_BaselineBlocks s \<and> ses_BaselineBytes s' = ses_BaselineBytes s \<and>
     ses_BaselineReqs s' = ses_BaselineReqs s \<and>
     ses_Payer s' = ses_Payer s \<and> ses_DataService s' = ses_DataService s"

lemma same_ledger_refl [simp]: "same_ledger s s"
  by (simp add: same_ledger_def)

lemma same_ledgerD:
  assumes "same_ledger s s'"
  shows "total_cost s' = total_cost s" "baseline_cost s' = baseline_cost s" "current_value s' = current_value s"
    "advance s' = advance s" "session_ok s' = session_ok s" "pend_ok s' p = pend_ok s p"
    "UsageDeltaSinceBaseline s' = UsageDeltaSinceBaseline s"
  using assms unfolding same_ledger_def
  by (auto simp: total_cost_def baseline_cost_def current_value_def advance_def
      session_ok_def pend_ok_def UsageDeltaSinceBaseline_def split: option.split)

lemma same_ledger_ok: "same_ledger s s' \<Longrightarrow> ledger_ok (Some s') po = ledger_ok (Some s) po"
  by (simp add: ledger_ok_def same_ledgerD)

lemma clone_pending_ok:
  "ledger_ok so (clone_pending fb po) = ledger_ok so po"
  by (cases so; cases po) (simp_all add: ledger_ok_def clone_pending_def pend_ok_def)

lemma ledger_ok_None: "ledger_ok so po \<Longrightarrow> ledger_ok so None"
  by (simp add: ledger_ok_def split: option.splits)

text \<open>
  How a step may move the ledger of a session: costs only grow, and as long as they fit 256
  bits the vouchers keep covering what is marked as paid, exactly if the step is exact.
\<close>

definition ledger_move :: "bool \<Rightarrow> Session option \<Rightarrow> Session option \<Rightarrow> bool" where
  "ledger_move exact so so' =
     (case so of
        None \<Rightarrow> True
      | Some s \<Rightarrow>
          (case so' of
             None \<Rightarrow> False
           | Some s' \<Rightarrow> total_cost s \<le> total_cost s' \<and>
               (total_cost s' < 2 ^ 256 \<longrightarrow>
                  advance s \<le> advance s' \<and> (exact \<longrightarrow> advance s' = advance s))))"

lemma ledger_move_None [simp]: "ledger_move x None so"
  by (simp add: ledger_move_def)

lemma ledger_move_refl [simp]: "ledger_move x so so"
  by (simp add: ledger_move_def split: option.splits)

lemma ledger_move_same: "same_ledger s s' \<Longrightarrow> ledger_move x (Some s) (Some s')"
  by (simp add: ledger_move_def same_ledgerD)

lemma ledger_move_trans:
  "ledger_move x a b \<Longrightarrow> ledger_move x b c \<Longrightarrow> ledger_move x a c"
  by (auto simp: ledger_move_def split: option.splits)

lemma ledger_move_weaken: "ledger_move True a b \<Longrightarrow> ledger_move x a b"
  by (auto simp: ledger_move_def split: option.splits)

text \<open>A step keeps the invariant and moves every ledger as allowed.\<close>

definition good_step :: "bool \<Rightarrow> GatewayState \<Rightarrow> GatewayState \<Rightarrow> bool" where
  "good_step exact st st' \<longleftrightarrow>
     gw_inv st' \<and> (\<forall>i. ledger_move exact (sessions (gs_repo st) i) (sessions (gs_repo st') i))"

lemma good_stepI:
  assumes "\<And>i. ledger_ok (sessions (gs_repo st') i) (pending_of i st')"
    "\<And>i. ledger_move x (sessions (gs_repo st) i) (sessions (gs_repo st') i)"
  shows "good_step x st st'"
  using assms by (simp add: good_step_def gw_inv_def)

lemma good_step_trans: "good_step x a b \<Longrightarrow> good_step x b c \<Longrightarrow> good_step x a c"
  using ledger_move_trans unfolding good_step_def by blast

lemma good_step_refl: "gw_inv st \<Longrightarrow> good_step x st st"
  by (simp add: good_step_def)

lemma gw_invD:
  assumes "gw_inv st" "sessions (gs_repo st) i = Some s"
  shows "session_ok s" "pending_of i st = Some p \<Longrightarrow> pend_ok s p"
proof -
  have "ledger_ok (Some s) (pending_of i st)" using assms by (simp add: gw_inv_def) metis
  then show "session_ok s" "pending_of i st = Some p \<Longrightarrow> pend_ok s p" by (simp_all add: ledger_ok_def)
qed

lemma good_stepD:
  assumes "good_step x st st'"
  shows "gw_inv st'" "ledger_move x (sessions (gs_repo st) i) (sessions (gs_repo st') i)"
  using assms by (simp_all add: good_step_def)

lemma ledger_moveE:
  assumes "ledger_move x (Some s) so'"
  obtains s' where "so' = Some s'" "total_cost s \<le> total_cost s'"
    "total_cost s' < 2 ^ 256 \<longrightarrow> advance s \<le> advance s' \<and> (x \<longrightarrow> advance s' = advance s)"
  using assms by (auto simp: ledger_move_def split: option.splits)

text \<open>Steps that change neither sessions nor requests, or only drop requests.\<close>

lemma good_step_frame:
  assumes "gw_inv st" "sessions (gs_repo st') = sessions (gs_repo st)"
    "\<And>i. pending_of i st' \<in> {None, pending_of i st, clone_pending fb (pending_of i st)}"
  shows "good_step x st st'"
proof (rule good_stepI)
  fix i
  have "ledger_ok (sessions (gs_repo st) i) (pending_of i st)" using assms(1) by (simp add: gw_inv_def)
  then show "ledger_ok (sessions (gs_repo st') i) (pending_of i st')"
    using assms(2) assms(3)[of i] clone_pending_ok ledger_ok_None by auto
qed (simp add: assms(2))

subsection \<open>Evaluation of metered usage\<close>

lemma delta_cost_ok:
  assumes "session_ok s"
  shows "snd (snd (snd (UsageDeltaSinceBaseline s))) = total_cost s - baseline_cost s"
  using assms by (auto simp: session_ok_def UsageDeltaSinceBaseline_def total_cost_def baseline_cost_def Let_def)

lemma request_usage_cost:
  assumes "FromBig_ok fb" "session_ok s" "total_cost s < 2 ^ 256"
  shows "GRT_ToBigInt fb (pu_Cost (request_usage fb s)) = total_cost s - baseline_cost s"
proof -
  have "0 \<le> total_cost s - baseline_cost s" "total_cost s - baseline_cost s < 2 ^ 256"
    using assms(2,3) by (auto simp: session_ok_def)
  from GRT_ToBigInt_FromBigInt[OF assms(1) this] show ?thesis
    using delta_cost_ok[OF assms(2)] by (auto simp: request_usage_def split: prod.splits)
qed

lemma newPending_ok:
  assumes "FromBig_ok fb" "session_ok s"
    "newPendingRAVRequest fb (Some s) (Some (request_usage fb s)) = Some p"
  shows "pend_ok s p"
proof -
  obtain m where m: "Option.bind (ses_CurrentRAV s) Message = Some m"
    using assms(3) by (auto simp: newPendingRAVRequest_def split: option.splits)
  have cv: "runtime_cloneBigInt (ValueAggregate m) = current_value s"
    by (simp add: current_value_def m runtime_cloneBigInt_def)
  have tc: "runtime_cloneBigInt (ses_TotalCost s) = total_cost s"
    by (simp add: total_cost_def runtime_cloneBigInt_def)
  have le: "baseline_cost s \<le> total_cost s" using assms(2) by (simp add: session_ok_def)
  have "p = \<lparr>pq_usage = cloneUsage fb (Some (request_usage fb s)), pq_currentRAVValue = current_value s,
      pq_targetValue = current_value s + GRT_ToBigInt fb (pu_Cost (request_usage fb s)),
      pq_baselineBlocks = ses_BlocksProcessed s, pq_baselineBytes = ses_BytesTransferred s,
      pq_baselineReqs = ses_Requests s, pq_baselineCost = total_cost s\<rparr>"
    using assms(3) by (simp add: newPendingRAVRequest_def m cv tc Let_def split: if_splits)
  then show ?thesis
    using le request_usage_cost[OF assms(1,2)] by (simp add: pend_ok_def)
qed

lemma same_ledger_trans: "same_ledger a b \<Longrightarrow> same_ledger b c \<Longrightarrow> same_ledger a c"
  by (simp add: same_ledger_def)

lemma runtime_next_same: "same_ledger s (runtime_next status md e er u s)"
  by (simp add: same_ledger_def runtime_next_def Let_def)

lemma assessed_same:
  "same_ledger s (applyFundsAssessmentMetadata a s)"
  "same_ledger s (Session_End reason now s)"
  by (simp_all add: same_ledger_def applyFundsAssessmentMetadata_def Session_End_def Let_def)

text \<open>A change of one session that keeps its ledger.\<close>

lemma good_step_session:
  assumes "gw_inv st" "sessions (gs_repo st) i = Some s" "same_ledger s s'"
    "sessions (gs_repo st') = (sessions (gs_repo st))(i \<mapsto> s')" "\<And>j. pending_of j st' = pending_of j st"
  shows "good_step x st st'"
proof (rule good_stepI)
  fix j
  have "ledger_ok (sessions (gs_repo st) j) (pending_of j st)" using assms(1) by (simp add: gw_inv_def)
  then show "ledger_ok (sessions (gs_repo st') j) (pending_of j st')"
    using assms(2,4,5) same_ledger_ok[OF assms(3)] by auto
  show "ledger_move x (sessions (gs_repo st) j) (sessions (gs_repo st') j)"
    using assms(2,4) ledger_move_same[OF assms(3)] by auto
qed

text \<open>A new request for a session.\<close>

lemma good_step_request:
  assumes "gw_inv st" "sessions (gs_repo st') = sessions (gs_repo st)" "sessions (gs_repo st) i = Some s"
    "\<And>j. j \<noteq> i \<Longrightarrow> pending_of j st' = pending_of j st"
    "pending_of i st' = clone_pending fb po" "\<And>p. po = Some p \<Longrightarrow> pend_ok s p"
  shows "good_step x st st'"
proof (rule good_stepI)
  fix j
  have inv: "ledger_ok (sessions (gs_repo st) j) (pending_of j st)" for j using assms(1) by (simp add: gw_inv_def)
  have "ledger_ok (Some s) po" using inv[of i] assms(3,6) by (simp add: ledger_ok_def)
  then show "ledger_ok (sessions (gs_repo st') j) (pending_of j st')"
    using inv[of j] assms(2-5) by (cases "j = i") (simp_all add: clone_pending_ok)
qed (simp add: assms(2))

lemma assessed_session_same: "same_ledger s (assessed_session a now s)"
  unfolding assessed_session_def Let_def
  using assessed_same(1) same_ledger_trans[OF assessed_same(1) assessed_same(2)] by simp

text \<open>The stored session after an evaluation.\<close>

definition stored_assessment :: "fundsAssessment \<Rightarrow> time \<Rightarrow> Session \<Rightarrow> Session" where
  "stored_assessment a now s =
     (let s1 = assessed_session a now s in
      runtime_next (ses_Status s1) (ses_Metadata s1) (ses_EndedAt s1) (ses_EndReason s1) (ses_UpdatedAt s1) s)"

lemma evaluate_active:
  assumes "sessions (gs_repo st) i = Some s" "IsActive s"
  shows "evaluateMeteredUsage l g n i now st =
    (let a = assessSessionFunds n g s in
     (Inr (), control_after_assessment l g i a (assessed_session a now s) now
        (set_repo (put_session i (stored_assessment a now s) (gs_repo st)) st)))"
  using assms by (simp add: evaluateMeteredUsage_def SessionGet_def SessionUpdateRuntimeState_def
      stored_assessment_def Let_def)

lemma evaluate_inactive:
  assumes "\<not> (\<exists>s. sessions (gs_repo st) i = Some s \<and> IsActive s)"
  shows "evaluateMeteredUsage l g n i now st = (Inr (), st)"
  using assms by (auto simp: evaluateMeteredUsage_def SessionGet_def session_not_found_def split: option.splits)

lemma control_cases:
  "control_after_assessment l g i a s now st = st \<or>
   (\<exists>resp. control_after_assessment l g i a s now st =
      dispatch (lib_fromBig l) i (Some resp) None (clearPendingRAV i st)) \<or>
   (\<exists>resp. control_after_assessment l g i a s now st =
      dispatch (lib_fromBig l) i (Some resp)
        (newPendingRAVRequest (lib_fromBig l) (Some s) (Some (request_usage (lib_fromBig l) s))) st)"
  unfolding control_after_assessment_def Let_def by (auto split: prod.split)

lemma control_good:
  assumes "FromBig_ok (lib_fromBig l)" "gw_inv st" "sessions (gs_repo st) i = Some s'" "same_ledger s' s"
  shows "good_step x st (control_after_assessment l g i a s now st)"
proof -
  let ?st' = "control_after_assessment l g i a s now st"
  consider (same) "?st' = st"
    | (stop) resp where "?st' = dispatch (lib_fromBig l) i (Some resp) None (clearPendingRAV i st)"
    | (request) resp where "?st' = dispatch (lib_fromBig l) i (Some resp)
        (newPendingRAVRequest (lib_fromBig l) (Some s) (Some (request_usage (lib_fromBig l) s))) st"
    using control_cases[of l g i a s now st] by blast
  then show ?thesis
  proof cases
  case same
  then show ?thesis using good_step_refl[OF assms(2)] by simp
next
  case stop
  then show ?thesis
    by (intro good_step_request[OF assms(2) _ assms(3), where po = None and fb = "lib_fromBig l"])
      (simp_all add: dispatch_pending clone_pending_def)
next
  case request
  have "ledger_ok (Some s') (pending_of i st)" using assms(2,3) unfolding gw_inv_def by metis
  then have "session_ok s" using same_ledgerD(5)[OF assms(4)] by (simp add: ledger_ok_def)
  from newPending_ok[OF assms(1) this] have "pend_ok s' p"
    if "newPendingRAVRequest (lib_fromBig l) (Some s) (Some (request_usage (lib_fromBig l) s)) = Some p" for p
    using that same_ledgerD(6)[OF assms(4)] by simp
  then show ?thesis
    using request by (intro good_step_request[OF assms(2) _ assms(3)]) (simp_all add: dispatch_pending)
  qed
qed

lemma evaluate_good:
  assumes "FromBig_ok (lib_fromBig l)" "gw_inv st"
  shows "good_step x st (snd (evaluateMeteredUsage l g n i now st))"
proof (cases "\<exists>s. sessions (gs_repo st) i = Some s \<and> IsActive s")
  case False
  from good_step_refl[OF assms(2)] show ?thesis unfolding evaluate_inactive[OF False] by simp
next
  case True
  then obtain s where s: "sessions (gs_repo st) i = Some s" "IsActive s" by blast
  define a where "a = assessSessionFunds n g s"
  define s2 where "s2 = stored_assessment a now s"
  define st1 where "st1 = set_repo (put_session i s2 (gs_repo st)) st"
  have s2: "same_ledger s s2" unfolding s2_def stored_assessment_def Let_def by (rule runtime_next_same)
  have s1: "same_ledger s2 (assessed_session a now s)"
    using assessed_session_same s2 by (simp add: same_ledger_def)
  have st1: "good_step x st st1"
    using good_step_session[OF assms(2) s(1) s2, of st1 x] by (simp add: st1_def)
  then have "good_step x st1 (control_after_assessment l g i a (assessed_session a now s) now st1)"
    by (intro control_good[OF assms(1) _ _ s1]) (simp_all add: good_step_def st1_def)
  from good_step_trans[OF st1 this] show ?thesis
    unfolding evaluate_active[OF s] by (simp add: a_def s2_def st1_def Let_def)
qed

lemma onMeteredUsage_good:
  assumes "FromBig_ok (lib_fromBig l)" "gw_inv st"
  shows "good_step x st (snd (onMeteredUsage l g n i now st))"
proof -
  have g: "good_step x st (ensureSessionStateLocked i st)"
    by (rule good_step_frame[OF assms(2), where fb = "lib_fromBig l"]) simp_all
  then show ?thesis
    unfolding onMeteredUsage_def
    by (rule good_step_trans) (rule evaluate_good[OF assms(1)], use g in \<open>simp add: good_step_def\<close>)
qed

lemma evaluate_fst: "fst (evaluateMeteredUsage l g n i now st) = Inr ()"
  by (cases "\<exists>s. sessions (gs_repo st) i = Some s \<and> IsActive s")
    (auto simp: evaluate_inactive evaluate_active Let_def)

subsection \<open>Streams\<close>

lemma attach_good:
  assumes "gw_inv st" shows "good_step x st (attach_stream fb i e st)"
proof -
  define c where "c = (let c = session_state i st; c = (if rs_pendingRAV c \<noteq> None \<and> rs_queuedResponse c = None
    then c\<lparr>rs_pendingRAV := None\<rparr> else c) in c\<lparr>rs_events := e\<rparr>)"
  have cp: "rs_pendingRAV c = None \<or> rs_pendingRAV c = pending_of i st"
    by (simp add: c_def Let_def session_state_pending)
  have eq: "attach_stream fb i e st = tryDeliverQueuedResponse i e (rs_queuedResponse c)
      (clone_pending fb (rs_pendingRAV c)) (put_state i c st)"
    by (simp only: attach_stream_def c_def Let_def)
  have "pending_of i (attach_stream fb i e st) \<in> {clone_pending fb (rs_pendingRAV c), rs_pendingRAV c}"
    unfolding eq using tryDeliver_pending[of i e _ _ "put_state i c st"] by simp
  then have "pending_of j (attach_stream fb i e st) \<in> {None, pending_of j st, clone_pending fb (pending_of j st)}" for j
    using cp by (cases "j = i") (auto simp: eq clone_pending_def)
  then show ?thesis by (intro good_step_frame[OF assms]) (simp_all add: eq)
qed

lemma bindSession_good:
  assumes "FromBig_ok (lib_fromBig l)" "gw_inv st"
  shows "good_step x st (snd (bindSession l g n i e now st))"
proof -
  let ?st0 = "ensureSessionStateLocked i st"
  let ?st2 = "attach_stream (lib_fromBig l) i e ?st0"
  have g0: "good_step x st ?st0" by (rule good_step_frame[OF assms(2), where fb = "lib_fromBig l"]) simp_all
  then have g2: "good_step x st ?st2"
    by (intro good_step_trans[OF g0] attach_good) (simp add: good_step_def)
  then have g3: "good_step x st (snd (onMeteredUsage l g n i now ?st2))"
    by (intro good_step_trans[OF g2] onMeteredUsage_good[OF assms(1)]) (simp add: good_step_def)
  have "fst (onMeteredUsage l g n i now ?st2) = Inr ()" by (simp add: onMeteredUsage_def evaluate_fst)
  then have "snd (bindSession l g n i e now st) \<in> {st, ?st0, snd (onMeteredUsage l g n i now ?st2)}"
    by (cases "onMeteredUsage l g n i now ?st2") (simp add: bindSession_def Let_def)
  then show ?thesis using g0 g3 good_step_refl[OF assms(2)] by auto
qed

lemma SessionUpdateRAVAndBaseline_cases:
  assumes "SessionUpdateRAVAndBaseline pretty i rav b y q c now r = (res, r')"
  shows "(\<exists>e. res = Inl e) \<and> r' = r \<or>
    (\<exists>s. res = Inr () \<and> sessions r i = Some s \<and>
       sessions r' = (sessions r)(i \<mapsto> baseline_next rav b y q c now s))"
  using assms by (auto simp: SessionUpdateRAVAndBaseline_def split: sum.splits option.splits)

lemma baseline_next_ledger:
  assumes "Message sr = Some m" "ValueAggregate m = Some v"
  shows "current_value (baseline_next (Some sr) b y q (Some c) now s) = v"
    "baseline_cost (baseline_next (Some sr) b y q (Some c) now s) = c"
    "total_cost (baseline_next (Some sr) b y q (Some c) now s) = total_cost s"
    "ses_TotalCost (baseline_next (Some sr) b y q (Some c) now s) = ses_TotalCost s"
  using assms by (simp_all add: baseline_next_def current_value_def baseline_cost_def total_cost_def)

text \<open>
  A voucher replaces the current one: the value pays at least for the cost from the old baseline
  to the new one.
\<close>

lemma good_step_voucher:
  assumes inv: "gw_inv st" and s: "sessions (gs_repo st) i = Some s"
    and m: "Message sr = Some m" "ValueAggregate m = Some v"
    and st': "sessions (gs_repo st') = (sessions (gs_repo st))(i \<mapsto> baseline_next (Some sr) b y q (Some c) now s)"
      "pending_of i st' = None" "\<And>j. j \<noteq> i \<Longrightarrow> pending_of j st' = pending_of j st"
    and c: "baseline_cost s \<le> c" "c \<le> total_cost s"
    and v: "total_cost s < 2 ^ 256 \<Longrightarrow> current_value s + (c - baseline_cost s) \<le> v"
      "total_cost s < 2 ^ 256 \<Longrightarrow> x \<Longrightarrow> v = current_value s + (c - baseline_cost s)"
  shows "good_step x st st'"
proof (rule good_stepI)
  fix j
  have ok: "ledger_ok (sessions (gs_repo st) j) (pending_of j st)" for j using inv by (simp add: gw_inv_def)
  let ?s' = "baseline_next (Some sr) b y q (Some c) now s"
  have "session_ok s" using ok[of i] s by (simp add: ledger_ok_def)
  then have "session_ok ?s'"
    using c by (simp add: session_ok_def baseline_next_ledger[OF m]) (simp add: baseline_next_def)
  then show "ledger_ok (sessions (gs_repo st') j) (pending_of j st')"
    using ok[of j] st' by (cases "j = i") (simp_all add: ledger_ok_def)
  show "ledger_move x (sessions (gs_repo st) j) (sessions (gs_repo st') j)"
    using s st'(1) v by (cases "j = i") (auto simp: ledger_move_def advance_def baseline_next_ledger[OF m])
qed

lemma check_submission_Inr:
  assumes "check_submission l g n session sub p clk cache = Some (Inr sr, cache')"
  shows "\<exists>u m signer v. sb_Usage sub = Some u \<and> matchesUsage (lib_fromBig l) (Some p) (Some u) \<and>
    ProtoSignedRAVToHorizon (lib_fromBig l) (lib_newSig l) (sb_SignedRav sub) = Inr (Some sr) \<and>
    RAV_RecoverSigner (lib_keccak l) (lib_recover l) (gw_domain g) sr = Some (Inr signer) \<and>
    m = the (Message sr) \<and> Payer m = ses_Payer session \<and> ServiceProvider m = gw_serviceProvider g \<and>
    DataService m = ses_DataService session \<and>
    gw_isSignerAuthorized l g n (ses_Payer session) signer (clk 0) (clk 1) cache = Some (Inr True, cache') \<and>
    ValueAggregate m = Some v \<and> v = pq_targetValue p"
  using assms
  by (auto simp: check_submission_def check_submission_parties_def check_submission_value_def
      AddressesEqual_def Let_def split: option.splits if_splits sum.splits prod.splits)


lemma settle_frames [simp]:
  "gs_repo (settle_pending i st) = gs_repo st"
  "pending_of j (settle_pending i st) = (if j = i then None else pending_of j st)"
  by (simp_all add: settle_pending_def)

text \<open>An accepted submission, in terms of the states before and after.\<close>

lemma handleRAVSubmission_cases:
  assumes "handleRAVSubmission l g n i s sub clk st = Some (resp, st')"
  shows "(\<exists>reason. resp = stopPaymentSessionResponse reason) \<and> gs_repo st' = gs_repo st \<and>
      (\<forall>j. pending_of j st' = pending_of j st) \<or>
    (\<exists>sb p sr cache r. resp = continuePaymentSessionResponse \<and> sub = Some sb \<and> pending_of i st = Some p \<and>
       check_submission l g n s sb p clk (gs_authCache st) = Some (Inr sr, cache) \<and>
       commitAcceptedRAV l i sr (Some p) (clk 2) (gs_repo st) = (Inr (), r) \<and>
       st' = snd (evaluateMeteredUsage l g n i (clk 3)
         (settle_pending i (set_repo r ((ensureSessionStateLocked i st)\<lparr>gs_authCache := cache\<rparr>)))))"
proof -
  obtain sb where sb: "sub = Some sb \<and> sb_SignedRav sb \<noteq> None \<or>
      (\<exists>reason. resp = stopPaymentSessionResponse reason) \<and> st' = st"
    using assms by (cases sub) (auto simp: handleRAVSubmission_def split: if_splits)
  show ?thesis
  proof (cases "sub = Some sb \<and> sb_SignedRav sb \<noteq> None \<and> pending_of i st \<noteq> None")
    case False
    then have "(\<exists>reason. resp = stopPaymentSessionResponse reason) \<and> (st' = st \<or> st' = ensureSessionStateLocked i st)"
      using assms sb
      by (auto simp: handleRAVSubmission_def session_state_pending stopResponseForInactiveSession_def Let_def
          split: if_splits sum.splits option.splits)
    then show ?thesis by auto
  next
    case True
    then obtain p where p: "pending_of i st = Some p" by blast
    let ?st0 = "ensureSessionStateLocked i st"
    have "rs_pendingRAV (session_state i ?st0) = Some p" using p by (simp add: session_state_pending)
    note h = assms[unfolded handleRAVSubmission_def Let_def, simplified True option.case this if_False, simplified True]
    consider reason cache where "check_submission l g n s sb p clk (gs_authCache st) = Some (Inl reason, cache)"
      | sr cache where "check_submission l g n s sb p clk (gs_authCache st) = Some (Inr sr, cache)"
      using h True by (auto split: option.splits sum.splits prod.splits)
    then show ?thesis
    proof cases
      case 1
      then show ?thesis using h True by auto
    next
      case (2 sr cache)
      obtain res r where c: "commitAcceptedRAV l i sr (Some p) (clk 2) (gs_repo st) = (res, r)" by fastforce
      show ?thesis
      proof (cases res)
        case (Inl e)
        then have "r = gs_repo st"
          using c SessionUpdateRAVAndBaseline_cases by (fastforce simp: commitAcceptedRAV_def)
        then show ?thesis using h True 2 c Inl by auto
      next
        case (Inr u)
        then show ?thesis using h True 2 c p by (intro disjI2) auto
      qed
    qed
  qed
qed


lemma accepted_voucher:
  assumes "lib_ok l" "ProtoSignedRAVToHorizon (lib_fromBig l) (lib_newSig l) psr = Inr (Some sr)"
  shows "\<exists>m. Message sr = Some m \<and> wf_RAV m"
  using ProtoSignedRAV_wf[OF lib_okD(2)[OF assms(1)] assms(2)] by metis

lemma handleRAVSubmission_good:
  assumes "lib_ok l" "gw_inv st" "handleRAVSubmission l g n i s sub clk st = Some (resp, st')"
  shows "good_step x st st'"
  using handleRAVSubmission_cases[OF assms(3)]
proof (elim disjE exE conjE)
  assume "gs_repo st' = gs_repo st" "\<forall>j. pending_of j st' = pending_of j st"
  then show ?thesis by (intro good_step_frame[OF assms(2), where fb = "lib_fromBig l"]) simp_all
next
  fix sb p sr cache r
  assume p: "pending_of i st = Some p"
    and chk: "check_submission l g n s sb p clk (gs_authCache st) = Some (Inr sr, cache)"
    and com: "commitAcceptedRAV l i sr (Some p) (clk 2) (gs_repo st) = (Inr (), r)"
    and st': "st' = snd (evaluateMeteredUsage l g n i (clk 3)
         (settle_pending i (set_repo r ((ensureSessionStateLocked i st)\<lparr>gs_authCache := cache\<rparr>))))"
  let ?st1 = "settle_pending i (set_repo r ((ensureSessionStateLocked i st)\<lparr>gs_authCache := cache\<rparr>))"
  obtain s0 where s0: "sessions (gs_repo st) i = Some s0"
      "sessions r = (sessions (gs_repo st))(i \<mapsto> baseline_next (Some sr) (pq_baselineBlocks p)
         (pq_baselineBytes p) (pq_baselineReqs p) (Some (pq_baselineCost p)) (clk 2) s0)"
    using SessionUpdateRAVAndBaseline_cases[OF com[unfolded commitAcceptedRAV_def option.case]] by auto
  obtain psr where psr: "ProtoSignedRAVToHorizon (lib_fromBig l) (lib_newSig l) psr = Inr (Some sr)"
      "ValueAggregate (the (Message sr)) = Some (pq_targetValue p)"
    using check_submission_Inr[OF chk] by blast
  obtain m where m: "Message sr = Some m" "ValueAggregate m = Some (pq_targetValue p)"
    using accepted_voucher[OF assms(1) psr(1)] psr(2) by auto
  note ok = gw_invD(2)[OF assms(2) s0(1) p, unfolded pend_ok_def]
  have g: "good_step x st ?st1"
  proof (rule good_step_voucher[OF assms(2) s0(1) m])
    show "sessions (gs_repo ?st1) = (sessions (gs_repo st))(i \<mapsto> baseline_next (Some sr) (pq_baselineBlocks p)
         (pq_baselineBytes p) (pq_baselineReqs p) (Some (pq_baselineCost p)) (clk 2) s0)"
      using s0(2) by simp
  qed (use ok in simp_all)
  from good_step_trans[OF g evaluate_good[OF lib_okD(1)[OF assms(1)]]] g show ?thesis
    unfolding st' good_step_def by blast
qed

lemma stream_return_good: "gw_inv st \<Longrightarrow> good_step x st (snd (stream_return str st))"
  by (rule good_step_frame[where fb = FromBig_std]) (simp_all add: stream_return_def)

lemma stream_send_good: "gw_inv st \<Longrightarrow> good_step x st (snd (snd (stream_send sent resp str st)))"
  using stream_return_good good_step_refl by (simp add: stream_send_def)

lemma stream_stop_good: "gw_inv st \<Longrightarrow> good_step x st (snd (snd (stream_stop resp str st)))"
  using stream_return_good by (simp add: stream_stop_def)

lemma stream_event_good:
  assumes "gw_inv st" shows "good_step x st (snd (snd (stream_event sent str st)))"
proof -
  have "good_step x st (st\<lparr>gs_channels := c\<rparr>)" for c
    by (rule good_step_frame[OF assms, where fb = FromBig_std]) simp_all
  then have "good_step x st (snd (snd (stream_send sent resp str (st\<lparr>gs_channels := c\<rparr>))))" for resp c
    by (rule good_step_trans) (rule stream_send_good, simp add: gw_inv_def assms[unfolded gw_inv_def])
  then show ?thesis
    using good_step_refl[OF assms] unfolding stream_event_def by (simp split: option.split list.split)
qed

lemma handleFunds_good:
  assumes "gw_inv st" shows "good_step x st (snd (handleFundsAcknowledgment i ack st))"
  by (rule good_step_frame[OF assms, where fb = FromBig_std])
    (simp_all add: handleFundsAcknowledgment_def split: option.splits)

lemma stream_message_good:
  assumes "lib_ok l" "gw_inv st" "stream_message l g n sent msg clk str st = Some (out, str', st')"
  shows "good_step x st st'"
proof -
  have send: "good_step x st (snd (snd (stream_send sent resp str st1)))" if "good_step x st st1" for resp st1
    using good_step_trans[OF that stream_send_good] that by (simp add: good_step_def)
  have stop_good: "good_step x st (snd (snd (stream_stop resp str st)))" for resp
    by (rule stream_stop_good[OF assms(2)])
  have rav_good: "good_step x st st1" if "handleRAVSubmission l g n i s sub clk st = Some (resp, st1)" for i s sub resp st1
    by (rule handleRAVSubmission_good[OF assms(1,2) that])
  let ?id = "psm_sessionID str"
  consider (stop) resp where "stream_stop resp str st = (out, str', st')"
    | (skip) "st' = st"
    | (rav) s sub resp st1 where "handleRAVSubmission l g n ?id s sub clk st = Some (resp, st1)"
        "stream_send sent resp str st1 = (out, str', st')"
    | (funds) ack resp st1 where "handleFundsAcknowledgment ?id ack st = (resp, st1)"
        "stream_send sent resp str st1 = (out, str', st')"
    using assms(3) unfolding stream_message_def
    by (auto split: sum.splits if_splits option.splits PaymentSessionMessage.splits prod.splits)
  then show ?thesis
  proof cases
    case (stop resp)
    then show ?thesis using stop_good[of resp] by (metis snd_conv)
  next
    case skip
    then show ?thesis using good_step_refl[OF assms(2)] by simp
  next
    case (rav s sub resp st1)
    then show ?thesis using send[OF rav_good[OF rav(1)], of resp] by (metis snd_conv)
  next
    case (funds ack resp st1)
    then show ?thesis using send[of st1 resp] handleFunds_good[OF assms(2), of x ?id ack] by (metis snd_conv)
  qed
qed

lemma stream_bind_good:
  assumes "lib_ok l" "gw_inv st" "stream_bind l g n i now str st = (res, str', st')"
  shows "good_step x st st'"
proof -
  let ?st0 = "st\<lparr>gs_nextChannel := Suc (gs_nextChannel st), gs_channels := (gs_channels st)(gs_nextChannel st := [])\<rparr>"
  have g: "good_step x st ?st0" by (rule good_step_frame[OF assms(2), where fb = FromBig_std]) simp_all
  have "st' = snd (bindSession l g n i (Some (gs_nextChannel st)) now ?st0)"
    using assms(3) by (auto simp: stream_bind_def Let_def split: prod.splits)
  moreover have "good_step x ?st0 (snd (bindSession l g n i (Some (gs_nextChannel st)) now ?st0))"
    by (rule bindSession_good[OF lib_okD(1)[OF assms(1)]]) (use g in \<open>simp add: good_step_def\<close>)
  ultimately show ?thesis using good_step_trans[OF g] by simp
qed

lemma stream_request_good:
  assumes "lib_ok l" "gw_inv st" "stream_request l g n sent msg clk str st = Some (out, str', st')"
  shows "good_step x st st'"
proof -
  have stop: "good_step x st (snd (snd (stream_stop resp str1 st1)))" if "good_step x st st1" for resp str1 st1
    using good_step_trans[OF that stream_stop_good] that by (simp add: good_step_def)
  consider (stop) resp where "stream_stop resp str st = (out, str', st')"
    | (skip) "st' = st"
    | (bound) i res str1 where "stream_bind l g n i (clk 0) str st = (res, str1, st')"
    | (refused) i res str1 st1 resp where "stream_bind l g n i (clk 0) str st = (res, str1, st1)"
        "stream_stop resp str1 st1 = (out, str', st')"
    | (bound_message) i res str1 st1 m c where "stream_bind l g n i (clk 0) str st = (res, str1, st1)"
        "stream_message l g n sent m c str1 st1 = Some (out, str', st')"
    | (message) m where "stream_message l g n sent m clk str st = Some (out, str', st')"
    using assms(3) unfolding stream_request_def Let_def
    by (auto split: option.splits sum.splits if_splits prod.splits)
  then show ?thesis
  proof cases
    case (stop resp)
    then show ?thesis using stream_stop_good[OF assms(2), of x resp str] by simp
  next
    case skip
    then show ?thesis using good_step_refl[OF assms(2)] by simp
  next
    case (bound i res str1)
    then show ?thesis by (rule stream_bind_good[OF assms(1,2)])
  next
    case (refused i res str1 st1 resp)
    show ?thesis using stop[OF stream_bind_good[OF assms(1,2) refused(1)], of resp str1] refused(2) by simp
  next
    case (bound_message i res str1 st1 m c)
    have g: "good_step x st st1" by (rule stream_bind_good[OF assms(1,2) bound_message(1)])
    then have "gw_inv st1" by (simp add: good_step_def)
    from good_step_trans[OF g stream_message_good[OF assms(1) this bound_message(2)]] show ?thesis .
  next
    case (message m)
    then show ?thesis by (rule stream_message_good[OF assms(1,2)])
  qed
qed

subsection \<open>Starting, metering, submitting\<close>

lemma new_consumer_session_ledger:
  "session_ok (new_consumer_session g i payer ds rav now)"
  "baseline_cost (new_consumer_session g i payer ds rav now) = 0"
  "total_cost (new_consumer_session g i payer ds rav now) = 0"
  by (simp_all add: new_consumer_session_def session_ok_def NewSession_def MarkBaseline_def baseline_cost_def
      total_cost_def Let_def)

lemma StartSession_repo:
  assumes "StartSession l g n req random clk st = Some (res, st')"
  shows "gs_runtime st' = gs_runtime st \<and>
    (gs_repo st' = gs_repo st \<or>
     (\<exists>payer ds rav. sessions (gs_repo st) (GenerateID random) = None \<and>
        sessions (gs_repo st') = (sessions (gs_repo st))(GenerateID random \<mapsto>
          new_consumer_session g (GenerateID random) payer ds rav (clk 2))))"
proof -
  have new: "ses_ID (new_consumer_session g i payer ds rav now) = i" for i payer ds rav now
    by (simp add: new_consumer_session_def NewSession_def MarkBaseline_def Let_def)
  have create: "r' = gs_repo st \<or> sessions (gs_repo st) (GenerateID random) = None \<and>
      sessions r' = (sessions (gs_repo st))(GenerateID random \<mapsto> s)"
    if "SessionCreate pretty (Some s) now (gs_repo st) = (c, r')" "ses_ID s = GenerateID random" for pretty s now c r'
    using that by (auto simp: SessionCreate_def split: if_splits sum.splits)
  consider "gs_repo st' = gs_repo st" "gs_runtime st' = gs_runtime st"
    | payer ds rav c r' where "gs_repo st' = r'" "gs_runtime st' = gs_runtime st"
        "SessionCreate (lib_pretty l) (Some (new_consumer_session g (GenerateID random) payer ds rav (clk 2))) (clk 3)
           (gs_repo st) = (c, r')"
    using assms unfolding StartSession_def Let_def
    by (auto split: sum.splits prod.splits if_splits option.splits)
  then show ?thesis
  proof cases
    case (2 payer ds rav c r')
    from create[OF 2(3) new] show ?thesis using 2(1,2) by blast
  qed simp
qed

lemma StartSession_good:
  assumes "gw_inv st" "StartSession l g n req random clk st = Some (res, st')"
  shows "good_step x st st'"
proof (rule good_stepI)
  fix j
  have rt: "pending_of j st' = pending_of j st" using StartSession_repo[OF assms(2)] by (simp add: pending_of_def)
  have ok: "ledger_ok (sessions (gs_repo st) j) (pending_of j st)" using assms(1) by (simp add: gw_inv_def)
  show "ledger_ok (sessions (gs_repo st') j) (pending_of j st')"
    using StartSession_repo[OF assms(2)] ok new_consumer_session_ledger(1)
    by (auto simp: rt ledger_ok_def)
  show "ledger_move x (sessions (gs_repo st) j) (sessions (gs_repo st') j)"
    using StartSession_repo[OF assms(2)] by (cases "j = GenerateID random") auto
qed

lemma SessionApplyUsage_moves:
  "sessions (snd (SessionApplyUsage i u c now r)) = sessions r \<or>
   (\<exists>s. sessions r i = Some s \<and>
      sessions (snd (SessionApplyUsage i u c now r)) = (sessions r)(i \<mapsto> apply_usage_next u c now s))"
  by (auto simp: SessionApplyUsage_def UsageAdd_def Let_def split: option.splits)

lemma apply_usage_ledger:
  assumes "session_ok s" "0 \<le> c"
  shows "session_ok (apply_usage_next u (Some c) now s)"
    "total_cost (apply_usage_next u (Some c) now s) = total_cost s + c"
    "advance (apply_usage_next u (Some c) now s) = advance s"
    "pend_ok s p \<Longrightarrow> pend_ok (apply_usage_next u (Some c) now s) p"
proof -
  obtain b y q where t: "SanitizedTotals u = (b, y, q)" by (cases "SanitizedTotals u")
  let ?s' = "apply_usage_next u (Some c) now s"
  have tc: "total_cost ?s' = total_cost s + c" by (simp add: apply_usage_next_def t)
  have bc: "baseline_cost ?s' = baseline_cost s" by (simp add: apply_usage_next_def t)
  have cv: "current_value ?s' = current_value s" by (simp add: apply_usage_next_def t AddUsage_def current_value_def)
  show "total_cost ?s' = total_cost s + c" by (rule tc)
  show "advance ?s' = advance s" by (simp add: advance_def cv bc)
  show "session_ok ?s'"
    using assms by (simp add: session_ok_def tc bc) (simp add: apply_usage_next_def t AddUsage_def)
  show "pend_ok s p \<Longrightarrow> pend_ok ?s' p" using assms(2) by (simp add: pend_ok_def tc bc cv)
qed

lemma usage_good:
  assumes "gw_inv st" "0 \<le> c"
  shows "good_step x st (set_repo (snd (SessionApplyUsage i u (Some c) now (gs_repo st))) st)"
    (is "good_step x st ?st'")
proof -
  consider (same) "sessions (gs_repo ?st') = sessions (gs_repo st)"
    | (upd) s where "sessions (gs_repo st) i = Some s"
        "sessions (gs_repo ?st') = (sessions (gs_repo st))(i \<mapsto> apply_usage_next u (Some c) now s)"
    using SessionApplyUsage_moves[of i u "Some c" now "gs_repo st"] by auto
  then show ?thesis
  proof cases
    case same
    then show ?thesis by (intro good_step_frame[OF assms(1), where fb = FromBig_std]) simp_all
  next
    case (upd s)
    note sok = gw_invD[OF assms(1) upd(1)]
    note l = apply_usage_ledger[OF sok(1) assms(2), where u = u and now = now]
    have "ledger_move x (Some s) (Some (apply_usage_next u (Some c) now s))"
      using l(2,3) assms(2) by (simp add: ledger_move_def)
    moreover have "ledger_ok (Some (apply_usage_next u (Some c) now s)) (pending_of i st)"
      using l(1,4) sok(2) by (simp add: ledger_ok_def)
    ultimately show ?thesis
      using assms(1) upd by (intro good_stepI) (auto simp: gw_inv_def)
  qed
qed

lemma SubmitRAV_cases:
  assumes "SubmitRAV l g n i rq clk st = Some (res, st')"
  shows "gs_repo st' = gs_repo st \<and> gs_runtime st' = gs_runtime st \<and>
      (\<forall>resp. res = Inr resp \<longrightarrow> \<not> sur_Accepted resp) \<or>
    (\<exists>s sr signer cache. res = Inr \<lparr>sur_Accepted = True, sur_RejectionReason = [], sur_ShouldContinue = True\<rparr> \<and>
       sessions (gs_repo st) i = Some s \<and> IsActive s \<and> \<not> hasPendingRAV i st \<and>
       ProtoSignedRAVToHorizon (lib_fromBig l) (lib_newSig l) rq = Inr (Some sr) \<and>
       RAV_RecoverSigner (lib_keccak l) (lib_recover l) (gw_domain g) sr = Some (Inr signer) \<and>
       gw_isSignerAuthorized l g n (ses_Payer s) signer (clk 0) (clk 1) (gs_authCache st) = Some (Inr True, cache) \<and>
       check_submitted_value g s (the (Message sr)) = Some None \<and>
       st' = set_repo (snd (SessionUpdateRAVAndBaseline (lib_pretty l) i (Some sr) (ses_BlocksProcessed s)
               (ses_BytesTransferred s) (ses_Requests s) (Some (runtime_cloneBigInt (ses_TotalCost s))) (clk 2)
               (gs_repo st))) (st\<lparr>gs_authCache := cache\<rparr>))"
  using assms unfolding SubmitRAV_def SessionGet_def Let_def
  by (auto simp: submit_rejected_def split: option.splits sum.splits if_splits prod.splits)


lemma check_submitted_value_pass:
  assumes "check_submitted_value g s m = Some None"
  shows "Payer m = ses_Payer s" "ServiceProvider m = gw_serviceProvider g"
    "\<exists>v. ValueAggregate m = Some v \<and> current_value s + snd (snd (snd (UsageDeltaSinceBaseline s))) \<le> v"
  using assms by (auto simp: check_submitted_value_def AddressesEqual_def Let_def split: if_splits option.splits)

lemma SubmitRAV_good:
  assumes "lib_ok l" "gw_inv st" "SubmitRAV l g n i rq clk st = Some (res, st')"
  shows "good_step False st st'"
  using SubmitRAV_cases[OF assms(3)]
proof (elim disjE exE conjE)
  assume "gs_repo st' = gs_repo st" "gs_runtime st' = gs_runtime st"
  then show ?thesis
    by (intro good_step_frame[OF assms(2), where fb = "lib_fromBig l"]) (simp_all add: pending_of_def)
next
  fix s sr signer cache
  assume s: "sessions (gs_repo st) i = Some s" and np: "\<not> hasPendingRAV i st"
    and sr: "ProtoSignedRAVToHorizon (lib_fromBig l) (lib_newSig l) rq = Inr (Some sr)"
    and chk: "check_submitted_value g s (the (Message sr)) = Some None"
    and st': "st' = set_repo (snd (SessionUpdateRAVAndBaseline (lib_pretty l) i (Some sr) (ses_BlocksProcessed s)
               (ses_BytesTransferred s) (ses_Requests s) (Some (runtime_cloneBigInt (ses_TotalCost s))) (clk 2)
               (gs_repo st))) (st\<lparr>gs_authCache := cache\<rparr>)"
  obtain m where m: "Message sr = Some m" using accepted_voucher[OF assms(1) sr] by blast
  have ok: "session_ok s" by (rule gw_invD(1)[OF assms(2) s])
  obtain v where v: "ValueAggregate m = Some v" "current_value s + (total_cost s - baseline_cost s) \<le> v"
    using check_submitted_value_pass(3)[OF chk] delta_cost_ok[OF ok] m by auto
  have tc: "runtime_cloneBigInt (ses_TotalCost s) = total_cost s"
    by (simp add: runtime_cloneBigInt_def total_cost_def)
  have pn: "pending_of i st = None" using np by (auto simp: hasPendingRAV_def pending_of_def split: option.splits)
  obtain res r where r: "SessionUpdateRAVAndBaseline (lib_pretty l) i (Some sr) (ses_BlocksProcessed s)
      (ses_BytesTransferred s) (ses_Requests s) (Some (total_cost s)) (clk 2) (gs_repo st) = (res, r)" by fastforce
  have st1: "st' = set_repo r (st\<lparr>gs_authCache := cache\<rparr>)" using st' r by (simp add: tc)
  from SessionUpdateRAVAndBaseline_cases[OF r] show ?thesis
  proof (elim disjE exE conjE)
    assume "r = gs_repo st"
    then show ?thesis
      by (intro good_step_frame[OF assms(2), where fb = "lib_fromBig l"]) (simp_all add: st1)
  next
    fix s' assume "sessions (gs_repo st) i = Some s'" "sessions r = (sessions (gs_repo st))(i \<mapsto>
        baseline_next (Some sr) (ses_BlocksProcessed s) (ses_BytesTransferred s) (ses_Requests s)
          (Some (total_cost s)) (clk 2) s')"
    then have "sessions (gs_repo st') = (sessions (gs_repo st))(i \<mapsto>
        baseline_next (Some sr) (ses_BlocksProcessed s) (ses_BytesTransferred s) (ses_Requests s)
          (Some (total_cost s)) (clk 2) s)"
      using s by (simp add: st1)
    then show ?thesis
      by (rule good_step_voucher[OF assms(2) s m v(1)]) (use v(2) ok pn in \<open>simp_all add: st1 session_ok_def\<close>)
  qed
qed

subsection \<open>Runs of the gateway\<close>

text \<open>
  What happens to a gateway over time: sessions start, usage is applied and evaluated, streams
  receive requests, deliver events and return, and other services change what is not money.
  \<open>voucher_step\<close> has in addition the unary submissions.
\<close>

inductive payment_step :: "eth_lib \<Rightarrow> Gateway \<Rightarrow> GatewayState \<Rightarrow> GatewayState \<Rightarrow> bool" for l g where
  pay_start: "StartSession l g n req random clk st = Some (res, st') \<Longrightarrow> payment_step l g st st'"
| pay_usage: "0 \<le> c \<Longrightarrow>
    payment_step l g st (set_repo (snd (SessionApplyUsage i u (Some c) now (gs_repo st))) st)"
| pay_metered: "payment_step l g st (snd (onMeteredUsage l g n i now st))"
| pay_request: "stream_request l g n sent msg clk str st = Some (out, str', st') \<Longrightarrow> payment_step l g st st'"
| pay_event: "payment_step l g st (snd (snd (stream_event sent str st)))"
| pay_return: "payment_step l g st (snd (stream_return str st))"
| pay_other: "(\<And>i. rel_option same_ledger (sessions (gs_repo st) i) (sessions r i)) \<Longrightarrow>
    payment_step l g st (set_repo r st)"

inductive voucher_step :: "eth_lib \<Rightarrow> Gateway \<Rightarrow> GatewayState \<Rightarrow> GatewayState \<Rightarrow> bool" for l g where
  by_stream: "payment_step l g st st' \<Longrightarrow> voucher_step l g st st'"
| by_submit: "SubmitRAV l g n i rq clk st = Some (res, st') \<Longrightarrow> voucher_step l g st st'"

lemma other_good:
  assumes "gw_inv st" "\<And>i. rel_option same_ledger (sessions (gs_repo st) i) (sessions r i)"
  shows "good_step x st (set_repo r st)"
proof (rule good_stepI)
  fix j
  have ok: "ledger_ok (sessions (gs_repo st) j) (pending_of j st)" using assms(1) by (simp add: gw_inv_def)
  then show "ledger_ok (sessions (gs_repo (set_repo r st)) j) (pending_of j (set_repo r st))"
    using assms(2)[of j]
    by (cases "sessions (gs_repo st) j"; cases "sessions r j") (simp_all add: same_ledger_ok)
  show "ledger_move x (sessions (gs_repo st) j) (sessions (gs_repo (set_repo r st)) j)"
    using assms(2)[of j]
    by (cases "sessions (gs_repo st) j"; cases "sessions r j") (simp_all add: ledger_move_same)
qed

lemma payment_step_good:
  assumes "lib_ok l" "payment_step l g st st'" "gw_inv st"
  shows "good_step True st st'"
  using assms(2,3)
proof cases
  case pay_start
  then show ?thesis by (intro StartSession_good[OF assms(3)])
next
  case pay_request
  then show ?thesis by (intro stream_request_good[OF assms(1,3)])
next
  case pay_usage
  then show ?thesis by (simp only: usage_good[OF assms(3)])
next
  case pay_metered
  then show ?thesis by (simp only: onMeteredUsage_good[OF lib_okD(1)[OF assms(1)] assms(3)])
next
  case pay_event
  then show ?thesis by (simp only: stream_event_good[OF assms(3)])
next
  case pay_return
  then show ?thesis by (simp only: stream_return_good[OF assms(3)])
next
  case (pay_other r)
  show ?thesis unfolding pay_other(1) by (rule other_good[OF assms(3) pay_other(2)])
qed

lemma good_step_weaken: "good_step True st st' \<Longrightarrow> good_step x st st'"
  using ledger_move_weaken by (auto simp: good_step_def)

lemma voucher_step_good:
  assumes "lib_ok l" "voucher_step l g st st'" "gw_inv st"
  shows "good_step False st st'"
  using assms(2)
proof cases
  case by_stream
  from payment_step_good[OF assms(1) this assms(3)] show ?thesis by (rule good_step_weaken)
next
  case by_submit
  then show ?thesis using SubmitRAV_good[OF assms(1,3)] by blast
qed

lemma run_good:
  assumes "R\<^sup>*\<^sup>* st st'" "gw_inv st" "\<And>a b. R a b \<Longrightarrow> gw_inv a \<Longrightarrow> good_step x a b"
  shows "good_step x st st'"
  using assms(1)
proof (induction rule: rtranclp_induct)
  case base
  show ?case by (rule good_step_refl[OF assms(2)])
next
  case (step a b)
  then have "gw_inv a" by (simp add: good_step_def)
  from assms(3)[OF step(2) this] show ?case by (rule good_step_trans[OF step(3)])
qed


text \<open>
  C1: The provider is never underpaid, and on a payment stream never overpaid (the accounting of
  \<open>provider/gateway\<close>). Start from any state whose requests in flight match their sessions, for instance
  a fresh gateway, and let sessions start, usage be metered, streams come and go and vouchers be
  submitted in any order, with any answers of the node. As long as the cost of a session fits 256
  bits, the value of the voucher it holds has grown at least by the cost marked as paid in the
  meantime; if vouchers came over payment streams only, exactly by that cost. So the voucher plus
  the unpaid remainder always covers everything metered.
\<close>

theorem vouchers_cover_usage:
  assumes "lib_ok l" "gw_inv st0" "(voucher_step l g)\<^sup>*\<^sup>* st0 st"
    and "sessions (gs_repo st0) i = Some s0"
  shows "\<exists>s. sessions (gs_repo st) i = Some s \<and> total_cost s0 \<le> total_cost s \<and>
    (total_cost s < 2 ^ 256 \<longrightarrow>
       current_value s - current_value s0 \<ge> baseline_cost s - baseline_cost s0 \<and>
       current_value s + delta_cost s - current_value s0 \<ge> total_cost s - baseline_cost s0 \<and>
       ((payment_step l g)\<^sup>*\<^sup>* st0 st \<longrightarrow>
          current_value s - current_value s0 = baseline_cost s - baseline_cost s0))"
proof -
  have g: "good_step False st0 st"
    by (rule run_good[OF assms(3,2) voucher_step_good[OF assms(1)]])
  obtain s where s: "sessions (gs_repo st) i = Some s" "total_cost s0 \<le> total_cost s"
      "total_cost s < 2 ^ 256 \<longrightarrow> advance s0 \<le> advance s"
    by (rule ledger_moveE[OF good_stepD(2)[OF g, of i, unfolded assms(4)]]) auto
  have ok: "session_ok s" by (rule gw_invD(1)[OF good_stepD(1)[OF g] s(1)])
  have ex: "advance s = advance s0" if "(payment_step l g)\<^sup>*\<^sup>* st0 st" "total_cost s < 2 ^ 256"
  proof -
    have "good_step True st0 st" by (rule run_good[OF that(1) assms(2) payment_step_good[OF assms(1)]])
    from good_stepD(2)[OF this, of i] have "ledger_move True (Some s0) (Some s)" unfolding assms(4) s(1) .
    then show ?thesis using that(2) by (simp add: ledger_move_def)
  qed
  show ?thesis
    using s ex delta_cost_ok[OF ok] by (auto simp: advance_def delta_cost_def)
qed


lemma control_repo [simp]: "gs_repo (control_after_assessment l g i a s now st) = gs_repo st"
  using control_cases[of l g i a s now st] by auto

lemma evaluate_sessions:
  assumes "sessions (gs_repo st) j = Some s"
  shows "\<exists>s'. sessions (gs_repo (snd (evaluateMeteredUsage l g n i now st))) j = Some s' \<and> same_ledger s s'"
proof (cases "\<exists>s. sessions (gs_repo st) i = Some s \<and> IsActive s")
  case False
  show ?thesis unfolding evaluate_inactive[OF False] using assms by simp
next
  case True
  then obtain s0 where s0: "sessions (gs_repo st) i = Some s0" "IsActive s0" by blast
  have "same_ledger s0 (stored_assessment a now s0)" for a
    unfolding stored_assessment_def Let_def by (rule runtime_next_same)
  then show ?thesis unfolding evaluate_active[OF s0] using assms s0(1) by (auto simp: Let_def)
qed

lemma accepted_session:
  assumes "handleRAVSubmission l g n i s sub clk st = Some (continuePaymentSessionResponse, st')"
  obtains sb p sr cache s0 s' where "sub = Some sb" "pending_of i st = Some p"
    "check_submission l g n s sb p clk (gs_authCache st) = Some (Inr sr, cache)"
    "sessions (gs_repo st) i = Some s0" "sessions (gs_repo st') i = Some s'"
    "same_ledger (baseline_next (Some sr) (pq_baselineBlocks p) (pq_baselineBytes p) (pq_baselineReqs p)
       (Some (pq_baselineCost p)) (clk 2) s0) s'"
proof -
  have ne: "continuePaymentSessionResponse \<noteq> stopPaymentSessionResponse reason" for reason
    by (simp add: continuePaymentSessionResponse_def stopPaymentSessionResponse_def)
  obtain sb p sr cache r where a: "sub = Some sb" "pending_of i st = Some p"
      "check_submission l g n s sb p clk (gs_authCache st) = Some (Inr sr, cache)"
      "commitAcceptedRAV l i sr (Some p) (clk 2) (gs_repo st) = (Inr (), r)"
      "st' = snd (evaluateMeteredUsage l g n i (clk 3)
         (settle_pending i (set_repo r ((ensureSessionStateLocked i st)\<lparr>gs_authCache := cache\<rparr>))))"
    using handleRAVSubmission_cases[OF assms] ne by blast
  obtain s0 where s0: "sessions (gs_repo st) i = Some s0"
      "sessions r = (sessions (gs_repo st))(i \<mapsto> baseline_next (Some sr) (pq_baselineBlocks p)
         (pq_baselineBytes p) (pq_baselineReqs p) (Some (pq_baselineCost p)) (clk 2) s0)"
    using SessionUpdateRAVAndBaseline_cases[OF a(4)[unfolded commitAcceptedRAV_def option.case]] by auto
  have "sessions (gs_repo (settle_pending i (set_repo r ((ensureSessionStateLocked i st)\<lparr>gs_authCache := cache\<rparr>)))) i =
      Some (baseline_next (Some sr) (pq_baselineBlocks p) (pq_baselineBytes p) (pq_baselineReqs p)
        (Some (pq_baselineCost p)) (clk 2) s0)"
    using s0(2) by simp
  from evaluate_sessions[OF this, of l g n i "clk 3"] that[OF a(1-3) s0(1)] a(5) show thesis by blast
qed

text \<open>
  A session that holds a voucher over 1000 and owes 60, with the request for 1060 in flight, and
  the consumer's answer.
\<close>

definition payer_voucher :: "int \<Rightarrow> SignedRAV" where
  "payer_voucher v = \<lparr>Message = Some (sample_RAV\<lparr>ValueAggregate := Some v\<rparr>), Signature = std_signature (replicate 20 2)\<rparr>"

definition sample_gateway :: Gateway where
  "sample_gateway =
     \<lparr>gw_serviceProvider = replicate 20 3, gw_domain = NewDomain 1 (replicate 20 6), gw_collectorAddr = [],
      gw_escrowQuerier = None, gw_collectorQuerier = Querier [], gw_pricingConfig = None,
      gw_ravRequestThreshold = Some 50, gw_dataPlaneEndpoint = ''e'',
      gw_operatorAuthConfig = \<lparr>ReadBearerToken = [], AdminBearerToken = []\<rparr>\<rparr>"

definition sample_node :: node where
  "sample_node = \<lparr>nd_call = sample_call, nd_loadFn = Inr (\<lambda>p c r. Inr [])\<rparr>"

definition owing_session :: Session where
  "owing_session = sample_session\<lparr>ses_CurrentRAV := Some (payer_voucher 1000), ses_TotalCost := Some 60\<rparr>"

definition owed_usage :: pb_Usage where
  "owed_usage = request_usage FromBig_std owing_session"

definition sample_pending :: pendingRAVRequest where
  "sample_pending =
     \<lparr>pq_usage = Some owed_usage, pq_currentRAVValue = 1000, pq_targetValue = 1060, pq_baselineBlocks = 0,
      pq_baselineBytes = 0, pq_baselineReqs = 0, pq_baselineCost = 60\<rparr>"

definition owing_state :: GatewayState where
  "owing_state =
     \<lparr>gs_repo = put_session ''s'' owing_session NewInMemoryRepository,
      gs_runtime = [''s'' \<mapsto> \<lparr>rs_events = Some 0, rs_pendingRAV = Some sample_pending, rs_queuedResponse = None\<rparr>],
      gs_channels = (\<lambda>_. []), gs_nextChannel = 1, gs_authCache = Map.empty\<rparr>"

definition voucher_message :: "int \<Rightarrow> pb_SignedRAV" where
  "voucher_message v = the (HorizonSignedRAVToProto FromBig_std (Some (payer_voucher v)))"

lemma voucher_message_wire:
  assumes "0 \<le> v" "v < 2 ^ 256"
  shows "ProtoSignedRAVToHorizon FromBig_std NewSig_std (Some (voucher_message v)) = Inr (Some (payer_voucher v))"
proof -
  have "wf_RAV (sample_RAV\<lparr>ValueAggregate := Some v\<rparr>)" using assms by (simp add: wf_RAV_def sample_RAV_def)
  then show ?thesis
    using ProtoSignedRAV_roundtrip[OF FromBig_std_ok NewSig_std_ok, of "sample_RAV\<lparr>ValueAggregate := Some v\<rparr>"
        "std_signature (replicate 20 2)"]
    by (simp add: voucher_message_def payer_voucher_def HorizonSignedRAVToProto_def)
qed

lemma voucher_recover:
  assumes "0 \<le> v" "v < 2 ^ 256"
  shows "RAV_RecoverSigner (lib_keccak lib_std) (lib_recover lib_std) d (payer_voucher v) = Some (Inr (replicate 20 2))"
proof -
  have "wf_RAV (sample_RAV\<lparr>ValueAggregate := Some v\<rparr>)" using assms by (simp add: wf_RAV_def sample_RAV_def)
  then show ?thesis
    by (simp add: RAV_RecoverSigner_def payer_voucher_def RAV_hash_input std_signature_def)
qed

lemma usageEqual_refl: "usageEqual fb a a"
  by (simp add: usageEqual_def split: option.splits)

lemma owing_state_inv: "gw_inv owing_state"
proof -
  have "pend_ok owing_session sample_pending"
    by (simp add: pend_ok_def owing_session_def sample_session_def NewSession_def sample_pending_def
        baseline_cost_def total_cost_def current_value_def payer_voucher_def)
  moreover have "session_ok owing_session"
    by (simp add: session_ok_def owing_session_def sample_session_def NewSession_def baseline_cost_def total_cost_def)
  ultimately show ?thesis
    by (simp add: gw_inv_def ledger_ok_def owing_state_def pending_of_def NewInMemoryRepository_def)
qed

lemma sample_check:
  "check_submission lib_std sample_gateway sample_node owing_session
     \<lparr>sb_SignedRav = Some (voucher_message 1060), sb_Usage = Some owed_usage\<rparr> sample_pending clk cache =
   Some (Inr (payer_voucher 1060), cache)"
  using voucher_message_wire[of 1060] voucher_recover[of 1060, unfolded lib_std_sel]
  by (simp add: check_submission_def matchesUsage_def sample_pending_def usageEqual_refl
      check_submission_parties_def check_submission_value_def AddressesEqual_def payer_voucher_def sample_RAV_def
      owing_session_def sample_session_def NewSession_def sample_gateway_def gw_isSignerAuthorized_def Let_def)

lemma sample_accepted:
  "\<exists>st'. handleRAVSubmission lib_std sample_gateway sample_node ''s'' owing_session
     (Some \<lparr>sb_SignedRav = Some (voucher_message 1060), sb_Usage = Some owed_usage\<rparr>) (\<lambda>_. 9) owing_state =
     Some (continuePaymentSessionResponse, st')"
proof -
  have "rs_pendingRAV (session_state ''s'' (ensureSessionStateLocked ''s'' owing_state)) = Some sample_pending"
    by (simp add: session_state_pending pending_of_def owing_state_def)
  moreover have "\<exists>r. commitAcceptedRAV lib_std ''s'' (payer_voucher 1060) (Some sample_pending) 9 (gs_repo owing_state) =
      (Inr (), r)"
    by (simp add: commitAcceptedRAV_def SessionUpdateRAVAndBaseline_def collection_next_for_def
        collectionNextCollectibleLocked_def newCollectionRecordFromRAV_def payer_voucher_def owing_state_def
        NewInMemoryRepository_def Let_def)
  ultimately show ?thesis
    unfolding handleRAVSubmission_def Let_def option.case by (auto simp: sample_check)
qed

theorem vouchers_cover_usage_witness:
  "\<exists>st s. (voucher_step lib_std sample_gateway)\<^sup>*\<^sup>* owing_state st \<and> sessions (gs_repo st) ''s'' = Some s \<and>
     current_value s - 1000 = baseline_cost s \<and> baseline_cost s = 60"
proof -
  obtain st' where h: "handleRAVSubmission lib_std sample_gateway sample_node ''s'' owing_session
     (Some \<lparr>sb_SignedRav = Some (voucher_message 1060), sb_Usage = Some owed_usage\<rparr>) (\<lambda>_. 9) owing_state =
     Some (continuePaymentSessionResponse, st')"
    using sample_accepted by blast
  let ?str = "\<lparr>psm_sessionID = ''s'', psm_events = Some 0, psm_closed = False\<rparr>"
  let ?msg = "Message_RavSubmission (Some \<lparr>sb_SignedRav = Some (voucher_message 1060), sb_Usage = Some owed_usage\<rparr>)"
  have "stream_request lib_std sample_gateway sample_node True
      (Some \<lparr>psq_SessionId = [], psq_Message = Some ?msg\<rparr>) (\<lambda>_. 9) ?str owing_state =
      Some (Some continuePaymentSessionResponse, ?str, st')"
    using h by (simp add: stream_request_def stream_message_def SessionGet_def owing_state_def IsActive_def
        stream_send_def isTerminalPaymentSessionResponse_def continuePaymentSessionResponse_def
        owing_session_def sample_session_def NewSession_def)
  then have run1: "(payment_step lib_std sample_gateway)\<^sup>*\<^sup>* owing_state st'"
    by (intro r_into_rtranclp pay_request)
  then have run: "(voucher_step lib_std sample_gateway)\<^sup>*\<^sup>* owing_state st'"
    by (rule rtranclp_mono[THEN predicate2D, rotated]) (blast intro: by_stream)
  have s0: "sessions (gs_repo owing_state) ''s'' = Some owing_session" by (simp add: owing_state_def)
  have v0: "current_value owing_session = 1000" "baseline_cost owing_session = 0" "total_cost owing_session = 60"
    by (simp_all add: owing_session_def sample_session_def NewSession_def current_value_def payer_voucher_def
        baseline_cost_def total_cost_def)
  obtain p sr s1 s where s: "pending_of ''s'' owing_state = Some p" "sessions (gs_repo owing_state) ''s'' = Some s1"
      "sessions (gs_repo st') ''s'' = Some s"
      "same_ledger (baseline_next (Some sr) (pq_baselineBlocks p) (pq_baselineBytes p) (pq_baselineReqs p)
         (Some (pq_baselineCost p)) 9 s1) s"
    by (rule accepted_session[OF h]) blast
  have p: "p = sample_pending" "s1 = owing_session" using s(1,2) s0 by (simp_all add: pending_of_def owing_state_def)
  have b: "baseline_cost s = 60" "total_cost s = 60"
    using same_ledgerD(1,2)[OF s(4)] v0(3)
    by (simp_all add: p sample_pending_def baseline_next_def baseline_cost_def total_cost_def)
  from vouchers_cover_usage[OF lib_std_ok owing_state_inv run s0] run1 s(3) b v0
  have "current_value s - 1000 = baseline_cost s" by auto
  then show ?thesis using run s(3) b by blast
qed


end
