(* ===== verification/Sds_Operator.thy ===== *)
theory Sds_Operator
  imports Sds_Payment
begin

text \<open>
  The provider operator API (\<open>provider/gateway/handler_operator.go\<close>, the constructor of
  \<open>operator_gateway.go\<close> and the snapshot behind the metrics of \<open>operator_metrics.go\<close>). Operators
  list sessions, accepted vouchers and collection records, and move collection records through
  their settlement; every call is authorised by the bearer token of the request first. The
  repository lists its entries in the unspecified order of a Go map: the orders are arguments.
  The lemmas show the exact effect of every mutation on the record it names, that lists are
  complete up to their limit, and that the API shows a session's last funds assessment as the
  gateway stored it.
\<close>

subsection \<open>Messages\<close>

text \<open>Enumerations of the wire format are open: a number without a name is a value too.\<close>

datatype pb_CollectionState =
    COLLECTION_STATE_UNSPECIFIED
  | COLLECTION_STATE_COLLECTIBLE
  | COLLECTION_STATE_COLLECT_PENDING
  | COLLECTION_STATE_COLLECTED
  | COLLECTION_STATE_COLLECT_FAILED_RETRYABLE
  | COLLECTION_STATE_unnamed int

datatype OperatorSessionStatus =
    OPERATOR_SESSION_STATUS_UNSPECIFIED
  | OPERATOR_SESSION_STATUS_ACTIVE
  | OPERATOR_SESSION_STATUS_PAUSED
  | OPERATOR_SESSION_STATUS_TERMINATED
  | OPERATOR_SESSION_STATUS_unnamed int

datatype OperatorFundsStatus =
    OPERATOR_FUNDS_STATUS_UNSPECIFIED
  | OPERATOR_FUNDS_STATUS_OK
  | OPERATOR_FUNDS_STATUS_INSUFFICIENT
  | OPERATOR_FUNDS_STATUS_UNKNOWN
  | OPERATOR_FUNDS_STATUS_unnamed int

record pb_CollectionKey =
  pk_SessionId :: string
  pk_CollectionId :: bytes
  pk_Payer :: "pb_Address option"
  pk_ServiceProvider :: "pb_Address option"
  pk_DataService :: "pb_Address option"

record OperatorPaymentState =
  ops_PaymentStatus :: pb_PaymentStatus
  ops_FundsStatus :: OperatorFundsStatus
  ops_CurrentOutstanding :: pb_GRT
  ops_ProjectedOutstanding :: pb_GRT
  ops_MinimumNeeded :: pb_GRT
  ops_FundsCheckError :: string
  ops_OperatorHint :: string

record AcceptedRAV =
  ac_SessionId :: string
  ac_CollectionId :: bytes
  ac_Payer :: pb_Address
  ac_ServiceProvider :: pb_Address
  ac_DataService :: pb_Address
  ac_TimestampNs :: u64
  ac_ValueAggregate :: pb_GRT
  ac_SignedRav :: "pb_SignedRAV option"
  ac_CollectionState :: pb_CollectionState

record OperatorSession =
  os_SessionId :: string
  os_Status :: OperatorSessionStatus
  os_Payer :: pb_Address
  os_Receiver :: pb_Address
  os_DataService :: pb_Address
  os_CreatedAtNs :: u64
  os_UpdatedAtNs :: u64
  os_EndedAtNs :: u64
  os_EndReason :: EndReason
  os_AccumulatedUsage :: pb_Usage
  os_BaselineUsage :: pb_Usage
  os_PaymentControlPending :: bool
  os_AcceptedRav :: "AcceptedRAV option"
  os_PaymentState :: OperatorPaymentState

record pb_CollectionRecord =
  pc_Key :: "pb_CollectionKey option"
  pc_State :: pb_CollectionState
  pc_SignedRav :: "pb_SignedRAV option"
  pc_ValueAggregate :: "pb_GRT option"
  pc_AttemptCount :: u64
  pc_LastTxHash :: string
  pc_LastError :: string
  pc_CollectedAmount :: "pb_GRT option"
  pc_CreatedAtNs :: u64
  pc_UpdatedAtNs :: u64

record ListSessionsRequest =
  lsq_Limit :: "32 word"
  lsq_Status :: OperatorSessionStatus
  lsq_Payer :: "pb_Address option"
  lsq_Receiver :: "pb_Address option"
  lsq_DataService :: "pb_Address option"
  lsq_IncludeRav :: bool
  lsq_FundsStatus :: OperatorFundsStatus

record ListAcceptedRAVsRequest =
  lrq_Limit :: "32 word"
  lrq_SessionId :: string
  lrq_CollectionId :: bytes
  lrq_Payer :: "pb_Address option"
  lrq_ServiceProvider :: "pb_Address option"
  lrq_DataService :: "pb_Address option"

record ListCollectionsRequest =
  lcq_Limit :: "32 word"
  lcq_SessionId :: string
  lcq_State :: pb_CollectionState
  lcq_Payer :: "pb_Address option"
  lcq_ServiceProvider :: "pb_Address option"
  lcq_DataService :: "pb_Address option"
  lcq_CollectionId :: bytes

record MarkCollectionPendingRequest =
  mpq_Key :: "pb_CollectionKey option"
  mpq_ExpectedValue :: "pb_GRT option"
  mpq_TxHash :: string

record MarkCollectionCollectedRequest =
  mcq_Key :: "pb_CollectionKey option"
  mcq_ExpectedValue :: "pb_GRT option"
  mcq_TxHash :: string
  mcq_CollectedAmount :: "pb_GRT option"

record MarkCollectionRetryableRequest =
  mrq_Key :: "pb_CollectionKey option"
  mrq_ExpectedValue :: "pb_GRT option"
  mrq_TxHash :: string
  mrq_LastError :: string

subsection \<open>Conversions\<close>

definition timeToUnixNano :: "time \<Rightarrow> u64" where
  "timeToUnixNano t =
     (if t = 0 then 0
      else let nano = UnixNano t in if nano < 0 then 0 else word_of_int nano)"

definition repositorySessionStatusToProto :: "SessionStatus \<Rightarrow> OperatorSessionStatus" where
  "repositorySessionStatusToProto status =
     (case status of
        SessionStatusActive \<Rightarrow> OPERATOR_SESSION_STATUS_ACTIVE
      | SessionStatusPaused \<Rightarrow> OPERATOR_SESSION_STATUS_PAUSED
      | SessionStatusTerminated \<Rightarrow> OPERATOR_SESSION_STATUS_TERMINATED)"

definition operatorSessionStatusToRepository :: "OperatorSessionStatus \<Rightarrow> SessionStatus option rpc" where
  "operatorSessionStatusToRepository status =
     (case status of
        OPERATOR_SESSION_STATUS_UNSPECIFIED \<Rightarrow> Inr None
      | OPERATOR_SESSION_STATUS_ACTIVE \<Rightarrow> Inr (Some SessionStatusActive)
      | OPERATOR_SESSION_STATUS_PAUSED \<Rightarrow> Inr (Some SessionStatusPaused)
      | OPERATOR_SESSION_STATUS_TERMINATED \<Rightarrow> Inr (Some SessionStatusTerminated)
      | OPERATOR_SESSION_STATUS_unnamed n \<Rightarrow>
          Inl (CodeInvalidArgument, Errorf ''invalid <status> %d'' [bigint_string (Some n)] None))"

definition repositoryCollectionStateToProto :: "CollectionState \<Rightarrow> pb_CollectionState" where
  "repositoryCollectionStateToProto state =
     (case state of
        CollectionStateCollectible \<Rightarrow> COLLECTION_STATE_COLLECTIBLE
      | CollectionStateCollectPending \<Rightarrow> COLLECTION_STATE_COLLECT_PENDING
      | CollectionStateCollected \<Rightarrow> COLLECTION_STATE_COLLECTED
      | CollectionStateCollectFailedRetryable \<Rightarrow> COLLECTION_STATE_COLLECT_FAILED_RETRYABLE)"

definition protoCollectionStateToRepository :: "pb_CollectionState \<Rightarrow> CollectionState option rpc" where
  "protoCollectionStateToRepository state =
     (case state of
        COLLECTION_STATE_UNSPECIFIED \<Rightarrow> Inr None
      | COLLECTION_STATE_COLLECTIBLE \<Rightarrow> Inr (Some CollectionStateCollectible)
      | COLLECTION_STATE_COLLECT_PENDING \<Rightarrow> Inr (Some CollectionStateCollectPending)
      | COLLECTION_STATE_COLLECTED \<Rightarrow> Inr (Some CollectionStateCollected)
      | COLLECTION_STATE_COLLECT_FAILED_RETRYABLE \<Rightarrow> Inr (Some CollectionStateCollectFailedRetryable)
      | COLLECTION_STATE_unnamed n \<Rightarrow>
          Inl (CodeInvalidArgument, Errorf ''invalid <state> %d'' [bigint_string (Some n)] None))"

definition repositoryFundsStatusToProto :: "string \<Rightarrow> OperatorFundsStatus" where
  "repositoryFundsStatusToProto status =
     (if status = fundsStatusOK then OPERATOR_FUNDS_STATUS_OK
      else if status = fundsStatusInsufficient then OPERATOR_FUNDS_STATUS_INSUFFICIENT
      else if status = fundsStatusUnknown then OPERATOR_FUNDS_STATUS_UNKNOWN
      else OPERATOR_FUNDS_STATUS_UNSPECIFIED)"

definition protoFundsStatusToMetadata :: "OperatorFundsStatus \<Rightarrow> string option rpc" where
  "protoFundsStatusToMetadata status =
     (case status of
        OPERATOR_FUNDS_STATUS_UNSPECIFIED \<Rightarrow> Inr None
      | OPERATOR_FUNDS_STATUS_OK \<Rightarrow> Inr (Some fundsStatusOK)
      | OPERATOR_FUNDS_STATUS_INSUFFICIENT \<Rightarrow> Inr (Some fundsStatusInsufficient)
      | OPERATOR_FUNDS_STATUS_UNKNOWN \<Rightarrow> Inr (Some fundsStatusUnknown)
      | OPERATOR_FUNDS_STATUS_unnamed n \<Rightarrow>
          Inl (CodeInvalidArgument, Errorf ''unsupported funds_status %d'' [bigint_string (Some n)] None))"

definition requiredAddress :: "pb_Address option \<Rightarrow> string \<Rightarrow> address rpc" where
  "requiredAddress addr name =
     (case ToEth addr of
        Inl err \<Rightarrow> Inl (CodeInvalidArgument, Errorf ''invalid <%s>: %w'' [name] (Some err))
      | Inr out \<Rightarrow> Inr out)"

definition optionalAddress :: "pb_Address option \<Rightarrow> string \<Rightarrow> address option rpc" where
  "optionalAddress addr name =
     (if addr = None then Inr None
      else (case requiredAddress addr name of Inl e \<Rightarrow> Inl e | Inr out \<Rightarrow> Inr (Some out)))"

definition optionalCollectionID :: "bytes \<Rightarrow> string \<Rightarrow> bytes option rpc" where
  "optionalCollectionID raw name =
     (if length raw = 0 then Inr None
      else if length raw \<noteq> 32
      then Inl (CodeInvalidArgument,
             Errorf ''invalid <%s>: got %d bytes, want 32'' [name, dec_string (length raw)] None)
      else Inr (Some raw))"

definition requiredCollectionID :: "bytes \<Rightarrow> string \<Rightarrow> bytes rpc" where
  "requiredCollectionID raw name =
     (case optionalCollectionID raw name of
        Inl e \<Rightarrow> Inl e
      | Inr None \<Rightarrow> Inl (CodeInvalidArgument, Errorf ''<%s> is required'' [name] None)
      | Inr (Some collectionID) \<Rightarrow> Inr collectionID)"

definition bind_rpc :: "'a rpc \<Rightarrow> ('a \<Rightarrow> 'b rpc) \<Rightarrow> 'b rpc" where
  "bind_rpc r f = (case r of Inl e \<Rightarrow> Inl e | Inr x \<Rightarrow> f x)"

definition required_arg :: "string \<Rightarrow> connect_code \<times> go_error" where
  "required_arg name = (CodeInvalidArgument, Errorf (''<'' @ name @ ''> is required'') [] None)"

definition collectionKeyFromProto :: "pb_CollectionKey option \<Rightarrow> CollectionKey rpc" where
  "collectionKeyFromProto key =
     (case key of
        None \<Rightarrow> Inl (required_arg ''key'')
      | Some key \<Rightarrow>
          if pk_SessionId key = [] then Inl (required_arg ''key.session_id'')
          else
            bind_rpc (requiredCollectionID (pk_CollectionId key) ''key.collection_id'') (\<lambda>collectionID.
            bind_rpc (requiredAddress (pk_Payer key) ''key.payer'') (\<lambda>payer.
            bind_rpc (requiredAddress (pk_ServiceProvider key) ''key.service_provider'') (\<lambda>serviceProvider.
            bind_rpc (requiredAddress (pk_DataService key) ''key.data_service'') (\<lambda>dataService.
              Inr \<lparr>ck_SessionID = pk_SessionId key, ck_CollectionID = collectionID, ck_Payer = payer,
                   ck_ServiceProvider = serviceProvider, ck_DataService = dataService\<rparr>)))))"

definition collectionKeyToProto :: "CollectionKey \<Rightarrow> pb_CollectionKey" where
  "collectionKeyToProto key =
     \<lparr>pk_SessionId = ck_SessionID key, pk_CollectionId = ck_CollectionID key,
      pk_Payer = Some (AddressFromEth (ck_Payer key)),
      pk_ServiceProvider = Some (AddressFromEth (ck_ServiceProvider key)),
      pk_DataService = Some (AddressFromEth (ck_DataService key))\<rparr>"

definition collectionKeyFromRAV :: "string \<Rightarrow> RAV \<Rightarrow> CollectionKey" where
  "collectionKeyFromRAV sessionID m =
     \<lparr>ck_SessionID = sessionID, ck_CollectionID = CollectionID m, ck_Payer = Payer m,
      ck_ServiceProvider = ServiceProvider m, ck_DataService = DataService m\<rparr>"

definition mutationKeyAndExpectedValue ::
  "from_big \<Rightarrow> pb_CollectionKey option \<Rightarrow> pb_GRT option \<Rightarrow> (CollectionKey \<times> int) rpc" where
  "mutationKeyAndExpectedValue fromBig key expectedValue =
     bind_rpc (collectionKeyFromProto key) (\<lambda>repositoryKey.
       if expectedValue = None then Inl (required_arg ''expected_value'')
       else Inr (repositoryKey, GRT_ToBigInt fromBig expectedValue))"

definition collectionRecordToProto :: "from_big \<Rightarrow> CollectionRecord \<Rightarrow> pb_CollectionRecord" where
  "collectionRecordToProto fromBig record' =
     \<lparr>pc_Key = Some (collectionKeyToProto (cr_Key record')),
      pc_State = repositoryCollectionStateToProto (cr_State record'),
      pc_SignedRav = HorizonSignedRAVToProto fromBig (cr_SignedRAV record'),
      pc_ValueAggregate = Some (GRTFromBigInt fromBig (cr_ValueAggregate record')),
      pc_AttemptCount = word_of_int (cr_AttemptCount record'),
      pc_LastTxHash = cr_LastTxHash record', pc_LastError = cr_LastError record',
      pc_CollectedAmount =
        (if cr_CollectedAmount record' \<noteq> None
         then Some (GRTFromBigInt fromBig (cr_CollectedAmount record')) else None),
      pc_CreatedAtNs = timeToUnixNano (cr_CreatedAt record'),
      pc_UpdatedAtNs = timeToUnixNano (cr_UpdatedAt record')\<rparr>"

definition repoError :: "go_error \<Rightarrow> connect_code \<times> go_error" where
  "repoError err = (if errors_Is err ErrNotFound then CodeNotFound else CodeInternal, err)"

definition collectionMutationError :: "go_error \<Rightarrow> connect_code \<times> go_error" where
  "collectionMutationError err =
     (if errors_Is err ErrCollectionConflict then CodeAborted
      else if errors_Is err ErrInvalidCollectionTransition then CodeFailedPrecondition
      else if errors_Is err ErrNotFound then CodeNotFound
      else CodeInternal, err)"

definition operatorLimit :: "32 word \<Rightarrow> nat" where
  "operatorLimit limit = (if limit = 0 then 100 else if limit > 1000 then 1000 else unat limit)"

subsection \<open>What the operator sees of a session\<close>

definition metadata_value :: "Session \<Rightarrow> string \<Rightarrow> string" where
  "metadata_value session key = (case ses_Metadata session key of None \<Rightarrow> [] | Some v \<Rightarrow> v)"

definition cloneOrZero :: "int option \<Rightarrow> int" where
  "cloneOrZero value = (case value of None \<Rightarrow> 0 | Some v \<Rightarrow> v)"

definition sessionCurrentRAVValue :: "Session \<Rightarrow> int" where
  "sessionCurrentRAVValue session =
     (case Option.bind (Option.bind (ses_CurrentRAV session) Message) ValueAggregate of
        Some v \<Rightarrow> v | None \<Rightarrow> 0)"

definition sessionProjectedOutstanding :: "Session \<Rightarrow> int" where
  "sessionProjectedOutstanding session =
     (let currentOutstanding = sessionCurrentRAVValue session;
          deltaCost = snd (snd (snd (UsageDeltaSinceBaseline session)))
      in currentOutstanding + deltaCost)"

definition sessionFundsStatus :: "Session \<Rightarrow> string" where
  "sessionFundsStatus session =
     (let status = metadata_value session ''funds_status'' in
      if status \<noteq> [] then status
      else if ses_EndReason session = END_REASON_PAYMENT_ISSUE then fundsStatusInsufficient
      else fundsStatusUnknown)"

definition sessionMetadataBigIntOK :: "Session \<Rightarrow> string \<Rightarrow> int option" where
  "sessionMetadataBigIntOK session key =
     (let raw = metadata_value session key in
      if raw = [] then None
      else (case SetString10 raw of
              None \<Rightarrow> None
            | Some value \<Rightarrow> if value < 0 then None else Some value))"

definition sessionMetadataBigInt :: "Session \<Rightarrow> string \<Rightarrow> int option \<Rightarrow> int" where
  "sessionMetadataBigInt session key fallback =
     (case sessionMetadataBigIntOK session key of
        Some value \<Rightarrow> value
      | None \<Rightarrow> cloneOrZero fallback)"

text \<open>\<open>big.Int.Uint64\<close> keeps the low 64 bits of the quotient.\<close>

definition estimatedBlocksRemaining :: "Session \<Rightarrow> int \<Rightarrow> int option \<Rightarrow> u64" where
  "estimatedBlocksRemaining session projectedOutstanding escrowBalance =
     (case escrowBalance of
        None \<Rightarrow> 0
      | Some escrowBalance \<Rightarrow>
          let pricePerBlock = BigInt (PricePerBlock (ses_PricingConfig session)) in
          if pricePerBlock \<le> 0 then 0
          else let remaining = escrowBalance - projectedOutstanding in
               if remaining \<le> 0 then 0 else word_of_int (remaining div pricePerBlock))"

definition operatorPaymentHint :: "Session \<Rightarrow> OperatorFundsStatus \<Rightarrow> bool \<Rightarrow> string" where
  "operatorPaymentHint session fundsStatus paymentControlPending' =
     (if paymentControlPending'
      then ''provider payment control is pending; wait for the runtime RAV or funding decision before taking operator action''
      else (case fundsStatus of
         OPERATOR_FUNDS_STATUS_INSUFFICIENT \<Rightarrow>
           if ses_EndReason session = END_REASON_PAYMENT_ISSUE
           then ''session ended due to insufficient funds; top up escrow before starting a replacement session''
           else ''escrow funding is below projected outstanding usage; top up escrow before continuing heavy usage''
       | OPERATOR_FUNDS_STATUS_UNKNOWN \<Rightarrow>
           if metadata_value session ''funds_check_error'' \<noteq> []
           then ''escrow funding could not be checked; inspect RPC and escrow connectivity''
           else ''escrow funding has not been assessed yet for this session''
       | OPERATOR_FUNDS_STATUS_OK \<Rightarrow> ''escrow funding was sufficient at the last provider assessment''
       | _ \<Rightarrow> []))"

definition operatorPaymentState :: "from_big \<Rightarrow> Session \<Rightarrow> bool \<Rightarrow> OperatorPaymentState" where
  "operatorPaymentState fromBig session paymentControlPending' =
     (let currentRAVValue = sessionCurrentRAVValue session;
          accumulatedUsageValue = cloneOrZero (ses_TotalCost session);
          currentOutstanding =
            sessionMetadataBigInt session ''funds_current_outstanding_wei'' (Some currentRAVValue);
          projectedOutstanding =
            sessionMetadataBigInt session ''funds_projected_outstanding_wei''
              (Some (sessionProjectedOutstanding session));
          escrowBalance = sessionMetadataBigIntOK session ''funds_escrow_balance_wei'';
          minimumNeeded = sessionMetadataBigInt session ''funds_minimum_needed_wei'' (Some 0);
          fundsStatus = repositoryFundsStatusToProto (sessionFundsStatus session);
          paymentStatus =
            \<lparr>ps_CurrentRavValue = Some (GRTFromBigInt fromBig (Some currentRAVValue)),
             ps_AccumulatedUsageValue = Some (GRTFromBigInt fromBig (Some accumulatedUsageValue)),
             ps_EscrowBalance =
               (case escrowBalance of None \<Rightarrow> None | Some b \<Rightarrow> Some (GRTFromBigInt fromBig (Some b))),
             ps_FundsSufficient = (fundsStatus = OPERATOR_FUNDS_STATUS_OK),
             ps_EstimatedBlocksRemaining =
               estimatedBlocksRemaining session projectedOutstanding escrowBalance\<rparr>
      in \<lparr>ops_PaymentStatus = paymentStatus, ops_FundsStatus = fundsStatus,
          ops_CurrentOutstanding = GRTFromBigInt fromBig (Some currentOutstanding),
          ops_ProjectedOutstanding = GRTFromBigInt fromBig (Some projectedOutstanding),
          ops_MinimumNeeded = GRTFromBigInt fromBig (Some minimumNeeded),
          ops_FundsCheckError = metadata_value session ''funds_check_error'',
          ops_OperatorHint = operatorPaymentHint session fundsStatus paymentControlPending'\<rparr>)"

definition sessionBaselineUsage :: "from_big \<Rightarrow> Session \<Rightarrow> pb_Usage" where
  "sessionBaselineUsage fromBig session =
     \<lparr>pu_BlocksProcessed = ses_BaselineBlocks session, pu_BytesTransferred = ses_BaselineBytes session,
      pu_Requests = ses_BaselineReqs session,
      pu_Cost = Some (GRTFromBigInt fromBig (ses_BaselineCost session))\<rparr>"

definition acceptedRAVToProto :: "from_big \<Rightarrow> string \<Rightarrow> SignedRAV option \<Rightarrow> AcceptedRAV option" where
  "acceptedRAVToProto fromBig sessionID rav =
     (case Option.bind rav Message of
        None \<Rightarrow> None
      | Some m \<Rightarrow>
          Some \<lparr>ac_SessionId = sessionID, ac_CollectionId = CollectionID m,
                ac_Payer = AddressFromEth (Payer m), ac_ServiceProvider = AddressFromEth (ServiceProvider m),
                ac_DataService = AddressFromEth (DataService m), ac_TimestampNs = TimestampNs m,
                ac_ValueAggregate = GRTFromBigInt fromBig (ValueAggregate m),
                ac_SignedRav = HorizonSignedRAVToProto fromBig rav,
                ac_CollectionState = COLLECTION_STATE_UNSPECIFIED\<rparr>)"

text \<open>The method of the same name adds the state of the voucher's collection record.\<close>

definition operator_acceptedRAVToProto ::
  "eth_lib \<Rightarrow> string \<Rightarrow> SignedRAV option \<Rightarrow> InMemoryRepository \<Rightarrow> AcceptedRAV option rpc" where
  "operator_acceptedRAVToProto l sessionID rav r =
     (case acceptedRAVToProto (lib_fromBig l) sessionID rav of
        None \<Rightarrow> Inr None
      | Some out \<Rightarrow>
          (case CollectionGet (lib_pretty l)
                  (collectionKeyFromRAV sessionID (the (Option.bind rav Message))) r of
             Inr record' \<Rightarrow>
               Inr (Some (out\<lparr>ac_CollectionState := repositoryCollectionStateToProto (cr_State record')\<rparr>))
           | Inl err \<Rightarrow>
               if errors_Is err ErrNotFound then Inr (Some out) else Inl (CodeInternal, err)))"

definition sessionToProto ::
  "eth_lib \<Rightarrow> Gateway \<Rightarrow> string list \<Rightarrow> Session \<Rightarrow> bool \<Rightarrow> GatewayState \<Rightarrow> OperatorSession rpc" where
  "sessionToProto l g workerOrder session includeRAV st =
     (let pending = paymentControlPending g workerOrder (Some session) st;
          out =
            \<lparr>os_SessionId = ses_ID session, os_Status = repositorySessionStatusToProto (ses_Status session),
             os_Payer = AddressFromEth (ses_Payer session),
             os_Receiver = AddressFromEth (ses_Receiver session),
             os_DataService = AddressFromEth (ses_DataService session),
             os_CreatedAtNs = timeToUnixNano (ses_CreatedAt session),
             os_UpdatedAtNs = timeToUnixNano (ses_UpdatedAt session),
             os_EndedAtNs = (case ses_EndedAt session of None \<Rightarrow> 0 | Some t \<Rightarrow> timeToUnixNano t),
             os_EndReason = ses_EndReason session,
             os_AccumulatedUsage = Session_GetUsage (lib_fromBig l) session,
             os_BaselineUsage = sessionBaselineUsage (lib_fromBig l) session,
             os_PaymentControlPending = pending, os_AcceptedRav = None,
             os_PaymentState = operatorPaymentState (lib_fromBig l) session pending\<rparr>
      in if includeRAV \<and> ses_CurrentRAV session \<noteq> None
         then bind_rpc (operator_acceptedRAVToProto l (ses_ID session) (ses_CurrentRAV session) (gs_repo st))
                (\<lambda>accepted. Inr (out\<lparr>os_AcceptedRav := accepted\<rparr>))
         else Inr out)"

subsection \<open>Filters\<close>

definition sessionMatchesAddresses :: "Session \<Rightarrow> address option \<Rightarrow> address option \<Rightarrow> bool" where
  "sessionMatchesAddresses session receiver dataService =
     (if receiver \<noteq> None \<and> ses_Receiver session \<noteq> the receiver then False
      else if dataService \<noteq> None \<and> ses_DataService session \<noteq> the dataService then False
      else True)"

definition ravMatches :: "RAV \<Rightarrow> address option \<Rightarrow> address option \<Rightarrow> bytes option \<Rightarrow> bool" where
  "ravMatches m serviceProvider dataService collectionID =
     (if serviceProvider \<noteq> None \<and> ServiceProvider m \<noteq> the serviceProvider then False
      else if dataService \<noteq> None \<and> DataService m \<noteq> the dataService then False
      else if collectionID \<noteq> None \<and> CollectionID m \<noteq> the collectionID then False
      else True)"

definition collectionRecordMatches ::
  "CollectionRecord \<Rightarrow> address option \<Rightarrow> address option \<Rightarrow> bytes option \<Rightarrow> bool" where
  "collectionRecordMatches record' serviceProvider dataService collectionID =
     (if serviceProvider \<noteq> None \<and> ck_ServiceProvider (cr_Key record') \<noteq> the serviceProvider then False
      else if dataService \<noteq> None \<and> ck_DataService (cr_Key record') \<noteq> the dataService then False
      else if collectionID \<noteq> None \<and> ck_CollectionID (cr_Key record') \<noteq> the collectionID then False
      else True)"

definition acceptedRAVSessions ::
  "eth_lib \<Rightarrow> string list \<Rightarrow> string \<Rightarrow> address option \<Rightarrow> InMemoryRepository \<Rightarrow> Session list rpc" where
  "acceptedRAVSessions l order sessionID payer r =
     (if sessionID \<noteq> []
      then (case SessionGet sessionID r of
              Inl err \<Rightarrow> Inl (repoError err)
            | Inr session \<Rightarrow>
                if payer \<noteq> None \<and> ses_Payer session \<noteq> the payer then Inr []
                else Inr [session])
      else Inr (SessionList (lib_pretty l) order
                  \<lparr>sf_Payer = payer, sf_Status = None, sf_CreatedAfter = None\<rparr> r))"

subsection \<open>Handlers\<close>

definition authorizeRead :: "Gateway \<Rightarrow> string \<Rightarrow> Role rpc" where
  "authorizeRead g header = authorizeOperator g header RoleOperatorRead"

definition authorizeAdmin :: "Gateway \<Rightarrow> string \<Rightarrow> Role rpc" where
  "authorizeAdmin g header = authorizeOperator g header RoleAdminWrite"

text \<open>The loop the list handlers share: skip, convert, append, and stop at the limit.\<close>

fun list_entries ::
  "nat \<Rightarrow> ('a \<Rightarrow> bool) \<Rightarrow> ('a \<Rightarrow> 'b rpc) \<Rightarrow> 'a list \<Rightarrow> 'b list \<Rightarrow> 'b list rpc" where
  "list_entries limit keep convert [] out = Inr out"
| "list_entries limit keep convert (x # xs) out =
     (if \<not> keep x then list_entries limit keep convert xs out
      else (case convert x of
              Inl e \<Rightarrow> Inl e
            | Inr y \<Rightarrow>
                let out = out @ [y] in
                if limit \<le> length out then Inr out else list_entries limit keep convert xs out))"

definition ListSessions ::
  "eth_lib \<Rightarrow> Gateway \<Rightarrow> string list \<Rightarrow> string list \<Rightarrow> string \<Rightarrow> ListSessionsRequest \<Rightarrow> GatewayState \<Rightarrow>
   OperatorSession list rpc" where
  "ListSessions l g order workerOrder header req st =
     bind_rpc (authorizeRead g header) (\<lambda>_.
     bind_rpc (optionalAddress (lsq_Payer req) ''payer'') (\<lambda>payer.
     bind_rpc (optionalAddress (lsq_Receiver req) ''receiver'') (\<lambda>receiver.
     bind_rpc (optionalAddress (lsq_DataService req) ''data_service'') (\<lambda>dataService.
     bind_rpc (operatorSessionStatusToRepository (lsq_Status req)) (\<lambda>status.
     bind_rpc (protoFundsStatusToMetadata (lsq_FundsStatus req)) (\<lambda>fundsStatus.
       list_entries (operatorLimit (lsq_Limit req))
         (\<lambda>session. sessionMatchesAddresses session receiver dataService \<and>
            \<not> (fundsStatus \<noteq> None \<and> sessionFundsStatus session \<noteq> the fundsStatus))
         (\<lambda>session. sessionToProto l g workerOrder session (lsq_IncludeRav req) st)
         (SessionList (lib_pretty l) order
            \<lparr>sf_Payer = payer, sf_Status = status, sf_CreatedAfter = None\<rparr> (gs_repo st)) []))))))"

definition GetSession ::
  "eth_lib \<Rightarrow> Gateway \<Rightarrow> string list \<Rightarrow> string \<Rightarrow> string \<Rightarrow> bool \<Rightarrow> GatewayState \<Rightarrow> OperatorSession rpc" where
  "GetSession l g workerOrder header sessionID includeRav st =
     bind_rpc (authorizeRead g header) (\<lambda>_.
       if sessionID = [] then Inl (required_arg ''session_id'')
       else (case SessionGet sessionID (gs_repo st) of
               Inl err \<Rightarrow> Inl (repoError err)
             | Inr session \<Rightarrow> sessionToProto l g workerOrder session includeRav st))"

text \<open>A voucher that reaches the conversion has a message, so the method returns a value.\<close>

definition ListAcceptedRAVs ::
  "eth_lib \<Rightarrow> Gateway \<Rightarrow> string list \<Rightarrow> string \<Rightarrow> ListAcceptedRAVsRequest \<Rightarrow> GatewayState \<Rightarrow>
   AcceptedRAV option list rpc" where
  "ListAcceptedRAVs l g order header req st =
     bind_rpc (authorizeRead g header) (\<lambda>_.
     bind_rpc (optionalAddress (lrq_Payer req) ''payer'') (\<lambda>payer.
     bind_rpc (optionalAddress (lrq_ServiceProvider req) ''service_provider'') (\<lambda>serviceProvider.
     bind_rpc (optionalAddress (lrq_DataService req) ''data_service'') (\<lambda>dataService.
     bind_rpc (optionalCollectionID (lrq_CollectionId req) ''collection_id'') (\<lambda>collectionID.
     bind_rpc (acceptedRAVSessions l order (lrq_SessionId req) payer (gs_repo st)) (\<lambda>sessions'.
       list_entries (operatorLimit (lrq_Limit req))
         (\<lambda>session. case Option.bind (ses_CurrentRAV session) Message of
              None \<Rightarrow> False
            | Some m \<Rightarrow> ravMatches m serviceProvider dataService collectionID)
         (\<lambda>session. operator_acceptedRAVToProto l (ses_ID session) (ses_CurrentRAV session) (gs_repo st))
         sessions' []))))))"

definition GetAcceptedRAV ::
  "eth_lib \<Rightarrow> Gateway \<Rightarrow> string \<Rightarrow> string \<Rightarrow> GatewayState \<Rightarrow> AcceptedRAV option rpc" where
  "GetAcceptedRAV l g header sessionID st =
     bind_rpc (authorizeRead g header) (\<lambda>_.
       if sessionID = [] then Inl (required_arg ''session_id'')
       else (case SessionGet sessionID (gs_repo st) of
               Inl err \<Rightarrow> Inl (repoError err)
             | Inr session \<Rightarrow>
                 if Option.bind (ses_CurrentRAV session) Message = None
                 then Inl (CodeNotFound, Errorf ''session %q has no accepted RAV'' [sessionID] None)
                 else operator_acceptedRAVToProto l (ses_ID session) (ses_CurrentRAV session) (gs_repo st)))"

definition ListCollections ::
  "eth_lib \<Rightarrow> Gateway \<Rightarrow> string list \<Rightarrow> string \<Rightarrow> ListCollectionsRequest \<Rightarrow> GatewayState \<Rightarrow>
   pb_CollectionRecord list rpc" where
  "ListCollections l g order header req st =
     bind_rpc (authorizeRead g header) (\<lambda>_.
     bind_rpc (optionalAddress (lcq_Payer req) ''payer'') (\<lambda>payer.
     bind_rpc (optionalAddress (lcq_ServiceProvider req) ''service_provider'') (\<lambda>serviceProvider.
     bind_rpc (optionalAddress (lcq_DataService req) ''data_service'') (\<lambda>dataService.
     bind_rpc (optionalCollectionID (lcq_CollectionId req) ''collection_id'') (\<lambda>collectionID.
     bind_rpc (protoCollectionStateToRepository (lcq_State req)) (\<lambda>state.
       list_entries (operatorLimit (lcq_Limit req))
         (\<lambda>record'. collectionRecordMatches record' serviceProvider dataService collectionID)
         (\<lambda>record'. Inr (collectionRecordToProto (lib_fromBig l) record'))
         (CollectionList (lib_pretty l) order
            \<lparr>cf_SessionID = (if lcq_SessionId req \<noteq> [] then Some (lcq_SessionId req) else None),
             cf_State = state, cf_Payer = payer\<rparr> (gs_repo st)) []))))))"

definition GetCollection ::
  "eth_lib \<Rightarrow> Gateway \<Rightarrow> string \<Rightarrow> pb_CollectionKey option \<Rightarrow> GatewayState \<Rightarrow> pb_CollectionRecord rpc" where
  "GetCollection l g header key st =
     bind_rpc (authorizeRead g header) (\<lambda>_.
     bind_rpc (collectionKeyFromProto key) (\<lambda>key.
       (case CollectionGet (lib_pretty l) key (gs_repo st) of
          Inl err \<Rightarrow> Inl (repoError err)
        | Inr record' \<Rightarrow> Inr (collectionRecordToProto (lib_fromBig l) record'))))"

text \<open>The reply of a mutation of the repository, and the state it leaves.\<close>

definition mutation_reply ::
  "eth_lib \<Rightarrow> CollectionRecord result \<times> InMemoryRepository \<Rightarrow> GatewayState \<Rightarrow>
   pb_CollectionRecord rpc \<times> GatewayState" where
  "mutation_reply l out st =
     (case fst out of
        Inl err \<Rightarrow> Inl (collectionMutationError err)
      | Inr record' \<Rightarrow> Inr (collectionRecordToProto (lib_fromBig l) record'),
      set_repo (snd out) st)"

definition MarkCollectionPending ::
  "eth_lib \<Rightarrow> Gateway \<Rightarrow> string \<Rightarrow> MarkCollectionPendingRequest \<Rightarrow> time \<Rightarrow> GatewayState \<Rightarrow>
   pb_CollectionRecord rpc \<times> GatewayState" where
  "MarkCollectionPending l g header req now st =
     (case authorizeAdmin g header of
        Inl e \<Rightarrow> (Inl e, st)
      | Inr _ \<Rightarrow>
          (case mutationKeyAndExpectedValue (lib_fromBig l) (mpq_Key req) (mpq_ExpectedValue req) of
             Inl e \<Rightarrow> (Inl e, st)
           | Inr (key, expectedValue) \<Rightarrow>
               mutation_reply l (CollectionMarkPending (lib_pretty l) key (Some expectedValue)
                 (mpq_TxHash req) now now (gs_repo st)) st))"

definition MarkCollectionCollected ::
  "eth_lib \<Rightarrow> Gateway \<Rightarrow> string \<Rightarrow> MarkCollectionCollectedRequest \<Rightarrow> time \<Rightarrow> GatewayState \<Rightarrow>
   pb_CollectionRecord rpc \<times> GatewayState" where
  "MarkCollectionCollected l g header req now st =
     (case authorizeAdmin g header of
        Inl e \<Rightarrow> (Inl e, st)
      | Inr _ \<Rightarrow>
          (case mutationKeyAndExpectedValue (lib_fromBig l) (mcq_Key req) (mcq_ExpectedValue req) of
             Inl e \<Rightarrow> (Inl e, st)
           | Inr (key, expectedValue) \<Rightarrow>
               if mcq_TxHash req = [] then (Inl (required_arg ''tx_hash''), st)
               else
                 let collectedAmount =
                   (if mcq_CollectedAmount req \<noteq> None
                    then Some (GRT_ToBigInt (lib_fromBig l) (mcq_CollectedAmount req)) else None)
                 in mutation_reply l (CollectionMarkCollected (lib_pretty l) key (Some expectedValue)
                      (mcq_TxHash req) collectedAmount now now (gs_repo st)) st))"

definition MarkCollectionRetryable ::
  "eth_lib \<Rightarrow> Gateway \<Rightarrow> string \<Rightarrow> MarkCollectionRetryableRequest \<Rightarrow> time \<Rightarrow> GatewayState \<Rightarrow>
   pb_CollectionRecord rpc \<times> GatewayState" where
  "MarkCollectionRetryable l g header req now st =
     (case authorizeAdmin g header of
        Inl e \<Rightarrow> (Inl e, st)
      | Inr _ \<Rightarrow>
          (case mutationKeyAndExpectedValue (lib_fromBig l) (mrq_Key req) (mrq_ExpectedValue req) of
             Inl e \<Rightarrow> (Inl e, st)
           | Inr (key, expectedValue) \<Rightarrow>
               if mrq_LastError req = [] then (Inl (required_arg ''last_error''), st)
               else mutation_reply l (CollectionMarkFailedRetryable (lib_pretty l) key (Some expectedValue)
                      (mrq_TxHash req) (mrq_LastError req) now now (gs_repo st)) st))"


subsection \<open>The settlement register the API promises\<close>

text \<open>
  The abstract view of the collection records: the value, the state and the attempts under each
  key. A mutation names a key and the value it expects; it is refused for an unknown key,
  another value or a state it may not leave, and otherwise moves that one entry; a submission
  counts an attempt.
\<close>

record settlement =
  sm_Value :: "int option"
  sm_State :: CollectionState
  sm_Attempts :: int

type_synonym settlements = "CollectionKey \<rightharpoonup> settlement"

definition settlement_of :: "CollectionRecord \<Rightarrow> settlement" where
  "settlement_of c = \<lparr>sm_Value = cr_ValueAggregate c, sm_State = cr_State c, sm_Attempts = cr_AttemptCount c\<rparr>"

definition settlements_of :: "eth_lib \<Rightarrow> GatewayState \<Rightarrow> settlements" where
  "settlements_of l st key =
     map_option settlement_of (records (gs_repo st) (collectionMapKey (lib_pretty l) key))"

definition spec_mark ::
  "CollectionState list \<Rightarrow> (settlement \<Rightarrow> settlement) \<Rightarrow> CollectionKey \<Rightarrow> int \<Rightarrow> settlements \<Rightarrow>
   connect_code option \<times> settlements" where
  "spec_mark sources move key v S =
     (case S key of
        None \<Rightarrow> (Some CodeNotFound, S)
      | Some s \<Rightarrow>
          if sm_Value s \<noteq> Some v then (Some CodeAborted, S)
          else if sm_State s \<notin> set sources then (Some CodeFailedPrecondition, S)
          else (None, S(key \<mapsto> move s)))"

definition submitted :: "settlement \<Rightarrow> settlement" where
  "submitted s = s\<lparr>sm_State := CollectionStateCollectPending, sm_Attempts := i64 (sm_Attempts s + 1)\<rparr>"

definition settled :: "settlement \<Rightarrow> settlement" where
  "settled s = s\<lparr>sm_State := CollectionStateCollected\<rparr>"

definition failed :: "settlement \<Rightarrow> settlement" where
  "failed s = s\<lparr>sm_State := CollectionStateCollectFailedRetryable\<rparr>"

definition spec_pending :: "CollectionKey \<Rightarrow> int \<Rightarrow> settlements \<Rightarrow> connect_code option \<times> settlements" where
  "spec_pending = spec_mark [CollectionStateCollectible, CollectionStateCollectFailedRetryable] submitted"

definition spec_collected :: "CollectionKey \<Rightarrow> int \<Rightarrow> settlements \<Rightarrow> connect_code option \<times> settlements" where
  "spec_collected = spec_mark [CollectionStateCollectPending] settled"

definition spec_retryable :: "CollectionKey \<Rightarrow> int \<Rightarrow> settlements \<Rightarrow> connect_code option \<times> settlements" where
  "spec_retryable = spec_mark [CollectionStateCollectPending] failed"

definition reply_code :: "'a rpc \<Rightarrow> connect_code option" where
  "reply_code r = (case r of Inl (c, _) \<Rightarrow> Some c | Inr _ \<Rightarrow> None)"

definition refines_mark ::
  "eth_lib \<Rightarrow> GatewayState \<Rightarrow> 'a rpc \<times> GatewayState \<Rightarrow> connect_code option \<times> settlements \<Rightarrow> bool" where
  "refines_mark l st out spec \<longleftrightarrow>
     reply_code (fst out) = fst spec \<and> settlements_of l (snd out) = snd spec \<and>
     sessions (gs_repo (snd out)) = sessions (gs_repo st) \<and> gs_runtime (snd out) = gs_runtime st"

definition key_wf :: "CollectionKey \<Rightarrow> bool" where
  "key_wf key \<longleftrightarrow> ck_SessionID key \<noteq> [] \<and> length (ck_CollectionID key) = 32 \<and>
     length (ck_Payer key) = 20 \<and> length (ck_ServiceProvider key) = 20 \<and> length (ck_DataService key) = 20"

lemma settlement_of_sel [simp]:
  "sm_Value (settlement_of c) = cr_ValueAggregate c" "sm_State (settlement_of c) = cr_State c"
  "sm_Attempts (settlement_of c) = cr_AttemptCount c"
  by (simp_all add: settlement_of_def)

lemma bind_rpc_simps [simp]: "bind_rpc (Inl e) f = Inl e" "bind_rpc (Inr x) f = f x"
  by (simp_all add: bind_rpc_def)

lemma requiredAddress_wire [simp]:
  "length a = 20 \<Longrightarrow> requiredAddress (Some (AddressFromEth a)) name = Inr a"
  by (simp add: requiredAddress_def ToEth_def AddressFromEth_def)

lemma requiredCollectionID_wire [simp]: "length b = 32 \<Longrightarrow> requiredCollectionID b name = Inr b"
  by (simp add: requiredCollectionID_def optionalCollectionID_def)

lemma collectionKey_wire [simp]:
  "key_wf key \<Longrightarrow> collectionKeyFromProto (Some (collectionKeyToProto key)) = Inr key"
  by (simp add: key_wf_def collectionKeyFromProto_def collectionKeyToProto_def)

lemma mutation_args_wire [simp]:
  assumes "lib_ok l" "key_wf key" "0 \<le> v" "v < 2 ^ 256"
  shows "mutationKeyAndExpectedValue (lib_fromBig l) (Some (collectionKeyToProto key))
    (Some (GRTFromBigInt (lib_fromBig l) (Some v))) = Inr (key, v)"
  using assms by (simp add: mutationKeyAndExpectedValue_def GRT_ToBigInt_FromBigInt lib_okD)

lemma admin_reads: "authorizeAdmin g header = Inr role \<Longrightarrow> authorizeRead g header = Inr role"
  by (auto simp: authorizeAdmin_def authorizeRead_def authorizeOperator_def AuthorizeHeader_def Let_def
      Allows_iff split: if_splits sum.splits option.splits)

lemma updateCollection_refines:
  assumes "lib_ok l"
    and f: "\<And>c. f c = (if cr_State c \<in> set A then Inr (m c) else Inl ErrInvalidCollectionTransition)"
    and m: "\<And>c. settlement_of (m c) = t (settlement_of c)"
  shows "refines_mark l st (mutation_reply l (updateCollection (lib_pretty l) key (Some v) f (gs_repo st)) st)
    (spec_mark A t key v (settlements_of l st))"
proof -
  have inj: "collectionMapKey (lib_pretty l) k = collectionMapKey (lib_pretty l) key \<longleftrightarrow> k = key" for k
    using collectionMapKey_inj[OF lib_okD(3)[OF assms(1)]] by blast
  consider (absent) "records (gs_repo st) (collectionMapKey (lib_pretty l) key) = None"
    | (conflict) c where "records (gs_repo st) (collectionMapKey (lib_pretty l) key) = Some c"
        "cr_ValueAggregate c \<noteq> Some v"
    | (match) c where "records (gs_repo st) (collectionMapKey (lib_pretty l) key) = Some c"
        "cr_ValueAggregate c = Some v"
    by fastforce
  then show ?thesis
    by cases (auto simp: refines_mark_def spec_mark_def mutation_reply_def updateCollection_def f m inj
        settlements_of_def reply_code_def collectionMutationError_def repository_errors fun_eq_iff)
qed

lemmas mark_defs = MarkCollectionPending_def MarkCollectionCollected_def MarkCollectionRetryable_def

lemma mark_unauthorised:
  "authorizeAdmin g header = Inl e \<Longrightarrow> MarkCollectionPending l g header p now st = (Inl e, st)"
  "authorizeAdmin g header = Inl e \<Longrightarrow> MarkCollectionCollected l g header c now st = (Inl e, st)"
  "authorizeAdmin g header = Inl e \<Longrightarrow> MarkCollectionRetryable l g header q now st = (Inl e, st)"
  by (simp_all add: mark_defs)

definition pending_request :: "eth_lib \<Rightarrow> CollectionKey \<Rightarrow> int \<Rightarrow> string \<Rightarrow> MarkCollectionPendingRequest" where
  "pending_request l key v tx =
     \<lparr>mpq_Key = Some (collectionKeyToProto key),
      mpq_ExpectedValue = Some (GRTFromBigInt (lib_fromBig l) (Some v)), mpq_TxHash = tx\<rparr>"

definition collected_request ::
  "eth_lib \<Rightarrow> CollectionKey \<Rightarrow> int \<Rightarrow> string \<Rightarrow> pb_GRT option \<Rightarrow> MarkCollectionCollectedRequest" where
  "collected_request l key v tx amount =
     \<lparr>mcq_Key = Some (collectionKeyToProto key),
      mcq_ExpectedValue = Some (GRTFromBigInt (lib_fromBig l) (Some v)), mcq_TxHash = tx,
      mcq_CollectedAmount = amount\<rparr>"

definition retryable_request ::
  "eth_lib \<Rightarrow> CollectionKey \<Rightarrow> int \<Rightarrow> string \<Rightarrow> string \<Rightarrow> MarkCollectionRetryableRequest" where
  "retryable_request l key v tx err =
     \<lparr>mrq_Key = Some (collectionKeyToProto key),
      mrq_ExpectedValue = Some (GRTFromBigInt (lib_fromBig l) (Some v)), mrq_TxHash = tx,
      mrq_LastError = err\<rparr>"

lemma mark_refines:
  assumes "lib_ok l" "authorizeAdmin g header = Inr role" "key_wf key" "0 \<le> v" "v < 2 ^ 256"
  shows "refines_mark l st (MarkCollectionPending l g header (pending_request l key v tx) now st)
      (spec_pending key v (settlements_of l st))" (is ?pending)
    "tx \<noteq> [] \<Longrightarrow>
      refines_mark l st (MarkCollectionCollected l g header (collected_request l key v tx amount) now st)
      (spec_collected key v (settlements_of l st))"
    (is "_ \<Longrightarrow> ?collected")
    "err \<noteq> [] \<Longrightarrow>
      refines_mark l st (MarkCollectionRetryable l g header (retryable_request l key v tx err) now st)
      (spec_retryable key v (settlements_of l st))" (is "_ \<Longrightarrow> ?retryable")
proof -
  show ?pending
    unfolding MarkCollectionPending_def CollectionMarkPending_def spec_pending_def using assms
    by (simp add: pending_request_def)
      (rule updateCollection_refines[OF assms(1), where m = "\<lambda>c. c\<lparr>cr_State := CollectionStateCollectPending,
         cr_AttemptCount := i64 (cr_AttemptCount c + 1), cr_LastTxHash := tx, cr_LastError := [],
         cr_UpdatedAt := collectionUpdatedAt now now\<rparr>"]; auto simp: mark_pending_def settlement_of_def submitted_def)
  show ?collected if "tx \<noteq> []"
    unfolding MarkCollectionCollected_def CollectionMarkCollected_def spec_collected_def using assms that
    by (simp add: collected_request_def Let_def split del: if_split)
      (rule updateCollection_refines[OF assms(1), where m = "\<lambda>c. c\<lparr>cr_State := CollectionStateCollected,
         cr_LastTxHash := tx, cr_LastError := [],
         cr_CollectedAmount := (if amount \<noteq> None then Some (GRT_ToBigInt (lib_fromBig l) amount) else None),
         cr_UpdatedAt := collectionUpdatedAt now now\<rparr>"]; auto simp: mark_collected_def collected_request_def settlement_of_def settled_def)
  show ?retryable if "err \<noteq> []"
    unfolding MarkCollectionRetryable_def CollectionMarkFailedRetryable_def spec_retryable_def using assms that
    by (simp add: retryable_request_def)
      (rule updateCollection_refines[OF assms(1), where m = "\<lambda>c. c\<lparr>cr_State := CollectionStateCollectFailedRetryable,
         cr_LastTxHash := tx, cr_LastError := err, cr_UpdatedAt := collectionUpdatedAt now now\<rparr>"];
        auto simp: mark_failed_def settlement_of_def failed_def)
qed


lemma updateCollection_read:
  assumes "updateCollection pretty key ev f r = (Inr c, r')" shows "CollectionGet pretty key r' = Inr c"
  using assms by (auto simp: updateCollection_def CollectionGet_def Let_def split: option.splits sum.splits if_splits)

lemma mutation_read:
  assumes "mutation_reply l out st = (Inr y, st')" "out = updateCollection (lib_pretty l) key ev f (gs_repo st)"
    "authorizeRead g header = Inr role" "key_wf key"
  shows "GetCollection l g header (Some (collectionKeyToProto key)) st' = Inr y"
proof -
  obtain c where "fst out = Inr c" "y = collectionRecordToProto (lib_fromBig l) c" "st' = set_repo (snd out) st"
    using assms(1) by (auto simp: mutation_reply_def split: sum.splits)
  then show ?thesis
    using assms(2-4) updateCollection_read[of "lib_pretty l" key ev f "gs_repo st" c "snd out"]
    by (simp add: GetCollection_def prod_eq_iff)
qed

lemma mark_read:
  assumes "lib_ok l" "authorizeAdmin g header = Inr role" "key_wf key" "0 \<le> v" "v < 2 ^ 256"
    "MarkCollectionPending l g header (pending_request l key v tx) now st = (Inr y, st') \<or>
     MarkCollectionCollected l g header (collected_request l key v tx amount) now st = (Inr y, st') \<or>
     MarkCollectionRetryable l g header (retryable_request l key v tx err) now st = (Inr y, st')"
  shows "GetCollection l g header (Some (collectionKeyToProto key)) st' = Inr y"
  using assms(6)
proof (elim disjE)
  assume "MarkCollectionPending l g header (pending_request l key v tx) now st = (Inr y, st')"
  then show ?thesis
    using mutation_read[OF _ CollectionMarkPending_def admin_reads[OF assms(2)] assms(3)] assms(1-5)
    by (simp add: MarkCollectionPending_def pending_request_def)
next
  assume "MarkCollectionCollected l g header (collected_request l key v tx amount) now st = (Inr y, st')"
  then show ?thesis
    using mutation_read[OF _ CollectionMarkCollected_def admin_reads[OF assms(2)] assms(3)] assms(1-5)
    by (simp add: MarkCollectionCollected_def collected_request_def Let_def split: if_split_asm)
next
  assume "MarkCollectionRetryable l g header (retryable_request l key v tx err) now st = (Inr y, st')"
  then show ?thesis
    using mutation_read[OF _ CollectionMarkFailedRetryable_def admin_reads[OF assms(2)] assms(3)] assms(1-5)
    by (simp add: MarkCollectionRetryable_def retryable_request_def split: if_split_asm)
qed

text \<open>
  C11: The operator API implements the settlement register (\<open>handler_operator.go\<close>,
  \<open>MarkCollectionPending\<close>, \<open>MarkCollectionCollected\<close>, \<open>MarkCollectionRetryable\<close>). For an
  authorised administrator, a well-formed key and a value of at most 256 bits, each call
  replies with the code of the abstract operation (not found, aborted for another value, failed
  precondition for a state it may not leave) and changes exactly the entry the abstract
  operation changes; sessions and streams are untouched; a read after a successful call returns
  its reply. Without the administrator role nothing changes.
\<close>

theorem operator_refines_settlements:
  assumes "lib_ok l" "authorizeAdmin g header = Inr role" "key_wf key" "0 \<le> v" "v < 2 ^ 256"
  shows "refines_mark l st (MarkCollectionPending l g header (pending_request l key v tx) now st)
      (spec_pending key v (settlements_of l st)) \<and>
    (tx \<noteq> [] \<longrightarrow>
      refines_mark l st (MarkCollectionCollected l g header (collected_request l key v tx amount) now st)
      (spec_collected key v (settlements_of l st))) \<and>
    (err \<noteq> [] \<longrightarrow>
      refines_mark l st (MarkCollectionRetryable l g header (retryable_request l key v tx err) now st)
      (spec_retryable key v (settlements_of l st))) \<and>
    (\<forall>y st'. MarkCollectionPending l g header (pending_request l key v tx) now st = (Inr y, st') \<or>
       MarkCollectionCollected l g header (collected_request l key v tx amount) now st = (Inr y, st') \<or>
       MarkCollectionRetryable l g header (retryable_request l key v tx err) now st = (Inr y, st') \<longrightarrow>
       GetCollection l g header (Some (collectionKeyToProto key)) st' = Inr y) \<and>
    (\<forall>bad e. authorizeAdmin g bad = Inl e \<longrightarrow>
       MarkCollectionPending l g bad (pending_request l key v tx) now st = (Inl e, st) \<and>
       MarkCollectionCollected l g bad (collected_request l key v tx amount) now st = (Inl e, st) \<and>
       MarkCollectionRetryable l g bad (retryable_request l key v tx err) now st = (Inl e, st))"
  using mark_refines[OF assms] mark_read[OF assms] by (simp add: mark_unauthorised)


definition operator_gateway :: Gateway where
  "operator_gateway = sample_gateway\<lparr>gw_operatorAuthConfig := \<lparr>ReadBearerToken = ''r'', AdminBearerToken = ''a''\<rparr>\<rparr>"

definition settling_state :: GatewayState where
  "settling_state = set_repo (sample_repo ''tx'') owing_state"

lemma operator_admin: "authorizeAdmin operator_gateway ''Bearer a'' = Inr RoleAdminWrite"
  using AuthorizeHeader_Bearer[of "''a''" "\<lparr>ReadBearerToken = ''r'', AdminBearerToken = ''a''\<rparr>" RoleAdminWrite]
  by (simp add: authorizeAdmin_def authorizeOperator_def operator_gateway_def solid_def roleForToken_def Allows_def)

lemma sample_key_wf: "key_wf sample_key"
  by (simp add: key_wf_def sample_key_def sample_RAV_def)

theorem operator_refines_settlements_witness:
  "let out = MarkCollectionCollected lib_std operator_gateway ''Bearer a''
       (collected_request lib_std sample_key 100 ''tx'' None) 5 settling_state in
   settlements_of lib_std (snd out) sample_key =
     Some \<lparr>sm_Value = Some 100, sm_State = CollectionStateCollected, sm_Attempts = 1\<rparr> \<and>
   reply_code (fst out) = None"
proof -
  have "settlements_of lib_std settling_state sample_key =
      Some \<lparr>sm_Value = Some 100, sm_State = CollectionStateCollectPending, sm_Attempts = 1\<rparr>"
    using sample_repo_pending[of "''tx''"]
    by (simp add: settlements_of_def settling_state_def settlement_of_def)
  then show ?thesis
    using operator_refines_settlements[OF lib_std_ok operator_admin sample_key_wf, of 100 settling_state "''tx''" 5 None "[]"]
    by (simp add: refines_mark_def spec_collected_def spec_mark_def settled_def)
qed


subsection \<open>Lists\<close>

lemma list_entries_take:
  assumes "length out < limit"
  shows "list_entries limit keep (\<lambda>x. Inr (f x)) xs out =
    Inr (out @ take (limit - length out) (map f (filter keep xs)))"
  using assms
proof (induction xs arbitrary: out)
  case Nil
  then show ?case by simp
next
  case (Cons x xs)
  then show ?case
    by (auto simp: Let_def take_Cons')
qed

lemma operatorLimit_pos: "0 < operatorLimit n" "operatorLimit n \<le> 1000"
proof -
  show "0 < operatorLimit n" by (simp add: operatorLimit_def unat_gt_0)
  show "operatorLimit n \<le> 1000" by (simp add: operatorLimit_def word_le_nat_alt not_less)
qed

lemma ListCollections_eq:
  assumes "authorizeRead g header = Inr role" "protoCollectionStateToRepository s = Inr state"
  shows "ListCollections l g order header
      \<lparr>lcq_Limit = n, lcq_SessionId = [], lcq_State = s, lcq_Payer = None, lcq_ServiceProvider = None,
       lcq_DataService = None, lcq_CollectionId = []\<rparr> st =
    Inr (take (operatorLimit n) (map (collectionRecordToProto (lib_fromBig l))
      (filter (\<lambda>c. case state of None \<Rightarrow> True | Some s \<Rightarrow> cr_State c = s)
         (List.map_filter (records (gs_repo st)) order))))"
proof -
  have "collection_matches (lib_pretty l) \<lparr>cf_SessionID = None, cf_State = state, cf_Payer = None\<rparr> =
      (\<lambda>c. case state of None \<Rightarrow> True | Some s \<Rightarrow> cr_State c = s)"
    by (simp add: collection_matches_def fun_eq_iff)
  then show ?thesis
    using assms operatorLimit_pos
    by (simp add: ListCollections_def optionalAddress_def optionalCollectionID_def collectionRecordMatches_def
        CollectionList_def list_entries_take comp_def)
qed

subsection \<open>The funds assessment on display\<close>

definition assessment_range :: "fundsAssessment \<Rightarrow> bool" where
  "assessment_range a \<longleftrightarrow>
     0 \<le> fa_currentOutstanding a \<and> fa_currentOutstanding a < 2 ^ 256 \<and>
     0 \<le> fa_projectedOutstanding a \<and> fa_projectedOutstanding a < 2 ^ 256 \<and>
     (\<forall>b. fa_escrowBalance a = Some b \<longrightarrow> 0 \<le> b \<and> b < 2 ^ 256)"

lemma metadata_bigint:
  assumes "ses_Metadata session key = Some (bigint_string (Some v))" "0 \<le> v"
  shows "sessionMetadataBigIntOK session key = Some v"
  using assms dec_string_not_Nil[of "nat v"]
  by (simp add: sessionMetadataBigIntOK_def metadata_value_def bigint_string_def Let_def)

lemma metadata_absent:
  "ses_Metadata session key = None \<Longrightarrow> sessionMetadataBigIntOK session key = None"
  by (simp add: sessionMetadataBigIntOK_def metadata_value_def)

lemma assessment_fields:
  assumes "a = assessSessionFunds n g s"
  shows "fa_escrowBalance a = None \<Longrightarrow> fa_status a = fundsStatusUnknown \<and> fa_minimumNeeded a = 0"
    "fa_escrowBalance a = Some b \<Longrightarrow>
       fa_minimumNeeded a = max 0 (fa_projectedOutstanding a - b) \<and>
       fa_status a = (if fa_projectedOutstanding a > b then fundsStatusInsufficient else fundsStatusOK)"
  unfolding assms
  by (auto simp: assessSessionFunds_def Let_def split: sum.splits option.splits if_splits)

lemma funds_status_shown:
  "repositoryFundsStatusToProto fundsStatusOK = OPERATOR_FUNDS_STATUS_OK"
  "repositoryFundsStatusToProto fundsStatusInsufficient = OPERATOR_FUNDS_STATUS_INSUFFICIENT"
  "repositoryFundsStatusToProto fundsStatusUnknown = OPERATOR_FUNDS_STATUS_UNKNOWN"
  by (simp_all add: repositoryFundsStatusToProto_def fundsStatusOK_def fundsStatusInsufficient_def
      fundsStatusUnknown_def)

lemma assessed_metadata:
  assumes "s' = applyFundsAssessmentMetadata a s" "assessment_range a"
  shows "sessionMetadataBigIntOK s' ''funds_current_outstanding_wei'' = Some (fa_currentOutstanding a)"
    "sessionMetadataBigIntOK s' ''funds_projected_outstanding_wei'' = Some (fa_projectedOutstanding a)"
    "sessionMetadataBigIntOK s' ''funds_escrow_balance_wei'' = fa_escrowBalance a"
    "fa_escrowBalance a \<noteq> None \<Longrightarrow> 0 \<le> fa_minimumNeeded a \<Longrightarrow>
       sessionMetadataBigIntOK s' ''funds_minimum_needed_wei'' = Some (fa_minimumNeeded a)"
    "fa_escrowBalance a = None \<Longrightarrow> sessionMetadataBigIntOK s' ''funds_minimum_needed_wei'' = None"
    "metadata_value s' ''funds_status'' = fa_status a"
    "metadata_value s' ''funds_check_error'' = (case fa_checkErr a of None \<Rightarrow> [] | Some e \<Rightarrow> Error_text e)"
    "ses_PricingConfig s' = ses_PricingConfig s"
proof -
  note defs = applyFundsAssessmentMetadata_def assessment_range_def Let_def metadata_value_def assms(1)
  show "sessionMetadataBigIntOK s' ''funds_current_outstanding_wei'' = Some (fa_currentOutstanding a)"
    "sessionMetadataBigIntOK s' ''funds_projected_outstanding_wei'' = Some (fa_projectedOutstanding a)"
    using assms(2) by (intro metadata_bigint; simp add: defs split: option.splits)+
  show "sessionMetadataBigIntOK s' ''funds_escrow_balance_wei'' = fa_escrowBalance a"
    using assms(2) by (cases "fa_escrowBalance a")
      (auto intro!: metadata_bigint metadata_absent simp: defs split: option.splits)
  show "sessionMetadataBigIntOK s' ''funds_minimum_needed_wei'' = Some (fa_minimumNeeded a)"
    if "fa_escrowBalance a \<noteq> None" "0 \<le> fa_minimumNeeded a"
    using that by (intro metadata_bigint) (auto simp: defs split: option.splits)
  show "sessionMetadataBigIntOK s' ''funds_minimum_needed_wei'' = None" if "fa_escrowBalance a = None"
    using that by (intro metadata_absent) (simp add: defs split: option.splits)
qed (auto simp: applyFundsAssessmentMetadata_def Let_def metadata_value_def assms(1) split: option.splits)


lemma GRT_shown:
  assumes "lib_ok l" "0 \<le> v" "v < 2 ^ 256"
  shows "GRT_ToBigInt (lib_fromBig l) (Some (GRTFromBigInt (lib_fromBig l) (Some v))) = v"
  using assms by (simp add: GRT_ToBigInt_FromBigInt lib_okD)

lemma estimatedBlocksRemaining_exact:
  assumes "0 < BigInt (PricePerBlock (ses_PricingConfig s))" "p \<le> b"
    "(b - p) div BigInt (PricePerBlock (ses_PricingConfig s)) < 2 ^ 64"
  shows "uint (estimatedBlocksRemaining s p (Some b)) = (b - p) div BigInt (PricePerBlock (ses_PricingConfig s))"
  using assms pos_imp_zdiv_nonneg_iff[of "BigInt (PricePerBlock (ses_PricingConfig s))" "b - p"]
  by (auto simp: estimatedBlocksRemaining_def Let_def uint_word_of_int_eq take_bit_int_eq_self)

text \<open>
  C35: The operator sees the gateway's last funds assessment (\<open>funds.go\<close>,
  \<open>applyFundsAssessmentMetadata\<close>; \<open>handler_operator.go\<close>, \<open>operatorPaymentState\<close>). The assessment
  is stored as text in the session's metadata; for amounts of at most 256 bits the API reads
  back exactly the outstanding, projected and escrow amounts, the missing amount, the status
  and the error of the check, and reports the funds as sufficient exactly when the escrow was
  known to cover the projection. The estimate of remaining blocks is the remaining escrow over
  the price, when that fits 64 bits.
\<close>

theorem operator_sees_assessment:
  assumes "lib_ok l" "a = assessSessionFunds n g s" "assessment_range a"
    "p = operatorPaymentState (lib_fromBig l) (applyFundsAssessmentMetadata a s) pending"
  shows "GRT_ToBigInt (lib_fromBig l) (Some (ops_CurrentOutstanding p)) = fa_currentOutstanding a \<and>
    GRT_ToBigInt (lib_fromBig l) (Some (ops_ProjectedOutstanding p)) = fa_projectedOutstanding a \<and>
    GRT_ToBigInt (lib_fromBig l) (Some (ops_MinimumNeeded p)) = fa_minimumNeeded a \<and>
    map_option (GRT_ToBigInt (lib_fromBig l) \<circ> Some) (ps_EscrowBalance (ops_PaymentStatus p)) = fa_escrowBalance a \<and>
    ops_FundsStatus p = repositoryFundsStatusToProto (fa_status a) \<and>
    ops_FundsCheckError p = (case fa_checkErr a of None \<Rightarrow> [] | Some e \<Rightarrow> Error_text e) \<and>
    (ps_FundsSufficient (ops_PaymentStatus p) \<longleftrightarrow>
       (\<exists>b. fa_escrowBalance a = Some b \<and> fa_projectedOutstanding a \<le> b)) \<and>
    (\<forall>b. fa_escrowBalance a = Some b \<and> fa_projectedOutstanding a \<le> b \<and>
        0 < BigInt (PricePerBlock (ses_PricingConfig s)) \<and>
        (b - fa_projectedOutstanding a) div BigInt (PricePerBlock (ses_PricingConfig s)) < 2 ^ 64 \<longrightarrow>
      uint (ps_EstimatedBlocksRemaining (ops_PaymentStatus p)) =
        (b - fa_projectedOutstanding a) div BigInt (PricePerBlock (ses_PricingConfig s)))"
proof -
  define s' where "s' = applyFundsAssessmentMetadata a s"
  note m = assessed_metadata[OF s'_def assms(3)] and f = assessment_fields[OF assms(2)]
  have status: "sessionFundsStatus s' = fa_status a"
    using f m(6) by (cases "fa_escrowBalance a")
      (simp_all add: sessionFundsStatus_def fundsStatusOK_def fundsStatusInsufficient_def fundsStatusUnknown_def)
  have need: "0 \<le> fa_minimumNeeded a" "fa_minimumNeeded a < 2 ^ 256"
    using f assms(3) by (cases "fa_escrowBalance a"; auto simp: assessment_range_def)+
  have min: "sessionMetadataBigInt s' ''funds_minimum_needed_wei'' (Some 0) = fa_minimumNeeded a"
    using m(4,5) f(1) need by (cases "fa_escrowBalance a") (simp_all add: sessionMetadataBigInt_def cloneOrZero_def)
  have r: "0 \<le> fa_currentOutstanding a" "fa_currentOutstanding a < 2 ^ 256"
    "0 \<le> fa_projectedOutstanding a" "fa_projectedOutstanding a < 2 ^ 256"
    "\<And>b. fa_escrowBalance a = Some b \<Longrightarrow> 0 \<le> b \<and> b < 2 ^ 256"
    using assms(3) by (simp_all add: assessment_range_def)
  note shown = GRT_shown[OF assms(1)] and p = assms(4)[folded s'_def, unfolded operatorPaymentState_def Let_def]
  have suff: "ps_FundsSufficient (ops_PaymentStatus p) \<longleftrightarrow>
      (\<exists>b. fa_escrowBalance a = Some b \<and> fa_projectedOutstanding a \<le> b)"
    using f by (cases "fa_escrowBalance a") (auto simp: p status funds_status_shown)
  have esc: "map_option (GRT_ToBigInt (lib_fromBig l) \<circ> Some) (ps_EscrowBalance (ops_PaymentStatus p)) =
      fa_escrowBalance a"
    using r(5) by (cases "fa_escrowBalance a") (simp_all add: p m(3) shown)
  have out: "sessionMetadataBigInt s' ''funds_current_outstanding_wei'' x = fa_currentOutstanding a"
    "sessionMetadataBigInt s' ''funds_projected_outstanding_wei'' x = fa_projectedOutstanding a" for x
    by (simp_all add: sessionMetadataBigInt_def m)
  show ?thesis
    using suff esc estimatedBlocksRemaining_exact[of s' "fa_projectedOutstanding a"]
      shown[OF r(1,2)] shown[OF r(3,4)] shown[OF need]
    by (simp add: p m(3,7,8) out min status)
qed


definition assessing_gateway :: Gateway where
  "assessing_gateway = sample_gateway\<lparr>gw_escrowQuerier := Some []\<rparr>"

lemma sample_assessment:
  "assessSessionFunds sample_node assessing_gateway owing_session =
     \<lparr>fa_status = fundsStatusInsufficient, fa_currentOutstanding = 1000, fa_projectedOutstanding = 1060,
      fa_escrowBalance = Some 500, fa_minimumNeeded = 560, fa_checkErr = None\<rparr>"
proof -
  have "length (be32 500) = 32" "big_SetBytes (be32 500) = 500" by (rule be32_props, simp)+
  then have "GetEscrowBalance sample_node assessing_gateway (ses_Payer owing_session) = Inr (Some 500)"
    by (simp add: GetEscrowBalance_def GetBalance_def sample_node_def sample_call_def strip0x_hex
        assessing_gateway_def del: append.simps)
  then show ?thesis
    by (simp add: assessSessionFunds_def owing_session_def sample_session_def NewSession_def current_value_def
        payer_voucher_def UsageDeltaSinceBaseline_def Let_def)
qed

theorem operator_sees_assessment_witness:
  "let p = operatorPaymentState FromBig_std (applyFundsAssessmentMetadata
         (assessSessionFunds sample_node assessing_gateway owing_session) owing_session) False
   in GRT_ToBigInt FromBig_std (Some (ops_MinimumNeeded p)) = 560 \<and>
      \<not> ps_FundsSufficient (ops_PaymentStatus p)"
  using operator_sees_assessment[OF lib_std_ok refl _ refl, of sample_node assessing_gateway owing_session False]
  by (simp add: sample_assessment assessment_range_def Let_def)

text \<open>
  The estimate of remaining blocks wraps around: with a price of one unit per block, an escrow of
  \<^term>\<open>2 ^ 64 + 5 :: int\<close> units is shown as five blocks.
\<close>

lemma estimatedBlocksRemaining_wraps:
  "estimatedBlocksRemaining (sample_session\<lparr>ses_PricingConfig := \<lparr>PricePerBlock = mkGRT 1, PricePerByte = mkGRT 0\<rparr>\<rparr>)
     0 (Some (2 ^ 64 + 5)) = 5"
  by (simp add: estimatedBlocksRemaining_def BigInt_def Let_def)


end
