(* ===== verification/Sds_Tx.thy ===== *)
theory Sds_Tx
  imports Sds_Lib
begin

text \<open>
  Sending a transaction (\<open>contracts/chain/client.go\<close>) and the call data of a settlement
  (\<open>contracts/horizon/data_service.go\<close>). The Ethereum client library and the node behind it are
  the record \<open>ethclient\<close>, an argument of every operation: gas and fee suggestions, nonces,
  signing, sending, and the answer to each successive request for a receipt. The signed
  transactions handed to the node are collected in a list, in order, beside the result. The lemmas
  show that a call hands over at most one transaction, the one asked for, that a dry run hands
  over none, and that waiting ends with a receipt of success or an error.
\<close>

subsection \<open>Options, transactions and results\<close>

record TxOptions =
  to_ChainID :: "int option"
  to_From :: address
  to_PrivateKey :: "bytes option"
  to_TxType :: string
  to_GasLimit :: u64
  to_MaxFeePerGas :: "int option"
  to_MaxPriorityFeePerGas :: "int option"
  to_GasPrice :: "int option"
  to_ReceiptTimeout :: int
  to_ReceiptPollInterval :: int
  to_NoWait :: bool
  to_DryRun :: bool

record receipt =
  rcpt_Status :: u64
  rcpt_BlockNumber :: int

record TxResult =
  tr_Hash :: hash
  tr_Receipt :: "receipt option"
  tr_DryRun :: bool
  tr_GasLimit :: u64
  tr_MaxFeePerGas :: "int option"
  tr_MaxPriorityFeePerGas :: "int option"
  tr_GasPrice :: "int option"

text \<open>The two kinds of transaction differ in their fees.\<close>

datatype tx_fees =
    DynamicFee int int int \<comment> \<open>chain, tip cap, fee cap\<close>
  | LegacyFee int \<comment> \<open>gas price\<close>

record eth_tx =
  tx_Fees :: tx_fees
  tx_Nonce :: u64
  tx_Gas :: u64
  tx_To :: address
  tx_Value :: int
  tx_Data :: bytes

record signed_tx =
  sg_Tx :: eth_tx
  sg_Hash :: hash

record call_msg =
  cm_From :: address
  cm_To :: address
  cm_Value :: int
  cm_Data :: bytes

text \<open>The client library; the receipt is asked for repeatedly, the answers are numbered.\<close>

record ethclient =
  ec_EstimateGas :: "call_msg \<Rightarrow> u64 result"
  ec_SuggestGasTipCap :: "int result"
  ec_BaseFee :: "int option result"
  ec_SuggestGasPrice :: "int result"
  ec_PendingNonceAt :: "address \<Rightarrow> u64 result"
  ec_SignTx :: "eth_tx \<Rightarrow> int \<Rightarrow> bytes \<Rightarrow> signed_tx result"
  ec_SendTransaction :: "signed_tx \<Rightarrow> unit result"
  ec_TransactionReceipt :: "nat \<Rightarrow> hash \<Rightarrow> receipt result"
  ec_NotFound :: go_error
  ec_addressHex :: "address \<Rightarrow> string"
  ec_hashHex :: "hash \<Rightarrow> string"

subsection \<open>Waiting for a receipt\<close>

definition zero_hash :: hash where
  "zero_hash = replicate 32 0"

definition receipt_timeout :: "int \<Rightarrow> int" where
  "receipt_timeout timeout = (if timeout \<le> 0 then 120 * 1000000000 else timeout)"

definition receipt_poll :: "int \<Rightarrow> int" where
  "receipt_poll pollInterval = (if pollInterval \<le> 0 then 1000000000 else pollInterval)"

text \<open>
  The loop: \<open>k\<close> counts the requests made, \<open>ticks\<close> how often the ticker fires before the context of
  the wait is done; then the wait fails with the error of the context.
\<close>

fun wait_loop :: "ethclient \<Rightarrow> go_error \<Rightarrow> hash \<Rightarrow> nat \<Rightarrow> nat \<Rightarrow> receipt result" where
  "wait_loop ec ctxErr txHash k ticks =
     (case ec_TransactionReceipt ec k txHash of
        Inr receipt' \<Rightarrow> Inr receipt'
      | Inl err \<Rightarrow>
          if \<not> errors_Is err (ec_NotFound ec)
          then Inl (Errorf ''fetching transaction receipt %s: %w'' [ec_hashHex ec txHash] (Some err))
          else (case ticks of
             0 \<Rightarrow> Inl (Errorf ''waiting for transaction receipt %s: %w'' [ec_hashHex ec txHash] (Some ctxErr))
           | Suc n \<Rightarrow> wait_loop ec ctxErr txHash (Suc k) n))"

declare wait_loop.simps [simp del]

text \<open>
  A ticker of period \<open>p\<close> fires at most \<open>t div p\<close> times within a timeout \<open>t\<close>; \<open>budget\<close> is how
  often it fires before an enclosing context ends.
\<close>

definition WaitReceipt ::
  "ethclient \<Rightarrow> go_error \<Rightarrow> nat \<Rightarrow> hash \<Rightarrow> int \<Rightarrow> int \<Rightarrow> receipt result" where
  "WaitReceipt ec ctxErr budget txHash timeout pollInterval =
     wait_loop ec ctxErr txHash 0
       (min budget (nat (receipt_timeout timeout div receipt_poll pollInterval)))"

subsection \<open>Sending\<close>

type_synonym send_out = "(TxResult option \<times> go_error option) \<times> signed_tx list"

definition send_fails :: "go_error \<Rightarrow> send_out" where
  "send_fails err = ((None, Some err), [])"

text \<open>The nonce, the signature, the hand-over to the node and the wait for the receipt.\<close>

definition submit_and_wait ::
  "ethclient \<Rightarrow> go_error \<Rightarrow> nat \<Rightarrow> TxOptions \<Rightarrow> (u64 \<Rightarrow> eth_tx) \<Rightarrow> TxResult \<Rightarrow> send_out" where
  "submit_and_wait ec ctxErr budget opts mk result =
     (case ec_PendingNonceAt ec (to_From opts) of
        Inl err \<Rightarrow>
          send_fails (Errorf ''getting pending nonce for %s: %w'' [ec_addressHex ec (to_From opts)] (Some err))
      | Inr nonce \<Rightarrow>
          (case ec_SignTx ec (mk nonce) (the (to_ChainID opts)) (the (to_PrivateKey opts)) of
             Inl err \<Rightarrow> send_fails (Errorf ''signing transaction: %w'' [] (Some err))
           | Inr signedTx \<Rightarrow>
               (case ec_SendTransaction ec signedTx of
                  Inl err \<Rightarrow> ((None, Some (Errorf ''sending transaction: %w'' [] (Some err))), [signedTx])
                | Inr _ \<Rightarrow>
                    let result = result\<lparr>tr_Hash := sg_Hash signedTx\<rparr> in
                    if to_NoWait opts then ((Some result, None), [signedTx])
                    else (case WaitReceipt ec ctxErr budget (tr_Hash result) (to_ReceiptTimeout opts)
                            (to_ReceiptPollInterval opts) of
                       Inl err \<Rightarrow> ((Some result, Some err), [signedTx])
                     | Inr receipt' \<Rightarrow>
                         if rcpt_Status receipt' = 0
                         then ((Some result, Some (Errorf ''transaction %s failed with receipt status 0''
                                  [ec_hashHex ec (tr_Hash result)] None)), [signedTx])
                         else ((Some (result\<lparr>tr_Receipt := Some receipt'\<rparr>), None), [signedTx])))))"

definition missing_option :: "TxOptions \<Rightarrow> go_error option" where
  "missing_option opts =
     (if (case to_ChainID opts of None \<Rightarrow> True | Some c \<Rightarrow> c \<le> 0)
      then Some (Errorf ''chain ID is required'' [] None)
      else if to_PrivateKey opts = None then Some (Errorf ''private key is required'' [] None)
      else None)"

definition choose_gas :: "ethclient \<Rightarrow> TxOptions \<Rightarrow> address \<Rightarrow> int \<Rightarrow> bytes \<Rightarrow> u64 result" where
  "choose_gas ec opts dest value data =
     (if to_GasLimit opts = 0
      then (case ec_EstimateGas ec \<lparr>cm_From = to_From opts, cm_To = dest, cm_Value = value, cm_Data = data\<rparr> of
              Inl err \<Rightarrow> Inl (Errorf ''estimating gas: %w'' [] (Some err))
            | Inr estimated \<Rightarrow> Inr estimated)
      else Inr (to_GasLimit opts))"

definition SendLegacyTransaction ::
  "ethclient \<Rightarrow> go_error \<Rightarrow> nat \<Rightarrow> address \<Rightarrow> int option \<Rightarrow> bytes \<Rightarrow> TxOptions \<Rightarrow> send_out" where
  "SendLegacyTransaction ec ctxErr budget dest value data opts =
     (case missing_option opts of
        Some err \<Rightarrow> send_fails err
      | None \<Rightarrow>
          let value = (case value of None \<Rightarrow> 0 | Some v \<Rightarrow> v) in
          (case choose_gas ec opts dest value data of
             Inl err \<Rightarrow> send_fails err
           | Inr gasLimit \<Rightarrow>
               (case (case to_GasPrice opts of
                        None \<Rightarrow> (case ec_SuggestGasPrice ec of
                                   Inl err \<Rightarrow> Inl (Errorf ''suggesting gas price: %w'' [] (Some err))
                                 | Inr p \<Rightarrow> Inr p)
                      | Some p \<Rightarrow> Inr p) of
                  Inl err \<Rightarrow> send_fails err
                | Inr gasPrice \<Rightarrow>
                    let result = \<lparr>tr_Hash = zero_hash, tr_Receipt = None, tr_DryRun = to_DryRun opts,
                          tr_GasLimit = gasLimit, tr_MaxFeePerGas = None, tr_MaxPriorityFeePerGas = None,
                          tr_GasPrice = Some gasPrice\<rparr> in
                    if to_DryRun opts then ((Some result, None), [])
                    else submit_and_wait ec ctxErr budget opts
                           (\<lambda>nonce. \<lparr>tx_Fees = LegacyFee gasPrice, tx_Nonce = nonce, tx_Gas = gasLimit,
                              tx_To = dest, tx_Value = value, tx_Data = data\<rparr>) result)))"

definition choose_tip :: "ethclient \<Rightarrow> TxOptions \<Rightarrow> int result" where
  "choose_tip ec opts =
     (case to_MaxPriorityFeePerGas opts of
        None \<Rightarrow> (case ec_SuggestGasTipCap ec of
                   Inl err \<Rightarrow> Inl (Errorf ''suggesting gas tip cap: %w'' [] (Some err))
                 | Inr tip \<Rightarrow> Inr tip)
      | Some tip \<Rightarrow> Inr tip)"

definition choose_max_fee :: "ethclient \<Rightarrow> TxOptions \<Rightarrow> int \<Rightarrow> int result" where
  "choose_max_fee ec opts tip =
     (case to_MaxFeePerGas opts of
        None \<Rightarrow> (case ec_BaseFee ec of
                   Inl err \<Rightarrow> Inl (Errorf ''fetching latest header: %w'' [] (Some err))
                 | Inr None \<Rightarrow> Inl (Errorf ''latest block has no base fee; EIP-1559 dynamic fee transactions are not supported by this chain'' [] None)
                 | Inr (Some baseFee) \<Rightarrow> Inr (baseFee * 2 + tip))
      | Some fee \<Rightarrow> Inr fee)"

definition SendDynamicFeeTransaction ::
  "ethclient \<Rightarrow> go_error \<Rightarrow> nat \<Rightarrow> address \<Rightarrow> int option \<Rightarrow> bytes \<Rightarrow> TxOptions \<Rightarrow> send_out" where
  "SendDynamicFeeTransaction ec ctxErr budget dest value data opts =
     (if to_TxType opts = ''legacy'' then SendLegacyTransaction ec ctxErr budget dest value data opts
      else (case missing_option opts of
         Some err \<Rightarrow> send_fails err
       | None \<Rightarrow>
           let value = (case value of None \<Rightarrow> 0 | Some v \<Rightarrow> v) in
           (case choose_gas ec opts dest value data of
              Inl err \<Rightarrow> send_fails err
            | Inr gasLimit \<Rightarrow>
                (case choose_tip ec opts of
                   Inl err \<Rightarrow> send_fails err
                 | Inr tip \<Rightarrow>
                     (case choose_max_fee ec opts tip of
                        Inl err \<Rightarrow> send_fails err
                      | Inr maxFee \<Rightarrow>
                          if maxFee < tip
                          then send_fails (Errorf ''max fee per gas %s is below max priority fee per gas %s''
                                 [bigint_string (Some maxFee), bigint_string (Some tip)] None)
                          else
                            let result = \<lparr>tr_Hash = zero_hash, tr_Receipt = None, tr_DryRun = to_DryRun opts,
                                  tr_GasLimit = gasLimit, tr_MaxFeePerGas = Some maxFee,
                                  tr_MaxPriorityFeePerGas = Some tip, tr_GasPrice = None\<rparr> in
                            if to_DryRun opts then ((Some result, None), [])
                            else submit_and_wait ec ctxErr budget opts
                                   (\<lambda>nonce. \<lparr>tx_Fees = DynamicFee (the (to_ChainID opts)) tip maxFee,
                                      tx_Nonce = nonce, tx_Gas = gasLimit, tx_To = dest, tx_Value = value,
                                      tx_Data = data\<rparr>) result)))))"

subsection \<open>Call data of a settlement\<close>

text \<open>\<open>common.BytesToAddress\<close> keeps the last twenty bytes, padding on the left.\<close>

definition BytesToAddress :: "bytes \<Rightarrow> address" where
  "BytesToAddress b =
     (if length b > 20 then drop (length b - 20) b else replicate (20 - length b) 0 @ b)"

definition ravSignatureRSV :: "signature \<Rightarrow> bytes" where
  "ravSignatureRSV sig = take 32 (drop 1 sig) @ take 32 (drop 33 sig) @ [sig ! 0]"

record dataServiceCollectRAV =
  dc_CollectionID :: bytes
  dc_Payer :: address
  dc_ServiceProvider :: address
  dc_DataService :: address
  dc_TimestampNs :: u64
  dc_ValueAggregate :: int
  dc_Metadata :: bytes

text \<open>
  The packers of the contract interface: the arguments of \<open>encode\<close> (voucher, signature, cut) and
  of \<open>collect\<close> (provider, payment type, data).
\<close>

record collect_abi =
  abi_encode :: "dataServiceCollectRAV \<Rightarrow> bytes \<Rightarrow> int \<Rightarrow> bytes result"
  abi_collect :: "address \<Rightarrow> nat \<Rightarrow> bytes \<Rightarrow> bytes result"

definition EncodeDataServiceCollectData ::
  "collect_abi \<Rightarrow> SignedRAV option \<Rightarrow> u64 \<Rightarrow> bytes result" where
  "EncodeDataServiceCollectData ab signedRAV cutPPM =
     (case signedRAV of
        None \<Rightarrow> Inl (Errorf ''signed RAV is required'' [] None)
      | Some sr \<Rightarrow>
          (case Message sr of
             None \<Rightarrow> Inl (Errorf ''signed RAV message is required'' [] None)
           | Some rav \<Rightarrow>
               (case ValueAggregate rav of
                  None \<Rightarrow> Inl (Errorf ''signed RAV value aggregate is required'' [] None)
                | Some v \<Rightarrow>
                    abi_encode ab
                      \<lparr>dc_CollectionID = CollectionID rav, dc_Payer = BytesToAddress (Payer rav),
                       dc_ServiceProvider = BytesToAddress (ServiceProvider rav),
                       dc_DataService = BytesToAddress (DataService rav), dc_TimestampNs = TimestampNs rav,
                       dc_ValueAggregate = v, dc_Metadata = RAV_Metadata rav\<rparr>
                      (ravSignatureRSV (Signature sr)) (uint cutPPM))))"

definition PackQueryFeeCollect :: "collect_abi \<Rightarrow> SignedRAV option \<Rightarrow> u64 \<Rightarrow> bytes result" where
  "PackQueryFeeCollect ab signedRAV cutPPM =
     (case EncodeDataServiceCollectData ab signedRAV cutPPM of
        Inl err \<Rightarrow> Inl err
      | Inr data \<Rightarrow> abi_collect ab (BytesToAddress (ServiceProvider (the (Message (the signedRAV))))) 0 data)"

subsection \<open>What a call sends\<close>

definition not_yet :: "ethclient \<Rightarrow> hash \<Rightarrow> nat \<Rightarrow> bool" where
  "not_yet ec h k \<longleftrightarrow> (\<exists>err. ec_TransactionReceipt ec k h = Inl err \<and> errors_Is err (ec_NotFound ec))"

text \<open>How the wait ends, and after how many requests.\<close>

definition wait_ends :: "ethclient \<Rightarrow> go_error \<Rightarrow> hash \<Rightarrow> nat \<Rightarrow> nat \<Rightarrow> receipt result \<Rightarrow> bool" where
  "wait_ends ec ctxErr h end' j out \<longleftrightarrow>
     (\<exists>r. out = Inr r \<and> ec_TransactionReceipt ec j h = Inr r) \<or>
     (\<exists>err. out = Inl (Errorf ''fetching transaction receipt %s: %w'' [ec_hashHex ec h] (Some err)) \<and>
        ec_TransactionReceipt ec j h = Inl err \<and> \<not> errors_Is err (ec_NotFound ec)) \<or>
     j = end' \<and> not_yet ec h j \<and>
        out = Inl (Errorf ''waiting for transaction receipt %s: %w'' [ec_hashHex ec h] (Some ctxErr))"

lemma wait_loop_ends:
  "\<exists>j. k \<le> j \<and> j \<le> k + n \<and> (\<forall>i. k \<le> i \<and> i < j \<longrightarrow> not_yet ec h i) \<and>
     wait_ends ec ctxErr h (k + n) j (wait_loop ec ctxErr h k n)"
proof (induction n arbitrary: k)
  case 0
  show ?case
    by (rule exI[of _ k])
      (auto simp: wait_loop.simps[of ec ctxErr h k] wait_ends_def not_yet_def split: sum.split)
next
  case (Suc n)
  show ?case
  proof (cases "not_yet ec h k")
    case True
    obtain j where "Suc k \<le> j" "j \<le> Suc k + n" "\<forall>i. Suc k \<le> i \<and> i < j \<longrightarrow> not_yet ec h i"
        "wait_ends ec ctxErr h (Suc k + n) j (wait_loop ec ctxErr h (Suc k) n)"
      using Suc.IH by blast
    moreover have "wait_loop ec ctxErr h k (Suc n) = wait_loop ec ctxErr h (Suc k) n"
      using True by (auto simp: wait_loop.simps[of ec ctxErr h k] not_yet_def)
    ultimately show ?thesis
      using True by (intro exI[of _ j]) (auto simp: Suc_le_eq dest: le_neq_implies_less)
  next
    case False
    then show ?thesis
      by (intro exI[of _ k])
        (auto simp: wait_loop.simps[of ec ctxErr h k] wait_ends_def not_yet_def split: sum.split)
  qed
qed

text \<open>The value an absent value stands for, and the transaction a call asks for.\<close>

definition asked_tx :: "TxOptions \<Rightarrow> address \<Rightarrow> int option \<Rightarrow> bytes \<Rightarrow> eth_tx \<Rightarrow> bool" where
  "asked_tx opts dest value data tx \<longleftrightarrow>
     tx_To tx = dest \<and> tx_Value tx = (case value of None \<Rightarrow> 0 | Some v \<Rightarrow> v) \<and> tx_Data tx = data \<and>
     (case tx_Fees tx of DynamicFee c tip cap \<Rightarrow> to_ChainID opts = Some c \<and> tip \<le> cap
        | LegacyFee _ \<Rightarrow> to_TxType opts = ''legacy'')"

definition sent_ok ::
  "ethclient \<Rightarrow> nat \<Rightarrow> TxOptions \<Rightarrow> (eth_tx \<Rightarrow> bool) \<Rightarrow> send_out \<Rightarrow> bool" where
  "sent_ok ec limit opts asked out \<longleftrightarrow>
     (case out of ((res, err), sent) \<Rightarrow>
        length sent \<le> 1 \<and>
        (\<forall>t \<in> set sent. \<exists>tx. asked tx \<and>
           ec_SignTx ec tx (the (to_ChainID opts)) (the (to_PrivateKey opts)) = Inr t) \<and>
        (to_DryRun opts \<longrightarrow> sent = []) \<and>
        (\<forall>r. res = Some r \<and> \<not> to_DryRun opts \<longrightarrow> (\<exists>t. sent = [t] \<and> tr_Hash r = sg_Hash t)) \<and>
        (err = None \<longrightarrow> (\<exists>r. res = Some r)) \<and>
        (err = None \<and> \<not> to_DryRun opts \<and> \<not> to_NoWait opts \<longrightarrow>
           (\<exists>t j rc. sent = [t] \<and> j \<le> limit \<and> (\<forall>i < j. not_yet ec (sg_Hash t) i) \<and>
              ec_TransactionReceipt ec j (sg_Hash t) = Inr rc \<and> rcpt_Status rc \<noteq> 0)))"

definition wait_limit :: "TxOptions \<Rightarrow> nat" where
  "wait_limit opts =
     nat (receipt_timeout (to_ReceiptTimeout opts) div receipt_poll (to_ReceiptPollInterval opts))"

lemma sent_ok_fails [simp]: "sent_ok ec limit opts asked (send_fails err)"
  by (simp add: sent_ok_def send_fails_def)

lemma sent_ok_dry: "to_DryRun opts \<Longrightarrow> sent_ok ec limit opts asked ((Some r, None), [])"
  by (simp add: sent_ok_def)

lemma WaitReceipt_Inr:
  assumes "WaitReceipt ec ctxErr budget h (to_ReceiptTimeout opts) (to_ReceiptPollInterval opts) = Inr rc"
  shows "\<exists>j \<le> wait_limit opts. (\<forall>i < j. not_yet ec h i) \<and> ec_TransactionReceipt ec j h = Inr rc"
  using assms wait_loop_ends[of 0 "min budget (wait_limit opts)" ec h ctxErr]
  by (auto simp: WaitReceipt_def wait_limit_def[symmetric] wait_ends_def)

lemma submit_and_wait_ok:
  assumes "\<not> to_DryRun opts" "\<And>nonce. asked (mk nonce)"
  shows "sent_ok ec (wait_limit opts) opts asked (submit_and_wait ec ctxErr budget opts mk result)"
  using assms
  by (auto simp: submit_and_wait_def sent_ok_def send_fails_def Let_def dest!: WaitReceipt_Inr
      split: sum.splits if_splits)

lemma SendLegacyTransaction_ok:
  assumes "to_TxType opts = ''legacy''"
  shows "sent_ok ec (wait_limit opts) opts (asked_tx opts dest value data)
    (SendLegacyTransaction ec ctxErr budget dest value data opts)"
  using assms
  by (auto simp: SendLegacyTransaction_def Let_def sent_ok_dry asked_tx_def intro!: submit_and_wait_ok
      split: option.split sum.split)

lemma SendDynamicFeeTransaction_ok:
  "sent_ok ec (wait_limit opts) opts (asked_tx opts dest value data)
     (SendDynamicFeeTransaction ec ctxErr budget dest value data opts)"
proof (cases "to_TxType opts = ''legacy''")
  case True
  then show ?thesis using SendLegacyTransaction_ok by (simp add: SendDynamicFeeTransaction_def)
next
  case False
  then show ?thesis
    by (auto simp: SendDynamicFeeTransaction_def Let_def sent_ok_dry asked_tx_def missing_option_def
        intro!: submit_and_wait_ok split: option.split sum.split)
qed

text \<open>
  C29: A call sends at most the transaction it was asked for, and success means it was mined
  (\<open>SendDynamicFeeTransaction\<close>, \<open>SendLegacyTransaction\<close>, \<open>WaitReceipt\<close>). Whatever the node
  answers, at most one signed transaction is handed over; it carries the destination, value and
  data of the call, and a tip that its fee cap covers. A dry run hands over nothing. A result
  names the hash of the transaction that was sent, and a call that waits reports success only
  after the node returned a receipt of that transaction whose status is not a failure, within
  the number of polls the timeout allows.
\<close>

theorem transaction_sent_exactly:
  "sent_ok ec (wait_limit opts) opts (asked_tx opts dest value data)
     (SendDynamicFeeTransaction ec ctxErr budget dest value data opts)"
  by (rule SendDynamicFeeTransaction_ok)


end
