(* ===== verification/Sds_Collect.thy ===== *)
theory Sds_Collect
  imports Sds_Operator Sds_Tx
begin

text \<open>
  Settlement: the manual \<open>collect\<close> command and the background collector
  (\<open>cmd/sds/provider_operator_collect.go\<close>, \<open>provider_operator_collect_daemon.go\<close>). A settlement
  marks the record as pending through the operator API, sends the transaction, and marks the
  record as collected or retryable. The commands talk to the API over a network: of every call
  either the request or the reply may be lost, which is an argument of the model beside the clock
  readings and the Ethereum client. The lemmas show what a settlement leaves behind in every
  case, that a record is collected only by a transaction that was mined, that retries are
  bounded and spaced, and that the collector skips stale records when it has nothing to collect.
\<close>

subsection \<open>Records\<close>

definition isProviderCollectableState :: "pb_CollectionState \<Rightarrow> bool" where
  "isProviderCollectableState state \<longleftrightarrow>
     state = COLLECTION_STATE_COLLECTIBLE \<or> state = COLLECTION_STATE_COLLECT_FAILED_RETRYABLE"

definition formatCollectionState :: "pb_CollectionState \<Rightarrow> string" where
  "formatCollectionState state =
     (case state of
        COLLECTION_STATE_COLLECTIBLE \<Rightarrow> ''collectible''
      | COLLECTION_STATE_COLLECT_PENDING \<Rightarrow> ''collect_pending''
      | COLLECTION_STATE_COLLECTED \<Rightarrow> ''collected''
      | COLLECTION_STATE_COLLECT_FAILED_RETRYABLE \<Rightarrow> ''collect_failed_retryable''
      | _ \<Rightarrow> ''unspecified'')"

definition protoAddressMatchesEth :: "eth_lib \<Rightarrow> pb_Address option \<Rightarrow> address \<Rightarrow> string \<Rightarrow> go_error option" where
  "protoAddressMatchesEth l protoAddr ethAddr field =
     (case ToEth protoAddr of
        Inl err \<Rightarrow> Some (Errorf ''collection key %s: %w'' [field] (Some err))
      | Inr got \<Rightarrow>
          if \<not> AddressesEqual got ethAddr
          then Some (Errorf ''collection key %s %s does not match signed RAV %s %s''
                      [field, lib_pretty l got, field, lib_pretty l ethAddr] None)
          else None)"

text \<open>The getters of a nil message return zero values, so a missing key is reported first.\<close>

definition validateCollectionKeyMatchesRAV ::
  "eth_lib \<Rightarrow> pb_CollectionKey option \<Rightarrow> RAV \<Rightarrow> go_error option" where
  "validateCollectionKeyMatchesRAV l key rav =
     (case key of
        None \<Rightarrow> Some (Errorf ''collection key is required'' [] None)
      | Some key \<Rightarrow>
          if hex_EncodeToString (pk_CollectionId key) \<noteq> hex_EncodeToString (CollectionID rav)
          then Some (Errorf ''collection key collection ID does not match signed RAV collection ID'' [] None)
          else (case protoAddressMatchesEth l (pk_Payer key) (Payer rav) ''payer'' of
             Some err \<Rightarrow> Some err
           | None \<Rightarrow>
               (case protoAddressMatchesEth l (pk_ServiceProvider key) (ServiceProvider rav) ''service provider'' of
                  Some err \<Rightarrow> Some err
                | None \<Rightarrow> protoAddressMatchesEth l (pk_DataService key) (DataService rav) ''data service'')))"

text \<open>
  The voucher of a record that may be collected by a provider through a data service; the value is
  compared with \<open>Cmp\<close>, which needs the value of the voucher: conversion from the wire always sets it.
\<close>

definition validateProviderCollectRecord ::
  "eth_lib \<Rightarrow> (address \<Rightarrow> string) \<Rightarrow> pb_CollectionRecord option \<Rightarrow> address \<Rightarrow> address \<Rightarrow> SignedRAV result" where
  "validateProviderCollectRecord l addressHex record' providerAddress dataServiceAddress =
     (case record' of
        None \<Rightarrow> Inl (Errorf ''collection record is required'' [] None)
      | Some record' \<Rightarrow>
          if \<not> isProviderCollectableState (pc_State record')
          then Inl (Errorf ''collection state is %s, expected collectible or collect_failed_retryable''
                      [formatCollectionState (pc_State record')] None)
          else if pc_SignedRav record' = None then Inl (Errorf ''signed RAV is required'' [] None)
          else (case ProtoSignedRAVToHorizon (lib_fromBig l) (lib_newSig l) (pc_SignedRav record') of
             Inl err \<Rightarrow> Inl (Errorf ''signed RAV: %w'' [] (Some err))
           | Inr signedRAV \<Rightarrow>
               let signedRAV = the signedRAV; rav = the (Message signedRAV) in
               if pc_ValueAggregate record' = None then Inl (Errorf ''value aggregate is required'' [] None)
               else if GRT_ToBigInt (lib_fromBig l) (pc_ValueAggregate record') \<noteq> the (ValueAggregate rav)
               then Inl (Errorf ''record value aggregate does not match signed RAV value aggregate'' [] None)
               else (case validateCollectionKeyMatchesRAV l (pc_Key record') rav of
                  Some err \<Rightarrow> Inl err
                | None \<Rightarrow>
                    let ravProvider = BytesToAddress (ServiceProvider rav);
                        ravDataService = BytesToAddress (DataService rav)
                    in if providerAddress \<noteq> ravProvider
                       then Inl (Errorf ''provider private key address %s does not match RAV service provider %s''
                                   [addressHex providerAddress, addressHex ravProvider] None)
                       else if dataServiceAddress \<noteq> ravDataService
                       then Inl (Errorf ''--data-service-address %s does not match RAV data service %s''
                                   [addressHex dataServiceAddress, addressHex ravDataService] None)
                       else Inr signedRAV)))"

subsection \<open>Calls to the operator API\<close>

text \<open>What the network does to one call, and the error the caller sees when an answer is missing.\<close>

datatype delivery = Delivered | RequestLost | ReplyLost

definition remote ::
  "delivery \<Rightarrow> connect_code \<times> go_error \<Rightarrow> ('s \<Rightarrow> 'a rpc \<times> 's) \<Rightarrow> 's \<Rightarrow> 'a rpc \<times> 's" where
  "remote d lost call st =
     (case d of
        Delivered \<Rightarrow> call st
      | RequestLost \<Rightarrow> (Inl lost, st)
      | ReplyLost \<Rightarrow> (Inl lost, snd (call st)))"

definition bearer :: "string \<Rightarrow> string" where
  "bearer token = ''Bearer '' @ token"

definition markCollectionPending ::
  "eth_lib \<Rightarrow> Gateway \<Rightarrow> string \<Rightarrow> pb_CollectionRecord \<Rightarrow> time \<Rightarrow> GatewayState \<Rightarrow>
   pb_CollectionRecord rpc \<times> GatewayState" where
  "markCollectionPending l g token record' now =
     MarkCollectionPending l g (bearer token)
       \<lparr>mpq_Key = pc_Key record', mpq_ExpectedValue = pc_ValueAggregate record', mpq_TxHash = []\<rparr> now"

definition markCollectionCollected ::
  "eth_lib \<Rightarrow> Gateway \<Rightarrow> string \<Rightarrow> pb_CollectionRecord \<Rightarrow> string \<Rightarrow> time \<Rightarrow> GatewayState \<Rightarrow>
   pb_CollectionRecord rpc \<times> GatewayState" where
  "markCollectionCollected l g token record' txHash now =
     MarkCollectionCollected l g (bearer token)
       \<lparr>mcq_Key = pc_Key record', mcq_ExpectedValue = pc_ValueAggregate record', mcq_TxHash = txHash,
        mcq_CollectedAmount = None\<rparr> now"

definition markCollectionRetryable ::
  "eth_lib \<Rightarrow> Gateway \<Rightarrow> string \<Rightarrow> pb_CollectionRecord \<Rightarrow> string \<Rightarrow> string \<Rightarrow> time \<Rightarrow> GatewayState \<Rightarrow>
   pb_CollectionRecord rpc \<times> GatewayState" where
  "markCollectionRetryable l g token record' txHash cause now =
     MarkCollectionRetryable l g (bearer token)
       \<lparr>mrq_Key = pc_Key record', mrq_ExpectedValue = pc_ValueAggregate record', mrq_TxHash = txHash,
        mrq_LastError = cause\<rparr> now"

definition resultTxHash :: "ethclient \<Rightarrow> TxResult option \<Rightarrow> string" where
  "resultTxHash ec result =
     (case result of
        None \<Rightarrow> []
      | Some r \<Rightarrow> if tr_Hash r = zero_hash then [] else ec_hashHex ec (tr_Hash r))"

subsection \<open>One settlement\<close>

text \<open>
  The protocol both commands follow: mark as pending, and only when that was confirmed send the
  transaction, and mark the outcome.
\<close>

definition settle ::
  "('s \<Rightarrow> 'a rpc \<times> 's) \<Rightarrow> send_out \<Rightarrow> (TxResult option \<Rightarrow> go_error \<Rightarrow> 's \<Rightarrow> 'a rpc \<times> 's) \<Rightarrow>
   (TxResult option \<Rightarrow> 's \<Rightarrow> 'a rpc \<times> 's) \<Rightarrow> 's \<Rightarrow> signed_tx list \<times> 's" where
  "settle pending send retry collected st =
     (case pending st of
        (Inl _, st) \<Rightarrow> ([], st)
      | (Inr _, st) \<Rightarrow>
          (case send of
             ((result, Some txErr), sent) \<Rightarrow> (sent, snd (retry result txErr st))
           | ((result, None), sent) \<Rightarrow> (sent, snd (collected result st))))"

record autoCollector =
  au_token :: string
  au_dataServiceAddress :: address
  au_providerAddress :: address
  au_cutPPM :: u64
  au_txOpts :: TxOptions
  au_minValue :: int
  au_maxAttempts :: "32 word"
  au_backoffBase :: int
  au_reclaimAfter :: int

text \<open>The surroundings of one settlement.\<close>

record surroundings =
  sr_pending :: delivery
  sr_pendingAt :: time
  sr_mark :: delivery
  sr_markAt :: time
  sr_lost :: "connect_code \<times> go_error"
  sr_client :: ethclient
  sr_ctxErr :: go_error
  sr_budget :: nat

definition collectOne ::
  "eth_lib \<Rightarrow> Gateway \<Rightarrow> collect_abi \<Rightarrow> autoCollector \<Rightarrow> surroundings \<Rightarrow> pb_CollectionRecord \<Rightarrow> GatewayState \<Rightarrow>
   signed_tx list \<times> GatewayState" where
  "collectOne l g ab c w record' st =
     (case validateProviderCollectRecord l (ec_addressHex (sr_client w)) (Some record')
             (au_providerAddress c) (au_dataServiceAddress c) of
        Inl _ \<Rightarrow> ([], st)
      | Inr signedRAV \<Rightarrow>
          (case PackQueryFeeCollect ab (Some signedRAV) (au_cutPPM c) of
             Inl _ \<Rightarrow> ([], st)
           | Inr calldata \<Rightarrow>
               settle
                 (remote (sr_pending w) (sr_lost w)
                    (markCollectionPending l g (au_token c) record' (sr_pendingAt w)))
                 (SendDynamicFeeTransaction (sr_client w) (sr_ctxErr w) (sr_budget w)
                    (au_dataServiceAddress c) (Some 0) calldata (au_txOpts c))
                 (\<lambda>result txErr. remote (sr_mark w) (sr_lost w)
                    (markCollectionRetryable l g (au_token c) record' (resultTxHash (sr_client w) result)
                       (Error_text txErr) (sr_markAt w)))
                 (\<lambda>result. remote (sr_mark w) (sr_lost w)
                    (markCollectionCollected l g (au_token c) record' (resultTxHash (sr_client w) result)
                       (sr_markAt w)))
                 st))"

subsection \<open>Which records a sweep takes\<close>

text \<open>\<open>time.Unix(0, int64(ns))\<close>, and \<open>Time.Sub\<close>, which saturates.\<close>

definition time_UnixNs :: "u64 \<Rightarrow> time" where
  "time_UnixNs ns = 62135596800 * 1000000000 + sint ns"

definition time_Sub :: "time \<Rightarrow> time \<Rightarrow> int" where
  "time_Sub t u = max (- (2 ^ 63)) (min (2 ^ 63 - 1) (t - u))"

definition collectDaemonMaxBackoff :: int where
  "collectDaemonMaxBackoff = 3600 * 1000000000"

text \<open>The loop of \<open>backoffFor\<close>, with the iterations left; a \<open>Duration\<close> is an \<open>int64\<close>.\<close>

fun backoff_loop :: "nat \<Rightarrow> int \<Rightarrow> int" where
  "backoff_loop 0 backoff = backoff"
| "backoff_loop (Suc n) backoff =
     (let backoff = i64 (backoff * 2) in
      if collectDaemonMaxBackoff \<le> backoff then collectDaemonMaxBackoff else backoff_loop n backoff)"

definition backoffFor :: "autoCollector \<Rightarrow> u64 \<Rightarrow> int" where
  "backoffFor c attempt = (if attempt < 1 then 0 else backoff_loop (unat attempt - 1) (au_backoffBase c))"

definition protoGRTBigInt :: "eth_lib \<Rightarrow> pb_GRT option \<Rightarrow> int option" where
  "protoGRTBigInt l value = (if value = None then None else Some (BigInt (GRT_ToNative (lib_fromBig l) value)))"

definition shouldCollect :: "eth_lib \<Rightarrow> autoCollector \<Rightarrow> time \<Rightarrow> pb_CollectionRecord \<Rightarrow> bool" where
  "shouldCollect l c now record' =
     (case protoGRTBigInt l (pc_ValueAggregate record') of
        None \<Rightarrow> False
      | Some value \<Rightarrow>
          if value < au_minValue c then False
          else if pc_State record' = COLLECTION_STATE_COLLECT_FAILED_RETRYABLE
          then if (ucast (pc_AttemptCount record') :: 32 word) \<ge> au_maxAttempts c then False
               else \<not> (time_Sub now (time_UnixNs (pc_UpdatedAtNs record')) < backoffFor c (pc_AttemptCount record'))
          else True)"

definition shouldReclaimPending :: "autoCollector \<Rightarrow> pb_CollectionRecord \<Rightarrow> time \<Rightarrow> bool" where
  "shouldReclaimPending c record' now =
     (if au_reclaimAfter c \<le> 0 then False
      else if pc_State record' \<noteq> COLLECTION_STATE_COLLECT_PENDING then False
      else time_Sub now (time_UnixNs (pc_UpdatedAtNs record')) \<ge> au_reclaimAfter c)"

subsection \<open>Sweeps\<close>

text \<open>\<open>Duration.String\<close>: hours, minutes and seconds, or one smaller unit below a second.\<close>

definition frac_text :: "nat \<Rightarrow> nat \<Rightarrow> string" where
  "frac_text prec r =
     (let ds = dec_string r; ds = TrimRight0 (replicate (prec - length ds) CHR ''0'' @ ds)
      in if r = 0 then [] else CHR ''.'' # ds)"

definition Duration_String :: "int \<Rightarrow> string" where
  "Duration_String d =
     (let u = nat \<bar>d\<bar>; s = u div 1000000000; m = s div 60; h = m div 60 in
      if u = 0 then ''0s''
      else (if d < 0 then ''-'' else []) @
        (if u < 1000 then dec_string u @ ''ns''
         else if u < 1000000
         then dec_string (u div 1000) @ frac_text 3 (u mod 1000) @ [char_of (0xC2 :: nat), char_of (0xB5 :: nat)] @ ''s''
         else if u < 1000000000 then dec_string (u div 1000000) @ frac_text 6 (u mod 1000000) @ ''ms''
         else (if h > 0 then dec_string h @ ''h'' else []) @
              (if m > 0 then dec_string (m mod 60) @ ''m'' else []) @
              dec_string (s mod 60) @ frac_text 9 (u mod 1000000000) @ ''s''))"

text \<open>
  The surroundings of a sweep: what the network does to each list call, the order in which the
  repository lists its records, the clock when the filter looks at a record, whether the context
  was cancelled before each record, and the surroundings of each settlement and each reclaim.
\<close>

record sweep_env =
  se_list :: "nat \<Rightarrow> delivery"
  se_lost :: "connect_code \<times> go_error"
  se_order :: "string list"
  se_now :: "pb_CollectionRecord \<Rightarrow> time"
  se_cancelled :: "nat \<Rightarrow> bool"
  se_settle :: "nat \<Rightarrow> surroundings"
  se_reclaimList :: delivery
  se_reclaimNow :: time
  se_reclaimCancelled :: "nat \<Rightarrow> bool"
  se_reclaim :: "nat \<Rightarrow> delivery"
  se_reclaimAt :: "nat \<Rightarrow> time"

definition list_state ::
  "eth_lib \<Rightarrow> Gateway \<Rightarrow> autoCollector \<Rightarrow> string list \<Rightarrow> delivery \<Rightarrow> connect_code \<times> go_error \<Rightarrow> pb_CollectionState \<Rightarrow>
   GatewayState \<Rightarrow> pb_CollectionRecord list rpc" where
  "list_state l g c order d lost state st =
     fst (remote d lost
       (\<lambda>st. (ListCollections l g order (bearer (au_token c))
          \<lparr>lcq_Limit = 500, lcq_SessionId = [], lcq_State = state, lcq_Payer = None,
           lcq_ServiceProvider = None, lcq_DataService = None, lcq_CollectionId = []\<rparr> st, st)) st)"

definition listEligible ::
  "eth_lib \<Rightarrow> Gateway \<Rightarrow> autoCollector \<Rightarrow> sweep_env \<Rightarrow> GatewayState \<Rightarrow> pb_CollectionRecord list rpc" where
  "listEligible l g c e st =
     bind_rpc (list_state l g c (se_order e) (se_list e 0) (se_lost e) COLLECTION_STATE_COLLECTIBLE st)
       (\<lambda>collectible.
     bind_rpc (list_state l g c (se_order e) (se_list e 1) (se_lost e) COLLECTION_STATE_COLLECT_FAILED_RETRYABLE st)
       (\<lambda>retryable.
         Inr (filter (\<lambda>r. shouldCollect l c (se_now e r) r) collectible @
              filter (\<lambda>r. shouldCollect l c (se_now e r) r) retryable)))"

fun reclaim_loop ::
  "eth_lib \<Rightarrow> Gateway \<Rightarrow> autoCollector \<Rightarrow> sweep_env \<Rightarrow> nat \<Rightarrow> pb_CollectionRecord list \<Rightarrow> GatewayState \<Rightarrow> GatewayState" where
  "reclaim_loop l g c e k [] st = st"
| "reclaim_loop l g c e k (r # rs) st =
     (if se_reclaimCancelled e k then st
      else if \<not> shouldReclaimPending c r (se_reclaimNow e) then reclaim_loop l g c e (Suc k) rs st
      else reclaim_loop l g c e (Suc k) rs
             (snd (remote (se_reclaim e k) (se_lost e)
                (markCollectionRetryable l g (au_token c) r (pc_LastTxHash r)
                   (''reclaimed stale collect_pending after '' @ Duration_String (au_reclaimAfter c))
                   (se_reclaimAt e k)) st)))"

definition reclaimStalePending ::
  "eth_lib \<Rightarrow> Gateway \<Rightarrow> autoCollector \<Rightarrow> sweep_env \<Rightarrow> GatewayState \<Rightarrow> GatewayState" where
  "reclaimStalePending l g c e st =
     (if au_reclaimAfter c \<le> 0 then st
      else (case list_state l g c (se_order e) (se_reclaimList e) (se_lost e) COLLECTION_STATE_COLLECT_PENDING st of
              Inl _ \<Rightarrow> st
            | Inr records' \<Rightarrow> reclaim_loop l g c e 0 records' st))"

text \<open>The loop over the records: the transactions sent, the state, and whether it ran to the end.\<close>

fun collect_loop ::
  "eth_lib \<Rightarrow> Gateway \<Rightarrow> collect_abi \<Rightarrow> autoCollector \<Rightarrow> sweep_env \<Rightarrow> nat \<Rightarrow> pb_CollectionRecord list \<Rightarrow> GatewayState \<Rightarrow>
   signed_tx list \<times> GatewayState \<times> bool" where
  "collect_loop l g ab c e k [] st = ([], st, True)"
| "collect_loop l g ab c e k (r # rs) st =
     (if se_cancelled e k then ([], st, False)
      else (case collectOne l g ab c (se_settle e k) r st of
              (sent, st) \<Rightarrow>
                (case collect_loop l g ab c e (Suc k) rs st of
                   (sent', st, finished) \<Rightarrow> (sent @ sent', st, finished))))"

definition sweep ::
  "eth_lib \<Rightarrow> Gateway \<Rightarrow> collect_abi \<Rightarrow> autoCollector \<Rightarrow> sweep_env \<Rightarrow> GatewayState \<Rightarrow> signed_tx list \<times> GatewayState" where
  "sweep l g ab c e st =
     (case listEligible l g c e st of
        Inl _ \<Rightarrow> ([], st)
      | Inr records' \<Rightarrow>
          if records' = [] then ([], st)
          else (case collect_loop l g ab c e 0 records' st of
                  (sent, st, finished) \<Rightarrow> (sent, if finished then reclaimStalePending l g c e st else st)))"

text \<open>The loop of the command: one sweep after the other, until it is told to stop.\<close>

fun sweeps ::
  "eth_lib \<Rightarrow> Gateway \<Rightarrow> collect_abi \<Rightarrow> autoCollector \<Rightarrow> sweep_env list \<Rightarrow> GatewayState \<Rightarrow> signed_tx list \<times> GatewayState" where
  "sweeps l g ab c [] st = ([], st)"
| "sweeps l g ab c (e # es) st =
     (case sweep l g ab c e st of
        (sent, st) \<Rightarrow> (case sweeps l g ab c es st of (sent', st) \<Rightarrow> (sent @ sent', st)))"

subsection \<open>A register of settlements and its client\<close>

text \<open>
  What a settlement can leave behind for its entry: nothing happened; the confirmation of the
  pending mark was lost; the transaction was handed over and the mark of its outcome was lost or
  made.
\<close>

definition settle_outcome ::
  "delivery \<Rightarrow> delivery \<Rightarrow> int \<Rightarrow> send_out \<Rightarrow> settlement option \<Rightarrow> settlement option \<Rightarrow> signed_tx list \<Rightarrow> bool" where
  "settle_outcome d d' v send before after sent \<longleftrightarrow>
     after = before \<and> sent = [] \<or>
     (\<exists>s. before = Some s \<and> sm_Value s = Some v \<and>
        sm_State s \<in> {CollectionStateCollectible, CollectionStateCollectFailedRetryable} \<and>
        (d = ReplyLost \<and> sent = [] \<and> after = Some (submitted s) \<or>
         d = Delivered \<and> sent = snd send \<and>
           after = Some (if d' = RequestLost then submitted s
                         else if snd (fst send) = None then settled (submitted s)
                         else failed (submitted s))))"

text \<open>The interface a settlement relies on: the three marks of one entry of the register.\<close>

locale settlement_register =
  fixes inv :: "'s \<Rightarrow> bool"
    and view :: "'s \<Rightarrow> settlements"
    and key :: CollectionKey
    and v :: int
    and pending :: "'s \<Rightarrow> 'a rpc \<times> 's"
    and collected :: "string \<Rightarrow> 's \<Rightarrow> 'a rpc \<times> 's"
    and retryable :: "string \<Rightarrow> string \<Rightarrow> 's \<Rightarrow> 'a rpc \<times> 's"
  assumes pending_spec: "inv st \<Longrightarrow> reply_code (fst (pending st)) = fst (spec_pending key v (view st)) \<and>
      view (snd (pending st)) = snd (spec_pending key v (view st)) \<and> inv (snd (pending st))"
    and collected_spec: "inv st \<Longrightarrow> tx \<noteq> [] \<Longrightarrow>
      view (snd (collected tx st)) = snd (spec_collected key v (view st)) \<and> inv (snd (collected tx st))"
    and retryable_spec: "inv st \<Longrightarrow> err \<noteq> [] \<Longrightarrow>
      view (snd (retryable tx err st)) = snd (spec_retryable key v (view st)) \<and> inv (snd (retryable tx err st))"
begin

lemma pending_cases:
  assumes "inv st" "pending st = (r, st')"
  shows "(\<exists>e. r = Inl e) \<and> view st' = view st \<or>
    (\<exists>x s. r = Inr x \<and> view st key = Some s \<and> sm_Value s = Some v \<and>
       sm_State s \<in> {CollectionStateCollectible, CollectionStateCollectFailedRetryable} \<and>
       view st' = (view st)(key \<mapsto> submitted s))"
  using pending_spec[OF assms(1)] assms(2)
  by (cases r) (auto simp: reply_code_def spec_pending_def spec_mark_def split: option.splits if_splits)

lemma marked:
  assumes "inv st" "view st key = Some (submitted s)" "sm_Value s = Some v"
  shows "tx \<noteq> [] \<Longrightarrow> view (snd (collected tx st)) = (view st)(key \<mapsto> settled (submitted s))"
    "err \<noteq> [] \<Longrightarrow> view (snd (retryable tx err st)) = (view st)(key \<mapsto> failed (submitted s))"
  using collected_spec[OF assms(1), of tx] retryable_spec[OF assms(1), of err tx] assms(2,3)
  by (simp_all add: spec_collected_def spec_retryable_def spec_mark_def submitted_def)

lemma settle_register:
  assumes "inv st" "snd (fst send) = None \<Longrightarrow> hash (fst (fst send)) \<noteq> []"
    "\<And>e. snd (fst send) = Some e \<Longrightarrow> text' e \<noteq> []"
    and out: "settle (remote d lost pending) send
      (\<lambda>r e. remote d' lost (retryable (hash r) (text' e))) (\<lambda>r. remote d' lost (collected (hash r))) st = (sent, st')"
  shows "inv st' \<and> (\<forall>k. k \<noteq> key \<longrightarrow> view st' k = view st k) \<and>
    settle_outcome d d' v send (view st key) (view st' key) sent"
proof -
  obtain p st1 where p: "pending st = (p, st1)" by fastforce
  have inv1: "inv st1" using pending_spec[OF assms(1)] p by simp
  obtain res err snt where send: "send = ((res, err), snt)" by (metis surj_pair)
  show ?thesis
  proof (cases d)
    case Delivered
    from pending_cases[OF assms(1) p] show ?thesis
    proof (elim disjE exE conjE)
      fix e assume "p = Inl e" "view st1 = view st"
      then show ?thesis using out p inv1 Delivered by (auto simp: settle_def remote_def settle_outcome_def)
    next
      fix x s assume s: "p = Inr x" "view st key = Some s" "sm_Value s = Some v"
          "sm_State s \<in> {CollectionStateCollectible, CollectionStateCollectFailedRetryable}"
          "view st1 = (view st)(key \<mapsto> submitted s)"
      have m: "err = None \<Longrightarrow> view (snd (collected (hash res) st1)) = (view st)(key \<mapsto> settled (submitted s)) \<and>
            inv (snd (collected (hash res) st1))"
          "\<And>e. err = Some e \<Longrightarrow> view (snd (retryable (hash res) (text' e) st1)) = (view st)(key \<mapsto> failed (submitted s)) \<and>
            inv (snd (retryable (hash res) (text' e) st1))"
        using marked[OF inv1 _ s(3)] assms(2,3) s(5) collected_spec[OF inv1] retryable_spec[OF inv1] send
        by simp_all
      show ?thesis
        using out s Delivered m inv1
        by (cases err; cases d') (auto simp: send settle_def remote_def p settle_outcome_def)
    qed
  next
    case RequestLost
    then show ?thesis using out assms(1) by (auto simp: settle_def remote_def settle_outcome_def)
  next
    case ReplyLost
    then show ?thesis
      using out inv1 pending_cases[OF assms(1) p] p by (auto simp: settle_def remote_def settle_outcome_def)
  qed
qed

end

text \<open>The operator API is such a register for every well-formed key and an administrator's token.\<close>

definition register_ok :: "eth_lib \<Rightarrow> Gateway \<Rightarrow> string \<Rightarrow> CollectionKey \<Rightarrow> int \<Rightarrow> bool" where
  "register_ok l g header key v \<longleftrightarrow>
     lib_ok l \<and> (\<exists>role. authorizeAdmin g header = Inr role) \<and> key_wf key \<and> 0 \<le> v \<and> v < 2 ^ 256"

lemma register_marks:
  assumes "register_ok l g header key v"
  shows "refines_mark l st (MarkCollectionPending l g header (pending_request l key v tx) t st)
      (spec_pending key v (settlements_of l st))"
    "tx \<noteq> [] \<Longrightarrow> refines_mark l st (MarkCollectionCollected l g header (collected_request l key v tx amount) t st)
      (spec_collected key v (settlements_of l st))"
    "err \<noteq> [] \<Longrightarrow> refines_mark l st (MarkCollectionRetryable l g header (retryable_request l key v tx err) t st)
      (spec_retryable key v (settlements_of l st))"
  using assms mark_refines[of l g header _ key v] by (auto simp: register_ok_def)

interpretation operator_api: settlement_register "\<lambda>_. register_ok l g header key v" "settlements_of l" key v
  "MarkCollectionPending l g header (pending_request l key v []) t"
  "\<lambda>tx. MarkCollectionCollected l g header (collected_request l key v tx None) t'"
  "\<lambda>tx err. MarkCollectionRetryable l g header (retryable_request l key v tx err) t'"
  for l g header key v t t'
  using register_marks[of l g header key v] by unfold_locales (simp_all add: refines_mark_def)


subsection \<open>One settlement, on every branch\<close>

text \<open>
  What is relied on of the client library: the text of a hash is not empty, and the hash of a
  signed transaction is not the zero hash.
\<close>

definition client_ok :: "ethclient \<Rightarrow> bool" where
  "client_ok ec \<longleftrightarrow> (\<forall>h. ec_hashHex ec h \<noteq> []) \<and>
     (\<forall>tx chain pk t. ec_SignTx ec tx chain pk = Inr t \<longrightarrow> sg_Hash t \<noteq> zero_hash)"

text \<open>The collector refuses \<open>--dry-run\<close> and always waits for the receipt.\<close>

definition collector_ok :: "autoCollector \<Rightarrow> bool" where
  "collector_ok c \<longleftrightarrow> \<not> to_DryRun (au_txOpts c) \<and> \<not> to_NoWait (au_txOpts c)"

lemma literal_text [simp]:
  "f \<noteq> [] \<Longrightarrow> hd f \<noteq> CHR ''%'' \<Longrightarrow> Error_text (Errorf f args w) \<noteq> []"
  by (cases "(f, args, [] :: string)" rule: expand_verbs.cases; cases w) auto

lemma wait_error_text: "WaitReceipt ec ce b h t p = Inl e \<Longrightarrow> Error_text e \<noteq> []"
  using wait_loop_ends[of 0 "min b (nat (receipt_timeout t div receipt_poll p))" ec h ce]
  by (auto simp: WaitReceipt_def wait_ends_def)

lemma submit_error_text:
  "submit_and_wait ec ce b opts mk r = ((res, Some e), sent) \<Longrightarrow> Error_text e \<noteq> []"
  by (auto simp: submit_and_wait_def send_fails_def Let_def dest: wait_error_text split: sum.splits if_splits)

lemma missing_error_text: "missing_option opts = Some e \<Longrightarrow> Error_text e \<noteq> []"
  by (auto simp: missing_option_def split: if_splits)

lemma choose_error_text:
  "choose_gas ec opts dest v d = Inl e \<Longrightarrow> Error_text e \<noteq> []"
  "choose_tip ec opts = Inl e \<Longrightarrow> Error_text e \<noteq> []"
  "choose_max_fee ec opts tip = Inl e \<Longrightarrow> Error_text e \<noteq> []"
  by (auto simp: choose_gas_def choose_tip_def choose_max_fee_def split: if_splits sum.splits option.splits)

lemmas error_texts = submit_error_text missing_error_text choose_error_text

lemma send_error_text:
  assumes "SendDynamicFeeTransaction ec ce b dest value data opts = ((res, Some e), sent)"
  shows "Error_text e \<noteq> []"
  using assms
  by (auto simp: SendDynamicFeeTransaction_def SendLegacyTransaction_def send_fails_def Let_def
      dest: error_texts split: if_splits option.splits sum.splits)

lemma send_hash_text:
  assumes "client_ok ec" "\<not> to_DryRun opts"
    "SendDynamicFeeTransaction ec ce b dest value data opts = ((res, None), sent)"
  shows "resultTxHash ec res \<noteq> []"
proof -
  obtain r t tx where "res = Some r" "sent = [t]" "tr_Hash r = sg_Hash t"
      "ec_SignTx ec tx (the (to_ChainID opts)) (the (to_PrivateKey opts)) = Inr t"
    using SendDynamicFeeTransaction_ok[of ec opts dest "value" data ce b] assms(2,3)
    by (fastforce simp: sent_ok_def)
  then show ?thesis using assms(1) by (auto simp: resultTxHash_def client_ok_def)
qed

lemma marks_wire:
  assumes "cr_ValueAggregate r = Some v"
  shows "markCollectionPending l g token (collectionRecordToProto (lib_fromBig l) r) now =
      MarkCollectionPending l g (bearer token) (pending_request l (cr_Key r) v []) now"
    "markCollectionCollected l g token (collectionRecordToProto (lib_fromBig l) r) tx now =
      MarkCollectionCollected l g (bearer token) (collected_request l (cr_Key r) v tx None) now"
    "markCollectionRetryable l g token (collectionRecordToProto (lib_fromBig l) r) tx err now =
      MarkCollectionRetryable l g (bearer token) (retryable_request l (cr_Key r) v tx err) now"
  using assms
  by (simp_all add: markCollectionPending_def markCollectionCollected_def markCollectionRetryable_def
      collectionRecordToProto_def pending_request_def collected_request_def retryable_request_def)

definition collect_send :: "autoCollector \<Rightarrow> surroundings \<Rightarrow> bytes \<Rightarrow> send_out" where
  "collect_send c w calldata =
     SendDynamicFeeTransaction (sr_client w) (sr_ctxErr w) (sr_budget w) (au_dataServiceAddress c) (Some 0)
       calldata (au_txOpts c)"

lemma collectOne_outcome:
  assumes "register_ok l g (bearer (au_token c)) (cr_Key r) v" "cr_ValueAggregate r = Some v"
    "client_ok (sr_client w)" "\<not> to_DryRun (au_txOpts c)"
    and out: "collectOne l g ab c w (collectionRecordToProto (lib_fromBig l) r) st = (sent, st')"
  shows "(\<forall>k. k \<noteq> cr_Key r \<longrightarrow> settlements_of l st' k = settlements_of l st k) \<and>
    (st' = st \<and> sent = [] \<or>
     (\<exists>signed' calldata.
        validateProviderCollectRecord l (ec_addressHex (sr_client w))
          (Some (collectionRecordToProto (lib_fromBig l) r)) (au_providerAddress c) (au_dataServiceAddress c) =
          Inr signed' \<and>
        PackQueryFeeCollect ab (Some signed') (au_cutPPM c) = Inr calldata \<and>
        settle_outcome (sr_pending w) (sr_mark w) v (collect_send c w calldata)
          (settlements_of l st (cr_Key r)) (settlements_of l st' (cr_Key r)) sent))"
proof (cases "validateProviderCollectRecord l (ec_addressHex (sr_client w))
    (Some (collectionRecordToProto (lib_fromBig l) r)) (au_providerAddress c) (au_dataServiceAddress c)")
  case (Inl e)
  then show ?thesis using out by (simp add: collectOne_def)
next
  case v: (Inr signed')
  show ?thesis
  proof (cases "PackQueryFeeCollect ab (Some signed') (au_cutPPM c)")
    case (Inl e)
    then show ?thesis using out v by (simp add: collectOne_def)
  next
    case (Inr calldata)
    have "snd (fst (collect_send c w calldata)) = None \<Longrightarrow>
        resultTxHash (sr_client w) (fst (fst (collect_send c w calldata))) \<noteq> []"
      "\<And>e. snd (fst (collect_send c w calldata)) = Some e \<Longrightarrow> Error_text e \<noteq> []"
      unfolding collect_send_def
      by (rule send_hash_text[OF assms(3,4)] send_error_text; simp add: prod_eq_iff)+
    note r = operator_api.settle_register[OF assms(1), of "collect_send c w calldata"
        "resultTxHash (sr_client w)" Error_text, OF this]
    show ?thesis using out v Inr r[of "sr_pending w" "sr_lost w" "sr_pendingAt w" "sr_mark w"
        "sr_markAt w" st sent st'] by (auto simp: collectOne_def marks_wire[OF assms(2)] collect_send_def)
  qed
qed


text \<open>A voucher that has a place on the wire, stored under the key it determines.\<close>

definition stored_ok :: "CollectionRecord \<Rightarrow> bool" where
  "stored_ok r \<longleftrightarrow> record_ok r \<and>
     (\<exists>sr m. cr_SignedRAV r = Some sr \<and> Message sr = Some m \<and> wf_RAV m \<and> length (Signature sr) = 65)"

lemma stored_okD:
  assumes "stored_ok r"
  obtains sr m v where "cr_SignedRAV r = Some sr" "Message sr = Some m" "wf_RAV m" "length (Signature sr) = 65"
    "cr_ValueAggregate r = Some v" "ValueAggregate m = Some v" "0 \<le> v" "v < 2 ^ 256" "key_wf (cr_Key r)"
    "cr_Key r = collectionKeyFromRAV (ck_SessionID (cr_Key r)) m"
proof -
  obtain sr m where m: "cr_SignedRAV r = Some sr" "Message sr = Some m" "wf_RAV m" "length (Signature sr) = 65"
    and ok: "record_ok r" using assms by (auto simp: stored_ok_def)
  from ok m(1,2) obtain v where v: "ValueAggregate m = Some v" "cr_ValueAggregate r = Some v"
    "cr_Key r = collectionKeyFromRAV (ck_SessionID (cr_Key r)) m" "ck_SessionID (cr_Key r) \<noteq> []"
    by (auto simp: record_ok_def collectionKeyFromRAV_def)
  have "key_wf (cr_Key r)"
    using m(3) v(4) by (subst v(3)) (simp add: key_wf_def wf_RAV_def collectionKeyFromRAV_def)
  then show thesis using that[OF m v(2,1) _ _ _ v(3)] m(3) v(1) by (auto simp: wf_RAV_def)
qed

lemma validated_voucher:
  assumes "lib_ok l" "stored_ok r"
    "validateProviderCollectRecord l hx (Some (collectionRecordToProto (lib_fromBig l) r)) pa da = Inr signed'"
  shows "cr_SignedRAV r = Some signed' \<and> da = BytesToAddress (DataService (the (Message signed')))"
proof -
  obtain sr m v where r: "cr_SignedRAV r = Some sr" "Message sr = Some m" "wf_RAV m" "length (Signature sr) = 65"
    by (rule stored_okD[OF assms(2)])
  have sr: "sr = \<lparr>Message = Some m, Signature = Signature sr\<rparr>" using r(2) by simp
  have "ProtoSignedRAVToHorizon (lib_fromBig l) (lib_newSig l) (HorizonSignedRAVToProto (lib_fromBig l) (Some sr)) =
      Inr (Some sr)"
    using ProtoSignedRAV_roundtrip[OF lib_okD(1,2)[OF assms(1)] r(3,4)] sr by simp
  then show ?thesis
    using assms(3) r(1)
    by (auto simp: validateProviderCollectRecord_def collectionRecordToProto_def Let_def
        split: if_splits option.splits)
qed

text \<open>A transaction that settles a voucher: the collect call to the data service, mined.\<close>

definition settles_voucher :: "collect_abi \<Rightarrow> autoCollector \<Rightarrow> surroundings \<Rightarrow> SignedRAV \<Rightarrow> signed_tx \<Rightarrow> bool" where
  "settles_voucher ab c w sr t \<longleftrightarrow>
     (\<exists>tx. ec_SignTx (sr_client w) tx (the (to_ChainID (au_txOpts c))) (the (to_PrivateKey (au_txOpts c))) = Inr t \<and>
        tx_To tx = au_dataServiceAddress c \<and> tx_Value tx = 0 \<and>
        PackQueryFeeCollect ab (Some sr) (au_cutPPM c) = Inr (tx_Data tx))"

definition mined :: "surroundings \<Rightarrow> signed_tx \<Rightarrow> bool" where
  "mined w t \<longleftrightarrow> (\<exists>j rc. ec_TransactionReceipt (sr_client w) j (sg_Hash t) = Inr rc \<and> rcpt_Status rc \<noteq> 0)"

lemma collect_send_props:
  assumes "collector_ok c" "PackQueryFeeCollect ab (Some sr) (au_cutPPM c) = Inr calldata"
  shows "length (snd (collect_send c w calldata)) \<le> 1"
    "t \<in> set (snd (collect_send c w calldata)) \<Longrightarrow> settles_voucher ab c w sr t"
    "snd (fst (collect_send c w calldata)) = None \<Longrightarrow> \<exists>t. snd (collect_send c w calldata) = [t] \<and> mined w t"
  using SendDynamicFeeTransaction_ok[of "sr_client w" "au_txOpts c" "au_dataServiceAddress c" "Some 0" calldata
      "sr_ctxErr w" "sr_budget w"] assms
  unfolding collect_send_def[symmetric] sent_ok_def collector_ok_def asked_tx_def
  by (auto simp: settles_voucher_def mined_def split_beta)

text \<open>
  C7: A record is collected only by a mined transaction, and every failure leaves a known state
  (\<open>collectOne\<close>). Whatever the network, the node and the packer do, settling a stored record
  changes no other record and sends at most one transaction, which carries the voucher of that
  record to the data service; a transaction is sent only after the record was marked as pending
  with another attempt counted, and the record is then pending, collected or retryable. A record
  becomes collected only when its transaction has a receipt of success. When no call is lost, a
  sent transaction leaves the record collected if it succeeded and retryable if it failed.
\<close>

theorem collect_settles:
  assumes "lib_ok l" "authorizeAdmin g (bearer (au_token c)) = Inr role" "stored_ok r" "collector_ok c"
    "client_ok (sr_client w)"
    "records (gs_repo st) (collectionMapKey (lib_pretty l) (cr_Key r)) = Some r"
    "collectOne l g ab c w (collectionRecordToProto (lib_fromBig l) r) st = (sent, st')"
  shows "(\<forall>k. k \<noteq> cr_Key r \<longrightarrow> settlements_of l st' k = settlements_of l st k) \<and>
    length sent \<le> 1 \<and> (\<forall>t \<in> set sent. settles_voucher ab c w (the (cr_SignedRAV r)) t) \<and>
    (\<exists>s'. settlements_of l st' (cr_Key r) = Some s' \<and> sm_Value s' = cr_ValueAggregate r \<and>
       (sent \<noteq> [] \<longrightarrow> sm_Attempts s' = i64 (cr_AttemptCount r + 1) \<and>
          sm_State s' \<noteq> CollectionStateCollectible) \<and>
       (sm_State s' = CollectionStateCollected \<longrightarrow>
          cr_State r = CollectionStateCollected \<or> (\<exists>t. sent = [t] \<and> mined w t)) \<and>
       (\<forall>calldata. PackQueryFeeCollect ab (cr_SignedRAV r) (au_cutPPM c) = Inr calldata \<and> sent \<noteq> [] \<and>
          sr_mark w = Delivered \<longrightarrow>
          sm_State s' = (if snd (fst (collect_send c w calldata)) = None
                         then CollectionStateCollected else CollectionStateCollectFailedRetryable)))"
proof -
  obtain v where v: "cr_ValueAggregate r = Some v" "0 \<le> v" "v < 2 ^ 256" "key_wf (cr_Key r)"
    by (rule stored_okD[OF assms(3)])
  have ok: "register_ok l g (bearer (au_token c)) (cr_Key r) v" using assms(1,2) v by (auto simp: register_ok_def)
  have view: "settlements_of l st (cr_Key r) = Some (settlement_of r)" using assms(6) by (simp add: settlements_of_def)
  have dry: "\<not> to_DryRun (au_txOpts c)" using assms(4) by (simp add: collector_ok_def)
  note o = collectOne_outcome[OF ok v(1) assms(5) dry assms(7)]
  show ?thesis
  proof (cases "st' = st \<and> sent = []")
    case True
    then show ?thesis using view by auto
  next
    case False
    with o obtain sr calldata where c: "validateProviderCollectRecord l (ec_addressHex (sr_client w))
          (Some (collectionRecordToProto (lib_fromBig l) r)) (au_providerAddress c) (au_dataServiceAddress c) = Inr sr"
        "PackQueryFeeCollect ab (Some sr) (au_cutPPM c) = Inr calldata"
        "settle_outcome (sr_pending w) (sr_mark w) v (collect_send c w calldata)
          (Some (settlement_of r)) (settlements_of l st' (cr_Key r)) sent" unfolding view by blast
    have sr: "cr_SignedRAV r = Some sr" using validated_voucher[OF assms(1,3) c(1)] by simp
    note p = collect_send_props[OF assms(4) c(2), where w = w]
    from c(3) have sent: "sent = [] \<or> sent = snd (collect_send c w calldata)" by (auto simp: settle_outcome_def)
    then have "length sent \<le> 1 \<and> (\<forall>t \<in> set sent. settles_voucher ab c w (the (cr_SignedRAV r)) t)"
      using p sr by auto
    moreover have "\<exists>s'. settlements_of l st' (cr_Key r) = Some s' \<and> sm_Value s' = cr_ValueAggregate r \<and>
       (sent \<noteq> [] \<longrightarrow> sm_Attempts s' = i64 (cr_AttemptCount r + 1) \<and> sm_State s' \<noteq> CollectionStateCollectible) \<and>
       (sm_State s' = CollectionStateCollected \<longrightarrow>
          cr_State r = CollectionStateCollected \<or> (\<exists>t. sent = [t] \<and> mined w t)) \<and>
       (sent \<noteq> [] \<and> sr_mark w = Delivered \<longrightarrow>
          sm_State s' = (if snd (fst (collect_send c w calldata)) = None
                         then CollectionStateCollected else CollectionStateCollectFailedRetryable))"
      using c(3) p(3) v(1) unfolding settle_outcome_def
      by (auto simp: submitted_def settled_def failed_def split: if_splits)
    ultimately show ?thesis using o c(2) sr by auto
  qed
qed


definition sample_client :: ethclient where
  "sample_client =
     \<lparr>ec_EstimateGas = (\<lambda>_. Inr 21000), ec_SuggestGasTipCap = Inr 2, ec_BaseFee = Inr (Some 10),
      ec_SuggestGasPrice = Inr 5, ec_PendingNonceAt = (\<lambda>_. Inr 7),
      ec_SignTx = (\<lambda>tx _ _. Inr \<lparr>sg_Tx = tx, sg_Hash = replicate 32 9\<rparr>),
      ec_SendTransaction = (\<lambda>_. Inr ()),
      ec_TransactionReceipt = (\<lambda>_ _. Inr \<lparr>rcpt_Status = 1, rcpt_BlockNumber = 1\<rparr>),
      ec_NotFound = Sentinel ''not found'', ec_addressHex = hex_EncodeToString, ec_hashHex = (\<lambda>h. ''0x'' @ hex_EncodeToString h)\<rparr>"

definition sample_surroundings :: surroundings where
  "sample_surroundings =
     \<lparr>sr_pending = Delivered, sr_pendingAt = 5, sr_mark = Delivered, sr_markAt = 6,
      sr_lost = (CodeUnavailable, Sentinel ''lost''), sr_client = sample_client,
      sr_ctxErr = Sentinel ''context deadline exceeded'', sr_budget = 10\<rparr>"

definition sample_abi :: collect_abi where
  "sample_abi = \<lparr>abi_encode = (\<lambda>_ _ _. Inr [1]), abi_collect = (\<lambda>_ _ data. Inr data)\<rparr>"

definition sample_collector :: autoCollector where
  "sample_collector =
     \<lparr>au_token = ''a'', au_dataServiceAddress = replicate 20 4, au_providerAddress = replicate 20 3,
      au_cutPPM = 0,
      au_txOpts = \<lparr>to_ChainID = Some 1, to_From = replicate 20 3, to_PrivateKey = Some [1], to_TxType = [],
        to_GasLimit = 0, to_MaxFeePerGas = None, to_MaxPriorityFeePerGas = None, to_GasPrice = None,
        to_ReceiptTimeout = 0, to_ReceiptPollInterval = 0, to_NoWait = False, to_DryRun = False\<rparr>,
      au_minValue = 0, au_maxAttempts = 5, au_backoffBase = 60 * 1000000000, au_reclaimAfter = 1\<rparr>"

definition collectible_record :: CollectionRecord where
  "collectible_record =
     \<lparr>cr_Key = sample_key, cr_SignedRAV = sample_signed 100, cr_ValueAggregate = Some 100,
      cr_State = CollectionStateCollectible, cr_AttemptCount = 0, cr_LastTxHash = [], cr_LastError = [],
      cr_CollectedAmount = None, cr_CreatedAt = 1, cr_UpdatedAt = 1\<rparr>"

definition collectible_state :: GatewayState where
  "collectible_state =
     set_repo (NewInMemoryRepository\<lparr>records := [collectionMapKey hex_EncodeToString sample_key \<mapsto> collectible_record]\<rparr>)
       owing_state"

lemma sample_client_ok: "client_ok sample_client"
  by (simp add: client_ok_def sample_client_def zero_hash_def replicate_eq_replicate)

lemma sample_collector_ok: "collector_ok sample_collector"
  by (simp add: collector_ok_def sample_collector_def)

lemma sample_stored_ok: "stored_ok collectible_record"
  by (simp add: stored_ok_def record_ok_def collectible_record_def sample_key_def sample_signed_def
      sample_RAV_def wf_RAV_def)

lemma sample_bearer: "authorizeAdmin operator_gateway (bearer ''a'') = Inr RoleAdminWrite"
  using operator_admin by (simp add: bearer_def)

lemma sample_validated:
  "validateProviderCollectRecord lib_std hx (Some (collectionRecordToProto FromBig_std collectible_record))
     (replicate 20 3) (replicate 20 4) = Inr (the (sample_signed 100))"
proof -
  let ?m = "sample_RAV\<lparr>ValueAggregate := Some 100\<rparr>"
  have "wf_RAV ?m" by (simp add: wf_RAV_def sample_RAV_def)
  from ProtoSignedRAV_roundtrip[OF FromBig_std_ok NewSig_std_ok this, of "replicate 65 7"]
  have "ProtoSignedRAVToHorizon FromBig_std NewSig_std (HorizonSignedRAVToProto FromBig_std (sample_signed 100)) =
      Inr (sample_signed 100)" by (simp add: sample_signed_def)
  moreover have "GRT_ToBigInt FromBig_std (Some (GRTFromBigInt FromBig_std (Some 100))) = 100"
    by (rule GRT_ToBigInt_FromBigInt[OF FromBig_std_ok]) simp_all
  ultimately show ?thesis
    by (simp add: validateProviderCollectRecord_def collectionRecordToProto_def collectible_record_def
        isProviderCollectableState_def repositoryCollectionStateToProto_def HorizonSignedRAVToProto_def
        validateCollectionKeyMatchesRAV_def protoAddressMatchesEth_def collectionKeyToProto_def sample_key_def
        sample_RAV_def sample_signed_def AddressFromEth_def ToEth_def AddressesEqual_def BytesToAddress_def Let_def)
qed


lemma sample_send:
  "\<exists>res t. collect_send sample_collector sample_surroundings [1] = ((res, None), [t])"
  by (simp add: collect_send_def sample_collector_def sample_surroundings_def sample_client_def
      SendDynamicFeeTransaction_def missing_option_def choose_gas_def choose_tip_def choose_max_fee_def
      submit_and_wait_def WaitReceipt_def wait_loop.simps Let_def)

lemma sample_pack: "PackQueryFeeCollect sample_abi (sample_signed 100) 0 = Inr [1]"
  by (simp add: PackQueryFeeCollect_def EncodeDataServiceCollectData_def sample_abi_def sample_signed_def)

lemma sample_view: "settlements_of lib_std collectible_state sample_key = Some (settlement_of collectible_record)"
  by (simp add: settlements_of_def collectible_state_def)

lemma sample_pending_granted:
  "\<exists>x st1. MarkCollectionPending lib_std operator_gateway (bearer ''a'') (pending_request lib_std sample_key 100 []) t
     collectible_state = (Inr x, st1)"
proof -
  have "register_ok lib_std operator_gateway (bearer ''a'') sample_key 100"
    using sample_bearer sample_key_wf lib_std_ok by (simp add: register_ok_def)
  from register_marks(1)[OF this, of collectible_state "[]" t]
  have "reply_code (fst (MarkCollectionPending lib_std operator_gateway (bearer ''a'')
      (pending_request lib_std sample_key 100 []) t collectible_state)) = None"
    by (simp add: refines_mark_def spec_pending_def spec_mark_def sample_view collectible_record_def)
  then show ?thesis
    by (cases "MarkCollectionPending lib_std operator_gateway (bearer ''a'')
      (pending_request lib_std sample_key 100 []) t collectible_state")
      (auto simp: reply_code_def split: sum.splits)
qed

lemma sample_collects:
  "fst (collectOne lib_std operator_gateway sample_abi sample_collector sample_surroundings
     (collectionRecordToProto FromBig_std collectible_record) collectible_state) \<noteq> []"
proof -
  obtain res t where s: "collect_send sample_collector sample_surroundings [1] = ((res, None), [t])"
    using sample_send by blast
  obtain x st1 where p: "MarkCollectionPending lib_std operator_gateway (bearer ''a'')
      (pending_request lib_std sample_key 100 []) 5 collectible_state = (Inr x, st1)"
    using sample_pending_granted by blast
  have m: "markCollectionPending lib_std operator_gateway ''a'' (collectionRecordToProto FromBig_std collectible_record) 5
      collectible_state = (Inr x, st1)"
    using marks_wire(1)[of collectible_record 100 lib_std operator_gateway "''a''" 5] p
    by (simp add: collectible_record_def)
  show ?thesis
    using s m sample_validated sample_pack
    by (simp add: collectOne_def collect_send_def sample_surroundings_def sample_collector_def settle_def remote_def
        sample_signed_def)
qed

theorem collect_settles_witness:
  "\<exists>s'. settlements_of lib_std (snd (collectOne lib_std operator_gateway sample_abi sample_collector sample_surroundings
       (collectionRecordToProto FromBig_std collectible_record) collectible_state)) sample_key = Some s' \<and>
     sm_State s' = CollectionStateCollected \<and> sm_Attempts s' = 1"
proof -
  let ?out = "collectOne lib_std operator_gateway sample_abi sample_collector sample_surroundings
       (collectionRecordToProto FromBig_std collectible_record) collectible_state"
  have "records (gs_repo collectible_state) (collectionMapKey (lib_pretty lib_std) (cr_Key collectible_record)) =
      Some collectible_record"
    by (simp add: collectible_state_def collectible_record_def)
  note c = collect_settles[OF lib_std_ok _ sample_stored_ok sample_collector_ok _ this,
      of operator_gateway RoleAdminWrite sample_surroundings sample_abi "fst ?out" "snd ?out"]
  have "au_token sample_collector = ''a''" "sr_client sample_surroundings = sample_client"
    "sr_mark sample_surroundings = Delivered" "au_cutPPM sample_collector = 0"
    "cr_SignedRAV collectible_record = sample_signed 100" "cr_Key collectible_record = sample_key"
    "cr_AttemptCount collectible_record = 0"
    by (simp_all add: sample_collector_def sample_surroundings_def collectible_record_def)
  then show ?thesis
    using c sample_collects sample_send sample_bearer sample_client_ok sample_pack by (auto simp: in_i64_def)
qed


subsection \<open>Retries are bounded\<close>

text \<open>
  Every attempt is counted in the register. The sum of all counters bounds the transactions a run
  sends; the filter keeps each counter below the limit.
\<close>

definition tally :: "settlements \<Rightarrow> int" where
  "tally S = (\<Sum>k \<in> dom S. sm_Attempts (the (S k)))"

definition retry_inv :: "int \<Rightarrow> settlements \<Rightarrow> bool" where
  "retry_inv M S \<longleftrightarrow> finite (dom S) \<and> (\<forall>k s. S k = Some s \<longrightarrow> 0 \<le> sm_Attempts s \<and> sm_Attempts s \<le> M \<and>
     (sm_State s = CollectionStateCollectible \<longrightarrow> sm_Attempts s = 0))"

definition max_attempts :: "autoCollector \<Rightarrow> int" where
  "max_attempts c = max 1 (uint (au_maxAttempts c))"

text \<open>One step of a run on the register, with the number of transactions it sent.\<close>

definition tally_step :: "int \<Rightarrow> settlements \<Rightarrow> settlements \<Rightarrow> nat \<Rightarrow> bool" where
  "tally_step M S S' n \<longleftrightarrow>
     (retry_inv M S \<longrightarrow> retry_inv M S' \<and> dom S' = dom S \<and> tally S + int n \<le> tally S')"

lemma tally_step_refl [simp]: "tally_step M S S 0"
  by (simp add: tally_step_def)

lemma tally_step_trans: "tally_step M S S' n \<Longrightarrow> tally_step M S' S'' m \<Longrightarrow> tally_step M S S'' (n + m)"
  by (auto simp: tally_step_def)

lemma tally_upd:
  assumes "finite (dom S)" "S k = Some s"
  shows "tally (S(k \<mapsto> s')) = tally S - sm_Attempts s + sm_Attempts s'"
proof -
  have k: "k \<in> dom S" using assms(2) by auto
  have d: "dom (S(k \<mapsto> s')) = dom S" using k by auto
  have "tally (S(k \<mapsto> s')) = sm_Attempts s' + (\<Sum>j \<in> dom S - {k}. sm_Attempts (the (S j)))"
    unfolding tally_def d using assms(1) k by (subst sum.remove[of _ k]) (auto intro!: sum.cong)
  moreover have "tally S = sm_Attempts s + (\<Sum>j \<in> dom S - {k}. sm_Attempts (the (S j)))"
    unfolding tally_def using assms k by (subst sum.remove[of _ k]) auto
  ultimately show ?thesis by simp
qed

lemma tally_step_upd:
  assumes "S k = Some s" "retry_inv M S \<Longrightarrow> sm_Attempts s + int n \<le> sm_Attempts s' \<and> sm_Attempts s' \<le> M"
    "sm_State s' \<noteq> CollectionStateCollectible"
  shows "tally_step M S (S(k \<mapsto> s')) n"
  unfolding tally_step_def
proof
  assume inv: "retry_inv M S"
  then have "finite (dom S)" "0 \<le> sm_Attempts s" using assms(1) by (auto simp: retry_inv_def)
  moreover have "0 \<le> sm_Attempts s'" using calculation assms(2)[OF inv] by simp
  ultimately show "retry_inv M (S(k \<mapsto> s')) \<and> dom (S(k \<mapsto> s')) = dom S \<and> tally S + int n \<le> tally (S(k \<mapsto> s'))"
    using inv assms tally_upd[OF \<open>finite (dom S)\<close> assms(1), of s'] by (auto simp: retry_inv_def)
qed

lemma retry_invD:
  "retry_inv M S \<Longrightarrow> S k = Some s \<Longrightarrow> 0 \<le> sm_Attempts s \<and> sm_Attempts s \<le> M \<and>
     (sm_State s = CollectionStateCollectible \<longrightarrow> sm_Attempts s = 0)"
  by (simp add: retry_inv_def)

lemma tally_bounded:
  assumes "retry_inv M S" shows "tally S \<le> int (card (dom S)) * M" "0 \<le> tally S"
proof -
  show "tally S \<le> int (card (dom S)) * M"
    unfolding tally_def using assms by (intro sum_bounded_above) (auto simp: retry_inv_def)
  show "0 \<le> tally S" unfolding tally_def using assms by (intro sum_nonneg) (auto simp: retry_inv_def)
qed

lemma view_upd:
  assumes "\<forall>k. k \<noteq> key \<longrightarrow> settlements_of l st' k = settlements_of l st k" "settlements_of l st' key = Some s'"
  shows "settlements_of l st' = (settlements_of l st)(key \<mapsto> s')"
  using assms by auto

text \<open>A record the filter lets through has attempts left.\<close>

lemma shouldCollect_attempts:
  assumes "shouldCollect l c now (collectionRecordToProto (lib_fromBig l) r)"
    "cr_State r = CollectionStateCollectible \<and> cr_AttemptCount r = 0 \<or>
     cr_State r = CollectionStateCollectFailedRetryable"
    "0 \<le> cr_AttemptCount r" "cr_AttemptCount r \<le> max_attempts c"
  shows "i64 (cr_AttemptCount r + 1) = cr_AttemptCount r + 1 \<and> cr_AttemptCount r + 1 \<le> max_attempts c"
proof -
  have m: "uint (au_maxAttempts c) < 2 ^ 32" using uint_lt2p[of "au_maxAttempts c"] by simp
  have "cr_AttemptCount r < 2 ^ 32" using assms(4) m by (auto simp: max_attempts_def)
  moreover have "uint (ucast (word_of_int a :: 64 word) :: 32 word) = a" if "0 \<le> a" "a < 2 ^ 32" for a :: int
    using that by (simp add: uint_ucast_u64 unsigned_ucast_eq uint_word_of_int_eq take_bit_int_eq_self take_bit_take_bit)
  ultimately have "cr_State r = CollectionStateCollectFailedRetryable \<Longrightarrow> cr_AttemptCount r < uint (au_maxAttempts c)"
    using assms(1,3)
    by (auto simp: shouldCollect_def collectionRecordToProto_def repositoryCollectionStateToProto_def
        word_less_def not_le protoGRTBigInt_def word_le_def split: if_splits)
  then show ?thesis
    using assms(2,3) m by (auto simp: max_attempts_def intro!: i64_id simp: in_i64_def)
qed


text \<open>What every run of the collector is given.\<close>

definition run_ok :: "eth_lib \<Rightarrow> Gateway \<Rightarrow> autoCollector \<Rightarrow> bool" where
  "run_ok l g c \<longleftrightarrow>
     lib_ok l \<and> (\<exists>role. authorizeAdmin g (bearer (au_token c)) = Inr role) \<and> collector_ok c"

lemma run_register:
  assumes "run_ok l g c" "stored_ok r"
  obtains v where "register_ok l g (bearer (au_token c)) (cr_Key r) v" "cr_ValueAggregate r = Some v"
  using assms(1) stored_okD[OF assms(2)] by (metis register_ok_def run_ok_def)

lemma collectOne_tally:
  assumes "run_ok l g c" "stored_ok r" "client_ok (sr_client w)"
    "settlements_of l st (cr_Key r) = Some (settlement_of r)"
    "shouldCollect l c now (collectionRecordToProto (lib_fromBig l) r)"
    "collectOne l g ab c w (collectionRecordToProto (lib_fromBig l) r) st = (sent, st')"
  shows "tally_step (max_attempts c) (settlements_of l st) (settlements_of l st') (length sent) \<and>
    (\<forall>k. k \<noteq> cr_Key r \<longrightarrow> settlements_of l st' k = settlements_of l st k)"
proof -
  obtain v where v: "register_ok l g (bearer (au_token c)) (cr_Key r) v" "cr_ValueAggregate r = Some v"
    by (rule run_register[OF assms(1,2)])
  have ok: "collector_ok c" "\<not> to_DryRun (au_txOpts c)" using assms(1) by (simp_all add: run_ok_def collector_ok_def)
  note o = collectOne_outcome[OF v assms(3) ok(2) assms(6)]
  have "tally_step (max_attempts c) (settlements_of l st) (settlements_of l st') (length sent)"
  proof (cases "settlements_of l st' (cr_Key r) = settlements_of l st (cr_Key r) \<and> sent = []")
    case True
    then have "settlements_of l st' = settlements_of l st" using o by force
    then show ?thesis using True by simp
  next
    case False
    then have "\<not> (st' = st \<and> sent = [])" by auto
    then obtain sr calldata where p: "PackQueryFeeCollect ab (Some sr) (au_cutPPM c) = Inr calldata"
        and so: "settle_outcome (sr_pending w) (sr_mark w) v (collect_send c w calldata)
          (settlements_of l st (cr_Key r)) (settlements_of l st' (cr_Key r)) sent" using o by blast
    have len: "length sent \<le> 1"
      using so collect_send_props(1)[OF ok(1) p, of w] by (auto simp: settle_outcome_def)
    obtain s' where s': "settlements_of l st' (cr_Key r) = Some s'" "sm_Attempts s' = i64 (cr_AttemptCount r + 1)"
        "sm_State s' \<noteq> CollectionStateCollectible"
      and state: "cr_State r \<in> {CollectionStateCollectible, CollectionStateCollectFailedRetryable}"
      using so False assms(4) by (auto simp: settle_outcome_def submitted_def settled_def failed_def)
    have "sm_Attempts (settlement_of r) + int (length sent) \<le> sm_Attempts s' \<and> sm_Attempts s' \<le> max_attempts c"
      if "retry_inv (max_attempts c) (settlements_of l st)"
      using shouldCollect_attempts[OF assms(5)] retry_invD[OF that assms(4)] state s'(2) len by auto
    from tally_step_upd[of "settlements_of l st", OF assms(4) this s'(3)]
    show ?thesis using view_upd[OF _ s'(1), of st] o by simp
  qed
  then show ?thesis using o by blast
qed

lemma reclaim_tally:
  assumes "run_ok l g c" "stored_ok r" "err \<noteq> []"
  shows "tally_step M (settlements_of l st) (settlements_of l (snd (remote d lost
    (markCollectionRetryable l g (au_token c) (collectionRecordToProto (lib_fromBig l) r) tx err now) st))) 0"
proof -
  obtain v where v: "register_ok l g (bearer (au_token c)) (cr_Key r) v" "cr_ValueAggregate r = Some v"
    by (rule run_register[OF assms(1,2)])
  have "tally_step M (settlements_of l st) (snd (spec_retryable (cr_Key r) v (settlements_of l st))) 0"
    by (auto simp: spec_retryable_def spec_mark_def failed_def retry_inv_def intro!: tally_step_upd
        split: option.split)
  then show ?thesis
    using register_marks(3)[OF v(1) assms(3), of st tx now]
    by (cases d) (simp_all add: remote_def marks_wire[OF v(2)] refines_mark_def)
qed

text \<open>The records stay in order: every mark keeps key, voucher and value.\<close>

definition store_ok :: "eth_lib \<Rightarrow> GatewayState \<Rightarrow> bool" where
  "store_ok l st \<longleftrightarrow> (\<forall>k r. records (gs_repo st) k = Some r \<longrightarrow>
     stored_ok r \<and> k = collectionMapKey (lib_pretty l) (cr_Key r))"

lemma updateCollection_store:
  assumes "store_ok l st" "\<And>r r'. f r = Inr r' \<Longrightarrow> cr_Key r' = cr_Key r \<and> cr_SignedRAV r' = cr_SignedRAV r \<and>
    cr_ValueAggregate r' = cr_ValueAggregate r"
  shows "store_ok l (snd (mutation_reply l (updateCollection (lib_pretty l) key ev f (gs_repo st)) st))"
proof -
  have "stored_ok r' \<and> cr_Key r' = cr_Key r" if "f r = Inr r'" "stored_ok r" for r r'
    using assms(2)[OF that(1)] that(2) by (simp add: stored_ok_def record_ok_def)
  then show ?thesis
    using assms(1)
    by (auto simp: store_ok_def mutation_reply_def updateCollection_def Let_def split: option.splits sum.splits if_splits)
qed

lemma mark_store:
  assumes "store_ok l st"
  shows "store_ok l (snd (MarkCollectionPending l g h p now st))"
    "store_ok l (snd (MarkCollectionCollected l g h q now st))"
    "store_ok l (snd (MarkCollectionRetryable l g h x now st))"
  using assms
  by (auto simp: mark_defs CollectionMarkPending_def CollectionMarkCollected_def CollectionMarkFailedRetryable_def
      mark_pending_def mark_collected_def mark_failed_def Let_def intro!: updateCollection_store
      split: sum.split if_splits)

lemma remote_store: "store_ok l st \<Longrightarrow> store_ok l (snd (f st)) \<Longrightarrow> store_ok l (snd (remote d lost f st))"
  by (cases d) (simp_all add: remote_def)

lemma collectOne_store:
  assumes "store_ok l st" shows "store_ok l (snd (collectOne l g ab c w r st))"
proof -
  have "store_ok l (snd (remote d lost (markCollectionPending l g t r now) st))" for d lost t now
    by (rule remote_store[OF assms]) (simp add: markCollectionPending_def mark_store[OF assms])
  moreover have "store_ok l st1 \<Longrightarrow> store_ok l (snd (remote d lost (markCollectionCollected l g t r tx now) st1))"
    "store_ok l st1 \<Longrightarrow> store_ok l (snd (remote d lost (markCollectionRetryable l g t r tx err now) st1))"
    for d lost t tx err now st1
    by (rule remote_store; simp add: markCollectionCollected_def markCollectionRetryable_def mark_store)+
  ultimately show ?thesis
    using assms by (auto simp: collectOne_def settle_def split_beta split: sum.split option.split)
qed


text \<open>The records a list call returns.\<close>

lemma list_state_records:
  assumes "run_ok l g c" "protoCollectionStateToRepository s = Inr (Some state)"
    "list_state l g c order d lost s st = Inr rs" "distinct order" "store_ok l st"
  obtains cs where "rs = map (collectionRecordToProto (lib_fromBig l)) cs" "distinct (map cr_Key cs)"
    "\<And>r. r \<in> set cs \<Longrightarrow> stored_ok r \<and> cr_State r = state \<and>
       records (gs_repo st) (collectionMapKey (lib_pretty l) (cr_Key r)) = Some r"
proof -
  obtain role where role: "authorizeRead g (bearer (au_token c)) = Inr role"
    using assms(1) admin_reads by (auto simp: run_ok_def)
  let ?all = "List.map_filter (records (gs_repo st)) order"
  let ?cs = "take (operatorLimit 500) (filter (\<lambda>r. cr_State r = state) ?all)"
  have rs: "rs = map (collectionRecordToProto (lib_fromBig l)) ?cs"
    using assms(3) ListCollections_eq[OF role assms(2), of l order 500 st]
    by (cases d) (simp_all add: list_state_def remote_def take_map)
  have key: "collectionMapKey (lib_pretty l) (cr_Key r) = k" if "records (gs_repo st) k = Some r" for k r
    using assms(5) that by (simp add: store_ok_def)
  have "distinct (map cr_Key (List.map_filter (records (gs_repo st)) ks)) \<and>
      (\<forall>r \<in> set (List.map_filter (records (gs_repo st)) ks). collectionMapKey (lib_pretty l) (cr_Key r) \<in> set ks)"
    if "distinct ks" for ks
    using that
  proof (induction ks)
    case Nil
    then show ?case by (simp add: map_filter_simps)
  next
    case (Cons k ks)
    then show ?case
      using key[of k] by (cases "records (gs_repo st) k") (auto simp: map_filter_simps)
  qed
  then have "distinct (map cr_Key ?all)" using assms(4) by blast
  then have d: "distinct (map cr_Key ?cs)"
    by (simp only: take_map[symmetric] distinct_take distinct_map_filter)
  have "stored_ok r \<and> cr_State r = state \<and> records (gs_repo st) (collectionMapKey (lib_pretty l) (cr_Key r)) = Some r"
    if "r \<in> set ?cs" for r
  proof -
    have "r \<in> set (filter (\<lambda>r. cr_State r = state) ?all)" using that by (meson in_set_takeD)
    then obtain k where "records (gs_repo st) k = Some r" "cr_State r = state"
      by (auto simp: map_filter_def)
    then show ?thesis using key assms(5) by (auto simp: store_ok_def)
  qed
  then show thesis using that[OF rs d] by blast
qed

lemma collect_loop_tally:
  assumes "run_ok l g c" "\<And>j. client_ok (sr_client (se_settle e j))" "distinct (map cr_Key cs)" "store_ok l st"
    "\<And>r. r \<in> set cs \<Longrightarrow> stored_ok r \<and> settlements_of l st (cr_Key r) = Some (settlement_of r) \<and>
       (\<exists>now. shouldCollect l c now (collectionRecordToProto (lib_fromBig l) r))"
    "collect_loop l g ab c e k (map (collectionRecordToProto (lib_fromBig l)) cs) st = (sent, st', fin)"
  shows "tally_step (max_attempts c) (settlements_of l st) (settlements_of l st') (length sent) \<and> store_ok l st'"
  using assms(3-6)
proof (induction cs arbitrary: k st sent)
  case Nil
  then show ?case by simp
next
  case (Cons r cs)
  show ?case
  proof (cases "se_cancelled e k")
    case True
    then show ?thesis using Cons.prems by simp
  next
    case False
    obtain s1 st1 where one: "collectOne l g ab c (se_settle e k) (collectionRecordToProto (lib_fromBig l) r) st = (s1, st1)"
      by fastforce
    obtain s2 where rest: "collect_loop l g ab c e (Suc k) (map (collectionRecordToProto (lib_fromBig l)) cs) st1 =
        (s2, st', fin)" "sent = s1 @ s2"
      using Cons.prems(4) False one by (auto split: prod.splits)
    obtain now where r: "stored_ok r" "settlements_of l st (cr_Key r) = Some (settlement_of r)"
        "shouldCollect l c now (collectionRecordToProto (lib_fromBig l) r)" using Cons.prems(3)[of r] by auto
    note t1 = collectOne_tally[OF assms(1) r(1) assms(2) r(2,3) one]
    have "store_ok l st1" using collectOne_store[OF Cons.prems(2)] one by (metis snd_conv)
    moreover have "settlements_of l st1 (cr_Key q) = settlements_of l st (cr_Key q)" if "q \<in> set cs" for q
    proof -
      have "cr_Key r \<notin> cr_Key ` set cs" using Cons.prems(1) by simp
      then have "cr_Key q \<noteq> cr_Key r" using that by (metis image_eqI)
      then show ?thesis using t1 by blast
    qed
    ultimately have "tally_step (max_attempts c) (settlements_of l st1) (settlements_of l st') (length s2) \<and> store_ok l st'"
      using Cons.IH[OF _ _ _ rest(1)] Cons.prems(1,3) by simp
    then show ?thesis using t1 tally_step_trans rest(2) by fastforce
  qed
qed

lemma reclaim_loop_tally:
  assumes "run_ok l g c" "store_ok l st" "\<And>r. r \<in> set cs \<Longrightarrow> stored_ok r"
  shows "tally_step M (settlements_of l st)
      (settlements_of l (reclaim_loop l g c e k (map (collectionRecordToProto (lib_fromBig l)) cs) st)) 0 \<and>
    store_ok l (reclaim_loop l g c e k (map (collectionRecordToProto (lib_fromBig l)) cs) st)"
  using assms(2,3)
proof (induction cs arbitrary: k st)
  case Nil
  then show ?case by simp
next
  case (Cons r cs)
  let ?p = "collectionRecordToProto (lib_fromBig l) r"
  let ?st1 = "snd (remote (se_reclaim e k) (se_lost e) (markCollectionRetryable l g (au_token c) ?p (pc_LastTxHash ?p)
      (''reclaimed stale collect_pending after '' @ Duration_String (au_reclaimAfter c)) (se_reclaimAt e k)) st)"
  have "tally_step M (settlements_of l st) (settlements_of l ?st1) 0"
    by (rule reclaim_tally[OF assms(1)]) (use Cons.prems in simp_all)
  moreover have "store_ok l ?st1"
    by (rule remote_store[OF Cons.prems(1)]) (simp add: markCollectionRetryable_def mark_store[OF Cons.prems(1)])
  ultimately show ?case
    using Cons tally_step_trans[of M "settlements_of l st" "settlements_of l ?st1" 0] by fastforce
qed


lemma reclaimStalePending_tally:
  assumes "run_ok l g c" "distinct (se_order e)" "store_ok l st"
  shows "tally_step M (settlements_of l st) (settlements_of l (reclaimStalePending l g c e st)) 0 \<and>
    store_ok l (reclaimStalePending l g c e st)"
proof (cases "list_state l g c (se_order e) (se_reclaimList e) (se_lost e) COLLECTION_STATE_COLLECT_PENDING st")
  case (Inl x)
  then show ?thesis using assms(3) by (simp add: reclaimStalePending_def)
next
  case (Inr zs)
  obtain ds where "zs = map (collectionRecordToProto (lib_fromBig l)) ds" "\<And>r. r \<in> set ds \<Longrightarrow> stored_ok r"
    by (rule list_state_records[OF assms(1) _ Inr assms(2,3)]) (auto simp: protoCollectionStateToRepository_def)
  then show ?thesis using Inr assms(3) reclaim_loop_tally[OF assms(1,3)] by (auto simp: reclaimStalePending_def)
qed

lemma listEligible_records:
  assumes "run_ok l g c" "distinct (se_order e)" "store_ok l st" "listEligible l g c e st = Inr rs"
  obtains cs where "rs = map (collectionRecordToProto (lib_fromBig l)) cs" "distinct (map cr_Key cs)"
    "\<And>r. r \<in> set cs \<Longrightarrow> stored_ok r \<and> settlements_of l st (cr_Key r) = Some (settlement_of r) \<and>
       (\<exists>now. shouldCollect l c now (collectionRecordToProto (lib_fromBig l) r))"
proof -
  let ?keep = "\<lambda>r. shouldCollect l c (se_now e r) r" and ?P = "collectionRecordToProto (lib_fromBig l)"
  obtain xs ys where l: "list_state l g c (se_order e) (se_list e 0) (se_lost e) COLLECTION_STATE_COLLECTIBLE st = Inr xs"
      "list_state l g c (se_order e) (se_list e 1) (se_lost e) COLLECTION_STATE_COLLECT_FAILED_RETRYABLE st = Inr ys"
    and rs: "rs = filter ?keep xs @ filter ?keep ys"
    using assms(4) by (auto simp: listEligible_def bind_rpc_def split: sum.splits)
  obtain as where as: "xs = map ?P as" "distinct (map cr_Key as)" "\<And>r. r \<in> set as \<Longrightarrow> stored_ok r \<and>
      cr_State r = CollectionStateCollectible \<and> records (gs_repo st) (collectionMapKey (lib_pretty l) (cr_Key r)) = Some r"
    by (rule list_state_records[OF assms(1) _ l(1) assms(2,3)]) (auto simp: protoCollectionStateToRepository_def)
  obtain bs where bs: "ys = map ?P bs" "distinct (map cr_Key bs)" "\<And>r. r \<in> set bs \<Longrightarrow> stored_ok r \<and>
      cr_State r = CollectionStateCollectFailedRetryable \<and> records (gs_repo st) (collectionMapKey (lib_pretty l) (cr_Key r)) = Some r"
    by (rule list_state_records[OF assms(1) _ l(2) assms(2,3)]) (auto simp: protoCollectionStateToRepository_def)
  let ?cs = "filter (?keep \<circ> ?P) (as @ bs)"
  have "set (map cr_Key as) \<inter> set (map cr_Key bs) = {}" using as(3) bs(3) by fastforce
  then have "distinct (map cr_Key (as @ bs))" using as(2) bs(2) by simp
  then have d: "distinct (map cr_Key ?cs)" by (rule distinct_map_filter)
  have rs: "rs = map ?P ?cs" by (simp add: rs as(1) bs(1) filter_map)
  show thesis
    using as(3) bs(3) by (intro that[OF rs d]) (auto simp: settlements_of_def)
qed

lemma sweep_tally:
  assumes "run_ok l g c" "\<And>j. client_ok (sr_client (se_settle e j))" "distinct (se_order e)" "store_ok l st"
    "sweep l g ab c e st = (sent, st')"
  shows "tally_step (max_attempts c) (settlements_of l st) (settlements_of l st') (length sent) \<and> store_ok l st'"
proof (cases "listEligible l g c e st")
  case (Inl x)
  then show ?thesis using assms(4,5) by (simp add: sweep_def)
next
  case (Inr rs)
  obtain cs where cs: "rs = map (collectionRecordToProto (lib_fromBig l)) cs" "distinct (map cr_Key cs)"
    "\<And>r. r \<in> set cs \<Longrightarrow> stored_ok r \<and> settlements_of l st (cr_Key r) = Some (settlement_of r) \<and>
       (\<exists>now. shouldCollect l c now (collectionRecordToProto (lib_fromBig l) r))"
    using listEligible_records[OF assms(1,3,4) Inr] by blast
  obtain s1 st1 fin where loop: "collect_loop l g ab c e 0 rs st = (s1, st1, fin)" by (metis surj_pair)
  note t1 = collect_loop_tally[OF assms(1,2) cs(2) assms(4) cs(3) loop[unfolded cs(1)]]
  note t2 = reclaimStalePending_tally[OF assms(1,3) conjunct2[OF t1], of "max_attempts c"]
  show ?thesis
    using assms(4,5) t1 t2 tally_step_trans[OF conjunct1[OF t1] conjunct1[OF t2]]
    by (auto simp: sweep_def Inr loop split: if_splits)
qed



definition sample_sweep :: sweep_env where
  "sample_sweep =
     \<lparr>se_list = (\<lambda>_. Delivered), se_lost = (CodeUnavailable, Sentinel ''lost''),
      se_order = [collectionMapKey hex_EncodeToString sample_key], se_now = (\<lambda>_. 100), se_cancelled = (\<lambda>_. False),
      se_settle = (\<lambda>_. sample_surroundings), se_reclaimList = Delivered, se_reclaimNow = 100,
      se_reclaimCancelled = (\<lambda>_. False), se_reclaim = (\<lambda>_. Delivered), se_reclaimAt = (\<lambda>_. 100)\<rparr>"

lemma sample_run_ok: "run_ok lib_std operator_gateway sample_collector"
  using sample_bearer lib_std_ok sample_collector_ok by (simp add: run_ok_def sample_collector_def)

lemma sample_dom: "dom (settlements_of lib_std collectible_state) = {sample_key}"
  using collectionMapKey_inj[OF hex_Pretty_ok]
  by (auto simp: settlements_of_def collectible_state_def dom_def split: if_splits)


subsection \<open>Spacing of retries\<close>

lemma backoff_loop_exact:
  assumes "0 < b" "b < collectDaemonMaxBackoff"
  shows "backoff_loop n b = min (b * 2 ^ n) collectDaemonMaxBackoff"
  using assms
proof (induction n arbitrary: b)
  case 0
  then show ?case by simp
next
  case (Suc n)
  have i: "i64 (b * 2) = b * 2" using Suc.prems by (simp add: in_i64_def collectDaemonMaxBackoff_def)
  show ?case
  proof (cases "collectDaemonMaxBackoff \<le> b * 2")
    case True
    have "b * 2 \<le> b * 2 * 2 ^ n" using Suc.prems(1) by simp
    then have "collectDaemonMaxBackoff \<le> b * 2 ^ Suc n" using True by (simp add: mult.assoc)
    then show ?thesis using True i by (simp add: min_def)
  next
    case False
    then show ?thesis using Suc.IH[of "b * 2"] Suc.prems i by (simp add: mult.assoc)
  qed
qed

text \<open>
  Retries are spaced by a capped doubling delay (\<open>backoffFor\<close>, \<open>shouldCollect\<close>). For a base
  delay of at most one hour the delay after \<open>n\<close> attempts is the base doubled \<open>n - 1\<close> times, capped
  at one hour, for every count of attempts; no product overflows. A failed record is taken again
  only when it has attempts left, is worth the minimum and has waited that long.
\<close>

theorem backoff_exact:
  assumes "0 < au_backoffBase c" "au_backoffBase c \<le> collectDaemonMaxBackoff"
  shows "(\<forall>n. n \<noteq> 0 \<longrightarrow>
      backoffFor c n = min (au_backoffBase c * 2 ^ (unat n - 1)) collectDaemonMaxBackoff) \<and>
    backoffFor c 0 = 0 \<and>
    (\<forall>l now r. pc_State r = COLLECTION_STATE_COLLECT_FAILED_RETRYABLE \<and> shouldCollect l c now r \<longrightarrow>
       ucast (pc_AttemptCount r) < au_maxAttempts c \<and>
       au_minValue c \<le> GRT_ToBigInt (lib_fromBig l) (pc_ValueAggregate r) \<and>
       backoffFor c (pc_AttemptCount r) \<le> time_Sub now (time_UnixNs (pc_UpdatedAtNs r)))"
proof -
  have "backoffFor c n = min (au_backoffBase c * 2 ^ (unat n - 1)) collectDaemonMaxBackoff" if "n \<noteq> 0" for n
  proof -
    have n: "\<not> n < 1" using that by (simp add: word_less_nat_alt unat_eq_zero)
    show ?thesis
    proof (cases "au_backoffBase c = collectDaemonMaxBackoff")
      case True
      have i: "collectDaemonMaxBackoff \<le> i64 (collectDaemonMaxBackoff * 2)"
        by (simp add: in_i64_def collectDaemonMaxBackoff_def)
      have "backoff_loop m collectDaemonMaxBackoff = collectDaemonMaxBackoff" for m
        using i by (cases m) simp_all
      moreover have "collectDaemonMaxBackoff \<le> collectDaemonMaxBackoff * 2 ^ (unat n - 1)"
        by (simp add: collectDaemonMaxBackoff_def)
      ultimately show ?thesis using n True by (simp add: backoffFor_def)
    next
      case False
      then show ?thesis using n assms backoff_loop_exact[of "au_backoffBase c" "unat n - 1"] by (simp add: backoffFor_def)
    qed
  qed
  moreover have "backoffFor c 0 = 0" by (simp add: backoffFor_def)
  ultimately show ?thesis
    by (auto simp: shouldCollect_def protoGRTBigInt_def GRT_ToBigInt_def split: if_splits option.splits)
qed

theorem backoff_exact_witness:
  "backoffFor sample_collector 3 = 240 * 1000000000 \<and> backoffFor sample_collector 100 = 3600 * 1000000000"
proof -
  have "au_backoffBase sample_collector = 60 * 1000000000" by (simp add: sample_collector_def)
  then show ?thesis
    using conjunct1[OF backoff_exact[of sample_collector]] by (simp add: collectDaemonMaxBackoff_def)
qed

text \<open>A base above the cap is used as it is for the first retry.\<close>

lemma backoff_uncapped_first: "au_backoffBase c = 2 * collectDaemonMaxBackoff \<Longrightarrow> backoffFor c 1 = 2 * collectDaemonMaxBackoff"
  by (simp add: backoffFor_def)

subsection \<open>Stale settlements\<close>

lemma ListCollections_none:
  assumes "\<forall>k r. records (gs_repo st) k = Some r \<longrightarrow> cr_State r \<noteq> state"
    "protoCollectionStateToRepository s = Inr (Some state)" "list_state l g c order d lost s st = Inr rs"
  shows "rs = []"
proof (cases "authorizeRead g (bearer (au_token c))")
  case (Inl e)
  then show ?thesis using assms(3) by (cases d) (simp_all add: list_state_def remote_def ListCollections_def)
next
  case (Inr role)
  have "filter (\<lambda>r. cr_State r = state) (List.map_filter (records (gs_repo st)) order) = []"
    using assms(1) by (auto simp: filter_empty_conv map_filter_def)
  then show ?thesis
    using assms(3) ListCollections_eq[OF Inr assms(2), of l order 500 st]
    by (cases d) (simp_all add: list_state_def remote_def)
qed

text \<open>
  C38: Stale settlements are never reclaimed while nothing else is due (\<open>sweep\<close>). When every record
  is pending, for instance after a crash between the pending mark and the receipt, no number of
  sweeps changes anything, however old the records are and whatever \<open>--reclaim-pending-after\<close> says:
  the sweep returns before it looks for stale records.
\<close>

theorem stale_pending_never_reclaimed:
  assumes "\<forall>k r. records (gs_repo st) k = Some r \<longrightarrow> cr_State r = CollectionStateCollectPending"
  shows "sweeps l g ab c es st = ([], st)"
proof -
  have "sweep l g ab c e st = ([], st)" for e
  proof (cases "listEligible l g c e st")
    case (Inl x)
    then show ?thesis by (simp add: sweep_def)
  next
    case (Inr rs)
    have "rs = []"
      using Inr assms ListCollections_none[of st CollectionStateCollectible COLLECTION_STATE_COLLECTIBLE l g c "se_order e" "se_list e 0" "se_lost e"]
        ListCollections_none[of st CollectionStateCollectFailedRetryable COLLECTION_STATE_COLLECT_FAILED_RETRYABLE l g c "se_order e" "se_list e 1" "se_lost e"]
      by (auto simp: listEligible_def bind_rpc_def protoCollectionStateToRepository_def split: sum.splits)
    then show ?thesis using Inr by (simp add: sweep_def)
  qed
  then show ?thesis by (induction es) simp_all
qed

definition stale_record :: CollectionRecord where
  "stale_record = collectible_record\<lparr>cr_State := CollectionStateCollectPending,
     cr_UpdatedAt := 62135596800 * 1000000000 + 1\<rparr>"

definition stale_state :: GatewayState where
  "stale_state = set_repo (NewInMemoryRepository\<lparr>records := [''k'' \<mapsto> stale_record]\<rparr>) owing_state"

theorem stale_pending_never_reclaimed_witness:
  "shouldReclaimPending sample_collector (collectionRecordToProto FromBig_std stale_record)
     (62135596800 * 1000000000 + 100) \<and>
   sweeps lib_std operator_gateway sample_abi sample_collector [sample_sweep] stale_state = ([], stale_state)"
proof -
  have "\<forall>k r. records (gs_repo stale_state) k = Some r \<longrightarrow> cr_State r = CollectionStateCollectPending"
    by (simp add: stale_state_def stale_record_def)
  moreover have "shouldReclaimPending sample_collector (collectionRecordToProto FromBig_std stale_record)
     (62135596800 * 1000000000 + 100)"
    by (simp add: shouldReclaimPending_def sample_collector_def collectionRecordToProto_def collectible_record_def
        stale_record_def repositoryCollectionStateToProto_def time_Sub_def time_UnixNs_def timeToUnixNano_def
        UnixNano_def in_i64_def Let_def)
  ultimately show ?thesis
    using stale_pending_never_reclaimed[of stale_state lib_std operator_gateway sample_abi sample_collector "[sample_sweep]"]
    by blast
qed

end
