(* ===== verification/Sds_Sidecar.thy ===== *)
theory Sds_Sidecar
  imports Sds_Gateway
begin

text \<open>
  What both sidecars share (\<open>sidecar/\<close>): the session a sidecar keeps locally and its manager
  (\<open>session.go\<close>), the reader of endpoints (\<open>endpoint.go\<close>) and the transport settings of a server
  (\<open>server_transport.go\<close>). Every method runs under the lock of its object and is one step.
\<close>

subsection \<open>The local session\<close>

datatype SessionState = SessionStateActive | SessionStatePaused | SessionStateEnded

text \<open>\<open>TotalCost\<close> and \<open>baselineCost\<close> are set by both constructors and never nil afterwards.\<close>

record LocalSession =
  ls_ID :: string
  ls_State :: SessionState
  ls_CreatedAt :: time
  ls_UpdatedAt :: time
  ls_EndedAt :: "time option"
  ls_EndReason :: EndReason
  ls_Payer :: address
  ls_Receiver :: address
  ls_DataService :: address
  ls_CurrentRAV :: "SignedRAV option"
  ls_BlocksProcessed :: u64
  ls_BytesTransferred :: u64
  ls_Requests :: u64
  ls_TotalCost :: int
  ls_baselineBlocks :: u64
  ls_baselineBytes :: u64
  ls_baselineReqs :: u64
  ls_baselineCost :: int
  ls_PricePerBlock :: "int option"
  ls_PricePerByte :: "int option"
  ls_PricingConfig :: "PricingConfig option"

text \<open>The two readings of the clock are for the creation and the update time.\<close>

definition NewSessionWithID :: "string \<Rightarrow> address \<Rightarrow> address \<Rightarrow> address \<Rightarrow> time \<Rightarrow> time \<Rightarrow> LocalSession" where
  "NewSessionWithID sid payer receiver dataService created updated =
     \<lparr>ls_ID = sid, ls_State = SessionStateActive, ls_CreatedAt = created, ls_UpdatedAt = updated,
      ls_EndedAt = None, ls_EndReason = END_REASON_UNSPECIFIED, ls_Payer = payer, ls_Receiver = receiver,
      ls_DataService = dataService, ls_CurrentRAV = None, ls_BlocksProcessed = 0, ls_BytesTransferred = 0,
      ls_Requests = 0, ls_TotalCost = 0, ls_baselineBlocks = 0, ls_baselineBytes = 0, ls_baselineReqs = 0,
      ls_baselineCost = 0, ls_PricePerBlock = Some 0, ls_PricePerByte = None, ls_PricingConfig = None\<rparr>"

definition NewLocalSession :: "bytes \<Rightarrow> address \<Rightarrow> address \<Rightarrow> address \<Rightarrow> time \<Rightarrow> time \<Rightarrow> LocalSession" where
  "NewLocalSession random payer receiver dataService created updated =
     NewSessionWithID (GenerateID random) payer receiver dataService created updated"

definition LocalAddUsage :: "u64 \<Rightarrow> u64 \<Rightarrow> u64 \<Rightarrow> int option \<Rightarrow> time \<Rightarrow> LocalSession \<Rightarrow> LocalSession" where
  "LocalAddUsage blocks bytes requests cost now s =
     s\<lparr>ls_BlocksProcessed := ls_BlocksProcessed s + blocks,
       ls_BytesTransferred := ls_BytesTransferred s + bytes,
       ls_Requests := ls_Requests s + requests,
       ls_TotalCost := (case cost of None \<Rightarrow> ls_TotalCost s | Some c \<Rightarrow> ls_TotalCost s + c),
       ls_UpdatedAt := now\<rparr>"

definition LocalUsageDeltaSinceBaseline :: "LocalSession \<Rightarrow> u64 \<times> u64 \<times> u64 \<times> int" where
  "LocalUsageDeltaSinceBaseline s =
     (let blocks = (if ls_BlocksProcessed s \<ge> ls_baselineBlocks s
                    then ls_BlocksProcessed s - ls_baselineBlocks s else 0);
          bytes = (if ls_BytesTransferred s \<ge> ls_baselineBytes s
                   then ls_BytesTransferred s - ls_baselineBytes s else 0);
          requests = (if ls_Requests s \<ge> ls_baselineReqs s then ls_Requests s - ls_baselineReqs s else 0);
          cost = ls_TotalCost s - ls_baselineCost s
      in (blocks, bytes, requests, if cost < 0 then 0 else cost))"

definition LocalMarkBaseline :: "LocalSession \<Rightarrow> LocalSession" where
  "LocalMarkBaseline s =
     s\<lparr>ls_baselineBlocks := ls_BlocksProcessed s, ls_baselineBytes := ls_BytesTransferred s,
       ls_baselineReqs := ls_Requests s, ls_baselineCost := ls_TotalCost s\<rparr>"

definition LocalGetUsage :: "from_big \<Rightarrow> LocalSession \<Rightarrow> pb_Usage" where
  "LocalGetUsage fromBig s =
     \<lparr>pu_BlocksProcessed = ls_BlocksProcessed s, pu_BytesTransferred = ls_BytesTransferred s,
      pu_Requests = ls_Requests s, pu_Cost = Some (GRTFromBigInt fromBig (Some (ls_TotalCost s)))\<rparr>"

definition SetRAV :: "SignedRAV option \<Rightarrow> time \<Rightarrow> LocalSession \<Rightarrow> LocalSession" where
  "SetRAV rav now s = s\<lparr>ls_CurrentRAV := rav, ls_UpdatedAt := now\<rparr>"

definition GetRAV :: "LocalSession \<Rightarrow> SignedRAV option" where
  "GetRAV s = ls_CurrentRAV s"

definition LocalEnd :: "EndReason \<Rightarrow> time \<Rightarrow> LocalSession \<Rightarrow> LocalSession" where
  "LocalEnd reason now s =
     s\<lparr>ls_State := SessionStateEnded, ls_EndedAt := Some now, ls_EndReason := reason, ls_UpdatedAt := now\<rparr>"

definition LocalIsActive :: "LocalSession \<Rightarrow> bool" where
  "LocalIsActive s \<longleftrightarrow> ls_State s = SessionStateActive"

definition SetPricingConfig :: "PricingConfig option \<Rightarrow> LocalSession \<Rightarrow> LocalSession" where
  "SetPricingConfig config s =
     (let s = s\<lparr>ls_PricingConfig := config\<rparr> in
      (case config of
         None \<Rightarrow> s
       | Some c \<Rightarrow>
           let s = (if \<not> GRT_IsZero (PricePerBlock c)
                    then s\<lparr>ls_PricePerBlock := Some (BigInt (PricePerBlock c))\<rparr> else s)
           in if \<not> GRT_IsZero (PricePerByte c)
              then s\<lparr>ls_PricePerByte := Some (BigInt (PricePerByte c))\<rparr> else s))"

text \<open>The fallback reads the counters as signed numbers.\<close>

definition LocalCalculateUsageCost :: "LocalSession \<Rightarrow> u64 \<Rightarrow> u64 \<Rightarrow> int" where
  "LocalCalculateUsageCost s blocksProcessed bytesTransferred =
     (case ls_PricingConfig s of
        Some c \<Rightarrow> BigInt (CalculateUsageCost c blocksProcessed bytesTransferred)
      | None \<Rightarrow>
          (case ls_PricePerBlock s of None \<Rightarrow> 0 | Some p \<Rightarrow> p * sint blocksProcessed) +
          (case ls_PricePerByte s of None \<Rightarrow> 0 | Some p \<Rightarrow> p * sint bytesTransferred))"

definition ToSessionInfo :: "from_big \<Rightarrow> LocalSession \<Rightarrow> pb_SessionInfo" where
  "ToSessionInfo fromBig s =
     \<lparr>si_SessionId = ls_ID s,
      si_EscrowAccount = Some \<lparr>ea_Payer = Some (AddressFromEth (ls_Payer s)),
        ea_Receiver = Some (AddressFromEth (ls_Receiver s)),
        ea_DataService = Some (AddressFromEth (ls_DataService s))\<rparr>,
      si_CurrentRav = HorizonSignedRAVToProto fromBig (ls_CurrentRAV s),
      si_AccumulatedUsage = Some (LocalGetUsage fromBig s),
      si_PricingConfig = PricingConfigFromNative (ls_PricingConfig s)\<rparr>"

subsection \<open>The manager of local sessions\<close>

text \<open>
  The manager's map holds pointers; the session a caller holds is the one in the map, so a change
  of the session is an update of the map.
\<close>

type_synonym SessionManager = "string \<rightharpoonup> LocalSession"

definition SessionManager_Create ::
  "bytes \<Rightarrow> address \<Rightarrow> address \<Rightarrow> address \<Rightarrow> (nat \<Rightarrow> time) \<Rightarrow> SessionManager \<Rightarrow> LocalSession \<times> SessionManager" where
  "SessionManager_Create random payer receiver dataService clk sm =
     (let session = NewLocalSession random payer receiver dataService (clk 0) (clk 1)
      in (session, sm(ls_ID session \<mapsto> session)))"

definition CreateWithID ::
  "string \<Rightarrow> address \<Rightarrow> address \<Rightarrow> address \<Rightarrow> (nat \<Rightarrow> time) \<Rightarrow> SessionManager \<Rightarrow> LocalSession result \<times> SessionManager" where
  "CreateWithID sid payer receiver dataService clk sm =
     (if sid = [] then (Inl (Errorf ''session id is required'' [] None), sm)
      else if sm sid \<noteq> None then (Inl (Errorf ''session already exists: %s'' [sid] None), sm)
      else
        let session = NewSessionWithID sid payer receiver dataService (clk 0) (clk 1)
        in (Inr session, sm(ls_ID session \<mapsto> session)))"

definition SessionManager_Get :: "string \<Rightarrow> SessionManager \<Rightarrow> LocalSession result" where
  "SessionManager_Get sid sm =
     (case sm sid of None \<Rightarrow> Inl (Errorf ''session not found: %s'' [sid] None) | Some s \<Rightarrow> Inr s)"

definition SessionManager_Delete :: "string \<Rightarrow> SessionManager \<Rightarrow> SessionManager" where
  "SessionManager_Delete sid sm = sm(sid := None)"

text \<open>\<open>order\<close> is the order in which the map yields its keys.\<close>

definition GetActive :: "string list \<Rightarrow> SessionManager \<Rightarrow> LocalSession list" where
  "GetActive order sm = filter LocalIsActive (List.map_filter sm order)"

definition SessionManager_Count :: "SessionManager \<Rightarrow> nat" where
  "SessionManager_Count sm = card (dom sm)"

lemma usage_delta_fresh:
  "LocalUsageDeltaSinceBaseline (LocalMarkBaseline s) = (0, 0, 0, 0)"
  by (simp add: LocalUsageDeltaSinceBaseline_def LocalMarkBaseline_def Let_def)

text \<open>The local delta is what the usage added since the baseline, unless a counter wrapped.\<close>

lemma usage_delta_added:
  assumes "unat (ls_BlocksProcessed s) + unat b < 2 ^ 64" "unat (ls_BytesTransferred s) + unat y < 2 ^ 64"
    and "unat (ls_Requests s) + unat q < 2 ^ 64" "0 \<le> c"
  shows "LocalUsageDeltaSinceBaseline (LocalAddUsage b y q (Some c) now (LocalMarkBaseline s)) = (b, y, q, c)"
proof -
  have "x \<le> x + d" if "unat x + unat d < 2 ^ 64" for x d :: u64
    using that by (simp add: word_le_nat_alt unat_word_ariths)
  then show ?thesis
    using assms by (simp add: LocalUsageDeltaSinceBaseline_def LocalMarkBaseline_def LocalAddUsage_def Let_def)
qed

text \<open>With a price list the local cost is the price of the usage; the fallback turns negative at \<open>2 ^ 63\<close>.\<close>

lemma fallback_cost_negative:
  assumes "ls_PricingConfig s = None" "ls_PricePerBlock s = Some p" "0 < p" "ls_PricePerByte s = None"
    and "2 ^ 63 \<le> unat b"
  shows "LocalCalculateUsageCost s b y < 0"
proof -
  have "unat b div 2 ^ 63 = 1" using assms(5) unsigned_less[of b, where ?'a = nat] by simp
  then have "bit (unat b) 63" by (simp only: bit_iff_odd) simp
  then have "sint b < 0" using bit_last_iff[of b] by (simp add: bit_simps)
  then show ?thesis using assms by (simp add: LocalCalculateUsageCost_def mult_pos_neg)
qed

subsection \<open>Endpoints\<close>

text \<open>
  The package \<open>net/url\<close> as a parameter: reading an address gives its scheme, its host, the decoded
  pairs of its query and the rest; writing puts the encoded query back.
\<close>

record URL =
  url_Scheme :: string
  url_Host :: string
  url_Query :: "(string \<times> string) list"
  url_rest :: string

record url_lib =
  url_Parse :: "string \<Rightarrow> URL result"
  url_String :: "URL \<Rightarrow> string"

definition Query_Get :: "string \<Rightarrow> (string \<times> string) list \<Rightarrow> string" where
  "Query_Get key q = (case map_of q key of None \<Rightarrow> [] | Some v \<Rightarrow> v)"

definition Query_Del :: "string \<Rightarrow> (string \<times> string) list \<Rightarrow> (string \<times> string) list" where
  "Query_Del key q = filter (\<lambda>(k, v). k \<noteq> key) q"

record ParsedEndpoint =
  pe_URL :: string
  pe_Plaintext :: bool
  pe_Insecure :: bool

definition ParseEndpoint :: "url_lib \<Rightarrow> string \<Rightarrow> ParsedEndpoint" where
  "ParseEndpoint u endpoint =
     (let endpoint = TrimSpace endpoint in
      if endpoint = [] then \<lparr>pe_URL = [], pe_Plaintext = False, pe_Insecure = False\<rparr>
      else
        let endpoint = (if \<not> Contains endpoint ''://'' then ''https://'' @ endpoint else endpoint)
        in (case url_Parse u endpoint of
              Inl err \<Rightarrow> \<lparr>pe_URL = endpoint, pe_Plaintext = False, pe_Insecure = False\<rparr>
            | Inr parsed \<Rightarrow>
                let query = url_Query parsed;
                    insecure = EqualFold (Query_Get ''insecure'' query) ''true'';
                    query = Query_Del ''insecure'' query;
                    parsed = parsed\<lparr>url_Query := query\<rparr>
                in \<lparr>pe_URL = url_String u parsed, pe_Plaintext = EqualFold (url_Scheme parsed) ''http'',
                    pe_Insecure = insecure\<rparr>))"

text \<open>Which kind of client connects: verified TLS, TLS without verification, or clear text.\<close>

datatype http_client = DefaultClient | SkipVerifyClient | H2cClient | H2Client bool

definition HTTPClient :: "ParsedEndpoint \<Rightarrow> http_client" where
  "HTTPClient p =
     (if \<not> pe_Insecure p then DefaultClient
      else if pe_Plaintext p then DefaultClient
      else SkipVerifyClient)"

definition GRPCClient :: "ParsedEndpoint \<Rightarrow> http_client" where
  "GRPCClient p = (if pe_Plaintext p then H2cClient else H2Client (pe_Insecure p))"

text \<open>The parameter that turns verification off is itself never sent on.\<close>

lemma insecure_removed: "Query_Get ''insecure'' (Query_Del ''insecure'' q) = []"
proof -
  have "map_of (Query_Del k q) k = None" for k
    by (induction q) (auto simp: Query_Del_def)
  then show ?thesis by (simp add: Query_Get_def)
qed

subsection \<open>Server transport\<close>

record ServerTransportConfig =
  tr_Plaintext :: bool
  tr_TLSCertFile :: string
  tr_TLSKeyFile :: string

definition ServerTransportConfig_Validate :: "string \<Rightarrow> ServerTransportConfig \<Rightarrow> unit result" where
  "ServerTransportConfig_Validate component c =
     (if tr_Plaintext c then
        (if tr_TLSCertFile c \<noteq> [] \<or> tr_TLSKeyFile c \<noteq> []
         then Inl (Errorf ''%s plaintext transport cannot be combined with TLS cert/key files'' [component] None)
         else Inr ())
      else if tr_TLSCertFile c = [] \<or> tr_TLSKeyFile c = []
      then Inl (Errorf ''%s secure transport requires both <tls-cert-file> and <tls-key-file>, or explicit --plaintext''
                  [component] None)
      else Inr ())"

text \<open>\<open>server.SecuredByX509KeyPair\<close> is the parameter \<open>keyPair\<close>.\<close>

datatype 'c server_option = WithPlainTextServer | WithSecureServer 'c

definition DGRPCOption ::
  "(string \<Rightarrow> string \<Rightarrow> 'c result) \<Rightarrow> string \<Rightarrow> ServerTransportConfig \<Rightarrow> 'c server_option result" where
  "DGRPCOption keyPair component c =
     (case ServerTransportConfig_Validate component c of
        Inl err \<Rightarrow> Inl err
      | Inr _ \<Rightarrow>
          if tr_Plaintext c then Inr WithPlainTextServer
          else (case keyPair (tr_TLSCertFile c) (tr_TLSKeyFile c) of
             Inl err \<Rightarrow> Inl (Errorf ''%s TLS config: %w'' [component] (Some err))
           | Inr tlsConfig \<Rightarrow> Inr (WithSecureServer tlsConfig)))"

text \<open>A server runs in clear text only when asked to, and without keys beside it.\<close>

lemma DGRPCOption_explicit:
  assumes "DGRPCOption keyPair component c = Inr r"
  shows "r = WithPlainTextServer \<longleftrightarrow> tr_Plaintext c" "tr_Plaintext c \<Longrightarrow> tr_TLSKeyFile c = []"
  using assms by (auto simp: DGRPCOption_def ServerTransportConfig_Validate_def split: sum.splits if_splits)


end
