(* ===== verification/Sds_Oracle.thy ===== *)
theory Sds_Oracle
  imports Sds_Sidecar "HOL-Library.Char_ord" "HOL-Library.List_Lexorder"
begin

text \<open>
  Provider discovery: the oracle's catalog and handler (\<open>oracle/config.go\<close>, \<open>oracle/oracle.go\<close>) and
  the consumer's side of it (\<open>consumer/sidecar/discovery.go\<close>), which derives the network of a package,
  asks the oracle and holds the provider to the oracle's prices.
\<close>

subsection \<open>The catalog\<close>

record OracleProvider =
  op_ID :: string
  op_ServiceProvider :: address
  op_ControlPlaneEndpoint :: string

record DiscoveryResult =
  dr_Network :: string
  dr_Pricing :: PricingConfig
  dr_EligibleProviders :: "OracleProvider list"
  dr_RecommendedProvider :: OracleProvider

type_synonym Catalog = "string \<rightharpoonup> DiscoveryResult"

record rawProviderConfig =
  rp_ID :: string
  rp_ServiceProvider :: string
  rp_ControlPlaneEndpoint :: string

record rawNetworkDiscovery =
  rn_Pricing :: PricingConfig
  rn_ProviderIDs :: "string list"
  rn_PreferredProviderID :: string

text \<open>The networks are listed in the order in which the loop over the map visits them.\<close>

record rawCatalog =
  rc_Providers :: "rawProviderConfig list"
  rc_Networks :: "(string \<times> rawNetworkDiscovery) list"

definition normalizeEndpoint :: "url_lib \<Rightarrow> string \<Rightarrow> string result" where
  "normalizeEndpoint u raw =
     (let endpoint = TrimSpace raw in
      if endpoint = [] then Inl (Errorf ''endpoint is required'' [] None)
      else
        let endpoint = (if \<not> Contains endpoint ''://'' then ''https://'' @ endpoint else endpoint)
        in (case url_Parse u endpoint of
              Inl err \<Rightarrow> Inl err
            | Inr parsed \<Rightarrow>
                if url_Scheme parsed \<noteq> ''http'' \<and> url_Scheme parsed \<noteq> ''https''
                then Inl (Errorf ''unsupported scheme %q'' [url_Scheme parsed] None)
                else if TrimSpace (url_Host parsed) = [] then Inl (Errorf ''missing host'' [] None)
                else Inr (url_String u parsed)))"

fun catalog_providers ::
  "eth_lib \<Rightarrow> url_lib \<Rightarrow> rawProviderConfig list \<Rightarrow> (string \<rightharpoonup> OracleProvider) \<Rightarrow> (string \<rightharpoonup> OracleProvider) result" where
  "catalog_providers l u [] providers = Inr providers"
| "catalog_providers l u (p # ps) providers =
     (let i = TrimSpace (rp_ID p) in
      if i = [] then Inl (Errorf ''provider id is required'' [] None)
      else if providers i \<noteq> None then Inl (Errorf ''duplicate provider id %q'' [i] None)
      else (case lib_newAddress l (TrimSpace (rp_ServiceProvider p)) of
         Inl err \<Rightarrow> Inl (Errorf ''invalid provider %q <service_provider> %q: %w'' [i, rp_ServiceProvider p] (Some err))
       | Inr serviceProvider \<Rightarrow>
           (case normalizeEndpoint u (rp_ControlPlaneEndpoint p) of
              Inl err \<Rightarrow> Inl (Errorf ''invalid provider %q <control_plane_endpoint>: %w'' [i] (Some err))
            | Inr controlPlaneEndpoint \<Rightarrow>
                catalog_providers l u ps (providers(i \<mapsto>
                  \<lparr>op_ID = i, op_ServiceProvider = serviceProvider,
                   op_ControlPlaneEndpoint = controlPlaneEndpoint\<rparr>)))))"

fun network_provider_ids ::
  "string \<Rightarrow> (string \<rightharpoonup> OracleProvider) \<Rightarrow> string list \<Rightarrow> string list \<Rightarrow> string list result" where
  "network_provider_ids network providers [] providerIDs = Inr providerIDs"
| "network_provider_ids network providers (rawProviderID # rest) providerIDs =
     (let providerID = TrimSpace rawProviderID in
      if providerID = [] then Inl (Errorf ''network %q contains an empty provider id'' [network] None)
      else if providerID \<in> set providerIDs
      then Inl (Errorf ''network %q contains duplicate provider id %q'' [network, providerID] None)
      else if providers providerID = None
      then Inl (Errorf ''network %q references unknown provider id %q'' [network, providerID] None)
      else network_provider_ids network providers rest (providerIDs @ [providerID]))"

definition network_discovery ::
  "(string \<rightharpoonup> OracleProvider) \<Rightarrow> string \<Rightarrow> rawNetworkDiscovery \<Rightarrow> DiscoveryResult result" where
  "network_discovery providers rawNetwork rawDiscovery =
     (let network = TrimSpace rawNetwork; pricing = rn_Pricing rawDiscovery in
      if network = [] then Inl (Errorf ''network key is required'' [] None)
      else if GRT_IsZero (PricePerBlock pricing) \<and> GRT_IsZero (PricePerByte pricing)
      then Inl (Errorf ''network %q pricing must define at least one non-zero price'' [network] None)
      else if rn_ProviderIDs rawDiscovery = []
      then Inl (Errorf ''network %q must define at least one provider id'' [network] None)
      else (case network_provider_ids network providers (rn_ProviderIDs rawDiscovery) [] of
         Inl err \<Rightarrow> Inl err
       | Inr providerIDs \<Rightarrow>
           let providerIDs = sort providerIDs;
               eligibleProviders = map (\<lambda>i. the (providers i)) providerIDs;
               preferredProviderID = TrimSpace (rn_PreferredProviderID rawDiscovery);
               discovery = \<lparr>dr_Network = network, dr_Pricing = pricing, dr_EligibleProviders = eligibleProviders,
                 dr_RecommendedProvider = hd eligibleProviders\<rparr>
           in if preferredProviderID \<noteq> [] then
                (if preferredProviderID \<notin> set providerIDs
                 then Inl (Errorf ''network %q preferred_provider_id %q is not in provider_ids''
                             [network, preferredProviderID] None)
                 else Inr (discovery\<lparr>dr_RecommendedProvider := the (providers preferredProviderID)\<rparr>))
              else Inr discovery))"

fun catalog_networks ::
  "(string \<rightharpoonup> OracleProvider) \<Rightarrow> (string \<times> rawNetworkDiscovery) list \<Rightarrow> Catalog \<Rightarrow> Catalog result" where
  "catalog_networks providers [] networks = Inr networks"
| "catalog_networks providers ((rawNetwork, rawDiscovery) # rest) networks =
     (case network_discovery providers rawNetwork rawDiscovery of
        Inl err \<Rightarrow> Inl err
      | Inr discovery \<Rightarrow> catalog_networks providers rest (networks(dr_Network discovery \<mapsto> discovery)))"

text \<open>\<open>yaml.Unmarshal\<close> is the parameter \<open>yaml\<close>.\<close>

definition ParseCatalog ::
  "eth_lib \<Rightarrow> url_lib \<Rightarrow> (bytes \<Rightarrow> rawCatalog result) \<Rightarrow> bytes \<Rightarrow> Catalog result" where
  "ParseCatalog l u yaml content =
     (case yaml content of
        Inl err \<Rightarrow> Inl (Errorf ''parsing oracle config: %w'' [] (Some err))
      | Inr raw \<Rightarrow>
          if rc_Networks raw = [] then Inl (Errorf ''oracle config must define at least one network'' [] None)
          else (case catalog_providers l u (rc_Providers raw) Map.empty of
             Inl err \<Rightarrow> Inl err
           | Inr providers \<Rightarrow> catalog_networks providers (rc_Networks raw) Map.empty))"

definition Discover :: "Catalog option \<Rightarrow> string \<Rightarrow> DiscoveryResult option" where
  "Discover c network = (case c of None \<Rightarrow> None | Some networks \<Rightarrow> networks network)"

subsection \<open>The handler\<close>

record EligibleProvider =
  ep_ProviderId :: string
  ep_ServiceProvider :: "pb_Address option"
  ep_ControlPlaneEndpoint :: string

record DiscoverProvidersResponse =
  dp_Network :: string
  dp_CanonicalPricing :: "pb_PricingConfig option"
  dp_EligibleProviders :: "EligibleProvider list"
  dp_RecommendedProviderId :: string
  dp_SelectedProvider :: "EligibleProvider option"

definition providerToProto :: "OracleProvider \<Rightarrow> EligibleProvider" where
  "providerToProto p =
     \<lparr>ep_ProviderId = op_ID p, ep_ServiceProvider = Some (AddressFromEth (op_ServiceProvider p)),
      ep_ControlPlaneEndpoint = op_ControlPlaneEndpoint p\<rparr>"

definition DiscoverProviders :: "Catalog option \<Rightarrow> string \<Rightarrow> DiscoverProvidersResponse rpc" where
  "DiscoverProviders catalog reqNetwork =
     (let network = TrimSpace reqNetwork in
      if network = [] then invalid_argument ''<network> is required''
      else (case Discover catalog network of
         None \<Rightarrow> Inl (CodeNotFound, Errorf ''network not found'' [] None)
       | Some discovery \<Rightarrow>
           Inr \<lparr>dp_Network = dr_Network discovery,
                dp_CanonicalPricing = PricingConfigFromNative (Some (dr_Pricing discovery)),
                dp_EligibleProviders = map providerToProto (dr_EligibleProviders discovery),
                dp_RecommendedProviderId = op_ID (dr_RecommendedProvider discovery),
                dp_SelectedProvider = Some (providerToProto (dr_RecommendedProvider discovery))\<rparr>))"

subsection \<open>What a catalog guarantees\<close>

text \<open>
  The oracle recommends the preferred provider of a network, or else the one with the least
  identifier; both are eligible.
\<close>

definition discovery_ok :: "DiscoveryResult \<Rightarrow> bool" where
  "discovery_ok d \<longleftrightarrow>
     \<not> (GRT_IsZero (PricePerBlock (dr_Pricing d)) \<and> GRT_IsZero (PricePerByte (dr_Pricing d))) \<and>
     distinct (map op_ID (dr_EligibleProviders d)) \<and> sorted (map op_ID (dr_EligibleProviders d)) \<and>
     dr_RecommendedProvider d \<in> set (dr_EligibleProviders d)"

definition providers_ok :: "(string \<rightharpoonup> OracleProvider) \<Rightarrow> bool" where
  "providers_ok ps \<longleftrightarrow> (\<forall>i p. ps i = Some p \<longrightarrow> op_ID p = i)"

lemma catalog_providers_ok:
  "catalog_providers l u raw ps = Inr ps' \<Longrightarrow> providers_ok ps \<Longrightarrow> providers_ok ps'"
proof (induction raw arbitrary: ps)
  case (Cons p raw)
  obtain a e where step: "catalog_providers l u raw (ps(TrimSpace (rp_ID p) \<mapsto>
      \<lparr>op_ID = TrimSpace (rp_ID p), op_ServiceProvider = a, op_ControlPlaneEndpoint = e\<rparr>)) = Inr ps'"
    using Cons.prems(1) by (simp add: Let_def split: if_splits sum.splits)
  show ?case by (rule Cons.IH[OF step]) (use Cons.prems(2) in \<open>simp add: providers_ok_def\<close>)
qed simp

lemma network_provider_ids_ok:
  assumes "network_provider_ids n ps raw ids = Inr ids'" "distinct ids" "\<forall>i\<in>set ids. ps i \<noteq> None"
  shows "distinct ids' \<and> (\<forall>i\<in>set ids'. ps i \<noteq> None) \<and> length ids' = length ids + length raw"
  using assms
proof (induction raw arbitrary: ids)
  case (Cons r raw)
  have step: "network_provider_ids n ps raw (ids @ [TrimSpace r]) = Inr ids'"
      "TrimSpace r \<notin> set ids" "ps (TrimSpace r) \<noteq> None"
    using Cons.prems(1) by (simp_all add: Let_def split: if_splits)
  have "distinct (ids @ [TrimSpace r])" using Cons.prems(2) step(2) by simp
  moreover have "\<forall>i\<in>set (ids @ [TrimSpace r]). ps i \<noteq> None" using Cons.prems(3) step(3) by simp
  ultimately have "distinct ids' \<and> (\<forall>i\<in>set ids'. ps i \<noteq> None) \<and>
      length ids' = length (ids @ [TrimSpace r]) + length raw"
    by (rule Cons.IH[OF step(1)])
  then show ?case by (simp only: length_append list.size) simp
qed simp

lemma hd_sort:
  fixes xs :: "'a :: linorder list"
  assumes "xs \<noteq> []"
  shows "hd (sort xs) = Min (set xs)" "sort xs \<noteq> []"
proof -
  obtain y ys where s: "sort xs = y # ys"
    using assms length_sort[where xs = xs and f = "\<lambda>x. x"] by (cases "sort xs") simp_all
  have "\<forall>z\<in>set ys. y \<le> z" using sorted_sort[of xs] by (simp add: s)
  moreover have "set xs = insert y (set ys)" using set_sort[where xs = xs and f = "\<lambda>x. x"] by (simp add: s)
  ultimately show "hd (sort xs) = Min (set xs)" "sort xs \<noteq> []" by (simp_all add: s Min_insert2)
qed

lemma network_discovery_ok:
  assumes "network_discovery ps n raw = Inr d" "providers_ok ps"
  shows "discovery_ok d" "dr_Network d = TrimSpace n" "dr_Pricing d = rn_Pricing raw"
    "\<forall>p\<in>set (dr_EligibleProviders d). ps (op_ID p) = Some p"
    "op_ID (dr_RecommendedProvider d) =
      (if TrimSpace (rn_PreferredProviderID raw) = [] then Min (op_ID ` set (dr_EligibleProviders d))
       else TrimSpace (rn_PreferredProviderID raw))"
proof -
  obtain ids where ids: "network_provider_ids (TrimSpace n) ps (rn_ProviderIDs raw) [] = Inr ids"
      "rn_ProviderIDs raw \<noteq> []"
    using assms(1) by (auto simp: network_discovery_def Let_def split: if_splits sum.splits)
  have ok: "distinct ids" "\<forall>i\<in>set ids. ps i \<noteq> None" "ids \<noteq> []"
    using network_provider_ids_ok[OF ids(1)] ids(2) by auto
  let ?el = "map (\<lambda>i. the (ps i)) (sort ids)"
  have el: "dr_EligibleProviders d = ?el"
    using assms(1) ids(1) by (auto simp: network_discovery_def Let_def split: if_splits)
  have id: "op_ID (the (ps i)) = i" "ps i = Some (the (ps i))" if "i \<in> set ids" for i
    using that ok(2) assms(2) by (auto simp: providers_ok_def)
  have map_id: "map op_ID ?el = sort ids" unfolding map_map by (rule map_idI) (simp add: id(1))
  note hd_min = hd_sort(1)[OF ok(3)] and ne = hd_sort(2)[OF ok(3)]
  have im: "op_ID ` set ?el = set ids" using id by force
  show "dr_Network d = TrimSpace n" "dr_Pricing d = rn_Pricing raw"
    using assms(1) by (auto simp: network_discovery_def Let_def split: if_splits sum.splits)
  show "\<forall>p\<in>set (dr_EligibleProviders d). ps (op_ID p) = Some p" unfolding el using id by auto
  have rec: "dr_RecommendedProvider d = (if TrimSpace (rn_PreferredProviderID raw) = [] then hd ?el
       else the (ps (TrimSpace (rn_PreferredProviderID raw))))"
      "TrimSpace (rn_PreferredProviderID raw) \<noteq> [] \<Longrightarrow> TrimSpace (rn_PreferredProviderID raw) \<in> set ids"
    using assms(1) ids(1) by (auto simp: network_discovery_def Let_def split: if_splits)
  have hd_el: "hd ?el = the (ps (Min (set ids)))" "Min (set ids) \<in> set ids"
    using ne hd_min ok(3) by (simp_all add: hd_map)
  show "op_ID (dr_RecommendedProvider d) =
      (if TrimSpace (rn_PreferredProviderID raw) = [] then Min (op_ID ` set (dr_EligibleProviders d))
       else TrimSpace (rn_PreferredProviderID raw))"
    unfolding el im using rec hd_el id by simp
  show "discovery_ok d"
    unfolding discovery_ok_def el map_id
    using assms(1) ok(1) rec hd_el by (auto simp: network_discovery_def Let_def split: if_splits sum.splits)
qed

lemma catalog_networks_ok:
  assumes "catalog_networks ps raw c = Inr c'" "providers_ok ps" "\<And>n d. c n = Some d \<Longrightarrow> P n d"
    and "\<And>n r d. (n, r) \<in> set raw \<Longrightarrow> network_discovery ps n r = Inr d \<Longrightarrow> P (dr_Network d) d"
  shows "c' n = Some d \<Longrightarrow> P n d"
  using assms
proof (induction ps raw c rule: catalog_networks.induct)
  case (2 ps k r rest c)
  then obtain d' where d': "network_discovery ps k r = Inr d'"
      "catalog_networks ps rest (c(dr_Network d' \<mapsto> d')) = Inr c'"
    by (auto split: sum.splits)
  have P': "P (dr_Network d') d'" using 2(6)[OF _ d'(1)] by simp
  show ?case
  proof (rule 2(1)[OF d'(1) 2(2) d'(2) 2(4)])
    show "P n d" if "(c(dr_Network d' \<mapsto> d')) n = Some d" for n d
      using that P' 2(5) by (auto split: if_splits)
    show "P (dr_Network d) d" if "(n, r) \<in> set rest" "network_discovery ps n r = Inr d" for n r d
      by (rule 2(6)[OF _ that(2)]) (simp add: that(1))
  qed
qed simp

lemma ParseCatalog_ok:
  assumes "ParseCatalog l u yaml content = Inr c" "c network = Some d"
  shows "discovery_ok d" "dr_Network d = network"
proof -
  obtain raw :: rawCatalog and ps where c: "catalog_providers l u (rc_Providers raw) Map.empty = Inr ps"
      "catalog_networks ps (rc_Networks raw) Map.empty = Inr c"
    using assms(1) by (auto simp: ParseCatalog_def split: sum.splits if_splits)
  have ps: "providers_ok ps" by (rule catalog_providers_ok[OF c(1)]) (simp add: providers_ok_def)
  have "discovery_ok d \<and> dr_Network d = network"
    by (rule catalog_networks_ok[where P = "\<lambda>n d. discovery_ok d \<and> dr_Network d = n", OF c(2) ps _ _ assms(2)])
      (use network_discovery_ok(1)[OF _ ps] in auto)
  then show "discovery_ok d" "dr_Network d = network" by simp_all
qed

subsection \<open>The network of a package\<close>

text \<open>
  \<open>strings.Fields\<close>, \<open>strings.Join\<close> and \<open>strings.ReplaceAll\<close> for one byte.
\<close>

function fields_from :: "string \<Rightarrow> string \<Rightarrow> string list" where
  "fields_from word s =
     (case strip_one spaces s of
        Some t \<Rightarrow> (if word = [] then fields_from [] t else rev word # fields_from [] t)
      | None \<Rightarrow>
          (case s of
             [] \<Rightarrow> if word = [] then [] else [rev word]
           | c # t \<Rightarrow> fields_from (c # word) t))"
  by pat_completeness auto
termination
  by (relation "measure (\<lambda>(w, s). length s)") (auto dest: strip_one_shorter)

declare fields_from.simps [simp del]

definition Fields :: "string \<Rightarrow> string list" where
  "Fields s = fields_from [] s"

fun Join :: "string list \<Rightarrow> string \<Rightarrow> string" where
  "Join [] sep = []"
| "Join [w] sep = w"
| "Join (w # ws) sep = w @ sep @ Join ws sep"

definition ReplaceAll_char :: "char \<Rightarrow> char \<Rightarrow> string \<Rightarrow> string" where
  "ReplaceAll_char old new s = map (\<lambda>c. if c = old then new else c) s"

definition networkAliases :: "string \<rightharpoonup> string" where
  "networkAliases =
     [''arb'' \<mapsto> ''arbitrum-one'', ''arb-one'' \<mapsto> ''arbitrum-one'', ''arbitrum'' \<mapsto> ''arbitrum-one'',
      ''arbitrum-mainnet'' \<mapsto> ''arbitrum-one'', ''arbitrum-one'' \<mapsto> ''arbitrum-one'',
      ''base'' \<mapsto> ''base'', ''base-mainnet'' \<mapsto> ''base'',
      ''eth'' \<mapsto> ''mainnet'', ''eth-mainnet'' \<mapsto> ''mainnet'', ''ethereum'' \<mapsto> ''mainnet'',
      ''ethereum-mainnet'' \<mapsto> ''mainnet'', ''mainnet'' \<mapsto> ''mainnet'',
      ''matic'' \<mapsto> ''polygon'', ''matic-mainnet'' \<mapsto> ''polygon'', ''polygon'' \<mapsto> ''polygon'',
      ''polygon-mainnet'' \<mapsto> ''polygon'', ''sepolia'' \<mapsto> ''sepolia'']"

definition normalizeNetworkKey :: "string \<Rightarrow> string result" where
  "normalizeNetworkKey raw =
     (let network = TrimSpace raw in
      if network = [] then Inr []
      else
        let network = ToLower network;
            network = ReplaceAll_char (CHR ''_'') (CHR ''-'') network;
            network = Join (Fields network) ''-''
        in if network = [] then Inl (Errorf ''network is required'' [] None)
           else (case networkAliases network of Some canonical \<Rightarrow> Inr canonical | None \<Rightarrow> Inr network))"

text \<open>The keys of the networks of a package, in the order the loop visits them.\<close>

record Package =
  pkg_Network :: string
  pkg_Networks :: "string list"

fun normalize_networks :: "string list \<Rightarrow> string list \<Rightarrow> string list result" where
  "normalize_networks [] normalized = Inr normalized"
| "normalize_networks (rawNetwork # rest) normalized =
     (if TrimSpace rawNetwork = []
      then Inl (Errorf ''invalid <substreams_package.networks[%q]>: network is required'' [rawNetwork] None)
      else (case normalizeNetworkKey rawNetwork of
         Inl err \<Rightarrow> Inl (Errorf ''invalid <substreams_package.networks[%q]>: %w'' [rawNetwork] (Some err))
       | Inr network \<Rightarrow>
           if network \<in> set normalized
           then Inl (Errorf ''duplicate normalized <substreams_package.networks> entry %q'' [network] None)
           else normalize_networks rest (normalized @ [network])))"

definition normalizePackageNetworks :: "string list \<Rightarrow> string list result" where
  "normalizePackageNetworks networks = (if networks = [] then Inr [] else normalize_networks networks [])"

definition network_required :: go_error where
  "network_required = Errorf ''either <substreams_package.network> or <requested_network> is required when <provider_control_plane_endpoint> is not set'' [] None"

definition derive_network :: "string \<Rightarrow> string list \<Rightarrow> string \<Rightarrow> string result" where
  "derive_network topLevelNetwork normalizedNetworks requestedNetwork =
     (case normalizedNetworks of
        [] \<Rightarrow> Inr topLevelNetwork
      | [network] \<Rightarrow> Inr network
      | _ \<Rightarrow>
          if topLevelNetwork \<noteq> [] \<and> topLevelNetwork \<in> set normalizedNetworks then Inr topLevelNetwork
          else if requestedNetwork \<noteq> [] \<and> requestedNetwork \<in> set normalizedNetworks then Inr requestedNetwork
          else Inl (Errorf ''ambiguous package network metadata: multiple <substreams_package.networks> entries require a matching top-level <substreams_package.network> or <requested_network>'' [] None))"

definition resolveRequestedNetwork :: "Package option \<Rightarrow> string \<Rightarrow> string result" where
  "resolveRequestedNetwork pkg requested =
     (case normalizeNetworkKey requested of
        Inl err \<Rightarrow> Inl (Errorf ''invalid <requested_network>: %w'' [] (Some err))
      | Inr requestedNetwork \<Rightarrow>
          (case pkg of
             None \<Rightarrow> if requestedNetwork \<noteq> [] then Inr requestedNetwork else Inl network_required
           | Some pkg \<Rightarrow>
               (case normalizeNetworkKey (pkg_Network pkg) of
                  Inl err \<Rightarrow> Inl (Errorf ''invalid <substreams_package.network>: %w'' [] (Some err))
                | Inr topLevelNetwork \<Rightarrow>
                    (case normalizePackageNetworks (pkg_Networks pkg) of
                       Inl err \<Rightarrow> Inl err
                     | Inr normalizedNetworks \<Rightarrow>
                         (case derive_network topLevelNetwork normalizedNetworks requestedNetwork of
                            Inl err \<Rightarrow> Inl err
                          | Inr derivedNetwork \<Rightarrow>
                              if derivedNetwork \<noteq> [] then
                                (if requestedNetwork \<noteq> [] \<and> derivedNetwork \<noteq> requestedNetwork
                                 then Inl (Errorf ''package-derived network %q conflicts with requested network %q''
                                             [derivedNetwork, requestedNetwork] None)
                                 else Inr derivedNetwork)
                              else if requestedNetwork \<noteq> [] then Inr requestedNetwork
                              else Inl network_required)))))"


subsection \<open>Selecting a provider\<close>

record initProviderSelection =
  sel_ControlPlaneEndpoint :: string
  sel_ProviderID :: string
  sel_Network :: string
  sel_OraclePricing :: "PricingConfig option"
  sel_Receiver :: address

definition effectiveSessionPricing ::
  "PricingConfig option \<Rightarrow> PricingConfig option \<Rightarrow> PricingConfig option result" where
  "effectiveSessionPricing providerPricing oraclePricing =
     (case oraclePricing of
        None \<Rightarrow> Inr providerPricing
      | Some o' \<Rightarrow>
          (case providerPricing of
             None \<Rightarrow> Inr oraclePricing
           | Some p \<Rightarrow>
               if GRT_Cmp (PricePerBlock p) (PricePerBlock o') > 0
               then Inl (Errorf ''provider <pricing_config.price_per_block> %s exceeds oracle canonical price %s''
                           [GRT_String (PricePerBlock p), GRT_String (PricePerBlock o')] None)
               else if GRT_Cmp (PricePerByte p) (PricePerByte o') > 0
               then Inl (Errorf ''provider <pricing_config.price_per_byte> %s exceeds oracle canonical price %s''
                           [GRT_String (PricePerByte p), GRT_String (PricePerByte o')] None)
               else Inr providerPricing))"

text \<open>The call to the oracle at the configured endpoint is the parameter \<open>oracle\<close>.\<close>

definition selection_of_reply ::
  "eth_lib \<Rightarrow> address option \<Rightarrow> string \<Rightarrow> DiscoverProvidersResponse \<Rightarrow> initProviderSelection rpc" where
  "selection_of_reply l expectedReceiver network resp =
     (case dp_SelectedProvider resp of
        None \<Rightarrow> Inl (CodeInternal, Errorf ''oracle returned no selected provider'' [] None)
      | Some selectedProvider \<Rightarrow>
          (case ep_ServiceProvider selectedProvider of
             None \<Rightarrow> Inl (CodeInternal, Errorf ''oracle selected provider is missing <service_provider>'' [] None)
           | Some a \<Rightarrow>
               (case ToEth (Some a) of
                  Inl err \<Rightarrow> Inl (CodeInternal,
                    Errorf ''oracle returned invalid selected provider <service_provider>: %w'' [] (Some err))
                | Inr selectedReceiver \<Rightarrow>
                    if (case expectedReceiver of None \<Rightarrow> False | Some r \<Rightarrow> \<not> AddressesEqual selectedReceiver r)
                    then Inl (CodeInvalidArgument,
                      Errorf ''oracle selected provider %q (%s) does not match <receiver> %s''
                        [ep_ProviderId selectedProvider, lib_String l selectedReceiver,
                         lib_String l (the expectedReceiver)] None)
                    else (case PricingConfig_ToNative (lib_fromBig l) (dp_CanonicalPricing resp) of
                       None \<Rightarrow> Inl (CodeInternal, Errorf ''oracle returned no canonical pricing'' [] None)
                     | Some oraclePricingConfig \<Rightarrow>
                         Inr \<lparr>sel_ControlPlaneEndpoint = ep_ControlPlaneEndpoint selectedProvider,
                              sel_ProviderID = ep_ProviderId selectedProvider, sel_Network = network,
                              sel_OraclePricing = Some oraclePricingConfig,
                              sel_Receiver = selectedReceiver\<rparr>))))"

definition resolveProviderSelection ::
  "eth_lib \<Rightarrow> url_lib \<Rightarrow> (string \<Rightarrow> DiscoverProvidersResponse rpc) \<Rightarrow> string \<Rightarrow> address option \<Rightarrow> string \<Rightarrow>
   Package option \<Rightarrow> string \<Rightarrow> initProviderSelection rpc" where
  "resolveProviderSelection l u oracle configuredOracle expectedReceiver directEndpoint pkg requestedNetwork =
     (let endpoint = TrimSpace directEndpoint in
      if endpoint \<noteq> [] then
        (case expectedReceiver of
           None \<Rightarrow> invalid_argument ''<receiver> is required when <provider_control_plane_endpoint> is set''
         | Some r \<Rightarrow> Inr \<lparr>sel_ControlPlaneEndpoint = endpoint, sel_ProviderID = [], sel_Network = [],
                         sel_OraclePricing = None, sel_Receiver = r\<rparr>)
      else
        let oracleEndpoint = TrimSpace configuredOracle in
        if oracleEndpoint = []
        then Inl (CodeFailedPrecondition, Errorf ''consumer sidecar oracle discovery is not configured'' [] None)
        else (case resolveRequestedNetwork pkg requestedNetwork of
           Inl err \<Rightarrow> Inl (CodeInvalidArgument, err)
         | Inr network \<Rightarrow>
             if pe_URL (ParseEndpoint u oracleEndpoint) = []
             then Inl (CodeFailedPrecondition, Errorf ''invalid configured oracle endpoint'' [] None)
             else (case oracle network of
                Inl e \<Rightarrow> Inl e
              | Inr resp \<Rightarrow> selection_of_reply l expectedReceiver network resp)))"

text \<open>A price the consumer agrees to is never above the oracle's.\<close>

definition price_le :: "PricingConfig \<Rightarrow> PricingConfig \<Rightarrow> bool" where
  "price_le p q \<longleftrightarrow> BigInt (PricePerBlock p) \<le> BigInt (PricePerBlock q) \<and>
     BigInt (PricePerByte p) \<le> BigInt (PricePerByte q)"

lemma GRT_Cmp_pos: "GRT_Cmp a b > 0 \<longleftrightarrow> BigInt b < BigInt a"
  by (auto simp: GRT_Cmp_def BigInt_def simp flip: word_less_def)

lemma effectiveSessionPricing_ceiling:
  assumes "effectiveSessionPricing p (Some q) = Inr r"
  shows "\<exists>c. r = Some c \<and> price_le c q"
  using assms
  by (auto simp: effectiveSessionPricing_def price_le_def GRT_Cmp_pos not_less split: option.splits if_splits)

lemma derive_network_named:
  "derive_network t ns q = Inr d \<Longrightarrow> d = t \<or> d \<in> set ns \<or> d = q"
  by (auto simp: derive_network_def split: list.splits if_splits)

text \<open>A network that was asked for explicitly is the network that is used, or the request fails.\<close>

lemma resolveRequestedNetwork_requested:
  assumes "resolveRequestedNetwork pkg requested = Inr n"
  shows "n \<noteq> []" "normalizeNetworkKey requested = Inr q \<Longrightarrow> q \<noteq> [] \<Longrightarrow> n = q"
  using assms by (auto simp: resolveRequestedNetwork_def split: sum.splits option.splits if_splits)

lemma address_wire: "length a = 20 \<Longrightarrow> ToEth (Some (AddressFromEth a)) = Inr a"
  by (simp add: ToEth_def AddressFromEth_def)

lemma pricing_wire:
  "FromBig_ok fb \<Longrightarrow> PricingConfig_ToNative fb (PricingConfigFromNative (Some c)) = Some c"
  by (simp add: PricingConfig_ToNative_def PricingConfigFromNative_def GRT_ToNative_FromNative)



text \<open>A catalog of one network with two providers, and an endpoint library that keeps addresses as they are.\<close>

definition url_std :: url_lib where
  "url_std = \<lparr>url_Parse = (\<lambda>s. Inr \<lparr>url_Scheme = ''https'', url_Host = ''h'', url_Query = [], url_rest = s\<rparr>),
     url_String = url_rest\<rparr>"

definition sample_prices :: PricingConfig where
  "sample_prices = \<lparr>PricePerBlock = mkGRT 5, PricePerByte = mkGRT 1\<rparr>"

definition sample_catalog :: rawCatalog where
  "sample_catalog =
     \<lparr>rc_Providers = [\<lparr>rp_ID = ''b'', rp_ServiceProvider = ''bbbbbbbbbbbbbbbbbbbb'', rp_ControlPlaneEndpoint = ''b.io''\<rparr>,
        \<lparr>rp_ID = ''a'', rp_ServiceProvider = ''aaaaaaaaaaaaaaaaaaaa'', rp_ControlPlaneEndpoint = ''a.io''\<rparr>],
      rc_Networks = [(''mainnet'', \<lparr>rn_Pricing = sample_prices, rn_ProviderIDs = [''b'', ''a''],
        rn_PreferredProviderID = []\<rparr>)]\<rparr>"

definition sample_selects :: "rawCatalog \<Rightarrow> string \<Rightarrow> bool" where
  "sample_selects raw i =
     (case ParseCatalog lib_std url_std (\<lambda>_. Inr raw) [] of
        Inl _ \<Rightarrow> False
      | Inr c \<Rightarrow>
          (case resolveProviderSelection lib_std url_std (DiscoverProviders (Some c)) ''o.io'' None [] None ''Ethereum'' of
             Inl _ \<Rightarrow> False
           | Inr sel \<Rightarrow> sel_ProviderID sel = i))"

lemma sample_catalog_selects: "sample_selects sample_catalog ''a''"
  by code_simp


text \<open>
  Two keys that differ only in surrounding space are one network, and the entry visited last wins:
  which provider is recommended depends on the order in which the map is walked.
\<close>

definition spaced_catalog :: "bool \<Rightarrow> rawCatalog" where
  "spaced_catalog flip =
     (let entry = (\<lambda>i. \<lparr>rn_Pricing = sample_prices, rn_ProviderIDs = [i], rn_PreferredProviderID = []\<rparr>);
          nets = [(''mainnet'', entry ''a''), (''mainnet '', entry ''b'')]
      in sample_catalog\<lparr>rc_Networks := if flip then rev nets else nets\<rparr>)"

lemma catalog_order_matters:
  "sample_selects (spaced_catalog False) ''b'' \<and> sample_selects (spaced_catalog True) ''a''"
  by code_simp

text \<open>Every canonical name is its own normal form.\<close>

lemma canonical_networks_fixed:
  "list_all (\<lambda>n. normalizeNetworkKey n = Inr n) [''arbitrum-one'', ''base'', ''mainnet'', ''polygon'', ''sepolia'']"
  by code_simp


end
