(* ===== verification/Sds_Payment_Client.thy ===== *)
theory Sds_Payment_Client
  imports Sds_Sidecar
begin

text \<open>
  The consumer's end of the payment stream (\<open>consumer/sidecar/payment_session_manager.go\<close>): one client
  per session, which opens a stream, binds it to the session and sends vouchers over it. A client
  holds its lock except while it sends, so every operation that sends is two locked sections, and
  other operations may run in between. Streams and channels are known by numbers drawn in order.
\<close>

subsection \<open>The client\<close>

text \<open>
  \<open>pc_gateway\<close> is the endpoint the gateway client was built for, \<open>pc_closed\<close> the binding channels that
  were closed and \<open>pc_next\<close> the next number. A stream comes with a send lock and a receive channel;
  \<open>pc_sendMu\<close> and \<open>pc_receiveCh\<close> tell whether they are there.
\<close>

record PaymentClient =
  pc_providerEndpoint :: string
  pc_gateway :: string
  pc_cancelled :: bool
  pc_stream :: "nat option"
  pc_sendMu :: bool
  pc_receiveCh :: bool
  pc_boundSessionID :: string
  pc_bindingSessionID :: string
  pc_bindingDone :: "nat option"
  pc_streamGeneration :: u64
  pc_closed :: "nat set"
  pc_next :: nat

definition newPaymentSessionClient :: "string \<Rightarrow> PaymentClient" where
  "newPaymentSessionClient providerEndpoint =
     \<lparr>pc_providerEndpoint = providerEndpoint, pc_gateway = providerEndpoint, pc_cancelled = False,
      pc_stream = None, pc_sendMu = False, pc_receiveCh = False, pc_boundSessionID = [],
      pc_bindingSessionID = [], pc_bindingDone = None, pc_streamGeneration = 0, pc_closed = {}, pc_next = 0\<rparr>"

definition finishBindingLocked :: "PaymentClient \<Rightarrow> PaymentClient" where
  "finishBindingLocked c =
     (case pc_bindingDone c of
        None \<Rightarrow> c
      | Some d \<Rightarrow> c\<lparr>pc_closed := insert d (pc_closed c), pc_bindingDone := None\<rparr>)"

definition closeLocked :: "PaymentClient \<Rightarrow> PaymentClient" where
  "closeLocked c =
     finishBindingLocked
       (c\<lparr>pc_streamGeneration := pc_streamGeneration c + 1, pc_stream := None, pc_sendMu := False,
          pc_receiveCh := False, pc_boundSessionID := [], pc_bindingSessionID := []\<rparr>)"

definition client_SetEndpoint :: "string \<Rightarrow> PaymentClient \<Rightarrow> PaymentClient" where
  "client_SetEndpoint providerEndpoint c =
     (if providerEndpoint = [] then c
      else if pc_providerEndpoint c = providerEndpoint then c
      else (closeLocked c)\<lparr>pc_providerEndpoint := providerEndpoint, pc_gateway := providerEndpoint\<rparr>)"

definition ensureStreamLocked :: "PaymentClient \<Rightarrow> nat \<times> PaymentClient" where
  "ensureStreamLocked c =
     (case pc_stream c of
        Some s \<Rightarrow> (s, c)
      | None \<Rightarrow>
          (pc_next c, c\<lparr>pc_stream := Some (pc_next c), pc_sendMu := True, pc_receiveCh := True,
                       pc_next := Suc (pc_next c)\<rparr>))"

definition client_Close :: "PaymentClient \<Rightarrow> PaymentClient" where
  "client_Close c = (closeLocked c)\<lparr>pc_cancelled := True\<rparr>"

text \<open>The channel a receiver reads from; \<open>None\<close> makes \<open>Receive\<close> report cancellation at once.\<close>

definition receive_channel :: "PaymentClient \<Rightarrow> nat option" where
  "receive_channel c = (if pc_receiveCh c then pc_stream c else None)"

subsection \<open>Binding a session\<close>

text \<open>
  What one turn of the loop decides under the lock: done, refused, wait for another binding to end,
  or send over a stream, with the values remembered for the second section.
\<close>

datatype bind_turn =
    BindDone
  | BindFailed go_error
  | BindWait "nat option"
  | BindSend nat bool "nat option" u64

definition BindSession_turn :: "string \<Rightarrow> PaymentClient \<Rightarrow> bind_turn \<times> PaymentClient" where
  "BindSession_turn sessionID c =
     (if sessionID = [] then (BindFailed (Errorf ''session id is required'' [] None), c)
      else if pc_boundSessionID c = sessionID \<and> pc_stream c \<noteq> None then (BindDone, c)
      else if pc_bindingSessionID c = sessionID then (BindWait (pc_bindingDone c), c)
      else if pc_boundSessionID c \<noteq> [] \<and> pc_boundSessionID c \<noteq> sessionID
      then (BindFailed (Errorf ''payment session client already bound to %q'' [pc_boundSessionID c] None), c)
      else if pc_bindingSessionID c \<noteq> [] \<and> pc_bindingSessionID c \<noteq> sessionID
      then (BindFailed (Errorf ''payment session client is currently binding %q'' [pc_bindingSessionID c] None), c)
      else
        (case ensureStreamLocked c of (stream, c) \<Rightarrow>
           let c = (if pc_bindingDone c = None
                    then c\<lparr>pc_bindingDone := Some (pc_next c), pc_next := Suc (pc_next c)\<rparr> else c)
           in (BindSend stream (pc_sendMu c) (pc_bindingDone c) (pc_streamGeneration c),
               c\<lparr>pc_bindingSessionID := sessionID\<rparr>)))"

text \<open>The second section, after the send: \<open>err\<close> is what the send returned.\<close>

definition BindSession_finish ::
  "string \<Rightarrow> nat \<Rightarrow> nat option \<Rightarrow> u64 \<Rightarrow> go_error option \<Rightarrow> PaymentClient \<Rightarrow> unit result \<times> PaymentClient" where
  "BindSession_finish sessionID stream bindingDone streamGeneration err c =
     (let sameStream = (pc_stream c = Some stream \<and> pc_streamGeneration c = streamGeneration);
          attemptActive = (pc_bindingDone c = bindingDone \<and> pc_bindingSessionID c = sessionID)
      in (case err of
            None \<Rightarrow>
              if sameStream \<and> attemptActive
              then (Inr (), finishBindingLocked (c\<lparr>pc_boundSessionID := sessionID, pc_bindingSessionID := []\<rparr>))
              else
                (Inl (Errorf ''bind payment session %q: stream changed while binding'' [sessionID] None),
                 if attemptActive then finishBindingLocked (c\<lparr>pc_bindingSessionID := []\<rparr>) else c)
          | Some e \<Rightarrow>
              (Inl (Errorf ''bind payment session %q: %w'' [sessionID] (Some e)),
               if sameStream \<and> attemptActive then closeLocked c
               else if attemptActive then finishBindingLocked (c\<lparr>pc_bindingSessionID := []\<rparr>)
               else c)))"

subsection \<open>Sending a voucher\<close>

text \<open>
  As for binding; \<open>SubmitAgain\<close> is a turn in which no case of the switch applies and the loop starts
  over at once.
\<close>

datatype submit_turn =
    SubmitFailed go_error
  | SubmitWait "nat option"
  | SubmitSend nat bool u64
  | SubmitAgain

definition SendRAVSubmission_turn :: "string \<Rightarrow> SignedRAV option \<Rightarrow> PaymentClient \<Rightarrow> submit_turn" where
  "SendRAVSubmission_turn sessionID signedRAV c =
     (if sessionID = [] then SubmitFailed (Errorf ''session id is required'' [] None)
      else if signedRAV = None then SubmitFailed (Errorf ''signed RAV is required'' [] None)
      else if pc_boundSessionID c = sessionID \<and> pc_stream c \<noteq> None
      then SubmitSend (the (pc_stream c)) (pc_sendMu c) (pc_streamGeneration c)
      else if pc_bindingSessionID c = sessionID then SubmitWait (pc_bindingDone c)
      else if pc_boundSessionID c = []
      then SubmitFailed (Errorf ''payment session client is not bound'' [] None)
      else if pc_boundSessionID c \<noteq> sessionID
      then SubmitFailed (Errorf ''payment session client is bound to %q, not %q'' [pc_boundSessionID c, sessionID] None)
      else SubmitAgain)"

definition SendRAVSubmission_finish ::
  "string \<Rightarrow> nat \<Rightarrow> u64 \<Rightarrow> go_error option \<Rightarrow> PaymentClient \<Rightarrow> unit result \<times> PaymentClient" where
  "SendRAVSubmission_finish sessionID stream streamGeneration err c =
     (case err of
        None \<Rightarrow> (Inr (), c)
      | Some e \<Rightarrow>
          (Inl (Errorf ''send rav submission for session %q: %w'' [sessionID] (Some e)),
           if pc_stream c = Some stream \<and> pc_streamGeneration c = streamGeneration then closeLocked c else c))"

text \<open>The request that carries the voucher.\<close>

definition rav_submission_request ::
  "eth_lib \<Rightarrow> string \<Rightarrow> SignedRAV \<Rightarrow> pb_Usage option \<Rightarrow> PaymentSessionRequest" where
  "rav_submission_request l sessionID signedRAV usage' =
     \<lparr>psq_SessionId = sessionID,
      psq_Message = Some (Message_RavSubmission (Some
        \<lparr>sb_SignedRav = HorizonSignedRAVToProto (lib_fromBig l) (Some signedRAV), sb_Usage = usage'\<rparr>))\<rparr>"

definition bind_request :: "string \<Rightarrow> PaymentSessionRequest" where
  "bind_request sessionID = \<lparr>psq_SessionId = sessionID, psq_Message = None\<rparr>"

text \<open>Without a send lock nothing is sent; \<open>send\<close> is the outcome of the transport.\<close>

definition sendRequest :: "bool \<Rightarrow> go_error option \<Rightarrow> go_error option" where
  "sendRequest sendMu send =
     (if \<not> sendMu then Some (Errorf ''payment session client transport is unavailable'' [] None) else send)"

definition client_GetSessionStatus ::
  "(string \<Rightarrow> GetSessionStatusResponse rpc) \<Rightarrow> string \<Rightarrow> GetSessionStatusResponse result" where
  "client_GetSessionStatus call sessionID =
     (if sessionID = [] then Inl (Errorf ''session id is required'' [] None)
      else (case call sessionID of
         Inl (code, err) \<Rightarrow> Inl (Errorf ''get session status for %q: %w'' [sessionID] (Some err))
       | Inr resp \<Rightarrow> Inr resp))"

subsection \<open>The manager\<close>

type_synonym PaymentSessionManager = "string \<rightharpoonup> PaymentClient"

definition manager_SetEndpoint :: "string \<Rightarrow> string \<Rightarrow> PaymentSessionManager \<Rightarrow> PaymentSessionManager" where
  "manager_SetEndpoint sessionID providerEndpoint m =
     (if sessionID = [] \<or> providerEndpoint = [] then m
      else (case m sessionID of
         None \<Rightarrow> m(sessionID \<mapsto> newPaymentSessionClient providerEndpoint)
       | Some c \<Rightarrow> m(sessionID \<mapsto> client_SetEndpoint providerEndpoint c)))"

definition manager_Close :: "string \<Rightarrow> PaymentSessionManager \<Rightarrow> PaymentSessionManager" where
  "manager_Close sessionID m = m(sessionID := None)"

subsection \<open>Every interleaving keeps the client in order\<close>

text \<open>
  The second sections run with whatever the first ones remembered, long ago or just now: any values
  are allowed for them.
\<close>

inductive client_step :: "PaymentClient \<Rightarrow> PaymentClient \<Rightarrow> bool" where
  set_endpoint: "client_step c (client_SetEndpoint e c)"
| bind_turn: "client_step c (snd (BindSession_turn i c))"
| bind_finish: "i \<noteq> [] \<Longrightarrow> client_step c (snd (BindSession_finish i s (Some d) g err c))"
| submit_finish: "client_step c (snd (SendRAVSubmission_finish i s g err c))"
| close: "client_step c (client_Close c)"

definition client_ok :: "PaymentClient \<Rightarrow> bool" where
  "client_ok c \<longleftrightarrow>
     (pc_boundSessionID c \<noteq> [] \<longrightarrow> pc_stream c \<noteq> None \<and> pc_bindingSessionID c = []) \<and>
     (pc_bindingSessionID c \<noteq> [] \<longleftrightarrow> pc_bindingDone c \<noteq> None) \<and>
     (\<forall>d. pc_bindingDone c = Some d \<longrightarrow> d \<notin> pc_closed c \<and> d < pc_next c) \<and>
     (\<forall>d\<in>pc_closed c. d < pc_next c) \<and>
     (pc_sendMu c \<longleftrightarrow> pc_stream c \<noteq> None) \<and> (pc_receiveCh c \<longleftrightarrow> pc_stream c \<noteq> None)"

lemma new_client_ok: "client_ok (newPaymentSessionClient e)"
  by (simp add: client_ok_def newPaymentSessionClient_def)

lemma closeLocked_ok: "client_ok c \<Longrightarrow> client_ok (closeLocked c)"
  by (auto simp: client_ok_def closeLocked_def finishBindingLocked_def split: option.splits)

lemma end_attempt_ok:
  assumes "client_ok c" "pc_bindingSessionID c \<noteq> []" "b = [] \<or> pc_stream c \<noteq> None"
  shows "client_ok (finishBindingLocked (c\<lparr>pc_boundSessionID := b, pc_bindingSessionID := []\<rparr>))"
  using assms by (auto simp: client_ok_def finishBindingLocked_def split: option.splits)

lemma bind_turn_ok: "client_ok c \<Longrightarrow> client_ok (snd (BindSession_turn i c))"
  by (auto simp: client_ok_def BindSession_turn_def ensureStreamLocked_def Let_def less_Suc_eq split: option.splits)

lemma bound_or_binding: "client_ok c \<Longrightarrow> pc_bindingSessionID c \<noteq> [] \<Longrightarrow> pc_boundSessionID c = []"
  by (auto simp: client_ok_def)

lemma bind_finish_ok:
  assumes "client_ok c" "i \<noteq> []"
  shows "client_ok (snd (BindSession_finish i s (Some d) g err c))"
proof -
  have same: "c\<lparr>pc_bindingSessionID := []\<rparr> = c\<lparr>pc_boundSessionID := [], pc_bindingSessionID := []\<rparr>"
    if "pc_bindingSessionID c = i"
    using bound_or_binding[OF assms(1)] that assms(2) by simp
  show ?thesis
    unfolding BindSession_finish_def Let_def
    using assms same closeLocked_ok[OF assms(1)] end_attempt_ok[OF assms(1), of i] end_attempt_ok[OF assms(1), of "[]"]
    by (auto split: option.splits)
qed

lemma client_step_ok: "client_step c c' \<Longrightarrow> client_ok c \<Longrightarrow> client_ok c'"
proof (induction rule: client_step.induct)
  case (set_endpoint c e)
  then show ?case using closeLocked_ok[of c] by (auto simp: client_SetEndpoint_def client_ok_def)
next
  case (close c)
  then show ?case using closeLocked_ok[of c] by (auto simp: client_Close_def client_ok_def)
next
  case (submit_finish c i s g err)
  then show ?case using closeLocked_ok[of c] by (auto simp: SendRAVSubmission_finish_def split: option.splits)
qed (simp_all add: bind_turn_ok bind_finish_ok)

text \<open>A binding channel that is no longer the current one has been closed: nobody waits in vain.\<close>

lemma client_step_wakes:
  assumes "client_step c c'" "client_ok c" "pc_bindingDone c = Some d"
  shows "pc_bindingDone c' = Some d \<or> d \<in> pc_closed c'"
  using assms
proof (induction rule: client_step.induct)
  case (bind_turn c i)
  then show ?case
    by (auto simp: BindSession_turn_def ensureStreamLocked_def Let_def split: option.splits)
qed (auto simp: client_SetEndpoint_def client_Close_def BindSession_finish_def SendRAVSubmission_finish_def
      closeLocked_def finishBindingLocked_def Let_def split: option.splits)

lemma client_step_closed: "client_step c c' \<Longrightarrow> pc_closed c \<subseteq> pc_closed c'"
proof (induction rule: client_step.induct)
  case (bind_turn c i)
  then show ?case
    by (auto simp: BindSession_turn_def ensureStreamLocked_def Let_def split: option.splits)
qed (auto simp: client_SetEndpoint_def client_Close_def BindSession_finish_def SendRAVSubmission_finish_def
      closeLocked_def finishBindingLocked_def Let_def split: option.splits)

lemma run_ok: "client_step\<^sup>*\<^sup>* c c' \<Longrightarrow> client_ok c \<Longrightarrow> client_ok c'"
  by (induction rule: rtranclp_induct) (auto intro: client_step_ok)

lemma run_wakes:
  assumes "client_step\<^sup>*\<^sup>* c c'" "client_ok c" "pc_bindingDone c = Some d"
  shows "pc_bindingDone c' = Some d \<or> d \<in> pc_closed c'"
  using assms(1)
proof (induction rule: rtranclp_induct)
  case (step c1 c2)
  then show ?case
    using client_step_wakes[OF step.hyps(2) run_ok[OF step.hyps(1) assms(2)], of d] client_step_closed[OF step.hyps(2)]
    by blast
qed (simp add: assms(3))




end
