(* ===== verification/Sds_Gateway_Flow.thy ===== *)
theory Sds_Gateway_Flow
  imports Sds_Payment
begin

text \<open>
  What the single operations of the gateway guarantee: which vouchers a payment stream accepts,
  when a session is ended for lack of funds, that a reconnected stream is asked again for a
  payment that is due, who is bound to a session, and which sessions start.
\<close>

subsection \<open>Accepted vouchers\<close>

text \<open>The payer itself, a signer remembered as authorised, or one the collector contract authorises.\<close>

definition signer_accepted ::
  "eth_lib \<Rightarrow> Gateway \<Rightarrow> node \<Rightarrow> auth_cache \<Rightarrow> time \<Rightarrow> address \<Rightarrow> address \<Rightarrow> bool" where
  "signer_accepted l g n cache now p s \<longleftrightarrow> s = p \<or>
     (\<exists>e. cache (lib_String l p @ ''|'' @ lib_String l s) = Some (True, e) \<and> now < e) \<or>
     (\<exists>addr. gw_collectorQuerier g = Querier addr \<and> IsAuthorized (nd_call n) addr p s = Inr True)"

lemma gw_isSignerAuthorized_True:
  assumes "gw_isSignerAuthorized l g n p s now later cache = Some (Inr True, cache')"
  shows "signer_accepted l g n cache now p s"
  using assms unfolding signer_accepted_def
  by (auto simp: gw_isSignerAuthorized_def AddressesEqual_def Let_def
      split: if_splits option.splits prod.splits CollectorRef.splits sum.splits)

lemma collectionValuesEqual_iff: "collectionValuesEqual a b \<longleftrightarrow> a = b"
  by (cases a; cases b) (simp_all add: collectionValuesEqual_def)

text \<open>A stored voucher is in the settlement table with its value.\<close>

lemma SessionUpdateRAVAndBaseline_records:
  assumes "SessionUpdateRAVAndBaseline pretty i (Some sr) b y q c now r = (Inr (), r')" "Message sr = Some m"
  shows "\<exists>cr. records r' (collectionMapKey pretty \<lparr>ck_SessionID = i, ck_CollectionID = CollectionID m,
      ck_Payer = Payer m, ck_ServiceProvider = ServiceProvider m, ck_DataService = DataService m\<rparr>) = Some cr \<and>
    cr_ValueAggregate cr = ValueAggregate m"
proof -
  let ?key = "collectionMapKey pretty \<lparr>ck_SessionID = i, ck_CollectionID = CollectionID m,
      ck_Payer = Payer m, ck_ServiceProvider = ServiceProvider m, ck_DataService = DataService m\<rparr>"
  obtain next' s where n: "collectionNextCollectibleLocked pretty i (Some sr) now r = Inr next'"
      "r' = set_record pretty next' (put_session i s r)"
    using assms(1)
    by (auto simp: SessionUpdateRAVAndBaseline_def collection_next_for_def set_record_opt_def
        split: sum.splits option.splits)
  have "cr_ValueAggregate next' = ValueAggregate m \<and>
      (collectionMapKey pretty (cr_Key next') = ?key \<or> records r ?key = Some next')"
    using n(1) assms(2)
    by (auto simp: collectionNextCollectibleLocked_def newCollectionRecordFromRAV_def collectionValuesEqual_iff Let_def
        split: if_splits option.splits)
  then show ?thesis unfolding n(2) by auto
qed

lemma evaluate_records [simp]:
  "records (gs_repo (snd (evaluateMeteredUsage l g n i now st))) = records (gs_repo st)"
proof (cases "\<exists>s. sessions (gs_repo st) i = Some s \<and> IsActive s")
  case False
  show ?thesis unfolding evaluate_inactive[OF False] by simp
next
  case True
  then obtain s where "sessions (gs_repo st) i = Some s" "IsActive s" by blast
  then show ?thesis by (simp add: evaluate_active Let_def)
qed

text \<open>
  C4: A payment stream accepts only the voucher it asked for (\<open>handleRAVSubmission\<close>,
  \<open>provider/gateway/handler_payment_session.go\<close>). The stream goes on only if a request was in flight
  whose usage the submission repeats, and the voucher is well-formed, names the payer and data
  service of the session and this provider, has exactly the value asked for, and was signed by
  the payer or a signer the collector authorises. Then the session holds that voucher, with the
  counters of the request's snapshot as its new baseline, and the settlement table holds its
  value. Any other submission stops the stream and leaves repository and request as they were.
\<close>

theorem handleRAVSubmission_sound:
  assumes "lib_ok l" "sessions (gs_repo st) i = Some s"
    and "handleRAVSubmission l g n i s sub clk st = Some (resp, st')"
  shows "(\<exists>reason. resp = stopPaymentSessionResponse reason) \<and> gs_repo st' = gs_repo st \<and>
      (\<forall>j. pending_of j st' = pending_of j st) \<or>
    (resp = continuePaymentSessionResponse \<and>
     (\<exists>sb p sr m signer s' cr. sub = Some sb \<and> pending_of i st = Some p \<and>
        usageEqual (lib_fromBig l) (pq_usage p) (sb_Usage sb) \<and>
        ProtoSignedRAVToHorizon (lib_fromBig l) (lib_newSig l) (sb_SignedRav sb) = Inr (Some sr) \<and>
        Message sr = Some m \<and> wf_RAV m \<and> Payer m = ses_Payer s \<and> DataService m = ses_DataService s \<and>
        ServiceProvider m = gw_serviceProvider g \<and> ValueAggregate m = Some (pq_targetValue p) \<and>
        RAV_RecoverSigner (lib_keccak l) (lib_recover l) (gw_domain g) sr = Some (Inr signer) \<and>
        signer_accepted l g n (gs_authCache st) (clk 0) (ses_Payer s) signer \<and>
        sessions (gs_repo st') i = Some s' \<and> ses_CurrentRAV s' = Some sr \<and>
        ses_BaselineBlocks s' = pq_baselineBlocks p \<and> ses_BaselineBytes s' = pq_baselineBytes p \<and>
        ses_BaselineReqs s' = pq_baselineReqs p \<and> ses_BaselineCost s' = Some (pq_baselineCost p) \<and>
        records (gs_repo st') (collectionMapKey (lib_pretty l) \<lparr>ck_SessionID = i, ck_CollectionID = CollectionID m,
          ck_Payer = Payer m, ck_ServiceProvider = ServiceProvider m, ck_DataService = DataService m\<rparr>) = Some cr \<and>
        cr_ValueAggregate cr = ValueAggregate m))"
  using handleRAVSubmission_cases[OF assms(3)]
proof (elim disjE)
  assume "\<exists>sb p sr cache r. resp = continuePaymentSessionResponse \<and> sub = Some sb \<and> pending_of i st = Some p \<and>
       check_submission l g n s sb p clk (gs_authCache st) = Some (Inr sr, cache) \<and>
       commitAcceptedRAV l i sr (Some p) (clk 2) (gs_repo st) = (Inr (), r) \<and>
       st' = snd (evaluateMeteredUsage l g n i (clk 3)
         (settle_pending i (set_repo r ((ensureSessionStateLocked i st)\<lparr>gs_authCache := cache\<rparr>))))"
  then obtain sb p sr cache r where a: "resp = continuePaymentSessionResponse" "sub = Some sb" "pending_of i st = Some p"
      "check_submission l g n s sb p clk (gs_authCache st) = Some (Inr sr, cache)"
      "commitAcceptedRAV l i sr (Some p) (clk 2) (gs_repo st) = (Inr (), r)"
      "st' = snd (evaluateMeteredUsage l g n i (clk 3)
         (settle_pending i (set_repo r ((ensureSessionStateLocked i st)\<lparr>gs_authCache := cache\<rparr>))))"
    by blast
  obtain u signer where c: "sb_Usage sb = Some u" "matchesUsage (lib_fromBig l) (Some p) (Some u)"
      "ProtoSignedRAVToHorizon (lib_fromBig l) (lib_newSig l) (sb_SignedRav sb) = Inr (Some sr)"
      "RAV_RecoverSigner (lib_keccak l) (lib_recover l) (gw_domain g) sr = Some (Inr signer)"
      "Payer (the (Message sr)) = ses_Payer s" "ServiceProvider (the (Message sr)) = gw_serviceProvider g"
      "DataService (the (Message sr)) = ses_DataService s"
      "gw_isSignerAuthorized l g n (ses_Payer s) signer (clk 0) (clk 1) (gs_authCache st) = Some (Inr True, cache)"
      "ValueAggregate (the (Message sr)) = Some (pq_targetValue p)"
    using check_submission_Inr[OF a(4)] by blast
  obtain m where m: "Message sr = Some m" "wf_RAV m" using accepted_voucher[OF assms(1) c(3)] by blast
  note com = a(5)[unfolded commitAcceptedRAV_def option.case]
  obtain cr where cr: "records r (collectionMapKey (lib_pretty l) \<lparr>ck_SessionID = i, ck_CollectionID = CollectionID m,
          ck_Payer = Payer m, ck_ServiceProvider = ServiceProvider m, ck_DataService = DataService m\<rparr>) = Some cr"
      "cr_ValueAggregate cr = ValueAggregate m"
    using SessionUpdateRAVAndBaseline_records[OF com m(1)] by blast
  have "sessions (gs_repo (settle_pending i (set_repo r ((ensureSessionStateLocked i st)\<lparr>gs_authCache := cache\<rparr>)))) i =
      Some (baseline_next (Some sr) (pq_baselineBlocks p) (pq_baselineBytes p) (pq_baselineReqs p)
        (Some (pq_baselineCost p)) (clk 2) s)"
    using SessionUpdateRAVAndBaseline_cases[OF com] assms(2) by auto
  from evaluate_sessions[OF this, of l g n i "clk 3"] obtain s' where s': "sessions (gs_repo st') i = Some s'"
      "same_ledger (baseline_next (Some sr) (pq_baselineBlocks p) (pq_baselineBytes p) (pq_baselineReqs p)
        (Some (pq_baselineCost p)) (clk 2) s) s'"
    using a(6) by blast
  show ?thesis
    using a(1-3) c m s' cr a(6) gw_isSignerAuthorized_True[OF c(8)]
    by (intro disjI2 conjI exI[of _ sb] exI[of _ p] exI[of _ sr] exI[of _ m] exI[of _ signer] exI[of _ s'] exI[of _ cr])
      (simp_all add: matchesUsage_def same_ledger_def baseline_next_def)
qed blast

theorem handleRAVSubmission_sound_witness:
  "\<exists>st' s'. handleRAVSubmission lib_std sample_gateway sample_node ''s'' owing_session
     (Some \<lparr>sb_SignedRav = Some (voucher_message 1060), sb_Usage = Some owed_usage\<rparr>) (\<lambda>_. 9) owing_state =
     Some (continuePaymentSessionResponse, st') \<and>
     sessions (gs_repo st') ''s'' = Some s' \<and> ses_BaselineCost s' = Some 60"
proof -
  have s: "sessions (gs_repo owing_state) ''s'' = Some owing_session" by (simp add: owing_state_def)
  have p: "pending_of ''s'' owing_state = Some sample_pending" by (simp add: pending_of_def owing_state_def)
  have ne: "continuePaymentSessionResponse \<noteq> stopPaymentSessionResponse reason" for reason
    by (simp add: continuePaymentSessionResponse_def stopPaymentSessionResponse_def)
  obtain st' where h: "handleRAVSubmission lib_std sample_gateway sample_node ''s'' owing_session
     (Some \<lparr>sb_SignedRav = Some (voucher_message 1060), sb_Usage = Some owed_usage\<rparr>) (\<lambda>_. 9) owing_state =
     Some (continuePaymentSessionResponse, st')"
    using sample_accepted by blast
  from handleRAVSubmission_sound[OF lib_std_ok s h] ne p h show ?thesis
    by (auto simp: sample_pending_def)
qed

subsection \<open>Delivery of control messages\<close>

text \<open>A control message reaches the buffer of the bound stream or stays queued.\<close>

definition delivered_or_queued :: "string \<Rightarrow> PaymentSessionResponse \<Rightarrow> GatewayState \<Rightarrow> GatewayState \<Rightarrow> bool" where
  "delivered_or_queued i resp st st' \<longleftrightarrow>
     (case rs_events (session_state i st) of
        Some ch \<Rightarrow>
          if length (gs_channels st ch) < channel_capacity
          then gs_channels st' ch = gs_channels st ch @ [resp] \<and> rs_queuedResponse (session_state i st') = None
          else gs_channels st' = gs_channels st \<and> rs_queuedResponse (session_state i st') = Some resp
      | None \<Rightarrow> rs_queuedResponse (session_state i st') = Some resp) \<and>
     rs_events (session_state i st') = rs_events (session_state i st)"

lemma session_state_put [simp]: "session_state i (put_state i rs st) = rs"
  by (simp add: session_state_def)

lemma session_state_cong: "gs_runtime st = gs_runtime st' \<Longrightarrow> session_state i st = session_state i st'"
  by (simp add: session_state_def)

lemma dispatch_delivers: "delivered_or_queued i resp st (dispatch fb i (Some resp) p st)"
proof (cases "rs_events (session_state i st)")
  case None
  then show ?thesis by (simp add: delivered_or_queued_def dispatch_def Let_def)
next
  case (Some ch)
  then show ?thesis
    by (simp add: delivered_or_queued_def dispatch_def Let_def try_send_def clearQueuedResponse_def
        session_state_def)
qed

lemma delivered_cong:
  assumes "rs_events (session_state i st) = rs_events (session_state i st0)" "gs_channels st = gs_channels st0"
  shows "delivered_or_queued i resp st st' = delivered_or_queued i resp st0 st'"
  by (simp only: delivered_or_queued_def assms)

lemma clearPendingRAV_state:
  "rs_events (session_state i (clearPendingRAV i st)) = rs_events (session_state i st)"
  "gs_channels (clearPendingRAV i st) = gs_channels st"
  by (simp_all add: clearPendingRAV_def session_state_def split: option.splits)

lemma session_state_set_repo [simp]: "session_state i (set_repo r st) = session_state i st"
  by (simp add: session_state_def)

subsection \<open>Funds\<close>

lemma assess_known:
  assumes "GetEscrowBalance n g (ses_Payer s) = Inr (Some b)"
  shows "insufficient (assessSessionFunds n g s) \<longleftrightarrow> b < current_value s + delta_cost s"
    "fa_escrowBalance (assessSessionFunds n g s) = Some b"
    "b < current_value s + delta_cost s \<Longrightarrow>
       fa_minimumNeeded (assessSessionFunds n g s) = current_value s + delta_cost s - b"
  using assms
  by (simp_all add: assessSessionFunds_def insufficient_def delta_cost_def fundsStatusInsufficient_def
      fundsStatusOK_def Let_def)

lemma stored_assessment_insufficient:
  assumes "IsActive s" "insufficient a"
  shows "ses_Status (stored_assessment a now s) = SessionStatusTerminated"
    "ses_EndReason (stored_assessment a now s) = END_REASON_PAYMENT_ISSUE"
    "ses_EndedAt (stored_assessment a now s) = Some now"
  using assms by (simp_all add: stored_assessment_def assessed_session_def runtime_next_def IsActive_def Session_End_def Let_def)

lemma stored_assessment_active:
  assumes "IsActive s" "\<not> insufficient a"
  shows "IsActive (stored_assessment a now s)"
  using assms by (simp add: stored_assessment_def assessed_session_def runtime_next_def IsActive_def
      applyFundsAssessmentMetadata_def Let_def)

text \<open>
  C8: A session that outruns its escrow is stopped, and only such a session
  (\<open>evaluateMeteredUsage\<close>, \<open>provider/gateway/runtime_manager.go\<close>). When the balance is known and the
  current voucher plus the unpaid usage exceed it, the session is ended for a payment issue, its
  request in flight is dropped, the consumer's stream gets a message with the exact amount
  missing (or finds it queued), and from then on neither a submission nor a stream request gets
  anything accepted. When the balance suffices, the session stays active.
\<close>

theorem low_funds_end_session:
  assumes s: "sessions (gs_repo st) i = Some s" "IsActive s"
    and b: "GetEscrowBalance n g (ses_Payer s) = Inr (Some b)"
    and st': "st' = snd (onMeteredUsage l g n i now st)"
  shows "\<exists>s'. sessions (gs_repo st') i = Some s' \<and>
    (if b < current_value s + delta_cost s
     then ses_Status s' = SessionStatusTerminated \<and> ses_EndReason s' = END_REASON_PAYMENT_ISSUE \<and>
       ses_EndedAt s' = Some now \<and> pending_of i st' = None \<and>
       (\<exists>m. delivered_or_queued i (Response_NeedMoreFunds m) st st' \<and>
          nf_MinimumNeeded m = Some (GRTFromBigInt (lib_fromBig l) (Some (current_value s + delta_cost s - b)))) \<and>
       (\<forall>n' rq clk. SubmitRAV l g n' i rq clk st' = Some (submit_rejected ''session is not active'' False, st')) \<and>
       (\<forall>n' sent msg clk str. psm_sessionID str = i \<longrightarrow>
          stream_message l g n' sent msg clk str st' =
            Some (stream_stop (stopPaymentSessionResponse ''need more funds'') str st'))
     else IsActive s')"
proof -
  define a where "a = assessSessionFunds n g s"
  define st0 where "st0 = ensureSessionStateLocked i st"
  let ?st1 = "set_repo (put_session i (stored_assessment a now s) (gs_repo st)) st0"
  have eq: "st' = control_after_assessment l g i a (assessed_session a now s) now ?st1"
    unfolding st' onMeteredUsage_def st0_def[symmetric]
    by (subst evaluate_active[where s = s]) (use s in \<open>simp_all add: st0_def a_def Let_def\<close>)
  have s': "sessions (gs_repo st') i = Some (stored_assessment a now s)" unfolding eq by simp
  note ins = assess_known[OF b, folded a_def]
  show ?thesis
  proof (cases "b < current_value s + delta_cost s")
    case False
    then show ?thesis using s' stored_assessment_active[OF s(2), of a now] ins(1) by simp
  next
    case True
    then have i: "insufficient a" using ins(1) by simp
    note t = stored_assessment_insufficient[OF s(2) i, of now]
    let ?m = "needMoreFundsResponse l (assessed_session a now s) a"
    have st1: "st' = dispatch (lib_fromBig l) i (Some ?m) None (clearPendingRAV i ?st1)"
      unfolding eq control_after_assessment_def using i by simp
    have "delivered_or_queued i ?m (clearPendingRAV i ?st1) st'" unfolding st1 by (rule dispatch_delivers)
    then have "delivered_or_queued i ?m st st'"
      by (subst delivered_cong[of _ _ "clearPendingRAV i ?st1"]) (simp_all add: clearPendingRAV_state st0_def)
    moreover have "pending_of i st' = None" unfolding st1 by (simp add: dispatch_pending clone_pending_def)
    moreover have "\<not> IsActive (stored_assessment a now s)" using t(1) by (simp add: IsActive_def)
    ultimately show ?thesis
      using s' t True ins(3)[OF True]
      by (auto simp: needMoreFundsResponse_def SubmitRAV_def stream_message_def SessionGet_def
          stopResponseForInactiveSession_def)
  qed
qed

theorem low_funds_end_session_witness:
  "let g = sample_gateway\<lparr>gw_escrowQuerier := Some []\<rparr>;
       st' = snd (onMeteredUsage lib_std g sample_node ''s'' 9 owing_state)
   in \<exists>s'. sessions (gs_repo st') ''s'' = Some s' \<and> ses_EndReason s' = END_REASON_PAYMENT_ISSUE"
proof -
  let ?g = "sample_gateway\<lparr>gw_escrowQuerier := Some []\<rparr>"
  have s: "sessions (gs_repo owing_state) ''s'' = Some owing_session" "IsActive owing_session"
    by (simp_all add: owing_state_def owing_session_def sample_session_def NewSession_def IsActive_def)
  have "length (be32 500) = 32" "big_SetBytes (be32 500) = 500" by (rule be32_props, simp)+
  then have b: "GetEscrowBalance sample_node ?g (ses_Payer owing_session) = Inr (Some 500)"
    by (simp add: GetEscrowBalance_def GetBalance_def sample_node_def sample_call_def strip0x_hex del: append.simps)
  have "500 < current_value owing_session + delta_cost owing_session"
    by (simp add: owing_session_def sample_session_def NewSession_def current_value_def payer_voucher_def
        delta_cost_def UsageDeltaSinceBaseline_def Let_def)
  then show ?thesis using low_funds_end_session[OF s b refl, of lib_std 9] by auto
qed


subsection \<open>Payments that are due are asked for, and honest payments are taken\<close>

lemma attach_idle:
  assumes "rs_queuedResponse (session_state i st) = None"
  shows "attach_stream fb i e st =
    put_state i \<lparr>rs_events = e, rs_pendingRAV = None, rs_queuedResponse = None\<rparr> st"
proof -
  obtain e' p q where c: "session_state i st = \<lparr>rs_events = e', rs_pendingRAV = p, rs_queuedResponse = q\<rparr>"
    by (cases "session_state i st") auto
  show ?thesis
    using assms by (cases p; cases e) (simp_all add: attach_stream_def c tryDeliverQueuedResponse_def Let_def)
qed

lemma request_usage_same: "same_ledger s s' \<Longrightarrow> request_usage fb s' = request_usage fb s"
  by (simp add: request_usage_def same_ledgerD)

lemma newPending_Some:
  assumes "ses_CurrentRAV s = Some sr" "Message sr = Some m"
  obtains p where "newPendingRAVRequest fb (Some s) (Some (request_usage fb s)) = Some p"
    "pq_targetValue p = current_value s + GRT_ToBigInt fb (pu_Cost (request_usage fb s))"
proof -
  have c: "pu_Cost (request_usage fb s) \<noteq> None" by (simp add: request_usage_def split: prod.splits)
  have v: "runtime_cloneBigInt (ValueAggregate m) = current_value s"
    using assms by (simp add: runtime_cloneBigInt_def current_value_def)
  show thesis
    using that assms c by (simp add: newPendingRAVRequest_def v Let_def)
qed

lemma dispatch_sent:
  assumes "rs_events (session_state i st) = Some ch" "gs_channels st ch = []"
  shows "gs_channels (dispatch fb i (Some resp) p st) ch = [resp]"
    "rs_events (session_state i (dispatch fb i (Some resp) p st)) = Some ch"
  using dispatch_delivers[of i resp st fb p] assms by (simp_all add: delivered_or_queued_def channel_capacity_def)




lemma commit_succeeds:
  assumes "i \<noteq> []" "sessions r i = Some s" "Message sr = Some m" "ValueAggregate m = Some v"
    and "\<And>c. records r (collectionMapKey (lib_pretty l) \<lparr>ck_SessionID = i, ck_CollectionID = CollectionID m,
        ck_Payer = Payer m, ck_ServiceProvider = ServiceProvider m, ck_DataService = DataService m\<rparr>) = Some c \<Longrightarrow>
      cr_State c \<noteq> CollectionStateCollectPending \<and>
      (cr_State c = CollectionStateCollected \<longrightarrow> the (cr_ValueAggregate c) \<le> v)"
  shows "\<exists>r'. commitAcceptedRAV l i sr (Some p) now r = (Inr (), r')"
  using assms
  by (auto simp: commitAcceptedRAV_def SessionUpdateRAVAndBaseline_def collection_next_for_def
      collectionNextCollectibleLocked_def newCollectionRecordFromRAV_def Let_def not_less split: option.splits sum.splits)

text \<open>
  An honest payment is taken (\<open>handleRAVSubmission\<close>). If a request is in flight and the consumer
  answers it with the usage asked about and a voucher between the right parties, signed by the
  payer, over exactly the value asked for, then the stream goes on, unless the settlement of an
  earlier voucher is pending or an already collected one was larger.
\<close>

theorem honest_payment_accepted:
  assumes "lib_ok l" "i \<noteq> []" "sessions (gs_repo st) i = Some s" "pending_of i st = Some p"
    and sub: "usageEqual (lib_fromBig l) (pq_usage p) (Some u)" "sb_Usage sb = Some u"
      "ProtoSignedRAVToHorizon (lib_fromBig l) (lib_newSig l) (sb_SignedRav sb) = Inr (Some sr)"
    and m: "Message sr = Some m" "Payer m = ses_Payer s" "DataService m = ses_DataService s"
      "ServiceProvider m = gw_serviceProvider g" "ValueAggregate m = Some (pq_targetValue p)"
      "RAV_RecoverSigner (lib_keccak l) (lib_recover l) (gw_domain g) sr = Some (Inr (ses_Payer s))"
    and p: "pq_currentRAVValue p \<le> pq_targetValue p"
    and free: "\<And>c. records (gs_repo st) (collectionMapKey (lib_pretty l) \<lparr>ck_SessionID = i, ck_CollectionID = CollectionID m,
        ck_Payer = Payer m, ck_ServiceProvider = ServiceProvider m, ck_DataService = DataService m\<rparr>) = Some c \<Longrightarrow>
      cr_State c \<noteq> CollectionStateCollectPending \<and>
      (cr_State c = CollectionStateCollected \<longrightarrow> the (cr_ValueAggregate c) \<le> pq_targetValue p)"
  shows "\<exists>st'. handleRAVSubmission l g n i s (Some sb) clk st = Some (continuePaymentSessionResponse, st')"
proof -
  have some: "sb_SignedRav sb \<noteq> None"
    using sub(3) by (cases "sb_SignedRav sb") (simp_all add: ProtoSignedRAVToHorizon_def)
  have chk: "check_submission l g n s sb p clk cache = Some (Inr sr, cache)" for cache
    using sub m p by (simp add: check_submission_def matchesUsage_def check_submission_parties_def
        check_submission_value_def AddressesEqual_def gw_isSignerAuthorized_def Let_def)
  have "\<exists>r'. commitAcceptedRAV l i sr (Some p) (clk 2) (gs_repo st) = (Inr (), r')"
    by (rule commit_succeeds[OF assms(2,3) m(1,5) free])
  then show ?thesis
    using some assms(4) by (auto simp: handleRAVSubmission_def session_state_pending chk Let_def)
qed

theorem honest_payment_accepted_witness:
  "\<exists>st'. handleRAVSubmission lib_std sample_gateway sample_node ''s'' owing_session
     (Some \<lparr>sb_SignedRav = Some (voucher_message 1060), sb_Usage = Some owed_usage\<rparr>) (\<lambda>_. 9) owing_state =
     Some (continuePaymentSessionResponse, st')"
  by (rule honest_payment_accepted[where p = sample_pending and u = owed_usage and sr = "payer_voucher 1060"
        and m = "sample_RAV\<lparr>ValueAggregate := Some 1060\<rparr>", OF lib_std_ok])
    (use voucher_message_wire[of 1060] voucher_recover[of 1060] in
      \<open>simp_all add: owing_state_def pending_of_def sample_pending_def usageEqual_refl payer_voucher_def sample_RAV_def
        owing_session_def sample_session_def NewSession_def sample_gateway_def NewInMemoryRepository_def\<close>)

subsection \<open>Sessions that start\<close>

lemma check_initial_rav_pass:
  assumes "check_initial_rav l g n payer ds rav clk cache = Some (None, cache')" "Option.bind rav Message = Some m"
  shows "\<exists>signer. RAV_RecoverSigner (lib_keccak l) (lib_recover l) (gw_domain g) (the rav) = Some (Inr signer) \<and>
    signer_accepted l g n cache (clk 0) payer signer \<and> Payer m = payer \<and>
    ServiceProvider m = gw_serviceProvider g \<and> DataService m = ds"
  using assms
  by (auto simp: check_initial_rav_def AddressesEqual_def split: option.splits sum.splits prod.splits if_splits
      dest: gw_isSignerAuthorized_True)



text \<open>A request without a voucher, and the identifier drawn from sixteen zero bytes.\<close>

definition sample_start :: StartSessionRequest where
  "sample_start =
     \<lparr>ssq_EscrowAccount = Some \<lparr>ea_Payer = Some \<lparr>addr_Bytes = replicate 20 2\<rparr>, ea_Receiver = Some \<lparr>addr_Bytes = replicate 20 3\<rparr>,
        ea_DataService = Some \<lparr>addr_Bytes = replicate 20 4\<rparr>\<rparr>, ssq_InitialRav = None\<rparr>"

definition fresh_state :: GatewayState where
  "fresh_state = \<lparr>gs_repo = NewInMemoryRepository, gs_runtime = Map.empty, gs_channels = (\<lambda>_. []),
     gs_nextChannel = 0, gs_authCache = Map.empty\<rparr>"

lemma GenerateID_nonempty: "random \<noteq> [] \<Longrightarrow> GenerateID random \<noteq> []"
  unfolding GenerateID_def by (cases random rule: RawURLEncoding_EncodeToString.cases) simp_all

lemma sample_start_runs:
  assumes "random \<noteq> []"
  shows "StartSession lib_std (sample_gateway\<lparr>gw_dataPlaneEndpoint := e\<rparr>) n sample_start random (\<lambda>_. 9) fresh_state =
    (let st' = set_repo (put_session (GenerateID random)
           (new_consumer_session sample_gateway (GenerateID random) (replicate 20 2) (replicate 20 4) None 9)
           NewInMemoryRepository) fresh_state in
     if TrimSpace e = []
     then Some (Inl (CodeInternal, Errorf ''provider data-plane endpoint is not configured'' [] None), st')
     else Some (Inr \<lparr>ssr_SessionId = GenerateID random, ssr_UseRav = None, ssr_Accepted = True,
       ssr_RejectionReason = [], ssr_PricingConfig = None, ssr_DataPlaneEndpoint = TrimSpace e\<rparr>, st'))"
  using GenerateID_nonempty[OF assms]
  by (simp add: StartSession_def start_account_def sample_start_def ToEth_def AddressesEqual_def sample_gateway_def
      ProtoSignedRAVToHorizon_def check_initial_rav_def SessionCreate_def new_consumer_session_def NewSession_def
      MarkBaseline_def collection_next_for_def set_record_opt_def fresh_state_def NewInMemoryRepository_def
      set_repo_def PricingConfigFromNative_def Let_def)


text \<open>
  A provider without a data-plane endpoint leaves orphaned sessions (\<open>StartSession\<close>). The endpoint
  is checked after the session is stored: with a blank endpoint the consumer gets an error, yet
  an active session that nobody knows stays in the repository.
\<close>

theorem StartSession_orphan:
  "\<exists>e st' s. StartSession lib_std (sample_gateway\<lparr>gw_dataPlaneEndpoint := []\<rparr>) sample_node sample_start
     (replicate 16 0) (\<lambda>_. 9) fresh_state = Some (Inl (CodeInternal, e), st') \<and>
     sessions (gs_repo fresh_state) (GenerateID (replicate 16 0)) = None \<and>
     sessions (gs_repo st') (GenerateID (replicate 16 0)) = Some s \<and> IsActive s"
  using sample_start_runs[of "replicate 16 0" "[]" sample_node]
  by (auto simp: Let_def fresh_state_def NewInMemoryRepository_def new_consumer_session_def NewSession_def
      MarkBaseline_def IsActive_def)

text \<open>
  Without a node the check of a delegated signer panics (\<open>New\<close> and \<open>isSignerAuthorized\<close>,
  \<open>provider/gateway/gateway.go\<close>). The querier is declared as a pointer and stored in an interface, so
  a gateway without an endpoint or collector address holds a nil pointer in a non-nil interface:
  the branch that would refuse the signer is never taken, and the call dereferences nil.
\<close>

theorem unconfigured_collector_panics:
  "Gateway_New fromBig (Some c) = Inr (g, st) \<Longrightarrow>
   gw_collectorQuerier g \<noteq> NilInterface \<and>
   (gc_RPCEndpoint c = [] \<or> gc_CollectorAddr c = None \<longrightarrow>
      signer \<noteq> payer \<longrightarrow> gw_isSignerAuthorized l g n payer signer now later (gs_authCache st) = None)"
  by (auto simp: Gateway_New_def gw_isSignerAuthorized_def AddressesEqual_def Let_def split: option.splits if_splits)

theorem unconfigured_collector_panics_witness:
  "\<exists>g st. Gateway_New FromBig_std (Some \<lparr>gc_ServiceProvider = replicate 20 3, gc_Domain = NewDomain 1 (replicate 20 6),
       gc_CollectorAddr = Some (replicate 20 7), gc_EscrowAddr = None, gc_RPCEndpoint = [],
       gc_PricingConfig = None, gc_RAVRequestThreshold = mkGRT 5, gc_DataPlaneEndpoint = ''e'',
       gc_OperatorAuthConfig = \<lparr>ReadBearerToken = [], AdminBearerToken = []\<rparr>,
       gc_Repository = Some NewInMemoryRepository\<rparr>) = Inr (g, st) \<and>
     gw_isSignerAuthorized lib_std g sample_node [1] [2] 0 0 (gs_authCache st) = None"
proof -
  let ?c = "\<lparr>gc_ServiceProvider = replicate 20 3, gc_Domain = NewDomain 1 (replicate 20 6),
       gc_CollectorAddr = Some (replicate 20 7), gc_EscrowAddr = None, gc_RPCEndpoint = [],
       gc_PricingConfig = None, gc_RAVRequestThreshold = mkGRT 5, gc_DataPlaneEndpoint = ''e'',
       gc_OperatorAuthConfig = \<lparr>ReadBearerToken = [], AdminBearerToken = []\<rparr>,
       gc_Repository = Some NewInMemoryRepository\<rparr>"
  obtain g st where g: "Gateway_New FromBig_std (Some ?c) = Inr (g, st)" by (auto simp: Gateway_New_def Let_def)
  from unconfigured_collector_panics[OF g, of "[2]" "[1]" lib_std sample_node 0 0] g show ?thesis by auto
qed



subsection \<open>One stream per session\<close>

text \<open>
  C24: A session is served by one stream at a time (\<open>PaymentSession\<close> and \<open>bindSession\<close>). While a stream
  is bound to a session, any other stream that asks for the session is closed, and neither its
  attempt nor its deferred unbinding disturbs the bound stream: it stays bound, its buffered
  messages and the repository are untouched.
\<close>

theorem stream_binding_exclusive:
  assumes "gs_runtime st i = Some rs" "rs_events rs = Some ch" "ch < gs_nextChannel st"
    and "psm_sessionID str = []" "TrimSpace (psq_SessionId msg) = i"
    and "stream_request l g n sent (Some msg) clk str st = Some (out, str', st')"
  shows "psm_closed str' \<and> gs_runtime st' i = Some rs \<and> gs_channels st' ch = gs_channels st ch \<and>
    gs_repo st' = gs_repo st"
proof -
  let ?k = "gs_nextChannel st"
  let ?st0 = "st\<lparr>gs_nextChannel := Suc ?k, gs_channels := (gs_channels st)(?k := [])\<rparr>"
  have rs: "session_state i ?st0 = rs" using assms(1) by (simp add: session_state_def)
  have same: "gs_runtime (ensureSessionStateLocked i ?st0) = gs_runtime st"
    using assms(1) by (auto simp: ensureSessionStateLocked_def rs)
  have stop: "stream_stop resp str st = (Some resp, str\<lparr>psm_closed := True\<rparr>, st)" for resp
    using assms(4) by (simp add: stream_stop_def stream_return_def)
  have bound: "stream_bind l g n i now str st =
      (Inl (Errorf ''payment session stream already bound for %q'' [i] None),
       str\<lparr>psm_sessionID := i, psm_events := Some ?k\<rparr>, ensureSessionStateLocked i ?st0)" if "i \<noteq> []" for now
    using that assms(2) rs by (simp add: stream_bind_def bindSession_def Let_def)
  have unbind: "unbindSession i (Some ?k) (ensureSessionStateLocked i ?st0) = ensureSessionStateLocked i ?st0"
    using assms(1-3) by (simp add: unbindSession_def cleanupSessionState_def same)
  consider "st' = st" "psm_closed str'"
    | "i \<noteq> []" "st' = ensureSessionStateLocked i ?st0" "psm_closed str'"
    using assms(4-6) bound unbind
    by (auto simp: stream_request_def stop Let_def stream_stop_def stream_return_def split: sum.splits if_splits)
  then show ?thesis using assms(1,3) same by cases auto
qed

theorem stream_binding_exclusive_witness:
  "\<exists>out str' st'. stream_request lib_std sample_gateway sample_node True
     (Some \<lparr>psq_SessionId = ''s'', psq_Message = None\<rparr>) (\<lambda>_. 9)
     \<lparr>psm_sessionID = [], psm_events = None, psm_closed = False\<rparr> owing_state = Some (out, str', st') \<and>
     psm_closed str' \<and> (\<exists>rs. gs_runtime st' ''s'' = Some rs \<and> rs_events rs = Some 0)"
proof -
  let ?str = "\<lparr>psm_sessionID = [], psm_events = None, psm_closed = False\<rparr>"
  let ?msg = "\<lparr>psq_SessionId = ''s'', psq_Message = None\<rparr>"
  have t: "TrimSpace ''s'' = ''s''" by (rule TrimSpace_solid) (simp_all add: solid_def)
  have "stream_request lib_std sample_gateway sample_node True (Some ?msg) (\<lambda>_. 9) ?str owing_state \<noteq> None"
    by (auto simp: stream_request_def t Let_def stream_stop_def stream_return_def split: sum.split prod.split)
  then obtain out str' st' where r: "stream_request lib_std sample_gateway sample_node True (Some ?msg) (\<lambda>_. 9) ?str
      owing_state = Some (out, str', st')" by (metis option.exhaust prod_cases3)
  have rt: "gs_runtime owing_state ''s'' =
      Some \<lparr>rs_events = Some 0, rs_pendingRAV = Some sample_pending, rs_queuedResponse = None\<rparr>"
      "0 < gs_nextChannel owing_state" by (simp_all add: owing_state_def)
  from stream_binding_exclusive[OF rt(1) _ rt(2) _ _ r] r t show ?thesis by auto
qed


end
