(* ===== verification/Sds_Consumer.thy ===== *)
theory Sds_Consumer
  imports Sds_Oracle Sds_Payment_Client Sds_Gateway_Flow
begin

text \<open>
  The consumer sidecar (\<open>consumer/sidecar\<close>): its configuration and signing (\<open>sidecar.go\<close>,
  \<open>rav_request_signing.go\<close>), the opening of a session with a provider (\<open>managed_session.go\<close>) and the
  handlers \<open>Init\<close> and \<open>EndSession\<close>. Calls to other services are parameters.
\<close>

subsection \<open>Configuration and state\<close>

record IngressConfig =
  ing_Payer :: address
  ing_Receiver :: "address option"
  ing_DataService :: address
  ing_ProviderControlPlaneEndpoint :: string

record Sidecar =
  sc_signerKey :: private_key
  sc_domain :: Domain
  sc_oracleEndpoint :: string
  sc_ingressConfig :: "IngressConfig option"
  sc_paymentSessionRoundtripTimeout :: int

record ConsumerState =
  co_sessions :: SessionManager
  co_paymentSessions :: PaymentSessionManager

definition Sidecar_New ::
  "private_key \<Rightarrow> Domain \<Rightarrow> string \<Rightarrow> IngressConfig option \<Rightarrow> int \<Rightarrow> Sidecar \<times> ConsumerState" where
  "Sidecar_New signerKey domain oracleEndpoint ingressConfig timeout =
     (\<lparr>sc_signerKey = signerKey, sc_domain = domain, sc_oracleEndpoint = oracleEndpoint,
       sc_ingressConfig = ingressConfig,
       sc_paymentSessionRoundtripTimeout = (if timeout \<le> 0 then 30 * second else timeout)\<rparr>,
      \<lparr>co_sessions = Map.empty, co_paymentSessions = Map.empty\<rparr>)"

definition isIngressGRPCPath :: "string \<Rightarrow> bool" where
  "isIngressGRPCPath path =
     (if \<not> HasPrefix path ''/sf.substreams.rpc.'' then False
      else path = ''/sf.substreams.rpc.v2.Stream/Blocks'' \<or> path = ''/sf.substreams.rpc.v2.EndpointInfo/Info'' \<or>
           path = ''/sf.substreams.rpc.v3.Stream/Blocks'' \<or> path = ''/sf.substreams.rpc.v4.Stream/Blocks'')"

subsection \<open>Signing\<close>

text \<open>The outer option is the panic of hashing a value of more than 32 bytes.\<close>

definition signRAV ::
  "eth_lib \<Rightarrow> Sidecar \<Rightarrow> bytes \<Rightarrow> address \<Rightarrow> address \<Rightarrow> address \<Rightarrow> u64 \<Rightarrow> int option \<Rightarrow> bytes \<Rightarrow> SignedRAV result option" where
  "signRAV l s collectionID payer dataService serviceProvider timestampNs valueAggregate metadata =
     Sign_RAV (lib_keccak l) (lib_sign l) (sc_domain s)
       \<lparr>CollectionID = collectionID, Payer = payer, ServiceProvider = serviceProvider, DataService = dataService,
        TimestampNs = timestampNs, ValueAggregate = valueAggregate, RAV_Metadata = metadata\<rparr>
       (sc_signerKey s)"

definition required :: "string \<Rightarrow> 'a result option" where
  "required what = Some (Inl (Errorf (what @ '' is required'') [] None))"

definition signRAVForRequest ::
  "eth_lib \<Rightarrow> Sidecar \<Rightarrow> LocalSession \<Rightarrow> RAVRequest option \<Rightarrow> time \<Rightarrow> SignedRAV result option" where
  "signRAVForRequest l s session req now =
     (case req of
        None \<Rightarrow> required ''rav_request''
      | Some req \<Rightarrow>
          if rq_CurrentRav req = None then required ''rav_request.current_rav''
          else (case rq_Usage req of
             None \<Rightarrow> required ''rav_request.usage''
           | Some u \<Rightarrow>
               if pu_Cost u = None then required ''rav_request.usage.cost''
               else (case ProtoSignedRAVToHorizon (lib_fromBig l) (lib_newSig l) (rq_CurrentRav req) of
                  Inl err \<Rightarrow> Some (Inl (Errorf ''invalid rav_request.current_rav: %w'' [] (Some err)))
                | Inr current \<Rightarrow>
                    (case Option.bind current Message of
                       None \<Rightarrow> required ''rav_request.current_rav.rav''
                     | Some m \<Rightarrow>
                         (case ValueAggregate m of
                            None \<Rightarrow> None
                          | Some value' \<Rightarrow>
                              signRAV l s (CollectionID m) (ls_Payer session) (ls_DataService session)
                                (ls_Receiver session) (word_of_int (UnixNano now))
                                (Some (value' + GRT_ToBigInt (lib_fromBig l) (pu_Cost u))) [])))))"

subsection \<open>Opening a session\<close>

record sessionBootstrapInput =
  bi_Payer :: address
  bi_Receiver :: "address option"
  bi_DataService :: address
  bi_ProviderControlPlaneEndpoint :: string
  bi_SubstreamsPackage :: "Package option"
  bi_RequestedNetwork :: string

record sessionBootstrapResult =
  br_LocalSession :: LocalSession
  br_PaymentRAV :: "pb_SignedRAV option"
  br_DataPlaneEndpoint :: string

text \<open>
  The calls the sidecar makes: to the oracle, and to the gateway at an endpoint.
\<close>

record remote_calls =
  rm_oracle :: "string \<Rightarrow> DiscoverProvidersResponse rpc"
  rm_StartSession :: "string \<Rightarrow> StartSessionRequest \<Rightarrow> StartSessionResponse rpc"

definition start_request :: "eth_lib \<Rightarrow> address \<Rightarrow> address \<Rightarrow> address \<Rightarrow> SignedRAV \<Rightarrow> StartSessionRequest" where
  "start_request l payer receiver dataService initialRAV =
     \<lparr>ssq_EscrowAccount = Some \<lparr>ea_Payer = Some (AddressFromEth payer), ea_Receiver = Some (AddressFromEth receiver),
        ea_DataService = Some (AddressFromEth dataService)\<rparr>,
      ssq_InitialRav = HorizonSignedRAVToProto (lib_fromBig l) (Some initialRAV)\<rparr>"

text \<open>What is done with the gateway's answer: the session is stored and its payment client prepared.\<close>

definition adopt_session ::
  "eth_lib \<Rightarrow> sessionBootstrapInput \<Rightarrow> initProviderSelection \<Rightarrow> string \<Rightarrow> SignedRAV \<Rightarrow> StartSessionResponse \<Rightarrow>
   (nat \<Rightarrow> time) \<Rightarrow> ConsumerState \<Rightarrow> sessionBootstrapResult rpc \<times> ConsumerState" where
  "adopt_session l input selection url initialRAV resp clk st =
     (if \<not> ssr_Accepted resp then
        let reason = TrimSpace (ssr_RejectionReason resp);
            reason = (if reason = [] then ''provider rejected session'' else reason)
        in (Inl (CodeFailedPrecondition, Sentinel reason), st)
      else
        let sessionID = TrimSpace (ssr_SessionId resp);
            dataPlaneEndpoint = TrimSpace (ssr_DataPlaneEndpoint resp)
        in if sessionID = []
           then (Inl (CodeInternal, Errorf ''provider returned an empty session id'' [] None), st)
           else if dataPlaneEndpoint = []
           then (Inl (CodeInternal, Errorf ''provider returned an empty data-plane endpoint'' [] None), st)
           else (case effectiveSessionPricing (PricingConfig_ToNative (lib_fromBig l) (ssr_PricingConfig resp))
                        (sel_OraclePricing selection) of
              Inl err \<Rightarrow> (Inl (CodeFailedPrecondition, err), st)
            | Inr effectivePricing \<Rightarrow>
                (case ProtoSignedRAVToHorizon (lib_fromBig l) (lib_newSig l) (ssr_UseRav resp) of
                   Inl err \<Rightarrow>
                     (Inl (CodeInternal, Errorf ''invalid <use_rav> received from provider gateway: %w'' [] (Some err)), st)
                 | Inr useRAV \<Rightarrow>
                     let rav = (case useRAV of Some r \<Rightarrow> r | None \<Rightarrow> initialRAV) in
                     (case CreateWithID sessionID (bi_Payer input) (sel_Receiver selection) (bi_DataService input)
                             clk (co_sessions st) of
                        (Inl err, sm) \<Rightarrow>
                          (Inl (CodeInternal, Errorf ''unable to create session: %w'' [] (Some err)),
                           st\<lparr>co_sessions := sm\<rparr>)
                      | (Inr session, sm) \<Rightarrow>
                          let session = SetRAV (Some rav) (clk 2) session;
                              session = (if effectivePricing \<noteq> None then SetPricingConfig effectivePricing session
                                         else session)
                          in (Inr \<lparr>br_LocalSession = session,
                                   br_PaymentRAV = HorizonSignedRAVToProto (lib_fromBig l) (Some rav),
                                   br_DataPlaneEndpoint = dataPlaneEndpoint\<rparr>,
                              \<lparr>co_sessions = sm(sessionID \<mapsto> session),
                               co_paymentSessions = manager_SetEndpoint sessionID url (co_paymentSessions st)\<rparr>)))))"

definition bootstrapManagedSession ::
  "eth_lib \<Rightarrow> url_lib \<Rightarrow> remote_calls \<Rightarrow> Sidecar \<Rightarrow> sessionBootstrapInput \<Rightarrow> (nat \<Rightarrow> time) \<Rightarrow> ConsumerState \<Rightarrow>
   (sessionBootstrapResult rpc \<times> ConsumerState) option" where
  "bootstrapManagedSession l u rm s input clk st =
     (case resolveProviderSelection l u (rm_oracle rm) (sc_oracleEndpoint s) (bi_Receiver input)
             (bi_ProviderControlPlaneEndpoint input) (bi_SubstreamsPackage input) (bi_RequestedNetwork input) of
        Inl e \<Rightarrow> Some (Inl e, st)
      | Inr selection \<Rightarrow>
          (case signRAV l s (replicate 32 0) (bi_Payer input) (bi_DataService input) (sel_Receiver selection)
                  (word_of_int (UnixNano (clk 0))) (Some 0) [] of
             None \<Rightarrow> None
           | Some (Inl err) \<Rightarrow> Some (Inl (CodeInternal, err), st)
           | Some (Inr initialRAV) \<Rightarrow>
               let url = pe_URL (ParseEndpoint u (sel_ControlPlaneEndpoint selection)) in
               if url = [] then Some (invalid_argument ''invalid <provider_control_plane_endpoint>'', st)
               else (case rm_StartSession rm url (start_request l (bi_Payer input) (sel_Receiver selection)
                            (bi_DataService input) initialRAV) of
                  Inl (code, err) \<Rightarrow> Some (Inl (CodeUnavailable, err), st)
                | Inr resp \<Rightarrow> Some (adopt_session l input selection url initialRAV resp (\<lambda>i. clk (Suc i)) st))))"

subsection \<open>Handlers\<close>

record InitRequest =
  iq_EscrowAccount :: "pb_EscrowAccount option"
  iq_ProviderControlPlaneEndpoint :: string
  iq_SubstreamsPackage :: "Package option"
  iq_RequestedNetwork :: string

record InitResponse =
  ir_Session :: pb_SessionInfo
  ir_PaymentRav :: "pb_SignedRAV option"
  ir_DataPlaneEndpoint :: string

text \<open>The account of the request is read and refused in the same words as the gateway's.\<close>

definition Sidecar_Init ::
  "eth_lib \<Rightarrow> url_lib \<Rightarrow> remote_calls \<Rightarrow> Sidecar \<Rightarrow> InitRequest \<Rightarrow> (nat \<Rightarrow> time) \<Rightarrow> ConsumerState \<Rightarrow>
   (InitResponse rpc \<times> ConsumerState) option" where
  "Sidecar_Init l u rm s req clk st =
     (case start_account \<lparr>ssq_EscrowAccount = iq_EscrowAccount req, ssq_InitialRav = None\<rparr> of
        Inl e \<Rightarrow> Some (Inl e, st)
      | Inr (payer, receiver, dataService) \<Rightarrow>
          (case bootstrapManagedSession l u rm s
                  \<lparr>bi_Payer = payer, bi_Receiver = Some receiver, bi_DataService = dataService,
                   bi_ProviderControlPlaneEndpoint = iq_ProviderControlPlaneEndpoint req,
                   bi_SubstreamsPackage = iq_SubstreamsPackage req,
                   bi_RequestedNetwork = iq_RequestedNetwork req\<rparr> clk st of
             None \<Rightarrow> None
           | Some (Inl e, st) \<Rightarrow> Some (Inl e, st)
           | Some (Inr b, st) \<Rightarrow>
               Some (Inr \<lparr>ir_Session = ToSessionInfo (lib_fromBig l) (br_LocalSession b),
                          ir_PaymentRav = br_PaymentRAV b,
                          ir_DataPlaneEndpoint = br_DataPlaneEndpoint b\<rparr>, st)))"

record EndSessionResponse =
  er_FinalRav :: "pb_SignedRAV option"
  er_TotalUsage :: pb_Usage

text \<open>The outer option is the panic of adding to a missing value.\<close>

definition end_final_value :: "from_big \<Rightarrow> SignedRAV option \<Rightarrow> pb_Usage option \<Rightarrow> int option option" where
  "end_final_value fromBig currentRAV finalUsage =
     (case Option.bind currentRAV Message of
        Some m \<Rightarrow>
          (case finalUsage of
             Some u \<Rightarrow>
               (case ValueAggregate m of
                  None \<Rightarrow> None
                | Some v \<Rightarrow> Some (Some (v + GRT_ToBigInt fromBig (pu_Cost u))))
           | None \<Rightarrow> Some (ValueAggregate m))
      | None \<Rightarrow>
          (case finalUsage of
             Some u \<Rightarrow> Some (Some (GRT_ToBigInt fromBig (pu_Cost u)))
           | None \<Rightarrow> Some (Some 0)))"

definition Sidecar_EndSession ::
  "eth_lib \<Rightarrow> Sidecar \<Rightarrow> string \<Rightarrow> pb_Usage option \<Rightarrow> (nat \<Rightarrow> time) \<Rightarrow> ConsumerState \<Rightarrow>
   (EndSessionResponse rpc \<times> ConsumerState) option" where
  "Sidecar_EndSession l s sessionID finalUsage clk st =
     (case SessionManager_Get sessionID (co_sessions st) of
        Inl err \<Rightarrow> Some (Inl (CodeNotFound, err), st)
      | Inr session \<Rightarrow>
          if co_paymentSessions st sessionID \<noteq> None
          then Some (Inl (CodeFailedPrecondition, Errorf ''EndSession is deprecated for provider-managed sessions; use the consumer sidecar ingress endpoint instead'' [] None), st)
          else
            let session = (case finalUsage of
                             None \<Rightarrow> session
                           | Some u \<Rightarrow> LocalAddUsage (pu_BlocksProcessed u) (pu_BytesTransferred u) (pu_Requests u)
                               (Some (GRT_ToBigInt (lib_fromBig l) (pu_Cost u))) (clk 0) session);
                st = st\<lparr>co_sessions := (co_sessions st)(sessionID \<mapsto> session)\<rparr>;
                collectionID = (case Option.bind (GetRAV session) Message of
                                  Some m \<Rightarrow> CollectionID m | None \<Rightarrow> replicate 32 0)
            in (case end_final_value (lib_fromBig l) (GetRAV session) finalUsage of
                  None \<Rightarrow> None
                | Some finalValue \<Rightarrow>
                    (case signRAV l s collectionID (ls_Payer session) (ls_DataService session) (ls_Receiver session)
                            (word_of_int (UnixNano (clk 1))) finalValue [] of
                       None \<Rightarrow> None
                     | Some (Inl err) \<Rightarrow> Some (Inl (CodeInternal, err), st)
                     | Some (Inr finalRAV) \<Rightarrow>
                         let session = LocalEnd END_REASON_COMPLETE (clk 3) (SetRAV (Some finalRAV) (clk 2) session)
                         in Some (Inr \<lparr>er_FinalRav = HorizonSignedRAVToProto (lib_fromBig l) (Some finalRAV),
                                       er_TotalUsage = LocalGetUsage (lib_fromBig l) session\<rparr>,
                              \<lparr>co_sessions = (co_sessions st)(sessionID \<mapsto> session),
                               co_paymentSessions = manager_Close sessionID (co_paymentSessions st)\<rparr>))))"

subsection \<open>What the consumer signs\<close>

text \<open>
  What is documented of the signing library: a key signs every hash with 65 bytes from which the
  address of the key is recovered.
\<close>

definition signs :: "eth_lib \<Rightarrow> private_key \<Rightarrow> address \<Rightarrow> bool" where
  "signs l key a \<longleftrightarrow>
     (\<forall>h. \<exists>sig. lib_sign l key h = Inr sig \<and> length sig = 65 \<and> lib_recover l sig h = Inr a)"

lemma std_signs: "length a = 20 \<Longrightarrow> signs lib_std a a"
  by (simp add: signs_def std_signature_def)

lemma signRAV_wf:
  assumes "signs l (sc_signerKey s) a"
    and wf: "wf_RAV \<lparr>CollectionID = cid, Payer = p, ServiceProvider = sp, DataService = ds, TimestampNs = t,
      ValueAggregate = v, RAV_Metadata = md\<rparr>"
  obtains sr where "signRAV l s cid p ds sp t v md = Some (Inr sr)"
    "Message sr = Some \<lparr>CollectionID = cid, Payer = p, ServiceProvider = sp, DataService = ds, TimestampNs = t,
      ValueAggregate = v, RAV_Metadata = md\<rparr>" "length (Signature sr) = 65"
    "RAV_RecoverSigner (lib_keccak l) (lib_recover l) (sc_domain s) sr = Some (Inr a)"
proof -
  let ?m = "\<lparr>CollectionID = cid, Payer = p, ServiceProvider = sp, DataService = ds, TimestampNs = t,
      ValueAggregate = v, RAV_Metadata = md\<rparr>"
  obtain h where h: "RAV_hash (lib_keccak l) (sc_domain s) ?m = Some h" using RAV_hash_input[OF wf] by blast
  obtain sig where sig: "lib_sign l (sc_signerKey s) h = Inr sig" "length sig = 65" "lib_recover l sig h = Inr a"
    using assms(1) unfolding signs_def by blast
  show thesis
    by (rule that[of "\<lparr>Message = Some ?m, Signature = sig\<rparr>"])
      (simp_all add: signRAV_def Sign_RAV_def RAV_RecoverSigner_def h sig)
qed

text \<open>The voucher a request leads to, and the value it must have to be hashed at all.\<close>

definition answer_RAV :: "LocalSession \<Rightarrow> RAV \<Rightarrow> time \<Rightarrow> int \<Rightarrow> RAV" where
  "answer_RAV session m now v =
     \<lparr>CollectionID = CollectionID m, Payer = ls_Payer session, ServiceProvider = ls_Receiver session,
      DataService = ls_DataService session, TimestampNs = word_of_int (UnixNano now),
      ValueAggregate = Some v, RAV_Metadata = []\<rparr>"

lemma signRAVForRequest_eq:
  assumes "rq_CurrentRav rq \<noteq> None" "rq_Usage rq = Some u" "pu_Cost u \<noteq> None"
    and "ProtoSignedRAVToHorizon (lib_fromBig l) (lib_newSig l) (rq_CurrentRav rq) = Inr (Some cur)"
    and "Message cur = Some m" "ValueAggregate m = Some v"
  shows "signRAVForRequest l s session (Some rq) now =
    Sign_RAV (lib_keccak l) (lib_sign l) (sc_domain s)
      (answer_RAV session m now (v + GRT_ToBigInt (lib_fromBig l) (pu_Cost u))) (sc_signerKey s)"
  using assms by (auto simp: signRAVForRequest_def signRAV_def answer_RAV_def)

lemma signRAVForRequest_Inr:
  assumes "lib_ok l" "signRAVForRequest l s session req now = Some (Inr sr)"
  obtains rq u cur m v where "req = Some rq" "rq_Usage rq = Some u"
    "ProtoSignedRAVToHorizon (lib_fromBig l) (lib_newSig l) (rq_CurrentRav rq) = Inr (Some cur)"
    "Message cur = Some m" "ValueAggregate m = Some v"
    "Message sr = Some (answer_RAV session m now (v + GRT_ToBigInt (lib_fromBig l) (pu_Cost u)))"
proof -
  obtain rq u where rq: "req = Some rq" "rq_CurrentRav rq \<noteq> None" "rq_Usage rq = Some u" "pu_Cost u \<noteq> None"
    using assms(2) by (auto simp: signRAVForRequest_def required_def split: option.splits if_splits)
  obtain cur where cur: "ProtoSignedRAVToHorizon (lib_fromBig l) (lib_newSig l) (rq_CurrentRav rq) = Inr (Some cur)"
    using assms(2) rq by (auto simp: signRAVForRequest_def required_def bind_eq_Some_conv split: option.splits sum.splits)
  obtain m where m: "Message cur = Some m" "wf_RAV m"
    using accepted_voucher[OF assms(1) cur] by blast
  obtain v where v: "ValueAggregate m = Some v" using m(2) by (auto simp: wf_RAV_def split: option.splits)
  have "Message sr = Some (answer_RAV session m now (v + GRT_ToBigInt (lib_fromBig l) (pu_Cost u)))"
    using assms(2) Sign_RAV_Message unfolding rq(1) signRAVForRequest_eq[OF rq(2-4) cur m(1) v] by blast
  then show thesis using that[OF rq(1,3) cur m(1) v] by blast
qed


end
