(* ===== verification/Sds_Ingress.thy ===== *)
theory Sds_Ingress
  imports Sds_Consumer
begin

text \<open>
  The consumer's ingress (\<open>consumer/sidecar/ingress.go\<close>): a stream of blocks is proxied from the
  provider while a second thread answers the provider's payment control. The coordinator joins the
  two; when the upstream ends, the outcome for the client is resolved from the coordinator and from
  the status the provider reports. The streaming library is outside: what it returns is given.
\<close>

subsection \<open>Errors of streams\<close>

datatype grpc_code =
    Code_Canceled | Code_InvalidArgument | Code_FailedPrecondition | Code_ResourceExhausted
  | Code_Unavailable | Code_Internal | Code_Unknown | Code_other nat

text \<open>A status error, an error of an RPC handler, or any other error.\<close>

datatype stream_error =
    Status grpc_code string
  | Connect connect_code go_error
  | Plain go_error

definition EOF :: stream_error where "EOF = Plain (Sentinel ''EOF'')"
definition context_Canceled :: stream_error where "context_Canceled = Plain (Sentinel ''context canceled'')"

text \<open>\<open>status.Code\<close> of an error that carries no status is \<open>Unknown\<close>.\<close>

definition status_Code :: "stream_error \<Rightarrow> grpc_code" where
  "status_Code e = (case e of Status c _ \<Rightarrow> c | _ \<Rightarrow> Code_Unknown)"

definition stream_error_Is :: "stream_error \<Rightarrow> stream_error \<Rightarrow> bool" where
  "stream_error_Is e target =
     (case (e, target) of (Plain a, Plain b) \<Rightarrow> errors_Is a b | _ \<Rightarrow> e = target)"

definition isAmbiguousIngressUpstreamError :: "stream_error option \<Rightarrow> bool" where
  "isAmbiguousIngressUpstreamError err =
     (case err of
        None \<Rightarrow> False
      | Some e \<Rightarrow>
          stream_error_Is e context_Canceled \<or> status_Code e = Code_Canceled \<or> status_Code e = Code_Unavailable)"

subsection \<open>The coordinator\<close>

datatype ingressControlResultKind =
    ingressControlResultNone
  | ingressControlResultSemanticStop
  | ingressControlResultControlFailure
  | ingressControlResultCanceled

text \<open>\<open>tc_cancelled\<close> tells whether the runtime was cancelled, \<open>tc_changes\<close> how often waiters were woken.\<close>

record ingressTerminationCoordinator =
  tc_kind :: ingressControlResultKind
  tc_err :: "stream_error option"
  tc_paymentControlPending :: bool
  tc_cancelled :: bool
  tc_changes :: nat

definition newIngressTerminationCoordinator :: ingressTerminationCoordinator where
  "newIngressTerminationCoordinator =
     \<lparr>tc_kind = ingressControlResultNone, tc_err = None, tc_paymentControlPending = False,
      tc_cancelled = False, tc_changes = 0\<rparr>"

definition setResult ::
  "ingressControlResultKind \<Rightarrow> stream_error option \<Rightarrow> bool \<Rightarrow> ingressTerminationCoordinator \<Rightarrow>
   ingressTerminationCoordinator" where
  "setResult kind err cancelRuntime c =
     (if err = None then c
      else if tc_kind c \<noteq> ingressControlResultNone then c
      else c\<lparr>tc_kind := kind, tc_err := err, tc_cancelled := tc_cancelled c \<or> cancelRuntime\<rparr>)"

definition setSemanticStop :: "stream_error option \<Rightarrow> ingressTerminationCoordinator \<Rightarrow> ingressTerminationCoordinator" where
  "setSemanticStop err c = setResult ingressControlResultSemanticStop err True c"

definition setControlFailure :: "stream_error option \<Rightarrow> ingressTerminationCoordinator \<Rightarrow> ingressTerminationCoordinator" where
  "setControlFailure err c = setResult ingressControlResultControlFailure err True c"

definition setCanceled :: "ingressTerminationCoordinator \<Rightarrow> ingressTerminationCoordinator" where
  "setCanceled c = setResult ingressControlResultCanceled (Some context_Canceled) False c"

definition setPaymentControlPending :: "bool \<Rightarrow> ingressTerminationCoordinator \<Rightarrow> ingressTerminationCoordinator" where
  "setPaymentControlPending pending c =
     (if tc_paymentControlPending c = pending then c
      else c\<lparr>tc_paymentControlPending := pending, tc_changes := Suc (tc_changes c)\<rparr>)"

definition currentError :: "ingressTerminationCoordinator \<Rightarrow> stream_error option" where
  "currentError c = tc_err c"

subsection \<open>Progress of a stream\<close>

record ingressStreamProgress =
  pr_sawBlock :: bool
  pr_highestBlock :: u64

definition noteBlock :: "u64 \<Rightarrow> ingressStreamProgress \<Rightarrow> ingressStreamProgress" where
  "noteBlock blockNum p =
     (let p = (if \<not> pr_sawBlock p \<or> blockNum > pr_highestBlock p then p\<lparr>pr_highestBlock := blockNum\<rparr> else p)
      in p\<lparr>pr_sawBlock := True\<rparr>)"

text \<open>
  Of a response only the block numbers are looked at: of the data and of an undo signal, or of a
  batch of data in version 4. A missing message or clock is \<open>None\<close>.
\<close>

record response_v2 =
  r2_data :: "u64 option"
  r2_undo :: "u64 option"

record response_v4 =
  r4_datas :: "u64 option list"
  r4_undo :: "u64 option"

definition note_option :: "u64 option \<Rightarrow> ingressStreamProgress \<Rightarrow> ingressStreamProgress" where
  "note_option b p = (case b of None \<Rightarrow> p | Some n \<Rightarrow> noteBlock n p)"

definition observeV2 :: "response_v2 option \<Rightarrow> ingressStreamProgress \<Rightarrow> ingressStreamProgress" where
  "observeV2 resp p =
     (case resp of None \<Rightarrow> p | Some r \<Rightarrow> note_option (r2_undo r) (note_option (r2_data r) p))"

definition observeV4 :: "response_v4 option \<Rightarrow> ingressStreamProgress \<Rightarrow> ingressStreamProgress" where
  "observeV4 resp p =
     (case resp of None \<Rightarrow> p | Some r \<Rightarrow> note_option (r4_undo r) (fold note_option (r4_datas r) p))"

definition expectedEOF :: "u64 \<Rightarrow> ingressStreamProgress \<Rightarrow> bool" where
  "expectedEOF stopBlockNum p =
     (if stopBlockNum = 0 \<or> \<not> pr_sawBlock p then False else pr_highestBlock p + 1 \<ge> stopBlockNum)"

subsection \<open>Payment control\<close>

definition EndReason_String :: "EndReason \<Rightarrow> string" where
  "EndReason_String r =
     (case r of
        END_REASON_UNSPECIFIED \<Rightarrow> ''END_REASON_UNSPECIFIED''
      | END_REASON_COMPLETE \<Rightarrow> ''END_REASON_COMPLETE''
      | END_REASON_CLIENT_DISCONNECT \<Rightarrow> ''END_REASON_CLIENT_DISCONNECT''
      | END_REASON_PROVIDER_STOP \<Rightarrow> ''END_REASON_PROVIDER_STOP''
      | END_REASON_ERROR \<Rightarrow> ''END_REASON_ERROR''
      | END_REASON_PAYMENT_ISSUE \<Rightarrow> ''END_REASON_PAYMENT_ISSUE''
      | EndReason_unnamed n \<Rightarrow> bigint_string (Some n))"

definition resolveAmbiguousIngressSessionStatus ::
  "GetSessionStatusResponse option \<Rightarrow> bool \<times> stream_error option" where
  "resolveAmbiguousIngressSessionStatus resp =
     (case resp of
        None \<Rightarrow> (False, None)
      | Some r \<Rightarrow>
          if gss_Active r then (False, None)
          else (case gss_EndReason r of
             END_REASON_COMPLETE \<Rightarrow> (True, None)
           | END_REASON_CLIENT_DISCONNECT \<Rightarrow> (True, None)
           | END_REASON_PAYMENT_ISSUE \<Rightarrow> (True, Some (Status Code_ResourceExhausted ''need more funds''))
           | END_REASON_PROVIDER_STOP \<Rightarrow>
               (True, Some (Status Code_Unavailable ''provider session terminated with end reason provider stop''))
           | END_REASON_ERROR \<Rightarrow>
               (True, Some (Status Code_Unavailable ''provider session terminated with end reason error''))
           | reason \<Rightarrow>
               (True, Some (Status Code_Unavailable
                  (''provider session terminated with end reason '' @ EndReason_String reason)))))"

text \<open>
  One turn of the control thread: what \<open>Receive\<close> returned, an error with the cancellation of the
  context or a message (\<open>None\<close> is a nil or empty message), what sending the voucher returned, what a
  query of the status returned, and the clock.
\<close>

datatype received = ReceiveError go_error bool | Received "PaymentSessionResponse option"

record control_input =
  in_received :: received
  in_send :: "go_error option"
  in_status :: "GetSessionStatusResponse result"
  in_clk :: "nat \<Rightarrow> time"

record control_state =
  cl_session :: LocalSession
  cl_pendingRAV :: "SignedRAV option"
  cl_coordinator :: ingressTerminationCoordinator
  cl_sent :: "PaymentSessionRequest list"
  cl_done :: bool

definition stop_control ::
  "(ingressTerminationCoordinator \<Rightarrow> ingressTerminationCoordinator) \<Rightarrow> control_state \<Rightarrow> control_state" where
  "stop_control f cs = cs\<lparr>cl_coordinator := f (cl_coordinator cs), cl_done := True\<rparr>"

definition send_failed :: "go_error \<Rightarrow> GetSessionStatusResponse result \<Rightarrow> control_state \<Rightarrow> control_state" where
  "send_failed err statusResp cs =
     (let failure = stop_control (setControlFailure (Some (Status Code_Unavailable
                      (''submit RAV on provider payment session: '' @ Error_text err)))) cs
      in (case statusResp of
            Inl _ \<Rightarrow> failure
          | Inr resp \<Rightarrow>
              (case resolveAmbiguousIngressSessionStatus (Some resp) of
                 (False, _) \<Rightarrow> failure
               | (True, None) \<Rightarrow> stop_control setCanceled cs
               | (True, Some e) \<Rightarrow>
                   if status_Code e = Code_ResourceExhausted then stop_control (setSemanticStop (Some e)) cs
                   else stop_control (setControlFailure (Some e)) cs)))"

text \<open>A request is signed, counted, sent and remembered until the provider says to go on.\<close>

definition answer_request ::
  "eth_lib \<Rightarrow> Sidecar \<Rightarrow> RAVRequest \<Rightarrow> control_input \<Rightarrow> control_state \<Rightarrow> control_state option" where
  "answer_request l s ravReq inp cs =
     (let cs = cs\<lparr>cl_coordinator := setPaymentControlPending True (cl_coordinator cs)\<rparr>;
          session = cl_session cs
      in (case signRAVForRequest l s session (Some ravReq) (in_clk inp 0) of
            None \<Rightarrow> None
          | Some (Inl err) \<Rightarrow>
              Some (stop_control (setControlFailure (Some (Status Code_Internal
                      (''sign RAV for provider request: '' @ Error_text err)))) cs)
          | Some (Inr signedRAV) \<Rightarrow>
              let session = (case rq_Usage ravReq of
                               None \<Rightarrow> session
                             | Some u \<Rightarrow> LocalAddUsage (pu_BlocksProcessed u) (pu_BytesTransferred u) (pu_Requests u)
                                 (map_option (\<lambda>c. GRT_ToBigInt (lib_fromBig l) (Some c)) (pu_Cost u))
                                 (in_clk inp 1) session);
                  cs = cs\<lparr>cl_session := session,
                          cl_sent := cl_sent cs @ [rav_submission_request l (ls_ID session) signedRAV (rq_Usage ravReq)]\<rparr>
              in Some (case in_send inp of
                         Some err \<Rightarrow> send_failed err (in_status inp) cs
                       | None \<Rightarrow> cs\<lparr>cl_pendingRAV := Some signedRAV\<rparr>)))"

definition need_funds_reason :: "from_big \<Rightarrow> NeedMoreFunds \<Rightarrow> string" where
  "need_funds_reason fromBig need =
     (case nf_MinimumNeeded need of
        None \<Rightarrow> ''need more funds''
      | Some m \<Rightarrow> ''need more funds (minimum needed '' @ GRT_String (GRT_ToNative fromBig (Some m)) @ '')'')"

definition control_turn ::
  "eth_lib \<Rightarrow> Sidecar \<Rightarrow> control_input \<Rightarrow> control_state \<Rightarrow> control_state option" where
  "control_turn l s inp cs =
     (case in_received inp of
        ReceiveError err ctxDone \<Rightarrow>
          Some (if ctxDone then stop_control setCanceled cs
                else stop_control (setControlFailure (Some (Status Code_Unavailable
                       (''receive provider payment control: '' @ Error_text err)))) cs)
      | Received None \<Rightarrow> Some cs
      | Received (Some (Response_RavRequest ravReq)) \<Rightarrow> answer_request l s ravReq inp cs
      | Received (Some (Response_NeedMoreFunds need)) \<Rightarrow>
          Some (stop_control (setSemanticStop (Some (Status Code_ResourceExhausted
                  (need_funds_reason (lib_fromBig l) need)))) cs)
      | Received (Some (Response_SessionControl action reason)) \<Rightarrow>
          Some (if action = ACTION_CONTINUE then
                  let cs = (case cl_pendingRAV cs of
                              None \<Rightarrow> cs
                            | Some rav \<Rightarrow> cs\<lparr>cl_session := SetRAV (Some rav) (in_clk inp 0) (cl_session cs),
                                             cl_pendingRAV := None\<rparr>)
                  in cs\<lparr>cl_coordinator := setPaymentControlPending False (cl_coordinator cs)\<rparr>
                else stop_control (setSemanticStop (Some (Status Code_ResourceExhausted
                       (if reason = [] then ''provider ended stream'' else reason)))) cs))"

fun control_loop ::
  "eth_lib \<Rightarrow> Sidecar \<Rightarrow> control_input list \<Rightarrow> control_state \<Rightarrow> control_state option" where
  "control_loop l s [] cs = Some cs"
| "control_loop l s (inp # inps) cs =
     (if cl_done cs then Some cs
      else (case control_turn l s inp cs of None \<Rightarrow> None | Some cs \<Rightarrow> control_loop l s inps cs))"

text \<open>The start of the thread: without a client, or when binding fails, it ends at once.\<close>

definition runIngressPaymentControl ::
  "eth_lib \<Rightarrow> Sidecar \<Rightarrow> LocalSession option \<Rightarrow> bool \<Rightarrow> go_error option \<Rightarrow> control_input list \<Rightarrow>
   ingressTerminationCoordinator \<Rightarrow> (control_state option + ingressTerminationCoordinator)" where
  "runIngressPaymentControl l s session hasClient bound inps c =
     (case session of
        None \<Rightarrow> Inr (setControlFailure (Some (Status Code_Internal ''consumer ingress session is required'')) c)
      | Some session \<Rightarrow>
          if \<not> hasClient
          then Inr (setControlFailure (Some (Status Code_Unavailable
                      ''provider payment session client is not configured'')) c)
          else (case bound of
             Some err \<Rightarrow> Inr (setControlFailure (Some (Status Code_Unavailable
                           (''bind provider payment session: '' @ Error_text err))) c)
           | None \<Rightarrow> Inl (control_loop l s inps
               \<lparr>cl_session = session, cl_pendingRAV = None, cl_coordinator = c, cl_sent = [], cl_done = False\<rparr>)))"

subsection \<open>How a stream ends\<close>

text \<open>
  One turn of a waiting loop: the coordinator's error and pending flag when the turn starts, the
  status the provider reports, the event that ends the wait, and the coordinator's error after it.
\<close>

datatype wake = ClientDone stream_error | DeadlineDone | Changed | Ticked | ControlDone

record poll =
  po_err :: "stream_error option"
  po_localPending :: bool
  po_status :: "GetSessionStatusResponse result"
  po_wake :: wake
  po_errAfter :: "stream_error option"

text \<open>
  The last error of a status query is kept for the message; a loop that has seen all turns of the
  list is still waiting (\<open>None\<close>). \<open>timeoutText\<close> is the printed form of the timeout.
\<close>

fun awaitAmbiguousIngressTerminationResolution ::
  "string \<Rightarrow> go_error option \<Rightarrow> poll list \<Rightarrow> stream_error option option" where
  "awaitAmbiguousIngressTerminationResolution timeoutText lastStatusErr [] = None"
| "awaitAmbiguousIngressTerminationResolution timeoutText lastStatusErr (p # ps) =
     (case po_err p of
        Some e \<Rightarrow> Some (Some e)
      | None \<Rightarrow>
          (case resolveAmbiguousIngressSessionStatus (case po_status p of Inl _ \<Rightarrow> None | Inr r \<Rightarrow> Some r) of
             (True, err) \<Rightarrow> Some err
           | (False, _) \<Rightarrow>
               let lastStatusErr = (case po_status p of Inl e \<Rightarrow> Some e | Inr _ \<Rightarrow> lastStatusErr) in
               (case po_wake p of
                  ClientDone ctxErr \<Rightarrow> Some (Some (case po_errAfter p of Some e \<Rightarrow> e | None \<Rightarrow> ctxErr))
                | DeadlineDone \<Rightarrow>
                    Some (Some (case po_errAfter p of
                       Some e \<Rightarrow> e
                     | None \<Rightarrow>
                         Status Code_Unavailable
                           (case lastStatusErr of
                              Some e \<Rightarrow> ''upstream Substreams stream terminated before provider session status resolved the session: '' @ Error_text e
                            | None \<Rightarrow> ''upstream Substreams stream terminated before provider session status resolved the session within '' @ timeoutText)))
                | _ \<Rightarrow> awaitAmbiguousIngressTerminationResolution timeoutText lastStatusErr ps)))"

fun awaitFiniteIngressPostStreamControl ::
  "string \<Rightarrow> go_error option \<Rightarrow> poll list \<Rightarrow> stream_error option option" where
  "awaitFiniteIngressPostStreamControl timeoutText lastStatusErr [] = None"
| "awaitFiniteIngressPostStreamControl timeoutText lastStatusErr (p # ps) =
     (case po_err p of
        Some e \<Rightarrow> Some (Some e)
      | None \<Rightarrow>
          (case resolveAmbiguousIngressSessionStatus (case po_status p of Inl _ \<Rightarrow> None | Inr r \<Rightarrow> Some r) of
             (True, err) \<Rightarrow> Some err
           | (False, _) \<Rightarrow>
               if \<not> po_localPending p \<and>
                  (case po_status p of Inl _ \<Rightarrow> False | Inr r \<Rightarrow> \<not> gss_PaymentControlPending r)
               then Some None
               else
                 let lastStatusErr = (case po_status p of Inl e \<Rightarrow> Some e | Inr _ \<Rightarrow> lastStatusErr) in
                 (case po_wake p of
                    ClientDone ctxErr \<Rightarrow> Some (Some (case po_errAfter p of Some e \<Rightarrow> e | None \<Rightarrow> ctxErr))
                  | DeadlineDone \<Rightarrow>
                      Some (Some (case po_errAfter p of
                         Some e \<Rightarrow> e
                       | None \<Rightarrow>
                           Status Code_Unavailable
                             (case lastStatusErr of
                                Some e \<Rightarrow> ''finite upstream Substreams stream ended before provider payment control status resolved the session: '' @ Error_text e
                              | None \<Rightarrow> ''finite upstream Substreams stream ended while provider payment control remained pending for '' @ timeoutText)))
                  | _ \<Rightarrow> awaitFiniteIngressPostStreamControl timeoutText lastStatusErr ps)))"

text \<open>
  The decision when the upstream stream returned an error: \<open>err1\<close> and \<open>err2\<close> are the two readings of
  the coordinator, \<open>clientErr\<close> and \<open>runtimeErr\<close> tell whether the contexts are done.
\<close>

definition no_client :: "stream_error option option" where
  "no_client = Some (Some (Status Code_Unavailable ''provider payment session client is not configured''))"

definition resolveIngressStreamTermination ::
  "string \<Rightarrow> bool \<Rightarrow> bool \<Rightarrow> bool \<Rightarrow> stream_error \<Rightarrow> bool \<Rightarrow> stream_error option \<Rightarrow> stream_error option \<Rightarrow> poll list \<Rightarrow>
   stream_error option option" where
  "resolveIngressStreamTermination timeoutText hasClient clientErr runtimeErr upstreamErr expected err1 err2 polls =
     (case err1 of
        Some e \<Rightarrow> Some (Some e)
      | None \<Rightarrow>
          if stream_error_Is upstreamErr EOF then
            (if expected
             then (if hasClient then awaitFiniteIngressPostStreamControl timeoutText None polls else no_client)
             else (case err2 of
                Some e \<Rightarrow> Some (Some e)
              | None \<Rightarrow> if hasClient then awaitAmbiguousIngressTerminationResolution timeoutText None polls else no_client))
          else if \<not> clientErr \<and> (runtimeErr \<or> isAmbiguousIngressUpstreamError (Some upstreamErr)) then
            (case err2 of
               Some e \<Rightarrow> Some (Some e)
             | None \<Rightarrow> if hasClient then awaitAmbiguousIngressTerminationResolution timeoutText None polls else no_client)
          else (case err2 of
             Some e \<Rightarrow> Some (Some e)
           | None \<Rightarrow> Some (Some upstreamErr)))"

subsection \<open>The proxy\<close>

text \<open>\<open>proto.Marshal\<close> is the parameter \<open>marshal\<close>.\<close>

definition encodeRAVHeader :: "(pb_SignedRAV option \<Rightarrow> bytes result) \<Rightarrow> pb_SignedRAV option \<Rightarrow> string result" where
  "encodeRAVHeader marshal signedRAV =
     (case marshal signedRAV of
        Inl err \<Rightarrow> Inl (Errorf ''marshal proto: %w'' [] (Some err))
      | Inr protoBytes \<Rightarrow> Inr (StdEncoding_EncodeToString protoBytes))"

definition newUpstreamStreamContext ::
  "(pb_SignedRAV option \<Rightarrow> bytes result) \<Rightarrow> (string \<rightharpoonup> string) \<Rightarrow> pb_SignedRAV option \<Rightarrow> string \<Rightarrow>
   (string \<rightharpoonup> string) result" where
  "newUpstreamStreamContext marshal headers paymentRAV sessionID =
     (case encodeRAVHeader marshal paymentRAV of
        Inl err \<Rightarrow> Inl err
      | Inr ravHeader \<Rightarrow> Inr (headers(HeaderRAV \<mapsto> ravHeader, HeaderSessionID \<mapsto> sessionID)))"

text \<open>
  The loop that forwards responses: the upstream yields responses and at last an error; sending to
  the client may fail. The result is the error that ends the loop, from the client or from the
  upstream with the progress made, or \<open>None\<close> as long as the stream goes on.
\<close>

datatype forward_end = SendFailed stream_error | UpstreamEnded stream_error ingressStreamProgress

datatype 'r upstream = Recv 'r "stream_error option" | RecvError stream_error

fun forward ::
  "('r option \<Rightarrow> ingressStreamProgress \<Rightarrow> ingressStreamProgress) \<Rightarrow> 'r upstream list \<Rightarrow> ingressStreamProgress \<Rightarrow>
   'r list \<times> forward_end option" where
  "forward observe [] p = ([], None)"
| "forward observe (RecvError e # us) p = ([], Some (UpstreamEnded e p))"
| "forward observe (Recv r (Some e) # us) p = ([], Some (SendFailed e))"
| "forward observe (Recv r None # us) p =
     (case forward observe us (observe (Some r) p) of (sent, e) \<Rightarrow> (r # sent, e))"

text \<open>
  What the environment of one proxied stream does: the connection, the opening of the call, the
  upstream's responses, and, for the end, the contexts, the coordinator's readings and the polls.
  The payment client stays registered until the proxy returns.
\<close>

record 'r proxy_env =
  px_conn :: "(string \<rightharpoonup> string) result"
  px_marshal :: "pb_SignedRAV option \<Rightarrow> bytes result"
  px_open :: "go_error option"
  px_upstream :: "'r upstream list"
  px_clientErr :: bool
  px_runtimeErr :: bool
  px_err1 :: "stream_error option"
  px_err2 :: "stream_error option"
  px_polls :: "poll list"
  px_timeoutText :: string

definition initial_progress :: ingressStreamProgress where
  "initial_progress = \<lparr>pr_sawBlock = False, pr_highestBlock = 0\<rparr>"

text \<open>The body of a proxy after the session was opened; the first component is what the client received.\<close>

definition proxy_body ::
  "('r option \<Rightarrow> ingressStreamProgress \<Rightarrow> ingressStreamProgress) \<Rightarrow> u64 \<Rightarrow> 'r proxy_env \<Rightarrow> sessionBootstrapResult \<Rightarrow>
   'r list \<times> stream_error option option" where
  "proxy_body observe stopBlockNum env b =
     (case px_conn env of
        Inl err \<Rightarrow> ([], Some (Some (Status Code_Unavailable (''connect upstream Substreams endpoint: '' @ Error_text err))))
      | Inr headers \<Rightarrow>
          (case newUpstreamStreamContext (px_marshal env) headers (br_PaymentRAV b) (ls_ID (br_LocalSession b)) of
             Inl err \<Rightarrow> ([], Some (Some (Status Code_Internal (''encode SDS upstream headers: '' @ Error_text err))))
           | Inr _ \<Rightarrow>
               (case px_open env of
                  Some err \<Rightarrow> ([], Some (Some (Status Code_Unavailable (''open upstream Blocks stream: '' @ Error_text err))))
                | None \<Rightarrow>
                    (case forward observe (px_upstream env) initial_progress of
                       (sent, None) \<Rightarrow> (sent, None)
                     | (sent, Some (SendFailed e)) \<Rightarrow> (sent, Some (Some e))
                     | (sent, Some (UpstreamEnded e p)) \<Rightarrow>
                         (sent, resolveIngressStreamTermination (px_timeoutText env) True (px_clientErr env) (px_runtimeErr env)
                            e (expectedEOF stopBlockNum p) (px_err1 env) (px_err2 env) (px_polls env))))))"

text \<open>
  The deferred calls run when the body returns: the control thread is cancelled and awaited, the
  local session deleted, the payment client closed.
\<close>

definition finish_ingress :: "string \<Rightarrow> ConsumerState \<Rightarrow> ConsumerState" where
  "finish_ingress sessionID st =
     \<lparr>co_sessions = SessionManager_Delete sessionID (co_sessions st),
      co_paymentSessions = manager_Close sessionID (co_paymentSessions st)\<rparr>"

definition proxyStream ::
  "eth_lib \<Rightarrow> url_lib \<Rightarrow> remote_calls \<Rightarrow> Sidecar \<Rightarrow> ('r option \<Rightarrow> ingressStreamProgress \<Rightarrow> ingressStreamProgress) \<Rightarrow>
   u64 \<Rightarrow> 'r proxy_env \<Rightarrow> sessionBootstrapInput \<Rightarrow> (nat \<Rightarrow> time) \<Rightarrow> ConsumerState \<Rightarrow>
   (('r list \<times> stream_error option option) \<times> ConsumerState) option" where
  "proxyStream l u rm s observe stopBlockNum env input clk st =
     (case bootstrapManagedSession l u rm s input clk st of
        None \<Rightarrow> None
      | Some (Inl (code, err), st) \<Rightarrow> Some (([], Some (Some (Connect code err))), st)
      | Some (Inr b, st) \<Rightarrow>
          (case proxy_body observe stopBlockNum env b of
             (sent, None) \<Rightarrow> Some ((sent, None), st)
           | (sent, Some res) \<Rightarrow> Some ((sent, Some res), finish_ingress (ls_ID (br_LocalSession b)) st)))"

definition requireIngressConfig :: "Sidecar \<Rightarrow> stream_error + IngressConfig" where
  "requireIngressConfig s =
     (case sc_ingressConfig s of
        None \<Rightarrow> Inl (Status Code_FailedPrecondition ''consumer ingress runtime is not configured'')
      | Some c \<Rightarrow> Inr c)"

definition ingress_input :: "IngressConfig \<Rightarrow> Package option \<Rightarrow> string \<Rightarrow> sessionBootstrapInput" where
  "ingress_input c pkg network =
     \<lparr>bi_Payer = ing_Payer c, bi_Receiver = ing_Receiver c, bi_DataService = ing_DataService c,
      bi_ProviderControlPlaneEndpoint = ing_ProviderControlPlaneEndpoint c,
      bi_SubstreamsPackage = pkg, bi_RequestedNetwork = network\<rparr>"

text \<open>The requests of the three versions of the streaming service; \<open>None\<close> is a nil request.\<close>

definition blocks_v2 ::
  "eth_lib \<Rightarrow> url_lib \<Rightarrow> remote_calls \<Rightarrow> Sidecar \<Rightarrow> u64 option \<Rightarrow> response_v2 proxy_env \<Rightarrow> (nat \<Rightarrow> time) \<Rightarrow> ConsumerState \<Rightarrow>
   ((response_v2 list \<times> stream_error option option) \<times> ConsumerState) option" where
  "blocks_v2 l u rm s stop env clk st =
     (case stop of
        None \<Rightarrow> Some (([], Some (Some (Status Code_InvalidArgument ''request is required''))), st)
      | Some stopBlockNum \<Rightarrow>
          (case requireIngressConfig s of
             Inl e \<Rightarrow> Some (([], Some (Some e)), st)
           | Inr c \<Rightarrow>
               if ing_ProviderControlPlaneEndpoint c = []
               then Some (([], Some (Some (Status Code_FailedPrecondition ''oracle-backed ingress requires a v3/v4 Substreams request containing package/network context''))), st)
               else proxyStream l u rm s observeV2 stopBlockNum env
                      (ingress_input c (Some \<lparr>pkg_Network = [], pkg_Networks = []\<rparr>) []) clk st))"

record blocks_request =
  bq_StopBlockNum :: u64
  bq_Package :: "Package option"
  bq_Network :: string

definition blocks_v3 ::
  "eth_lib \<Rightarrow> url_lib \<Rightarrow> remote_calls \<Rightarrow> Sidecar \<Rightarrow> blocks_request option \<Rightarrow> response_v2 proxy_env \<Rightarrow> (nat \<Rightarrow> time) \<Rightarrow>
   ConsumerState \<Rightarrow> ((response_v2 list \<times> stream_error option option) \<times> ConsumerState) option" where
  "blocks_v3 l u rm s req env clk st =
     (case req of
        None \<Rightarrow> Some (([], Some (Some (Status Code_InvalidArgument ''request is required''))), st)
      | Some req \<Rightarrow>
          (case requireIngressConfig s of
             Inl e \<Rightarrow> Some (([], Some (Some e)), st)
           | Inr c \<Rightarrow> proxyStream l u rm s observeV2 (bq_StopBlockNum req) env
               (ingress_input c (bq_Package req) (bq_Network req)) clk st))"

definition blocks_v4 ::
  "eth_lib \<Rightarrow> url_lib \<Rightarrow> remote_calls \<Rightarrow> Sidecar \<Rightarrow> blocks_request option \<Rightarrow> response_v4 proxy_env \<Rightarrow> (nat \<Rightarrow> time) \<Rightarrow>
   ConsumerState \<Rightarrow> ((response_v4 list \<times> stream_error option option) \<times> ConsumerState) option" where
  "blocks_v4 l u rm s req env clk st =
     (case req of
        None \<Rightarrow> Some (([], Some (Some (Status Code_InvalidArgument ''request is required''))), st)
      | Some req \<Rightarrow>
          (case requireIngressConfig s of
             Inl e \<Rightarrow> Some (([], Some (Some e)), st)
           | Inr c \<Rightarrow> proxyStream l u rm s observeV4 (bq_StopBlockNum req) env
               (ingress_input c (bq_Package req) (bq_Network req)) clk st))"


subsection \<open>The first result stays\<close>

lemma setResult_kept: "tc_kind c \<noteq> ingressControlResultNone \<Longrightarrow> setResult k e b c = c"
  by (simp add: setResult_def)

definition coordinator_ok :: "ingressTerminationCoordinator \<Rightarrow> bool" where
  "coordinator_ok c \<longleftrightarrow> (tc_kind c = ingressControlResultNone \<longleftrightarrow> tc_err c = None)"

lemmas set_results = setSemanticStop_def setControlFailure_def setCanceled_def setResult_def

lemma setPending_result [simp]:
  "tc_kind (setPaymentControlPending b c) = tc_kind c" "tc_err (setPaymentControlPending b c) = tc_err c"
  by (simp_all add: setPaymentControlPending_def)

subsection \<open>What the control thread does\<close>

text \<open>Identity and parties of a local session.\<close>

definition same_local :: "LocalSession \<Rightarrow> LocalSession \<Rightarrow> bool" where
  "same_local a b \<longleftrightarrow> ls_ID b = ls_ID a \<and> ls_Payer b = ls_Payer a \<and> ls_Receiver b = ls_Receiver a \<and>
     ls_DataService b = ls_DataService a"

lemma same_local_simps [simp]:
  "same_local a a" "same_local a (LocalAddUsage b y q c t a') = same_local a a'"
  "same_local a (SetRAV r t a') = same_local a a'"
  by (simp_all add: same_local_def LocalAddUsage_def SetRAV_def)

lemma add_usage_ID: "ls_ID (LocalAddUsage b y q c t s) = ls_ID s"
  by (simp add: LocalAddUsage_def)

lemma same_local_answer: "same_local a b \<Longrightarrow> answer_RAV b = answer_RAV a"
  by (intro ext) (simp add: same_local_def answer_RAV_def)

text \<open>
  A request of the provider and the consumer's answer to it: the voucher of the session's parties
  over the value of the voucher in the request plus the cost in the request.
\<close>

definition answers :: "eth_lib \<Rightarrow> LocalSession \<Rightarrow> RAVRequest \<Rightarrow> SignedRAV \<Rightarrow> bool" where
  "answers l session rq sr \<longleftrightarrow>
     (\<exists>u cur m v now. rq_Usage rq = Some u \<and>
        ProtoSignedRAVToHorizon (lib_fromBig l) (lib_newSig l) (rq_CurrentRav rq) = Inr (Some cur) \<and>
        Message cur = Some m \<and> ValueAggregate m = Some v \<and>
        Message sr = Some (answer_RAV session m now (v + GRT_ToBigInt (lib_fromBig l) (pu_Cost u))))"

definition request_cost :: "eth_lib \<Rightarrow> RAVRequest \<Rightarrow> int" where
  "request_cost l rq =
     (case Option.bind (rq_Usage rq) pu_Cost of None \<Rightarrow> 0 | Some c \<Rightarrow> GRT_ToBigInt (lib_fromBig l) (Some c))"

text \<open>
  The history of the thread: for every voucher handed over the request it answers, in order.
\<close>

definition control_ok :: "eth_lib \<Rightarrow> LocalSession \<Rightarrow> control_state \<Rightarrow> (RAVRequest \<times> SignedRAV) list \<Rightarrow> bool" where
  "control_ok l s0 cs hist \<longleftrightarrow>
     same_local s0 (cl_session cs) \<and> (\<forall>(rq, sr)\<in>set hist. answers l s0 rq sr) \<and>
     cl_sent cs = map (\<lambda>(rq, sr). rav_submission_request l (ls_ID s0) sr (rq_Usage rq)) hist \<and>
     ls_TotalCost (cl_session cs) = ls_TotalCost s0 + sum_list (map (request_cost l \<circ> fst) hist) \<and>
     (\<forall>sr. cl_pendingRAV cs = Some sr \<longrightarrow> sr \<in> snd ` set hist) \<and>
     (ls_CurrentRAV (cl_session cs) = ls_CurrentRAV s0 \<or> ls_CurrentRAV (cl_session cs) \<in> Some ` snd ` set hist) \<and>
     coordinator_ok (cl_coordinator cs) \<and>
     (cl_done cs \<longleftrightarrow> tc_kind (cl_coordinator cs) \<noteq> ingressControlResultNone)"

definition new_history :: "eth_lib \<Rightarrow> Sidecar \<Rightarrow> control_input \<Rightarrow> control_state \<Rightarrow> (RAVRequest \<times> SignedRAV) list" where
  "new_history l s inp cs =
     (case in_received inp of
        Received (Some (Response_RavRequest rq)) \<Rightarrow>
          (case signRAVForRequest l s (cl_session cs) (Some rq) (in_clk inp 0) of
             Some (Inr sr) \<Rightarrow> [(rq, sr)]
           | _ \<Rightarrow> [])
      | _ \<Rightarrow> [])"

lemma stop_control_ok:
  assumes "control_ok l s0 cs hist" "\<not> cl_done cs"
  shows "control_ok l s0 (stop_control setCanceled cs) hist"
    "control_ok l s0 (stop_control (setControlFailure (Some e)) cs) hist"
    "control_ok l s0 (stop_control (setSemanticStop (Some e)) cs) hist"
  using assms by (auto simp: control_ok_def stop_control_def set_results coordinator_ok_def)

lemma send_failed_ok:
  assumes "control_ok l s0 cs hist" "\<not> cl_done cs"
  shows "control_ok l s0 (send_failed err r cs) hist"
  unfolding send_failed_def Let_def
  by (simp add: stop_control_ok[OF assms] split: sum.splits prod.splits bool.splits option.splits)

lemma answer_request_ok:
  assumes "lib_ok l" "control_ok l s0 cs hist" "\<not> cl_done cs" "in_received inp = Received (Some (Response_RavRequest rq))"
    and "answer_request l s rq inp cs = Some cs'"
  shows "control_ok l s0 cs' (hist @ new_history l s inp cs)"
proof -
  let ?cs = "cs\<lparr>cl_coordinator := setPaymentControlPending True (cl_coordinator cs)\<rparr>"
  have ok: "control_ok l s0 ?cs hist" "\<not> cl_done ?cs"
    using assms(2,3) by (auto simp: control_ok_def coordinator_ok_def)
  consider (failed) err where "signRAVForRequest l s (cl_session cs) (Some rq) (in_clk inp 0) = Some (Inl err)"
    | (signed) sr where "signRAVForRequest l s (cl_session cs) (Some rq) (in_clk inp 0) = Some (Inr sr)"
    using assms(5) by (auto simp: answer_request_def Let_def split: option.splits sum.splits)
  then show ?thesis
  proof cases
    case failed
    then show ?thesis
      using assms(4,5) stop_control_ok[OF ok] by (auto simp: answer_request_def new_history_def Let_def)
  next
    case signed
    obtain u where u: "rq_Usage rq = Some u" "answers l s0 rq sr"
    proof -
      obtain u cur m v where a: "rq_Usage rq = Some u"
          "ProtoSignedRAVToHorizon (lib_fromBig l) (lib_newSig l) (rq_CurrentRav rq) = Inr (Some cur)"
          "Message cur = Some m" "ValueAggregate m = Some v"
          "Message sr = Some (answer_RAV (cl_session cs) m (in_clk inp 0) (v + GRT_ToBigInt (lib_fromBig l) (pu_Cost u)))"
        using signRAVForRequest_Inr[OF assms(1) signed] by (metis option.inject)
      have "same_local s0 (cl_session cs)" using assms(2) by (simp add: control_ok_def)
      then show thesis using that[OF a(1)] a by (auto simp: answers_def same_local_answer)
    qed
    define cs1 where "cs1 = ?cs\<lparr>cl_session := LocalAddUsage (pu_BlocksProcessed u) (pu_BytesTransferred u) (pu_Requests u)
        (map_option (\<lambda>c. GRT_ToBigInt (lib_fromBig l) (Some c)) (pu_Cost u)) (in_clk inp 1) (cl_session cs),
      cl_sent := cl_sent cs @ [rav_submission_request l (ls_ID (cl_session cs)) sr (rq_Usage rq)]\<rparr>"
    have id: "ls_ID (cl_session cs) = ls_ID s0" using assms(2) by (simp add: control_ok_def same_local_def)
    have cs1: "control_ok l s0 cs1 (hist @ [(rq, sr)])" "\<not> cl_done cs1"
      using ok u id by (auto simp: control_ok_def cs1_def LocalAddUsage_def request_cost_def same_local_def image_Un
          split: option.splits)
    have hist: "new_history l s inp cs = [(rq, sr)]" using assms(4) signed by (simp add: new_history_def)
    have "cs' = (case in_send inp of Some err \<Rightarrow> send_failed err (in_status inp) cs1 | None \<Rightarrow> cs1\<lparr>cl_pendingRAV := Some sr\<rparr>)"
      using assms(5) signed u(1) by (simp add: answer_request_def cs1_def Let_def add_usage_ID split: option.splits)
    then show ?thesis
      using send_failed_ok[OF cs1] cs1 unfolding hist by (auto simp: control_ok_def split: option.splits)
  qed
qed


lemma control_turn_ok:
  assumes "lib_ok l" "control_ok l s0 cs hist" "\<not> cl_done cs" "control_turn l s inp cs = Some cs'"
  shows "control_ok l s0 cs' (hist @ new_history l s inp cs)"
proof (cases "in_received inp")
  case (ReceiveError err d)
  then show ?thesis
    using assms(4) stop_control_ok[OF assms(2,3)] by (auto simp: control_turn_def new_history_def split: if_splits)
next
  case (Received msg)
  show ?thesis
  proof (cases msg)
    case None
    then show ?thesis using Received assms(2,4) by (simp add: control_turn_def new_history_def)
  next
    case (Some resp)
    show ?thesis
    proof (cases resp)
      case (Response_RavRequest rq)
      then show ?thesis
        using answer_request_ok[OF assms(1-3)] Received Some assms(4) by (simp add: control_turn_def)
    next
      case (Response_NeedMoreFunds need)
      then show ?thesis
        using Received Some assms(4) stop_control_ok[OF assms(2,3)] by (auto simp: control_turn_def new_history_def)
    next
      case (Response_SessionControl action reason)
      have h: "new_history l s inp cs = []" using Received Some Response_SessionControl by (simp add: new_history_def)
      have go: "control_ok l s0 (cs\<lparr>cl_coordinator := setPaymentControlPending False (cl_coordinator cs)\<rparr>) hist"
          "cl_pendingRAV cs = Some rav \<Longrightarrow> control_ok l s0 (cs\<lparr>cl_session := SetRAV (Some rav) t (cl_session cs),
             cl_pendingRAV := None, cl_coordinator := setPaymentControlPending False (cl_coordinator cs)\<rparr>) hist" for rav t
        using assms(2) by (auto simp: control_ok_def coordinator_ok_def SetRAV_def same_local_def)
      show ?thesis
        using assms(4) stop_control_ok[OF assms(2,3)] go Received Some Response_SessionControl
        by (auto simp: control_turn_def h Let_def split: if_splits option.splits)
    qed
  qed
qed

lemma new_history_received:
  assumes "(rq, sr) \<in> set (new_history l s inp cs)"
  shows "in_received inp = Received (Some (Response_RavRequest rq))"
  using assms by (auto simp: new_history_def split: received.splits option.splits PaymentSessionResponse.splits sum.splits)

lemma control_loop_ok:
  assumes "lib_ok l" "control_ok l s0 cs hist" "control_loop l s inps cs = Some cs'"
  shows "\<exists>hist'. control_ok l s0 cs' (hist @ hist') \<and>
    (\<forall>(rq, sr)\<in>set hist'. \<exists>inp\<in>set inps. in_received inp = Received (Some (Response_RavRequest rq)))"
  using assms(2,3)
proof (induction inps arbitrary: cs hist)
  case Nil
  then show ?case by (intro exI[of _ "[]"]) simp
next
  case (Cons inp inps)
  show ?case
  proof (cases "cl_done cs")
    case True
    then show ?thesis using Cons.prems by (intro exI[of _ "[]"]) simp
  next
    case False
    then obtain cs1 where cs1: "control_turn l s inp cs = Some cs1" "control_loop l s inps cs1 = Some cs'"
      using Cons.prems(2) by (auto split: option.splits)
    obtain hist' where h: "control_ok l s0 cs' ((hist @ new_history l s inp cs) @ hist')"
        "\<forall>(rq, sr)\<in>set hist'. \<exists>inp\<in>set inps. in_received inp = Received (Some (Response_RavRequest rq))"
      using Cons.IH[OF control_turn_ok[OF assms(1) Cons.prems(1) False cs1(1)] cs1(2)] by blast
    show ?thesis
      by (rule exI[of _ "new_history l s inp cs @ hist'"]) (use h new_history_received in \<open>fastforce simp: append_assoc\<close>)
  qed
qed



text \<open>A session of the sample parties, a request over 60 on top of 1000, and the go-ahead that follows.\<close>

definition sample_sidecar :: Sidecar where
  "sample_sidecar =
     \<lparr>sc_signerKey = replicate 20 2, sc_domain = NewDomain 1 (replicate 20 6), sc_oracleEndpoint = [],
      sc_ingressConfig = None, sc_paymentSessionRoundtripTimeout = 30 * second\<rparr>"

definition sample_local :: LocalSession where
  "sample_local = NewSessionWithID ''s'' (replicate 20 2) (replicate 20 3) (replicate 20 4) 0 0"

definition sample_request :: RAVRequest where
  "sample_request = \<lparr>rq_CurrentRav = Some (voucher_message 1000), rq_Usage = Some owed_usage, rq_Deadline = 0\<rparr>"

definition sample_inputs :: "control_input list" where
  "sample_inputs =
     map (\<lambda>m. \<lparr>in_received = Received (Some m), in_send = None, in_status = Inl (Sentinel ''unused''), in_clk = (\<lambda>_. 9)\<rparr>)
       [Response_RavRequest sample_request, continuePaymentSessionResponse]"

lemma owed_cost: "GRT_ToBigInt FromBig_std (pu_Cost owed_usage) = 60" "pu_Cost owed_usage \<noteq> None"
proof -
  have "session_ok owing_session" "total_cost owing_session = 60" "baseline_cost owing_session = 0"
    by (simp_all add: session_ok_def owing_session_def sample_session_def NewSession_def baseline_cost_def total_cost_def)
  then show "GRT_ToBigInt FromBig_std (pu_Cost owed_usage) = 60"
    using request_usage_cost[OF FromBig_std_ok, of owing_session] by (simp add: owed_usage_def)
  show "pu_Cost owed_usage \<noteq> None" by (simp add: owed_usage_def request_usage_def split: prod.splits)
qed

lemma sample_answer:
  "signRAVForRequest lib_std sample_sidecar sample_local (Some sample_request) 9 =
     Some (Inr \<lparr>Message = Some (answer_RAV sample_local sample_RAV 9 1060), Signature = std_signature (replicate 20 2)\<rparr>)"
proof -
  have a: "answer_RAV sample_local (sample_RAV\<lparr>ValueAggregate := Some 1000\<rparr>) 9 (1000 + 60) =
      answer_RAV sample_local sample_RAV 9 1060"
    by (simp add: answer_RAV_def)
  have wf: "wf_RAV (answer_RAV sample_local sample_RAV 9 1060)"
    by (simp add: wf_RAV_def answer_RAV_def sample_local_def NewSessionWithID_def sample_RAV_def)
  show ?thesis
    by (subst signRAVForRequest_eq[where u = owed_usage and cur = "payer_voucher 1000" and v = 1000
          and m = "sample_RAV\<lparr>ValueAggregate := Some 1000\<rparr>"])
      (use owed_cost voucher_message_wire[of 1000] RAV_hash_input[OF wf] a in
        \<open>simp_all add: sample_request_def payer_voucher_def Sign_RAV_def sample_sidecar_def\<close>)
qed

lemma sample_control:
  "\<exists>cs sr. runIngressPaymentControl lib_std sample_sidecar (Some sample_local) True None sample_inputs
      newIngressTerminationCoordinator = Inl (Some cs) \<and> length (cl_sent cs) = 1 \<and>
      ls_CurrentRAV (cl_session cs) = Some sr \<and> Message sr = Some (answer_RAV sample_local sample_RAV 9 1060)"
proof -
  have u: "rq_Usage sample_request = Some owed_usage" by (simp add: sample_request_def)
  show ?thesis
    by (simp add: runIngressPaymentControl_def sample_inputs_def control_turn_def answer_request_def sample_answer
        continuePaymentSessionResponse_def SetRAV_def Let_def u)
qed


subsection \<open>How streams end\<close>

text \<open>The provider's answer that lets a stream end without an error.\<close>

definition ended_well :: "poll \<Rightarrow> bool" where
  "ended_well p \<longleftrightarrow> po_err p = None \<and>
     (\<exists>r. po_status p = Inr r \<and> \<not> gss_Active r \<and>
        (gss_EndReason r = END_REASON_COMPLETE \<or> gss_EndReason r = END_REASON_CLIENT_DISCONNECT))"

definition nothing_pending :: "poll \<Rightarrow> bool" where
  "nothing_pending p \<longleftrightarrow> po_err p = None \<and> \<not> po_localPending p \<and>
     (\<exists>r. po_status p = Inr r \<and> gss_Active r \<and> \<not> gss_PaymentControlPending r)"

lemma resolve_True_None:
  "resolveAmbiguousIngressSessionStatus (case x of Inl _ \<Rightarrow> None | Inr r \<Rightarrow> Some r) = (True, None) \<longleftrightarrow>
   (\<exists>r. x = Inr r \<and> \<not> gss_Active r \<and>
      (gss_EndReason r = END_REASON_COMPLETE \<or> gss_EndReason r = END_REASON_CLIENT_DISCONNECT))"
  by (auto simp: resolveAmbiguousIngressSessionStatus_def split: sum.splits EndReason.splits if_splits)

lemma resolve_False:
  "resolveAmbiguousIngressSessionStatus (case x of Inl _ \<Rightarrow> None | Inr r \<Rightarrow> Some r) = (False, e) \<longleftrightarrow>
   e = None \<and> (\<forall>r. x = Inr r \<longrightarrow> gss_Active r)"
  by (auto simp: resolveAmbiguousIngressSessionStatus_def split: sum.splits EndReason.splits if_splits)

lemma await_ambiguous_clean:
  "awaitAmbiguousIngressTerminationResolution tt e ps = Some None \<Longrightarrow> \<exists>p\<in>set ps. ended_well p"
proof (induction ps arbitrary: e)
  case (Cons p ps)
  show ?case
  proof (cases "ended_well p")
    case False
    then have "\<exists>e'. awaitAmbiguousIngressTerminationResolution tt e' ps = Some None"
      using Cons.prems resolve_True_None[of "po_status p"]
      by (auto simp: ended_well_def Let_def split: option.splits prod.splits bool.splits wake.splits)
    then show ?thesis using Cons.IH by auto
  qed simp
qed simp

lemma await_finite_clean:
  "awaitFiniteIngressPostStreamControl tt e ps = Some None \<Longrightarrow> \<exists>p\<in>set ps. ended_well p \<or> nothing_pending p"
proof (induction ps arbitrary: e)
  case (Cons p ps)
  show ?case
  proof (cases "ended_well p \<or> nothing_pending p")
    case False
    then have "\<exists>e'. awaitFiniteIngressPostStreamControl tt e' ps = Some None"
      using Cons.prems resolve_True_None[of "po_status p"] resolve_False[of "po_status p"]
      by (auto simp: ended_well_def nothing_pending_def Let_def
          split: option.splits prod.splits bool.splits wake.splits if_splits sum.splits)
    then show ?thesis using Cons.IH by auto
  qed auto
qed simp

text \<open>Once the deadline has passed both loops have returned.\<close>

lemma await_ambiguous_ends:
  "\<exists>p\<in>set ps. po_wake p = DeadlineDone \<Longrightarrow> awaitAmbiguousIngressTerminationResolution tt e ps \<noteq> None"
  by (induction ps arbitrary: e) (auto simp: Let_def split: option.splits prod.splits bool.splits wake.splits)

lemma await_finite_ends:
  "\<exists>p\<in>set ps. po_wake p = DeadlineDone \<Longrightarrow> awaitFiniteIngressPostStreamControl tt e ps \<noteq> None"
  by (induction ps arbitrary: e) (auto simp: Let_def split: option.splits prod.splits bool.splits wake.splits)


subsection \<open>A proxied stream as a whole\<close>

lemma CreateWithID_cases:
  "CreateWithID i p r d clk sm = (Inl e, sm') \<Longrightarrow> sm' = sm"
  "CreateWithID i p r d clk sm = (Inr s, sm') \<Longrightarrow> sm i = None \<and> ls_ID s = i \<and> sm' = sm(i \<mapsto> s)"
  by (auto simp: CreateWithID_def NewSessionWithID_def Let_def split: if_splits)

lemma set_fields_ID [simp]:
  "ls_ID (SetRAV r t s) = ls_ID s" "ls_ID (SetPricingConfig c s) = ls_ID s"
  by (simp_all add: SetRAV_def SetPricingConfig_def Let_def split: option.splits)

lemma manager_SetEndpoint_other: "j \<noteq> i \<Longrightarrow> manager_SetEndpoint i e m j = m j"
  by (simp add: manager_SetEndpoint_def split: option.splits)

definition opened :: "sessionBootstrapResult \<Rightarrow> ConsumerState \<Rightarrow> ConsumerState \<Rightarrow> bool" where
  "opened b st st' \<longleftrightarrow>
     (let i = ls_ID (br_LocalSession b) in
      i \<noteq> [] \<and> co_sessions st i = None \<and> co_sessions st' = (co_sessions st)(i \<mapsto> br_LocalSession b) \<and>
      (\<forall>j. j \<noteq> i \<longrightarrow> co_paymentSessions st' j = co_paymentSessions st j))"

lemma adopt_session_state:
  assumes "adopt_session l input sel url rav resp clk st = (res, st')"
  shows "(\<forall>e. res = Inl e \<longrightarrow> st' = st) \<and> (\<forall>b. res = Inr b \<longrightarrow> opened b st st')"
proof (cases res)
  case (Inl e)
  then show ?thesis
    using assms CreateWithID_cases(1)
    by (fastforce simp: adopt_session_def Let_def split: if_splits sum.splits prod.splits)
next
  case (Inr b)
  then obtain s sm where c: "CreateWithID (TrimSpace (ssr_SessionId resp)) (bi_Payer input) (sel_Receiver sel)
        (bi_DataService input) clk (co_sessions st) = (Inr s, sm)" "TrimSpace (ssr_SessionId resp) \<noteq> []"
      "ls_ID (br_LocalSession b) = ls_ID s" "co_sessions st' = sm(TrimSpace (ssr_SessionId resp) \<mapsto> br_LocalSession b)"
      "co_paymentSessions st' = manager_SetEndpoint (TrimSpace (ssr_SessionId resp)) url (co_paymentSessions st)"
    using assms by (auto simp: adopt_session_def Let_def split: if_splits sum.splits prod.splits)
  then show ?thesis
    using Inr CreateWithID_cases(2)[OF c(1)] by (auto simp: opened_def manager_SetEndpoint_other)
qed

lemma bootstrap_state:
  assumes "bootstrapManagedSession l u rm s input clk st = Some (res, st')"
  shows "(\<forall>e. res = Inl e \<longrightarrow> st' = st) \<and> (\<forall>b. res = Inr b \<longrightarrow> opened b st st')"
  using assms adopt_session_state
  by (auto simp: bootstrapManagedSession_def invalid_argument_def Let_def
      split: sum.splits option.splits if_splits prod.splits)

fun responses :: "'r upstream list \<Rightarrow> 'r list" where
  "responses [] = []"
| "responses (Recv r e # us) = r # responses us"
| "responses (RecvError e # us) = responses us"

lemma forward_sent:
  "forward observe us p = (sent, e) \<Longrightarrow> prefix sent (responses us) \<and>
     (\<forall>err q. e = Some (UpstreamEnded err q) \<longrightarrow> q = fold (\<lambda>r. observe (Some r)) sent p)"
proof (induction observe us p arbitrary: sent rule: forward.induct)
  case (4 observe r us p)
  then show ?case by (auto split: prod.splits)
qed auto

lemma forward_ends: "RecvError e \<in> set us \<Longrightarrow> snd (forward observe us p) \<noteq> None"
  by (induction observe us p rule: forward.induct) (auto split: prod.splits)

lemma resolve_clean:
  assumes "resolveIngressStreamTermination tt hc ce re ue ex e1 e2 ps = Some None"
  shows "e1 = None \<and> (\<exists>p\<in>set ps. ended_well p \<or> ex \<and> nothing_pending p)"
  using assms await_ambiguous_clean await_finite_clean
  by (fastforce simp: resolveIngressStreamTermination_def no_client_def split: option.splits if_splits)

lemma resolve_ends:
  assumes "\<exists>p\<in>set ps. po_wake p = DeadlineDone"
  shows "resolveIngressStreamTermination tt hc ce re ue ex e1 e2 ps \<noteq> None"
  using await_ambiguous_ends[OF assms] await_finite_ends[OF assms]
  by (simp add: resolveIngressStreamTermination_def no_client_def split: option.splits)

lemma proxy_body_sound:
  assumes "proxy_body observe stop env b = (sent, out)"
  shows "prefix sent (responses (px_upstream env))"
    "out = Some None \<Longrightarrow> px_err1 env = None \<and> (\<exists>p\<in>set (px_polls env). ended_well p \<or>
       expectedEOF stop (fold (\<lambda>r. observe (Some r)) sent initial_progress) \<and> nothing_pending p)"
    "RecvError e \<in> set (px_upstream env) \<Longrightarrow> \<exists>p\<in>set (px_polls env). po_wake p = DeadlineDone \<Longrightarrow> out \<noteq> None"
proof -
  obtain fs fe where f: "forward observe (px_upstream env) initial_progress = (fs, fe)" by fastforce
  have nil: "sent = [] \<or> sent = fs"
    using assms by (auto simp: proxy_body_def f split: sum.splits option.splits forward_end.splits)
  then show "prefix sent (responses (px_upstream env))" using forward_sent[OF f] by auto
  show "px_err1 env = None \<and> (\<exists>p\<in>set (px_polls env). ended_well p \<or>
       expectedEOF stop (fold (\<lambda>r. observe (Some r)) sent initial_progress) \<and> nothing_pending p)"
    if out: "out = Some None"
  proof -
    obtain e' p where r: "fe = Some (UpstreamEnded e' p)" "sent = fs"
        "resolveIngressStreamTermination (px_timeoutText env) True (px_clientErr env) (px_runtimeErr env)
           e' (expectedEOF stop p) (px_err1 env) (px_err2 env) (px_polls env) = Some None"
      using assms out by (auto simp: proxy_body_def f split: sum.splits option.splits forward_end.splits)
    then show ?thesis using resolve_clean[OF r(3)] forward_sent[OF f] by auto
  qed
  show "out \<noteq> None" if "RecvError e \<in> set (px_upstream env)" "\<exists>p\<in>set (px_polls env). po_wake p = DeadlineDone"
    using assms forward_ends[OF that(1), of observe initial_progress] resolve_ends[OF that(2)]
    by (auto simp: proxy_body_def f split: sum.splits option.splits forward_end.splits)
qed

text \<open>
  C22: A proxied stream ends cleanly only when it is paid for, and leaves nothing behind
  (\<open>proxyV2Stream\<close>, \<open>proxyV3Stream\<close>, \<open>proxyV4Stream\<close>, \<open>resolveIngressStreamTermination\<close>). The client receives
  the upstream's responses in order. It is told that the stream ended without an error only if the
  control thread had no error and the provider reported the session as completed or disconnected by
  the client, or, for a stream that reached its stop block, reported nothing pending while the
  consumer had nothing pending either. Once the upstream has ended and the deadline for the status
  has passed the proxy has returned. When it returns the sessions of the sidecar are those from
  before and no payment client was added.
\<close>

theorem proxied_stream_sound:
  assumes "proxyStream l u rm s observe stop env input clk st = Some ((sent, out), st')"
  shows "prefix sent (responses (px_upstream env)) \<and>
    (out = Some None \<longrightarrow> px_err1 env = None \<and> (\<exists>p\<in>set (px_polls env). ended_well p \<or>
       expectedEOF stop (fold (\<lambda>r. observe (Some r)) sent initial_progress) \<and> nothing_pending p)) \<and>
    ((\<exists>e. RecvError e \<in> set (px_upstream env)) \<and> (\<exists>p\<in>set (px_polls env). po_wake p = DeadlineDone) \<longrightarrow> out \<noteq> None) \<and>
    (out \<noteq> None \<longrightarrow> co_sessions st' = co_sessions st \<and>
       (\<forall>j. co_paymentSessions st' j = co_paymentSessions st j \<or> co_paymentSessions st' j = None))"
proof -
  obtain res st1 where b: "bootstrapManagedSession l u rm s input clk st = Some (res, st1)"
    using assms by (auto simp: proxyStream_def split: option.splits)
  show ?thesis
  proof (cases res)
    case (Inl e)
    then show ?thesis using assms b bootstrap_state[OF b] by (cases e) (auto simp: proxyStream_def)
  next
    case (Inr br)
    have body: "proxy_body observe stop env br = (sent, out)"
        "st' = (if out = None then st1 else finish_ingress (ls_ID (br_LocalSession br)) st1)"
      using assms b Inr by (auto simp: proxyStream_def split: prod.splits option.splits)
    have op: "opened br st st1" using bootstrap_state[OF b] Inr by blast
    have "out \<noteq> None \<longrightarrow> co_sessions st' = co_sessions st \<and>
       (\<forall>j. co_paymentSessions st' j = co_paymentSessions st j \<or> co_paymentSessions st' j = None)"
      using op unfolding body(2)
      by (auto simp: opened_def finish_ingress_def SessionManager_Delete_def manager_Close_def Let_def fun_upd_idem)
    then show ?thesis using proxy_body_sound[OF body(1)] by blast
  qed
qed


text \<open>A stream of one block that reaches its stop block while the provider has nothing pending.\<close>

definition sample_remote :: remote_calls where
  "sample_remote =
     \<lparr>rm_oracle = (\<lambda>_. Inl (CodeNotFound, Sentinel ''none'')),
      rm_StartSession = (\<lambda>_ _. Inr \<lparr>ssr_SessionId = ''s'', ssr_UseRav = None, ssr_Accepted = True,
        ssr_RejectionReason = [], ssr_PricingConfig = None, ssr_DataPlaneEndpoint = ''e''\<rparr>)\<rparr>"

definition sample_input :: sessionBootstrapInput where
  "sample_input =
     \<lparr>bi_Payer = replicate 20 2, bi_Receiver = Some (replicate 20 3), bi_DataService = replicate 20 4,
      bi_ProviderControlPlaneEndpoint = ''p'', bi_SubstreamsPackage = None, bi_RequestedNetwork = []\<rparr>"

definition sample_env :: "response_v2 proxy_env" where
  "sample_env =
     \<lparr>px_conn = Inr Map.empty, px_marshal = (\<lambda>_. Inr []), px_open = None,
      px_upstream = [Recv \<lparr>r2_data = Some 4, r2_undo = None\<rparr> None, RecvError EOF],
      px_clientErr = False, px_runtimeErr = False, px_err1 = None, px_err2 = None,
      px_polls = [\<lparr>po_err = None, po_localPending = False,
        po_status = Inr \<lparr>gss_Active = True, gss_CurrentRavValue = GRTFromNative (mkGRT 0),
          gss_AccumulatedUsageValue = GRTFromNative (mkGRT 0), gss_EndReason = END_REASON_UNSPECIFIED,
          gss_PaymentControlPending = False\<rparr>,
        po_wake = DeadlineDone, po_errAfter = None\<rparr>],
      px_timeoutText = ''30s''\<rparr>"

definition no_sessions :: ConsumerState where
  "no_sessions = \<lparr>co_sessions = Map.empty, co_paymentSessions = Map.empty\<rparr>"

lemma trim_samples: "TrimSpace ''p'' = ''p''" "TrimSpace ''s'' = ''s''" "TrimSpace ''e'' = ''e''"
  "TrimSpace ''https://p'' = ''https://p''"
  by (rule TrimSpace_solid; simp add: solid_def)+

lemma sample_bootstrap:
  "\<exists>b st'. bootstrapManagedSession lib_std url_std sample_remote sample_sidecar sample_input (\<lambda>_. 9) no_sessions =
     Some (Inr b, st') \<and> ls_ID (br_LocalSession b) = ''s''"
proof -
  have sel: "resolveProviderSelection lib_std url_std (rm_oracle sample_remote) [] (Some (replicate 20 3)) ''p'' None [] =
      Inr \<lparr>sel_ControlPlaneEndpoint = ''p'', sel_ProviderID = [], sel_Network = [], sel_OraclePricing = None,
           sel_Receiver = replicate 20 3\<rparr>"
    by (simp add: resolveProviderSelection_def trim_samples Let_def)
  have url: "pe_URL (ParseEndpoint url_std ''p'') \<noteq> []"
    by (simp add: ParseEndpoint_def trim_samples url_std_def HasPrefix_def Let_def)
  have signs: "signs lib_std (sc_signerKey sample_sidecar) (replicate 20 2)"
    using std_signs[of "replicate 20 2"] by (simp add: sample_sidecar_def)
  obtain sr where sr: "signRAV lib_std sample_sidecar (replicate 32 0) (replicate 20 2) (replicate 20 4) (replicate 20 3)
      (word_of_int (UnixNano 9)) (Some 0) [] = Some (Inr sr)"
    by (rule signRAV_wf[OF signs, of "replicate 32 0" "replicate 20 2" "replicate 20 3" "replicate 20 4"
          "word_of_int (UnixNano 9)" "Some 0" "[]"])
      (simp_all add: wf_RAV_def)
  show ?thesis
    using sel url sr
    by (simp add: bootstrapManagedSession_def sample_input_def sample_sidecar_def sample_remote_def adopt_session_def
        trim_samples effectiveSessionPricing_def PricingConfig_ToNative_def ProtoSignedRAVToHorizon_def CreateWithID_def
        NewSessionWithID_def no_sessions_def Let_def)
qed

lemma sample_proxy:
  "\<exists>st'. proxyStream lib_std url_std sample_remote sample_sidecar observeV2 5 sample_env sample_input (\<lambda>_. 9) no_sessions =
     Some (([\<lparr>r2_data = Some 4, r2_undo = None\<rparr>], Some None), st')"
proof -
  have "proxy_body observeV2 5 sample_env b = ([\<lparr>r2_data = Some 4, r2_undo = None\<rparr>], Some None)" for b
    by (simp add: proxy_body_def sample_env_def newUpstreamStreamContext_def encodeRAVHeader_def observeV2_def
        note_option_def noteBlock_def initial_progress_def resolveIngressStreamTermination_def stream_error_Is_def EOF_def
        expectedEOF_def resolveAmbiguousIngressSessionStatus_def Let_def)
  then show ?thesis using sample_bootstrap by (auto simp: proxyStream_def)
qed

theorem proxied_stream_sound_witness:
  "\<exists>st' p. proxyStream lib_std url_std sample_remote sample_sidecar observeV2 5 sample_env sample_input (\<lambda>_. 9) no_sessions =
     Some (([\<lparr>r2_data = Some 4, r2_undo = None\<rparr>], Some None), st') \<and> co_sessions st' = Map.empty \<and>
     p \<in> set (px_polls sample_env) \<and> (ended_well p \<or> nothing_pending p)"
proof -
  obtain st' where st': "proxyStream lib_std url_std sample_remote sample_sidecar observeV2 5 sample_env sample_input (\<lambda>_. 9)
      no_sessions = Some (([\<lparr>r2_data = Some 4, r2_undo = None\<rparr>], Some None), st')"
    using sample_proxy by blast
  from proxied_stream_sound[OF st'] st' show ?thesis by (auto simp: no_sessions_def)
qed


subsection \<open>A request that cannot be hashed\<close>

lemma encodeUint128_overflow:
  assumes "2 ^ 256 \<le> n"
  shows "encodeUint128 (Some n) = None"
proof -
  have "\<not> length (big_Bytes (nat n)) \<le> 32"
  proof
    assume le: "length (big_Bytes (nat n)) \<le> 32"
    have "nat n < 256 ^ length (big_Bytes (nat n))" using big_SetBytes_less[of "big_Bytes (nat n)"] by simp
    also have "\<dots> \<le> 256 ^ 32" using le by (intro power_increasing) simp_all
    finally show False using assms by simp
  qed
  then show ?thesis using assms by (simp add: encodeUint128_def Let_def)
qed

text \<open>
  C37: A provider can crash the consumer's sidecar (\<open>signRAVForRequest\<close>, \<open>encodeUint128\<close>). The sidecar adds
  the cost of a request to the value of the voucher in the request, both taken as the provider sent
  them; when the sum needs more than 256 bits, encoding it for the hash panics. The control thread
  has no handler for panics, so the whole process ends.
\<close>

theorem oversized_request_panics:
  assumes "in_received inp = Received (Some (Response_RavRequest rq))"
    and "ProtoSignedRAVToHorizon (lib_fromBig l) (lib_newSig l) (rq_CurrentRav rq) = Inr (Some cur)"
    and "Message cur = Some m" "ValueAggregate m = Some v" "rq_Usage rq = Some u" "pu_Cost u = Some c"
    and "2 ^ 256 \<le> v + GRT_ToBigInt (lib_fromBig l) (Some c)"
  shows "control_turn l s inp cs = None"
proof -
  have "rq_CurrentRav rq \<noteq> None" using assms(2) by (cases "rq_CurrentRav rq") (simp_all add: ProtoSignedRAVToHorizon_def)
  then have "signRAVForRequest l s (cl_session cs) (Some rq) (in_clk inp 0) = None"
    using signRAVForRequest_eq[OF _ assms(5) _ assms(2-4)] assms(6) encodeUint128_overflow[OF assms(7)]
    by (simp add: Sign_RAV_def RAV_hash_def RAV_EIP712EncodeData_def answer_RAV_def)
  then show ?thesis using assms(1) by (simp add: control_turn_def answer_request_def Let_def)
qed

theorem oversized_request_panics_witness:
  "\<exists>inp. control_turn lib_std sample_sidecar inp
     \<lparr>cl_session = sample_local, cl_pendingRAV = None, cl_coordinator = newIngressTerminationCoordinator,
      cl_sent = [], cl_done = False\<rparr> = None"
proof -
  let ?one = "GRTFromBigInt FromBig_std (Some 1)"
  define u where "u = \<lparr>pu_BlocksProcessed = 1, pu_BytesTransferred = 0, pu_Requests = 1, pu_Cost = Some ?one\<rparr>"
  define rq where "rq = \<lparr>rq_CurrentRav = Some (voucher_message (2 ^ 256 - 1)), rq_Usage = Some u,
    rq_Deadline = 0\<rparr>"
  define inp where "inp = \<lparr>in_received = Received (Some (Response_RavRequest rq)), in_send = None,
    in_status = Inl (Sentinel ''unused''), in_clk = (\<lambda>_. 9)\<rparr>"
  have "control_turn lib_std sample_sidecar inp
     \<lparr>cl_session = sample_local, cl_pendingRAV = None, cl_coordinator = newIngressTerminationCoordinator,
      cl_sent = [], cl_done = False\<rparr> = None"
    by (rule oversized_request_panics[where rq = rq and cur = "payer_voucher (2 ^ 256 - 1)" and v = "2 ^ 256 - 1"
          and m = "sample_RAV\<lparr>ValueAggregate := Some (2 ^ 256 - 1)\<rparr>" and c = ?one and u = u])
      (use voucher_message_wire[of "2 ^ 256 - 1"] GRT_ToBigInt_FromBigInt[OF FromBig_std_ok, of 1] in
        \<open>simp_all add: inp_def rq_def u_def payer_voucher_def\<close>)
  then show ?thesis by blast
qed


end
