(* ===== verification/Sds_Round.thy ===== *)
theory Sds_Round
  imports Sds_Ingress
begin

text \<open>
  The two ends of a session, consumer and provider, and what one exchange on the payment stream
  does to each of them: the gateway's request, the consumer's answer, and the gateway's go-ahead.
\<close>

subsection \<open>Two ends in agreement\<close>

text \<open>The two ends of a session: same identifier and parties, and the same voucher.\<close>

definition same_account :: "Gateway \<Rightarrow> Session \<Rightarrow> LocalSession \<Rightarrow> bool" where
  "same_account g s ls \<longleftrightarrow> ls_Payer ls = ses_Payer s \<and> ls_DataService ls = ses_DataService s \<and>
     ls_Receiver ls = gw_serviceProvider g \<and>
     length (ls_Payer ls) = 20 \<and> length (ls_DataService ls) = 20 \<and> length (ls_Receiver ls) = 20"

definition shared_voucher :: "Session \<Rightarrow> LocalSession \<Rightarrow> SignedRAV \<Rightarrow> RAV \<Rightarrow> bool" where
  "shared_voucher s ls sr m \<longleftrightarrow> ses_CurrentRAV s = Some sr \<and> ls_CurrentRAV ls = Some sr \<and>
     Message sr = Some m \<and> wf_RAV m \<and> length (Signature sr) = 65"


text \<open>
  The stream is bound and idle on both sides: no request in flight, nothing queued, and a
  session in good standing that both ends describe alike.
\<close>

definition in_step ::
  "Gateway \<Rightarrow> string \<Rightarrow> nat \<Rightarrow> GatewayState \<Rightarrow> control_state \<Rightarrow> Session \<Rightarrow> SignedRAV \<Rightarrow> RAV \<Rightarrow> bool" where
  "in_step g i ch st cs s sr m \<longleftrightarrow> i \<noteq> [] \<and> TrimSpace i = i \<and> ls_ID (cl_session cs) = i \<and>
     gs_runtime st i = Some \<lparr>rs_events = Some ch, rs_pendingRAV = None, rs_queuedResponse = None\<rparr> \<and>
     gs_channels st ch = [] \<and> sessions (gs_repo st) i = Some s \<and> IsActive s \<and> session_ok s \<and>
     same_account g s (cl_session cs) \<and> shared_voucher s (cl_session cs) sr m \<and>
     cl_pendingRAV cs = None \<and> \<not> cl_done cs"

subsection \<open>The request\<close>

lemma stored_assessment_facts:
  "same_ledger s (stored_assessment a now s)"
  "IsActive s \<Longrightarrow> \<not> insufficient a \<Longrightarrow> IsActive (stored_assessment a now s)"
  by (simp_all add: stored_assessment_def runtime_next_same Let_def)
    (simp add: runtime_next_def assessed_session_def applyFundsAssessmentMetadata_def IsActive_def Let_def)

lemma assess_same:
  assumes "ses_Payer s' = ses_Payer s" "current_value s' + delta_cost s' = current_value s + delta_cost s"
  shows "insufficient (assessSessionFunds n g s') = insufficient (assessSessionFunds n g s)"
  using assms by (simp add: assessSessionFunds_def insufficient_def delta_cost_def fundsStatusUnknown_def
      fundsStatusInsufficient_def fundsStatusOK_def Let_def split: sum.splits option.splits)

lemma due_request:
  assumes "lib_ok l" and st: "gs_runtime st i = Some \<lparr>rs_events = Some ch, rs_pendingRAV = None, rs_queuedResponse = None\<rparr>"
      "gs_channels st ch = []" "sessions (gs_repo st) i = Some s" "IsActive s"
    and ok: "session_ok s" "total_cost s < 2 ^ 256"
    and rav: "ses_CurrentRAV s = Some sr" "Message sr = Some m"
    and due: "gw_ravRequestThreshold g = Some t" "t \<le> delta_cost s" "\<not> insufficient (assessSessionFunds n g s)"
  obtains st1 rq p s1 where "onMeteredUsage l g n i now st = (Inr (), st1)"
    "gs_channels st1 = (gs_channels st)(ch := [Response_RavRequest rq])"
    "gs_runtime st1 i = Some \<lparr>rs_events = Some ch, rs_pendingRAV = Some p, rs_queuedResponse = None\<rparr>"
    "gs_authCache st1 = gs_authCache st" "records (gs_repo st1) = records (gs_repo st)"
    "sessions (gs_repo st1) i = Some s1" "same_ledger s s1" "IsActive s1"
    "rq_CurrentRav rq = HorizonSignedRAVToProto (lib_fromBig l) (Some sr)"
    "rq_Usage rq = Some (request_usage (lib_fromBig l) s)"
    "usageEqual (lib_fromBig l) (pq_usage p) (Some (request_usage (lib_fromBig l) s))"
    "pq_currentRAVValue p = current_value s" "pq_targetValue p = current_value s + delta_cost s"
    "pq_baselineCost p = total_cost s"
proof -
  let ?fb = "lib_fromBig l" let ?u = "request_usage (lib_fromBig l) s"
  define a where "a = assessSessionFunds n g s"
  define s1 where "s1 = assessed_session a now s"
  define st0 where "st0 = set_repo (put_session i (stored_assessment a now s) (gs_repo st)) (ensureSessionStateLocked i st)"
  have s1: "same_ledger s s1" unfolding s1_def by (rule assessed_session_same)
  have rav1: "ses_CurrentRAV s1 = Some sr" using s1 rav(1) by (simp add: same_ledger_def)
  have usage: "request_usage ?fb s1 = ?u" by (rule request_usage_same[OF s1])
  define p0 where "p0 = \<lparr>pq_usage = cloneUsage ?fb (Some ?u), pq_currentRAVValue = current_value s,
      pq_targetValue = current_value s + GRT_ToBigInt ?fb (pu_Cost ?u), pq_baselineBlocks = ses_BlocksProcessed s,
      pq_baselineBytes = ses_BytesTransferred s, pq_baselineReqs = ses_Requests s, pq_baselineCost = total_cost s\<rparr>"
  define rq where "rq = \<lparr>rq_CurrentRav = HorizonSignedRAVToProto ?fb (Some sr), rq_Usage = Some ?u,
      rq_Deadline = word_of_int (Unix (now + 30 * second))\<rparr>"
  have c: "pu_Cost ?u \<noteq> None" by (simp add: request_usage_def split: prod.splits)
  have p0: "newPendingRAVRequest ?fb (Some s1) (Some ?u) = Some p0"
    using s1 rav1 rav(2) c by (auto simp: newPendingRAVRequest_def p0_def same_ledger_def runtime_cloneBigInt_def
        current_value_def total_cost_def rav(1) Let_def)
  have cost: "GRT_ToBigInt ?fb (pu_Cost ?u) = delta_cost s" "0 \<le> delta_cost s" "delta_cost s < 2 ^ 256"
    using request_usage_cost[OF lib_okD(1)[OF assms(1)] ok] delta_cost_ok[OF ok(1)] ok
    by (simp_all add: delta_cost_def session_ok_def)
  define p where "p = p0\<lparr>pq_usage := cloneUsage ?fb (pq_usage p0)\<rparr>"
  have eq: "usageEqual ?fb (pq_usage p) (Some ?u)"
    using c GRT_ToBigInt_FromBigInt[OF lib_okD(1)[OF assms(1)] cost(2,3)]
    by (auto simp: p_def p0_def cloneUsage_def usageEqual_def cost)
  have st0: "gs_runtime st0 i = Some \<lparr>rs_events = Some ch, rs_pendingRAV = None, rs_queuedResponse = None\<rparr>"
      "gs_channels st0 = gs_channels st" "gs_authCache st0 = gs_authCache st"
      "gs_repo st0 = put_session i (stored_assessment a now s) (gs_repo st)"
    using st(1) by (simp_all add: st0_def ensureSessionStateLocked_def session_state_def put_state_def set_repo_def)
  have should: "shouldRequestRAV g (Some s1)"
    using due(1,2) rav1 by (simp add: shouldRequestRAV_def same_ledgerD(7)[OF s1] delta_cost_def)
  have ctl: "control_after_assessment l g i a s1 now st0 = dispatch ?fb i (Some (Response_RavRequest rq)) (Some p0) st0"
    unfolding control_after_assessment_def
    using due(3) should st0(1) rav1 p0 by (simp add: a_def[symmetric] rq_def runtimeState_def clone_pending_def usage Let_def)
  define st1 where "st1 = dispatch ?fb i (Some (Response_RavRequest rq)) (Some p0) st0"
  have st1: "gs_channels st1 = (gs_channels st)(ch := [Response_RavRequest rq])"
      "gs_runtime st1 i = Some \<lparr>rs_events = Some ch, rs_pendingRAV = Some p, rs_queuedResponse = None\<rparr>"
      "gs_authCache st1 = gs_authCache st" "gs_repo st1 = gs_repo st0"
    using st0 st(2) by (simp_all add: st1_def dispatch_def session_state_def try_send_def channel_capacity_def
        clearQueuedResponse_def put_state_def clone_pending_def p_def Let_def)
  have "onMeteredUsage l g n i now st = (Inr (), st1)"
    unfolding onMeteredUsage_def
    by (subst evaluate_active[where s = s]) (use st(3,4) ctl in \<open>simp_all add: st1_def st0_def a_def s1_def Let_def\<close>)
  moreover have "records (gs_repo st1) = records (gs_repo st)"
      "sessions (gs_repo st1) i = Some (stored_assessment a now s)"
    by (simp_all add: st1(4) st0(4))
  moreover have "IsActive (stored_assessment a now s)"
    using stored_assessment_facts(2)[OF st(4)] due(3) by (simp add: a_def)
  moreover have "pq_currentRAVValue p = current_value s" "pq_targetValue p = current_value s + delta_cost s"
      "pq_baselineCost p = total_cost s" "rq_CurrentRav rq = HorizonSignedRAVToProto ?fb (Some sr)" "rq_Usage rq = Some ?u"
    by (simp_all add: p_def p0_def rq_def cost)
  ultimately show thesis
    using that[of st1 rq p "stored_assessment a now s"] st1(1-3) eq stored_assessment_facts(1) by blast
qed

subsection \<open>The answer\<close>

text \<open>A message of the provider that reaches the control thread, and a send that succeeds.\<close>

definition message_input :: "PaymentSessionResponse \<Rightarrow> (nat \<Rightarrow> time) \<Rightarrow> control_input" where
  "message_input resp clk =
     \<lparr>in_received = Received (Some resp), in_send = None, in_status = Inl (Sentinel ''not asked''), in_clk = clk\<rparr>"

lemma answered_request:
  assumes "lib_ok l" "signs l (sc_signerKey sc) a"
    and cur: "Message sr = Some m" "wf_RAV m" "length (Signature sr) = 65" "ValueAggregate m = Some v"
    and rq: "rq_CurrentRav rq = HorizonSignedRAVToProto (lib_fromBig l) (Some sr)" "rq_Usage rq = Some u" "pu_Cost u \<noteq> None"
      "GRT_ToBigInt (lib_fromBig l) (pu_Cost u) = d"
    and wf: "wf_RAV (answer_RAV (cl_session cs) m (clk 0) (v + d))"
  obtains sr' cs1 where "control_turn l sc (message_input (Response_RavRequest rq) clk) cs = Some cs1"
    "Message sr' = Some (answer_RAV (cl_session cs) m (clk 0) (v + d))" "length (Signature sr') = 65"
    "RAV_RecoverSigner (lib_keccak l) (lib_recover l) (sc_domain sc) sr' = Some (Inr a)"
    "cl_sent cs1 = cl_sent cs @ [rav_submission_request l (ls_ID (cl_session cs)) sr' (Some u)]"
    "cl_pendingRAV cs1 = Some sr'" "cl_done cs1 = cl_done cs" "same_local (cl_session cs) (cl_session cs1)"
    "ls_TotalCost (cl_session cs1) = ls_TotalCost (cl_session cs) + d"
proof -
  have wire: "ProtoSignedRAVToHorizon (lib_fromBig l) (lib_newSig l) (rq_CurrentRav rq) = Inr (Some sr)"
    using ProtoSignedRAV_roundtrip[OF lib_okD(1,2)[OF assms(1)] cur(2,3)] cur(1) by (cases sr) (simp add: rq)
  have some: "rq_CurrentRav rq \<noteq> None"
    using wire by (cases "rq_CurrentRav rq") (simp_all add: ProtoSignedRAVToHorizon_def)
  obtain sr' where sr': "signRAV l sc (CollectionID m) (ls_Payer (cl_session cs)) (ls_DataService (cl_session cs))
      (ls_Receiver (cl_session cs)) (word_of_int (UnixNano (clk 0))) (Some (v + d)) [] = Some (Inr sr')"
      "Message sr' = Some (answer_RAV (cl_session cs) m (clk 0) (v + d))" "length (Signature sr') = 65"
      "RAV_RecoverSigner (lib_keccak l) (lib_recover l) (sc_domain sc) sr' = Some (Inr a)"
    using signRAV_wf[OF assms(2) wf[unfolded answer_RAV_def]] unfolding answer_RAV_def by metis
  have sign: "signRAVForRequest l sc (cl_session cs) (Some rq) (clk 0) = Some (Inr sr')"
    using signRAVForRequest_eq[OF some rq(2,3) wire cur(1,4)] sr'(1) by (simp add: rq(4) signRAV_def answer_RAV_def)
  define cs1 where "cs1 = cs\<lparr>cl_coordinator := setPaymentControlPending True (cl_coordinator cs),
        cl_session := LocalAddUsage (pu_BlocksProcessed u) (pu_BytesTransferred u) (pu_Requests u) (Some d) (clk 1) (cl_session cs),
        cl_sent := cl_sent cs @ [rav_submission_request l (ls_ID (cl_session cs)) sr' (Some u)], cl_pendingRAV := Some sr'\<rparr>"
  have turn: "control_turn l sc (message_input (Response_RavRequest rq) clk) cs = Some cs1"
    using sign rq(2-4) by (auto simp: cs1_def control_turn_def message_input_def answer_request_def add_usage_ID Let_def)
  have "ls_TotalCost (cl_session cs1) = ls_TotalCost (cl_session cs) + d"
    by (simp add: cs1_def LocalAddUsage_def)
  then show thesis
    by (rule that[OF turn sr'(2-4), rotated 4]) (simp_all add: cs1_def)
qed

lemma adopted_voucher:
  assumes "cl_pendingRAV cs = Some sr"
  shows "control_turn l sc (message_input continuePaymentSessionResponse clk) cs =
    Some (cs\<lparr>cl_session := SetRAV (Some sr) (clk 0) (cl_session cs), cl_pendingRAV := None,
      cl_coordinator := setPaymentControlPending False (cl_coordinator cs)\<rparr>)"
  using assms by (simp add: control_turn_def message_input_def continuePaymentSessionResponse_def Let_def)


subsection \<open>The go-ahead\<close>

lemma paid_session:
  assumes s: "IsActive s" "session_ok s" and m: "Message sr = Some m" "ValueAggregate m = Some (current_value s + delta_cost s)"
    and s': "same_ledger (baseline_next (Some sr) b y q (Some (total_cost s)) now s) s'"
  shows "session_ok s'" "delta_cost s' = 0" "total_cost s' = total_cost s" "current_value s' = current_value s + delta_cost s"
    "ses_CurrentRAV s' = Some sr" "ses_Payer s' = ses_Payer s" "ses_DataService s' = ses_DataService s"
proof -
  note bl = baseline_next_ledger[OF m, of b y q "total_cost s" now s]
  have "ses_BaselineCost (baseline_next (Some sr) b y q (Some (total_cost s)) now s) = Some (total_cost s)"
    by (simp add: baseline_next_def)
  then have ok: "session_ok (baseline_next (Some sr) b y q (Some (total_cost s)) now s)"
    using s(2) bl by (auto simp: session_ok_def)
  then show "session_ok s'" "total_cost s' = total_cost s" "current_value s' = current_value s + delta_cost s"
    using bl by (simp_all add: same_ledgerD[OF s'])
  show "delta_cost s' = 0"
    using delta_cost_ok[OF ok] bl by (simp add: delta_cost_def same_ledgerD[OF s'])
  show "ses_CurrentRAV s' = Some sr" "ses_Payer s' = ses_Payer s" "ses_DataService s' = ses_DataService s"
    using s' by (simp_all add: same_ledger_def baseline_next_def)
qed

lemma evaluate_paid:
  assumes "sessions (gs_repo st) i = Some s" "IsActive s" "\<not> insufficient (assessSessionFunds n g s)"
    and "gw_ravRequestThreshold g = Some t" "delta_cost s < t"
  shows "evaluateMeteredUsage l g n i now st =
    (Inr (), set_repo (put_session i (stored_assessment (assessSessionFunds n g s) now s) (gs_repo st)) st)"
proof -
  have "same_ledger s (assessed_session (assessSessionFunds n g s) now s)" by (rule assessed_session_same)
  then have "\<not> shouldRequestRAV g (Some (assessed_session (assessSessionFunds n g s) now s))"
    using assms(4,5) by (simp add: shouldRequestRAV_def same_ledgerD(7) delta_cost_def)
  then show ?thesis
    using assms(3) by (simp add: evaluate_active[OF assms(1,2)] control_after_assessment_def Let_def)
qed

lemma accepted_payment:
  assumes "lib_ok l" "i \<noteq> []" "TrimSpace i = i" "psm_sessionID str = i"
    and st: "gs_runtime st i = Some \<lparr>rs_events = Some ch, rs_pendingRAV = Some p, rs_queuedResponse = None\<rparr>"
      "sessions (gs_repo st) i = Some s" "IsActive s" "session_ok s"
    and p: "usageEqual (lib_fromBig l) (pq_usage p) (Some u)" "pq_currentRAVValue p = current_value s"
      "pq_targetValue p = current_value s + delta_cost s" "pq_baselineCost p = total_cost s"
    and m: "Message sr = Some m" "wf_RAV m" "length (Signature sr) = 65" "Payer m = ses_Payer s"
      "DataService m = ses_DataService s" "ServiceProvider m = gw_serviceProvider g"
      "ValueAggregate m = Some (current_value s + delta_cost s)"
    and sig: "RAV_RecoverSigner (lib_keccak l) (lib_recover l) (gw_domain g) sr = Some (Inr a)"
      "gw_isSignerAuthorized l g n (ses_Payer s) a (clk 0) (clk 1) (gs_authCache st) = Some (Inr True, cache)"
    and free: "\<And>c. records (gs_repo st) (collectionMapKey (lib_pretty l) \<lparr>ck_SessionID = i, ck_CollectionID = CollectionID m,
        ck_Payer = Payer m, ck_ServiceProvider = ServiceProvider m, ck_DataService = DataService m\<rparr>) = Some c \<Longrightarrow>
      cr_State c \<noteq> CollectionStateCollectPending \<and>
      (cr_State c = CollectionStateCollected \<longrightarrow> the (cr_ValueAggregate c) \<le> current_value s + delta_cost s)"
    and due: "gw_ravRequestThreshold g = Some t" "0 < t" "\<not> insufficient (assessSessionFunds n g s)"
  obtains st' s' where "stream_request l g n True (Some (rav_submission_request l i sr (Some u))) clk str st =
      Some (Some continuePaymentSessionResponse, str, st')"
    "gs_runtime st' i = Some \<lparr>rs_events = Some ch, rs_pendingRAV = None, rs_queuedResponse = None\<rparr>"
    "gs_channels st' = gs_channels st" "sessions (gs_repo st') i = Some s'" "IsActive s'" "session_ok s'"
    "delta_cost s' = 0" "total_cost s' = total_cost s" "ses_CurrentRAV s' = Some sr" "ses_Payer s' = ses_Payer s"
    "ses_DataService s' = ses_DataService s"
proof -
  let ?sb = "\<lparr>sb_SignedRav = HorizonSignedRAVToProto (lib_fromBig l) (Some sr), sb_Usage = Some u\<rparr>"
  let ?b = "baseline_next (Some sr) (pq_baselineBlocks p) (pq_baselineBytes p) (pq_baselineReqs p) (Some (total_cost s)) (clk 2) s"
  have wire: "ProtoSignedRAVToHorizon (lib_fromBig l) (lib_newSig l) (sb_SignedRav ?sb) = Inr (Some sr)"
    using ProtoSignedRAV_roundtrip[OF lib_okD(1,2)[OF assms(1)] m(2,3)] m(1) by (cases sr) simp
  have some: "sb_SignedRav ?sb \<noteq> None"
    using wire by (cases "sb_SignedRav ?sb") (simp_all add: ProtoSignedRAVToHorizon_def)
  have le: "0 \<le> delta_cost s" using st(4) delta_cost_ok[OF st(4)] by (simp add: delta_cost_def session_ok_def)
  have chk: "check_submission l g n s ?sb p clk (gs_authCache st) = Some (Inr sr, cache)"
    using wire p m sig le by (simp add: check_submission_def matchesUsage_def check_submission_parties_def
        check_submission_value_def AddressesEqual_def Let_def)
  obtain r where r: "commitAcceptedRAV l i sr (Some p) (clk 2) (gs_repo st) = (Inr (), r)"
    using commit_succeeds[OF assms(2) st(2) m(1,7) free] by blast
  have rs: "sessions r = (sessions (gs_repo st))(i \<mapsto> ?b)"
    using SessionUpdateRAVAndBaseline_cases[OF r[unfolded commitAcceptedRAV_def option.case]] st(2) p(4) by auto
  define st1 where "st1 = settle_pending i (set_repo r ((ensureSessionStateLocked i st)\<lparr>gs_authCache := cache\<rparr>))"
  have b: "sessions (gs_repo st1) i = Some ?b" "IsActive ?b"
    using rs st(3) by (simp_all add: st1_def baseline_next_def IsActive_def cloneSession_def)
  note pb = paid_session[OF st(3,4) m(1,7) same_ledger_refl, of "pq_baselineBlocks p" "pq_baselineBytes p" "pq_baselineReqs p" "clk 2"]
  have fund: "\<not> insufficient (assessSessionFunds n g ?b)"
    using due(3) assess_same[OF pb(6), of n g] pb(2,4) by simp
  define s' where "s' = stored_assessment (assessSessionFunds n g ?b) (clk 3) ?b"
  have ev: "evaluateMeteredUsage l g n i (clk 3) st1 = (Inr (), set_repo (put_session i s' (gs_repo st1)) st1)"
    unfolding s'_def by (rule evaluate_paid[OF b fund due(1)]) (simp add: pb(2) due(2))
  have "handleRAVSubmission l g n i s (Some ?sb) clk st =
      Some (continuePaymentSessionResponse, set_repo (put_session i s' (gs_repo st1)) st1)"
    using some st(1) chk r ev by (auto simp: handleRAVSubmission_def session_state_def st1_def ensureSessionStateLocked_def
        put_state_def Let_def)
  then have req: "stream_request l g n True (Some (rav_submission_request l i sr (Some u))) clk str st =
      Some (Some continuePaymentSessionResponse, str, set_repo (put_session i s' (gs_repo st1)) st1)"
    using assms(2-4) st(2,3) by (simp add: stream_request_def rav_submission_request_def stream_message_def SessionGet_def
        stream_send_def isTerminalPaymentSessionResponse_def continuePaymentSessionResponse_def Let_def)
  note ps = paid_session[OF st(3,4) m(1,7) stored_assessment_facts(1), of "assessSessionFunds n g ?b" "clk 3"
      "pq_baselineBlocks p" "pq_baselineBytes p" "pq_baselineReqs p" "clk 2", folded s'_def]
  have "gs_runtime st1 i = Some \<lparr>rs_events = Some ch, rs_pendingRAV = None, rs_queuedResponse = None\<rparr>" "gs_channels st1 = gs_channels st"
    using st(1) by (simp_all add: st1_def settle_pending_def ensureSessionStateLocked_def session_state_def put_state_def set_repo_def)
  moreover have "IsActive s'" unfolding s'_def by (rule stored_assessment_facts(2)[OF b(2) fund])
  ultimately show thesis
    by (intro that[OF req, of s']) (use ps in simp_all)
qed


subsection \<open>The two halves of a round\<close>

text \<open>Half way: the gateway waits for a voucher, and the consumer has sent it and waits for the go-ahead.\<close>

definition answered ::
  "eth_lib \<Rightarrow> Gateway \<Rightarrow> address \<Rightarrow> string \<Rightarrow> nat \<Rightarrow> pb_Usage \<Rightarrow> GatewayState \<Rightarrow> control_state \<Rightarrow> Session \<Rightarrow> SignedRAV \<Rightarrow> RAV \<Rightarrow> bool" where
  "answered l g a i ch u st cs s sr m \<longleftrightarrow> i \<noteq> [] \<and> TrimSpace i = i \<and> ls_ID (cl_session cs) = i \<and>
     (\<exists>p. gs_runtime st i = Some \<lparr>rs_events = Some ch, rs_pendingRAV = Some p, rs_queuedResponse = None\<rparr> \<and>
        usageEqual (lib_fromBig l) (pq_usage p) (Some u) \<and> pq_currentRAVValue p = current_value s \<and>
        pq_targetValue p = current_value s + delta_cost s \<and> pq_baselineCost p = total_cost s) \<and>
     gs_channels st ch = [] \<and> sessions (gs_repo st) i = Some s \<and> IsActive s \<and> session_ok s \<and>
     same_account g s (cl_session cs) \<and> Message sr = Some m \<and> wf_RAV m \<and> length (Signature sr) = 65 \<and>
     Payer m = ses_Payer s \<and> DataService m = ses_DataService s \<and> ServiceProvider m = gw_serviceProvider g \<and>
     ValueAggregate m = Some (current_value s + delta_cost s) \<and>
     RAV_RecoverSigner (lib_keccak l) (lib_recover l) (gw_domain g) sr = Some (Inr a) \<and>
     cl_pendingRAV cs = Some sr \<and> \<not> cl_done cs"

lemma round_request:
  assumes "lib_ok l" "signs l (sc_signerKey sc) a" "sc_domain sc = gw_domain g"
    and agree: "in_step g i ch st cs s sr m" "psm_events str = Some ch"
    and due: "gw_ravRequestThreshold g = Some t" "t \<le> delta_cost s" "\<not> insufficient (assessSessionFunds n g s)"
    and fits: "total_cost s < 2 ^ 256" "current_value s + delta_cost s < 2 ^ 256"
  obtains st1 rq st2 cs1 s1 u sr' m' where "onMeteredUsage l g n i now st = (Inr (), st1)"
    "stream_event True str st1 = (Some (Response_RavRequest rq), str, st2)"
    "control_turn l sc (message_input (Response_RavRequest rq) clk) cs = Some cs1"
    "cl_sent cs1 = cl_sent cs @ [rav_submission_request l i sr' (Some u)]"
    "answered l g a i ch u st2 cs1 s1 sr' m'" "same_ledger s s1" "gs_authCache st2 = gs_authCache st"
    "records (gs_repo st2) = records (gs_repo st)" "CollectionID m' = CollectionID m"
    "ls_TotalCost (cl_session cs1) = ls_TotalCost (cl_session cs) + delta_cost s"
proof -
  let ?u = "request_usage (lib_fromBig l) s"
  note idle = agree(1)[unfolded in_step_def shared_voucher_def]
  have ses: "session_ok s" "IsActive s" "ses_CurrentRAV s = Some sr" "Message sr = Some m" "wf_RAV m" "length (Signature sr) = 65"
      and acc: "same_account g s (cl_session cs)" and id: "ls_ID (cl_session cs) = i"
    using idle by simp_all
  obtain st1 rq p s1 where r: "onMeteredUsage l g n i now st = (Inr (), st1)"
      "gs_channels st1 = (gs_channels st)(ch := [Response_RavRequest rq])"
      "gs_runtime st1 i = Some \<lparr>rs_events = Some ch, rs_pendingRAV = Some p, rs_queuedResponse = None\<rparr>"
      "gs_authCache st1 = gs_authCache st" "records (gs_repo st1) = records (gs_repo st)"
      "sessions (gs_repo st1) i = Some s1" "same_ledger s s1" "IsActive s1"
      "rq_CurrentRav rq = HorizonSignedRAVToProto (lib_fromBig l) (Some sr)" "rq_Usage rq = Some ?u"
      "usageEqual (lib_fromBig l) (pq_usage p) (Some ?u)" "pq_currentRAVValue p = current_value s"
      "pq_targetValue p = current_value s + delta_cost s" "pq_baselineCost p = total_cost s"
    by (rule due_request[OF assms(1) _ _ _ ses(2,1) fits(1) ses(3,4) due]) (use idle in auto)
  define st2 where "st2 = st1\<lparr>gs_channels := (gs_channels st1)(ch := [])\<rparr>"
  have ev: "stream_event True str st1 = (Some (Response_RavRequest rq), str, st2)"
    using agree(2) r(2) by (simp add: stream_event_def stream_send_def isTerminalPaymentSessionResponse_def st2_def)
  have v: "ValueAggregate m = Some (current_value s)" "0 \<le> current_value s" "0 \<le> delta_cost s"
    using ses(1,3-5) delta_cost_ok[OF ses(1)]
    by (auto simp: current_value_def wf_RAV_def session_ok_def delta_cost_def split: option.splits)
  have cost: "pu_Cost ?u \<noteq> None" "GRT_ToBigInt (lib_fromBig l) (pu_Cost ?u) = delta_cost s"
    using request_usage_cost[OF lib_okD(1)[OF assms(1)] ses(1) fits(1)] delta_cost_ok[OF ses(1)]
    by (auto simp: delta_cost_def request_usage_def split: prod.splits)
  define m' where "m' = answer_RAV (cl_session cs) m (clk 0) (current_value s + delta_cost s)"
  have wf: "wf_RAV m'" using ses(5) acc v(2,3) fits(2) by (auto simp: m'_def wf_RAV_def answer_RAV_def same_account_def)
  obtain sr' cs1 where c: "control_turn l sc (message_input (Response_RavRequest rq) clk) cs = Some cs1"
      "Message sr' = Some m'" "length (Signature sr') = 65"
      "RAV_RecoverSigner (lib_keccak l) (lib_recover l) (sc_domain sc) sr' = Some (Inr a)"
      "cl_sent cs1 = cl_sent cs @ [rav_submission_request l (ls_ID (cl_session cs)) sr' (Some ?u)]"
      "cl_pendingRAV cs1 = Some sr'" "cl_done cs1 = cl_done cs" "same_local (cl_session cs) (cl_session cs1)"
      "ls_TotalCost (cl_session cs1) = ls_TotalCost (cl_session cs) + delta_cost s"
    unfolding m'_def
    by (rule answered_request[OF assms(1,2) ses(4-6) v(1) r(9,10) cost, where cs = cs and clk = clk])
      (use wf in \<open>simp_all add: m'_def\<close>)
  have s1: "ses_Payer s1 = ses_Payer s" "ses_DataService s1 = ses_DataService s" "current_value s1 = current_value s"
      "total_cost s1 = total_cost s" "delta_cost s1 = delta_cost s" "session_ok s1"
    using r(7) ses(1) by (simp_all add: same_ledgerD[OF r(7)] delta_cost_def) (simp_all add: same_ledger_def)
  have m': "Payer m' = ses_Payer s" "DataService m' = ses_DataService s" "ServiceProvider m' = gw_serviceProvider g"
      "ValueAggregate m' = Some (current_value s + delta_cost s)" "CollectionID m' = CollectionID m"
    using acc by (simp_all add: m'_def answer_RAV_def same_account_def)
  have "answered l g a i ch ?u st2 cs1 s1 sr' m'"
    using idle acc r(3,6,8,11-14) s1 m' wf c(2-8) assms(3)
    by (simp add: answered_def st2_def same_account_def same_local_def)
  then show thesis
    using that[OF r(1) ev c(1) c(5)[unfolded id] _ r(7)] r(4,5) m'(5) c(9) by (simp add: st2_def)
qed

lemma round_accept:
  assumes "lib_ok l" "answered l g a i ch u st cs s sr m" "psm_sessionID str = i"
    and sig: "gw_isSignerAuthorized l g n (ses_Payer s) a (clk 0) (clk 1) (gs_authCache st) = Some (Inr True, cache)"
    and free: "\<And>c. records (gs_repo st) (collectionMapKey (lib_pretty l) \<lparr>ck_SessionID = i, ck_CollectionID = CollectionID m,
        ck_Payer = ses_Payer s, ck_ServiceProvider = gw_serviceProvider g, ck_DataService = ses_DataService s\<rparr>) = Some c \<Longrightarrow>
      cr_State c \<noteq> CollectionStateCollectPending \<and>
      (cr_State c = CollectionStateCollected \<longrightarrow> the (cr_ValueAggregate c) \<le> current_value s + delta_cost s)"
    and due: "gw_ravRequestThreshold g = Some t" "0 < t" "\<not> insufficient (assessSessionFunds n g s)"
  obtains st' cs' s' where "stream_request l g n True (Some (rav_submission_request l i sr (Some u))) clk str st =
      Some (Some continuePaymentSessionResponse, str, st')"
    "control_turn l sc (message_input continuePaymentSessionResponse clk') cs = Some cs'"
    "in_step g i ch st' cs' s' sr m" "delta_cost s' = 0" "total_cost s' = total_cost s"
    "ls_TotalCost (cl_session cs') = ls_TotalCost (cl_session cs)"
proof -
  note half = assms(2)[unfolded answered_def]
  obtain p where p: "gs_runtime st i = Some \<lparr>rs_events = Some ch, rs_pendingRAV = Some p, rs_queuedResponse = None\<rparr>"
      "usageEqual (lib_fromBig l) (pq_usage p) (Some u)" "pq_currentRAVValue p = current_value s"
      "pq_targetValue p = current_value s + delta_cost s" "pq_baselineCost p = total_cost s"
    using half by blast
  obtain st' s' where g: "stream_request l g n True (Some (rav_submission_request l i sr (Some u))) clk str st =
      Some (Some continuePaymentSessionResponse, str, st')"
      "gs_runtime st' i = Some \<lparr>rs_events = Some ch, rs_pendingRAV = None, rs_queuedResponse = None\<rparr>"
      "gs_channels st' = gs_channels st" "sessions (gs_repo st') i = Some s'" "IsActive s'" "session_ok s'"
      "delta_cost s' = 0" "total_cost s' = total_cost s" "ses_CurrentRAV s' = Some sr" "ses_Payer s' = ses_Payer s"
      "ses_DataService s' = ses_DataService s"
    by (rule accepted_payment[where i = i and st = st and str = str and p = p and s = s and u = u and m = m and sr = sr
          and l = l and g = g and n = n and a = a and cache = cache and ch = ch and t = t and clk = clk])
      (use assms(1,3) half p sig free due in simp_all)
  define cs' where "cs' = cs\<lparr>cl_session := SetRAV (Some sr) (clk' 0) (cl_session cs), cl_pendingRAV := None,
      cl_coordinator := setPaymentControlPending False (cl_coordinator cs)\<rparr>"
  have turn: "control_turn l sc (message_input continuePaymentSessionResponse clk') cs = Some cs'"
    unfolding cs'_def by (rule adopted_voucher) (use half in blast)
  have "in_step g i ch st' cs' s' sr m"
    using half g by (auto simp: in_step_def same_account_def shared_voucher_def cs'_def SetRAV_def)
  then show thesis
    by (rule that[OF g(1) turn _ g(7,8)]) (simp add: cs'_def SetRAV_def)
qed

end
