(* ===== verification/Sds_Utf8.thy ===== *)
theory Sds_Utf8
  imports Sds_Prelude
begin

text \<open>
  UTF-8 as the package \<open>unicode/utf8\<close> defines it, for the plugins that drop or repair strings of
  headers: validity, and \<open>strings.ToValidUTF8\<close> with an empty replacement.
\<close>

definition byte_of :: "char \<Rightarrow> nat" where
  "byte_of c = of_char c"

definition continues :: "char \<Rightarrow> bool" where
  "continues c \<longleftrightarrow> 0x80 \<le> byte_of c \<and> byte_of c \<le> 0xBF"

text \<open>The length of a sequence that starts with a byte (0: none does), and the bounds of its second byte.\<close>

definition sequence_length :: "char \<Rightarrow> nat" where
  "sequence_length c =
     (let b = byte_of c in
      if b < 0x80 then 1 else if b < 0xC2 then 0 else if b < 0xE0 then 2 else if b < 0xF0 then 3
      else if b < 0xF5 then 4 else 0)"

definition second_ok :: "char \<Rightarrow> char \<Rightarrow> bool" where
  "second_ok c d \<longleftrightarrow> continues d \<and>
     (byte_of c = 0xE0 \<longrightarrow> 0xA0 \<le> byte_of d) \<and> (byte_of c = 0xED \<longrightarrow> byte_of d \<le> 0x9F) \<and>
     (byte_of c = 0xF0 \<longrightarrow> 0x90 \<le> byte_of d) \<and> (byte_of c = 0xF4 \<longrightarrow> byte_of d \<le> 0x8F)"

text \<open>The width of the valid sequence at the front, 0 when there is none.\<close>

definition utf8_width :: "string \<Rightarrow> nat" where
  "utf8_width s =
     (case s of
        [] \<Rightarrow> 0
      | c # cs \<Rightarrow>
          let n = sequence_length c; rest = take (n - 1) cs in
          if n = 0 \<or> length rest \<noteq> n - 1 then 0
          else (case rest of
                  [] \<Rightarrow> n
                | d # ds \<Rightarrow> if second_ok c d \<and> list_all continues ds then n else 0))"

lemma utf8_width_le: "utf8_width s \<le> length s"
  by (auto simp: utf8_width_def Let_def split: list.splits)

function utf8_Valid :: "string \<Rightarrow> bool" where
  "utf8_Valid s =
     (if s = [] then True else if utf8_width s = 0 then False else utf8_Valid (drop (utf8_width s) s))"
  by auto
termination
  by (relation "measure length") (auto simp: neq_Nil_conv)

function ToValidUTF8 :: "string \<Rightarrow> string" where
  "ToValidUTF8 s =
     (if s = [] then []
      else if utf8_width s = 0 then ToValidUTF8 (tl s)
      else take (utf8_width s) s @ ToValidUTF8 (drop (utf8_width s) s))"
  by auto
termination
  by (relation "measure length") (auto simp: neq_Nil_conv)

declare utf8_Valid.simps [simp del]
declare ToValidUTF8.simps [simp del]

text \<open>The width depends only on the bytes it covers.\<close>

lemma utf8_width_prefix:
  assumes "utf8_width s \<noteq> 0"
  shows "utf8_width (take (utf8_width s) s @ t) = utf8_width s"
proof -
  obtain c cs where s: "s = c # cs" using assms by (cases s) (auto simp: utf8_width_def)
  let ?n = "sequence_length c"
  have w: "utf8_width s = ?n" "?n \<noteq> 0" "length (take (?n - 1) cs) = ?n - 1"
    using assms by (auto simp: s utf8_width_def Let_def split: if_splits list.splits)
  then have "take ?n s = c # take (?n - 1) cs" by (cases ?n) (simp_all add: s)
  moreover have "take (?n - 1) (take (?n - 1) cs @ t) = take (?n - 1) cs" using w(3) by simp
  ultimately show ?thesis using w assms unfolding s by (simp add: utf8_width_def Let_def)
qed

lemma utf8_Valid_Nil [simp]: "utf8_Valid []"
  by (subst utf8_Valid.simps) simp

lemma utf8_Valid_ToValidUTF8 [simp]: "utf8_Valid (ToValidUTF8 s)"
proof (induction s rule: ToValidUTF8.induct)
  case (1 s)
  show ?case
  proof (cases "s = [] \<or> utf8_width s = 0")
    case True
    then show ?thesis using 1(1) by (subst ToValidUTF8.simps) auto
  next
    case False
    let ?w = "utf8_width s"
    have "utf8_width (take ?w s @ ToValidUTF8 (drop ?w s)) = ?w" using False by (intro utf8_width_prefix) simp
    moreover have "drop ?w (take ?w s @ ToValidUTF8 (drop ?w s)) = ToValidUTF8 (drop ?w s)"
      using utf8_width_le[of s] by simp
    ultimately have "utf8_Valid (take ?w s @ ToValidUTF8 (drop ?w s))"
      using 1(2) False by (subst utf8_Valid.simps) auto
    then show ?thesis using False by (subst ToValidUTF8.simps) simp
  qed
qed

lemma ToValidUTF8_id: "utf8_Valid s \<Longrightarrow> ToValidUTF8 s = s"
proof (induction s rule: ToValidUTF8.induct)
  case (1 s)
  then show ?case
    using utf8_Valid.simps[of s] by (subst ToValidUTF8.simps) auto
qed

lemma ToValidUTF8_same: "ToValidUTF8 s = s \<longleftrightarrow> utf8_Valid s"
  using ToValidUTF8_id[of s] utf8_Valid_ToValidUTF8[of s] by metis

text \<open>Lower case changes ASCII bytes only and keeps them ASCII.\<close>

lemma byte_of_lower:
  "byte_of c < 0x80 \<Longrightarrow> byte_of (to_lower_char c) < 0x80"
  "\<not> byte_of c < 0x80 \<Longrightarrow> to_lower_char c = c"
  by (auto simp: byte_of_def to_lower_char_def Let_def)

lemma ascii_bytes:
  assumes "byte_of c < 0x80"
  shows "\<not> continues c" "sequence_length c = 1" "second_ok c d = continues d" "\<not> second_ok d c"
  using assms by (auto simp: continues_def sequence_length_def second_ok_def Let_def)

lemma lower_continues:
  "continues (to_lower_char c) = continues c" "second_ok (to_lower_char c) (to_lower_char d) = second_ok c d"
  "sequence_length (to_lower_char c) = sequence_length c"
  by (cases "byte_of c < 0x80"; cases "byte_of d < 0x80"; simp add: byte_of_lower ascii_bytes)+

lemma utf8_width_lower: "utf8_width (ToLower s) = utf8_width s"
  by (auto simp: utf8_width_def ToLower_def Let_def lower_continues list_all_iff take_map split: list.splits)

lemma utf8_Valid_lower: "utf8_Valid (ToLower s) = utf8_Valid s"
proof (induction s rule: utf8_Valid.induct)
  case (1 s)
  have "drop n (ToLower s) = ToLower (drop n s)" for n by (simp add: ToLower_def drop_map)
  then show ?case
    using 1 utf8_Valid.simps[of "ToLower s"] utf8_Valid.simps[of s] by (auto simp: utf8_width_lower ToLower_def[of "[]"])
      (simp_all add: ToLower_def)
qed

end
