(* ===== verification/Sds_Plugin_Session.thy ===== *)
theory Sds_Plugin_Session
  imports Sds_Auth "HOL-Library.Multiset"
begin

text \<open>
  The session plugin of the data plane (\<open>provider/plugin/session.go\<close>): a pool that borrows workers from
  the session service, tracks them under the session they serve, keeps them alive and gives them
  back. Calls run in their own goroutines; each access to the shared maps is one step.
\<close>

subsection \<open>The pool\<close>

text \<open>
  The information of a session is shared by pointer: it outlives its entry in the map. Workers are
  listed in the order in which the concurrent map visits them.
\<close>

record sessionInfo =
  si_organizationID :: string
  si_apiKeyID :: string
  si_traceID :: string
  si_workers :: "string list"
  si_closed :: bool
  si_cancelled :: bool
  si_released :: bool

record sessionPool =
  sp_keepAliveDelay :: int
  sp_minimalWorkerLifeDuration :: int
  sp_sessions :: "string \<rightharpoonup> nat"
  sp_infos :: "nat \<rightharpoonup> sessionInfo"
  sp_nextInfo :: nat

definition newSessionPool :: "int \<Rightarrow> int \<Rightarrow> sessionPool" where
  "newSessionPool keepAliveDelay minimalWorkerLifeDuration =
     \<lparr>sp_keepAliveDelay = keepAliveDelay, sp_minimalWorkerLifeDuration = minimalWorkerLifeDuration,
      sp_sessions = Map.empty, sp_infos = Map.empty, sp_nextInfo = 0\<rparr>"

definition put_info :: "nat \<Rightarrow> sessionInfo \<Rightarrow> sessionPool \<Rightarrow> sessionPool" where
  "put_info a info p = p\<lparr>sp_infos := (sp_infos p)(a \<mapsto> info)\<rparr>"

record BorrowWorkerRequest =
  bq_Service :: string
  bq_OrganizationId :: string
  bq_ApiKeyId :: string
  bq_SessionId :: string
  bq_MaxWorkersPerSession :: int

text \<open>
  The errors of the library \<open>dsession\<close> by their names; \<open>text\<close> is what \<open>Error\<close> of the remote error returns.
\<close>

definition ErrUnavailable :: go_error where "ErrUnavailable = Sentinel ''dsession.ErrUnavailable''"
definition ErrPermissionDenied :: go_error where "ErrPermissionDenied = Sentinel ''dsession.ErrPermissionDenied''"
definition ErrPoolQuotaExceeded :: go_error where "ErrPoolQuotaExceeded = Sentinel ''dsession.ErrQuotaExceeded''"
definition ErrConcurrentStreamLimitExceeded :: go_error where
  "ErrConcurrentStreamLimitExceeded = Sentinel ''dsession.ErrConcurrentStreamLimitExceeded''"
definition ErrSessionNotFound :: go_error where "ErrSessionNotFound = Sentinel ''dsession.ErrSessionNotFound''"
definition ErrWorkersLimitExceeded :: go_error where "ErrWorkersLimitExceeded = Sentinel ''dsession.ErrWorkersLimitExceeded''"

definition worker_details :: "string \<Rightarrow> BorrowWorkerResponse \<Rightarrow> string" where
  "worker_details what resp =
     (if bw_MaxWorkers resp = 0 then []
      else '' (active '' @ what @ '': '' @ bigint_string (Some (bw_ActiveWorkers resp)) @ ''/'' @
             bigint_string (Some (bw_MaxWorkers resp)) @ '')'')"

subsection \<open>Borrowing for a request\<close>

text \<open>
  The first half of \<open>Get\<close> builds the request, the second takes the reply. \<open>sdsSessionID\<close> is the trusted
  header of the session, empty when it is absent.
\<close>

definition Get_request :: "string \<Rightarrow> string \<Rightarrow> string \<Rightarrow> string \<Rightarrow> BorrowWorkerRequest result" where
  "Get_request serviceName organizationID apiKeyID sdsSessionID =
     (if sdsSessionID = [] then Inl (Errorf ''sds session ID not found in auth context'' [] None)
      else Inr \<lparr>bq_Service = serviceName, bq_OrganizationId = organizationID, bq_ApiKeyId = apiKeyID,
                bq_SessionId = sdsSessionID, bq_MaxWorkersPerSession = 0\<rparr>)"

definition Get_reply ::
  "string \<Rightarrow> string \<Rightarrow> string \<Rightarrow> string \<Rightarrow> BorrowWorkerResponse rpc \<Rightarrow> sessionPool \<Rightarrow> string result \<times> sessionPool" where
  "Get_reply text' organizationID apiKeyID traceID reply p =
     (case reply of
        Inl (code, err) \<Rightarrow>
          (Inl (if code = CodeUnavailable then Errorf ''%w: %s'' [text'] (Some ErrUnavailable)
                else if code = CodePermissionDenied then Errorf ''%w: %s'' [text'] (Some ErrPermissionDenied)
                else if code = CodeResourceExhausted then Errorf ''%w: %s'' [text'] (Some ErrPoolQuotaExceeded)
                else Errorf ''failed to borrow session: %w'' [] (Some err)), p)
      | Inr resp \<Rightarrow>
          if bw_Status resp = BORROW_STATUS_RESOURCE_EXHAUSTED
          then (Inl (Errorf ''%w%s'' [worker_details ''sessions'' resp] (Some ErrConcurrentStreamLimitExceeded)), p)
          else if bw_Status resp = BORROW_STATUS_BORROWED
          then (Inr (bw_WorkerKey resp),
                (put_info (sp_nextInfo p)
                   \<lparr>si_organizationID = organizationID, si_apiKeyID = apiKeyID, si_traceID = traceID, si_workers = [],
                    si_closed = False, si_cancelled = False, si_released = False\<rparr> p)
                  \<lparr>sp_sessions := (sp_sessions p)(bw_WorkerKey resp \<mapsto> sp_nextInfo p), sp_nextInfo := Suc (sp_nextInfo p)\<rparr>)
          else (Inr (bw_WorkerKey resp), p))"

subsection \<open>Borrowing for a session\<close>

definition GetWorker_request ::
  "string \<Rightarrow> string \<Rightarrow> int \<Rightarrow> string \<Rightarrow> sessionPool \<Rightarrow> BorrowWorkerRequest result" where
  "GetWorker_request serviceName sessionKey maxWorkersPerSession sdsSessionID p =
     (case Option.bind (sp_sessions p sessionKey) (sp_infos p) of
        None \<Rightarrow> Inl (Errorf ''%w: session key %s not found'' [sessionKey] (Some ErrSessionNotFound))
      | Some info \<Rightarrow>
          if sdsSessionID = [] then Inl (Errorf ''sds session ID not found in auth context'' [] None)
          else Inr \<lparr>bq_Service = serviceName, bq_OrganizationId = si_organizationID info, bq_ApiKeyId = si_apiKeyID info,
                    bq_SessionId = sdsSessionID, bq_MaxWorkersPerSession = maxWorkersPerSession\<rparr>)"

definition GetWorker_reply :: "string \<Rightarrow> BorrowWorkerResponse rpc \<Rightarrow> string result" where
  "GetWorker_reply text' reply =
     (case reply of
        Inl (code, err) \<Rightarrow>
          Inl (if code = CodeNotFound then Errorf ''%w: session not found'' [] (Some ErrSessionNotFound)
               else if code = CodePermissionDenied then Errorf ''%w: %s'' [text'] (Some ErrPermissionDenied)
               else if code = CodeResourceExhausted
               then Errorf ''%w: maximum workers per session exceeded'' [] (Some ErrWorkersLimitExceeded)
               else Errorf ''failed to borrow worker: %w'' [] (Some err))
      | Inr resp \<Rightarrow>
          if bw_Status resp = BORROW_STATUS_RESOURCE_EXHAUSTED
          then Inl (Errorf ''%w%s'' [worker_details ''workers'' resp] (Some ErrWorkersLimitExceeded))
          else Inr (bw_WorkerKey resp))"

text \<open>The worker is recorded under the lock of the session, unless the session is being released.\<close>

definition addWorker :: "string \<Rightarrow> sessionInfo \<Rightarrow> bool \<times> sessionInfo" where
  "addWorker workerKey info =
     (if si_released info then (False, info)
      else (True, info\<lparr>si_workers := List.insert workerKey (si_workers info)\<rparr>))"

definition beginRelease :: "sessionInfo \<Rightarrow> string list option \<times> sessionInfo" where
  "beginRelease info =
     (if si_released info then (None, info) else (Some (si_workers info), info\<lparr>si_released := True\<rparr>))"

text \<open>The release leaves the map, stops the keep-alive and closes its channel.\<close>

definition Release_unlist :: "string \<Rightarrow> nat \<Rightarrow> sessionPool \<Rightarrow> sessionPool" where
  "Release_unlist sessionKey a p =
     p\<lparr>sp_sessions := (sp_sessions p)(sessionKey := None),
       sp_infos := (sp_infos p)(a := map_option (\<lambda>i. i\<lparr>si_cancelled := True, si_closed := True\<rparr>) (sp_infos p a))\<rparr>"

text \<open>The walk of \<open>ReleaseWorker\<close> over the sessions of the map, in its order.\<close>

fun ReleaseWorker_untrack :: "string \<Rightarrow> string list \<Rightarrow> sessionPool \<Rightarrow> sessionPool" where
  "ReleaseWorker_untrack workerKey [] p = p"
| "ReleaseWorker_untrack workerKey (k # ks) p =
     ReleaseWorker_untrack workerKey ks
       (case sp_sessions p k of
          None \<Rightarrow> p
        | Some a \<Rightarrow>
            p\<lparr>sp_infos := (sp_infos p)(a := map_option (\<lambda>i. i\<lparr>si_workers := removeAll workerKey (si_workers i)\<rparr>)
                                              (sp_infos p a))\<rparr>)"

text \<open>What is given back, with the minimal life asked for: nothing for a worker, the configured one for a session.\<close>

definition releaseWorkerInternal :: "string \<Rightarrow> string \<times> int option" where
  "releaseWorkerInternal workerKey = (workerKey, None)"

definition session_returns :: "sessionPool \<Rightarrow> string \<Rightarrow> string list \<Rightarrow> (string \<times> int option) list" where
  "session_returns p sessionKey workersToRelease =
     map releaseWorkerInternal workersToRelease @ [(sessionKey, Some (sp_minimalWorkerLifeDuration p))]"

subsection \<open>Keep-alive\<close>

record keep_alive =
  ka_errorMode :: bool
  ka_interval :: int
  ka_stopped :: bool
  ka_reported :: "go_error option"

definition keep_alive_start :: "sessionPool \<Rightarrow> keep_alive" where
  "keep_alive_start p = \<lparr>ka_errorMode = False, ka_interval = sp_keepAliveDelay p, ka_stopped = False, ka_reported = None\<rparr>"

text \<open>
  One tick: \<open>call\<close> is the outcome of the call for a key, \<open>texts\<close> the text of its error, and \<open>onError\<close> says
  whether the caller wants to be told.
\<close>

definition keep_alive_tick ::
  "bool \<Rightarrow> (string \<Rightarrow> string) \<Rightarrow> (string \<Rightarrow> unit rpc) \<Rightarrow> string \<Rightarrow> sessionPool \<Rightarrow> keep_alive \<Rightarrow> keep_alive" where
  "keep_alive_tick onError texts call sessionKey p ka =
     (case Option.bind (sp_sessions p sessionKey) (sp_infos p) of
        None \<Rightarrow> ka\<lparr>ka_stopped := True\<rparr>
      | Some info \<Rightarrow>
          let code = (case call sessionKey of Inl (c, _) \<Rightarrow> Some c | Inr _ \<Rightarrow> None) in
          if onError \<and> code = Some CodePermissionDenied
          then ka\<lparr>ka_stopped := True, ka_reported := Some (Errorf ''%w: %s'' [texts sessionKey] (Some ErrPermissionDenied))\<rparr>
          else if onError \<and> code = Some CodeResourceExhausted
          then ka\<lparr>ka_stopped := True, ka_reported := Some (Errorf ''%w: %s'' [texts sessionKey] (Some ErrPoolQuotaExceeded))\<rparr>
          else
            let hadError = list_ex (\<lambda>k. case call k of Inl _ \<Rightarrow> True | Inr _ \<Rightarrow> False) (sessionKey # si_workers info) in
            if hadError \<and> \<not> ka_errorMode ka then ka\<lparr>ka_interval := second, ka_errorMode := True\<rparr>
            else if \<not> hadError \<and> ka_errorMode ka then ka\<lparr>ka_interval := sp_keepAliveDelay p, ka_errorMode := False\<rparr>
            else ka)"

subsection \<open>Calls in any interleaving\<close>

text \<open>
  A call between two of its steps: a worker lent for a session and not yet recorded, the same with
  the session looked up, a release before and after it has looked up the session, the same with the
  session marked as released, and what is still to be given back.
\<close>

datatype pool_call =
    Lent string string
  | Recording string nat string
  | ReleaseCalled string
  | Releasing string nat
  | Unlisting string nat "string list"
  | Returning "(string \<times> int option) list"

text \<open>
  The pool and the session service it talks to. Three components record the past: the key under which
  a session was stored, the keys ever lent, and the keys whose reply or return was lost on the way.
\<close>

record pool_run =
  pr_pool :: sessionPool
  pr_server :: InMemoryRepository
  pr_calls :: "pool_call multiset"
  pr_home :: "nat \<rightharpoonup> string"
  pr_used :: "string set"
  pr_lost :: "string set"

definition lent_key :: "BorrowWorkerResponse rpc \<Rightarrow> string option" where
  "lent_key reply = (case reply of Inr resp \<Rightarrow> if bw_Status resp = BORROW_STATUS_BORROWED then Some (bw_WorkerKey resp) else None
                     | Inl _ \<Rightarrow> None)"

inductive pool_step ::
  "pretty_fun \<Rightarrow> new_address \<Rightarrow> QuotaConfig \<Rightarrow> pool_run \<Rightarrow> pool_run \<Rightarrow> bool" for pretty newAddress c where
  get: "BorrowWorker pretty newAddress c org sid now (pr_server s) = (reply, r) \<Longrightarrow>
    lent_key reply = Some k \<Longrightarrow> k \<notin> pr_used s \<Longrightarrow>
    pool_step pretty newAddress c s
      (s\<lparr>pr_pool := snd (Get_reply txt org apiKey trace reply (pr_pool s)), pr_server := r,
         pr_home := (pr_home s)(sp_nextInfo (pr_pool s) \<mapsto> k), pr_used := insert k (pr_used s)\<rparr>)"
| refused: "BorrowWorker pretty newAddress c org sid now (pr_server s) = (reply, r) \<Longrightarrow> lent_key reply = None \<Longrightarrow>
    pool_step pretty newAddress c s (s\<lparr>pr_server := r\<rparr>)"
| reply_lost: "BorrowWorker pretty newAddress c org sid now (pr_server s) = (reply, r) \<Longrightarrow>
    lent_key reply = Some k \<Longrightarrow> k \<notin> pr_used s \<Longrightarrow>
    pool_step pretty newAddress c s
      (s\<lparr>pr_server := r, pr_used := insert k (pr_used s), pr_lost := insert k (pr_lost s)\<rparr>)"
| get_worker: "GetWorker_request service key maxw sid (pr_pool s) = Inr req \<Longrightarrow>
    BorrowWorker pretty newAddress c (bq_OrganizationId req) (bq_SessionId req) now (pr_server s) = (reply, r) \<Longrightarrow>
    lent_key reply = Some w \<Longrightarrow> w \<notin> pr_used s \<Longrightarrow>
    pool_step pretty newAddress c s
      (s\<lparr>pr_server := r, pr_used := insert w (pr_used s), pr_calls := add_mset (Lent key w) (pr_calls s)\<rparr>)"
| find_gone: "pr_calls s = add_mset (Lent key w) M \<Longrightarrow> sp_sessions (pr_pool s) key = None \<Longrightarrow>
    pool_step pretty newAddress c s (s\<lparr>pr_calls := add_mset (Returning [releaseWorkerInternal w]) M\<rparr>)"
| find_again: "pr_calls s = add_mset (Lent key w) M \<Longrightarrow> sp_sessions (pr_pool s) key = Some a \<Longrightarrow>
    pool_step pretty newAddress c s (s\<lparr>pr_calls := add_mset (Recording key a w) M\<rparr>)"
| recorded: "pr_calls s = add_mset (Recording key a w) M \<Longrightarrow> sp_infos (pr_pool s) a = Some info \<Longrightarrow>
    addWorker w info = (True, info') \<Longrightarrow>
    pool_step pretty newAddress c s (s\<lparr>pr_pool := put_info a info' (pr_pool s), pr_calls := M\<rparr>)"
| too_late: "pr_calls s = add_mset (Recording key a w) M \<Longrightarrow> sp_infos (pr_pool s) a = Some info \<Longrightarrow>
    addWorker w info = (False, info') \<Longrightarrow>
    pool_step pretty newAddress c s (s\<lparr>pr_calls := add_mset (Returning [releaseWorkerInternal w]) M\<rparr>)"
| release: "pool_step pretty newAddress c s (s\<lparr>pr_calls := add_mset (ReleaseCalled key) (pr_calls s)\<rparr>)"
| release_none: "pr_calls s = add_mset (ReleaseCalled key) M \<Longrightarrow> sp_sessions (pr_pool s) key = None \<Longrightarrow>
    pool_step pretty newAddress c s (s\<lparr>pr_calls := M\<rparr>)"
| release_found: "pr_calls s = add_mset (ReleaseCalled key) M \<Longrightarrow> sp_sessions (pr_pool s) key = Some a \<Longrightarrow>
    pool_step pretty newAddress c s (s\<lparr>pr_calls := add_mset (Releasing key a) M\<rparr>)"
| release_begun: "pr_calls s = add_mset (Releasing key a) M \<Longrightarrow> sp_infos (pr_pool s) a = Some info \<Longrightarrow>
    beginRelease info = (Some ws, info') \<Longrightarrow>
    pool_step pretty newAddress c s
      (s\<lparr>pr_pool := put_info a info' (pr_pool s), pr_calls := add_mset (Unlisting key a ws) M\<rparr>)"
| release_twice: "pr_calls s = add_mset (Releasing key a) M \<Longrightarrow> sp_infos (pr_pool s) a = Some info \<Longrightarrow>
    beginRelease info = (None, info') \<Longrightarrow>
    pool_step pretty newAddress c s (s\<lparr>pr_calls := M\<rparr>)"
| release_unlist: "pr_calls s = add_mset (Unlisting key a ws) M \<Longrightarrow>
    pool_step pretty newAddress c s
      (s\<lparr>pr_pool := Release_unlist key a (pr_pool s), pr_calls := add_mset (Returning (session_returns (pr_pool s) key ws)) M\<rparr>)"
| release_worker: "pool_step pretty newAddress c s
    (s\<lparr>pr_pool := ReleaseWorker_untrack w order (pr_pool s),
       pr_calls := add_mset (Returning [releaseWorkerInternal w]) (pr_calls s)\<rparr>)"
| return_done: "pr_calls s = add_mset (Returning []) M \<Longrightarrow> pool_step pretty newAddress c s (s\<lparr>pr_calls := M\<rparr>)"
| return_one: "pr_calls s = add_mset (Returning ((k, d) # ks)) M \<Longrightarrow>
    pool_step pretty newAddress c s
      (s\<lparr>pr_server := snd (ReturnWorker pretty k d False now later (pr_server s)), pr_calls := add_mset (Returning ks) M\<rparr>)"
| return_lost: "pr_calls s = add_mset (Returning ((k, d) # ks)) M \<Longrightarrow>
    pool_step pretty newAddress c s (s\<lparr>pr_lost := insert k (pr_lost s), pr_calls := add_mset (Returning ks) M\<rparr>)"
| elsewhere: "workers r = workers (pr_server s) \<Longrightarrow> quotas r = quotas (pr_server s) \<Longrightarrow>
    pool_step pretty newAddress c s (s\<lparr>pr_server := r\<rparr>)"

definition pool_start :: "sessionPool \<Rightarrow> pool_run" where
  "pool_start p = \<lparr>pr_pool = p, pr_server = NewInMemoryRepository, pr_calls = {#}, pr_home = Map.empty, pr_used = {}, pr_lost = {}\<rparr>"

subsection \<open>No worker is forgotten\<close>

text \<open>The keys a call will give back or record, and the keys a session that is not released stands for.\<close>

fun call_keys :: "pool_call \<Rightarrow> string set" where
  "call_keys (Lent key w) = {w}"
| "call_keys (Recording key a w) = {w}"
| "call_keys (Unlisting key a ws) = insert key (set ws)"
| "call_keys (Returning ks) = fst ` set ks"
| "call_keys _ = {}"

definition tracked :: "sessionPool \<Rightarrow> (nat \<rightharpoonup> string) \<Rightarrow> string \<Rightarrow> bool" where
  "tracked p home w \<longleftrightarrow> (\<exists>a info. sp_infos p a = Some info \<and> \<not> si_released info \<and> (w \<in> set (si_workers info) \<or> home a = Some w))"

definition accounted :: "pool_run \<Rightarrow> string \<Rightarrow> bool" where
  "accounted s w \<longleftrightarrow> w \<in> pr_lost s \<or> tracked (pr_pool s) (pr_home s) w \<or> (\<exists>call. call \<in># pr_calls s \<and> w \<in> call_keys call)"

text \<open>A call that holds a session holds the one stored under its key.\<close>

fun call_ok :: "sessionPool \<Rightarrow> (nat \<rightharpoonup> string) \<Rightarrow> pool_call \<Rightarrow> bool" where
  "call_ok p home (Recording key a w) = (home a = Some key)"
| "call_ok p home (Releasing key a) = (home a = Some key)"
| "call_ok p home (Unlisting key a ws) = (home a = Some key \<and> (\<exists>info. sp_infos p a = Some info \<and> si_released info))"
| "call_ok p home _ = True"

definition pool_inv :: "pool_run \<Rightarrow> bool" where
  "pool_inv s \<longleftrightarrow>
     (\<forall>k a. sp_sessions (pr_pool s) k = Some a \<longrightarrow> pr_home s a = Some k) \<and>
     (\<forall>a info. sp_infos (pr_pool s) a = Some info \<longrightarrow> \<not> si_released info \<longrightarrow> (\<exists>k. sp_sessions (pr_pool s) k = Some a)) \<and>
     (\<forall>a. pr_home s a \<noteq> None \<longleftrightarrow> sp_infos (pr_pool s) a \<noteq> None) \<and>
     (\<forall>a. sp_nextInfo (pr_pool s) \<le> a \<longrightarrow> sp_infos (pr_pool s) a = None) \<and>
     (\<forall>a b k. pr_home s a = Some k \<longrightarrow> pr_home s b = Some k \<longrightarrow> a = b) \<and>
     ran (pr_home s) \<subseteq> pr_used s \<and> [] \<notin> dom (workers (pr_server s)) \<and>
     (\<forall>call \<in># pr_calls s. call_ok (pr_pool s) (pr_home s) call)"

definition all_accounted :: "pool_run \<Rightarrow> bool" where
  "all_accounted s \<longleftrightarrow> (\<forall>w \<in> dom (workers (pr_server s)). accounted s w)"

lemma buildWorkerKey_nonempty [simp]: "buildWorkerKey p t now \<noteq> []"
  by (simp add: buildWorkerKey_def)

lemma BorrowWorker_workers:
  assumes "BorrowWorker pretty newAddress c org sid now r = (reply, r')"
  shows "(case lent_key reply of None \<Rightarrow> workers r' = workers r
     | Some k \<Rightarrow> k \<noteq> [] \<and> (\<exists>w. workers r' = (workers r)(k \<mapsto> w)))"
  using assms
  by (auto simp: BorrowWorker_def WorkerCreateAndReserveQuota_def lent_key_def put_worker_def put_quota_def Let_def
      split: if_splits sum.splits prod.splits option.splits)

lemma QuotaDecrement_workers [simp]: "workers (QuotaDecrement pretty payer a b now r) = workers r"
  by (auto simp: QuotaDecrement_def put_quota_def Let_def split: option.splits)

lemma ReturnWorker_workers:
  assumes "k \<noteq> []"
  shows "dom (workers (snd (ReturnWorker pretty k d False now later r))) = dom (workers r) - {k}"
  using assms by (auto simp: ReturnWorker_def WorkerGet_def release_worker_def WorkerDelete_def split: option.splits)

lemma Get_reply_borrowed:
  assumes "lent_key reply = Some k"
  shows "snd (Get_reply txt org apiKey trace reply p) =
    (put_info (sp_nextInfo p) \<lparr>si_organizationID = org, si_apiKeyID = apiKey, si_traceID = trace, si_workers = [],
        si_closed = False, si_cancelled = False, si_released = False\<rparr> p)
      \<lparr>sp_sessions := (sp_sessions p)(k \<mapsto> sp_nextInfo p), sp_nextInfo := Suc (sp_nextInfo p)\<rparr>"
  using assms by (auto simp: lent_key_def Get_reply_def split: sum.splits if_splits)

lemma untrack_frames [simp]:
  "sp_sessions (ReleaseWorker_untrack w ks p) = sp_sessions p" "sp_nextInfo (ReleaseWorker_untrack w ks p) = sp_nextInfo p"
  by (induction w ks p rule: ReleaseWorker_untrack.induct) (simp_all split: option.splits)

lemma untrack_info:
  "(case sp_infos p a of None \<Rightarrow> sp_infos (ReleaseWorker_untrack w ks p) a = None
    | Some i \<Rightarrow> \<exists>i'. sp_infos (ReleaseWorker_untrack w ks p) a = Some i' \<and> si_released i' = si_released i \<and>
        set (si_workers i) - {w} \<subseteq> set (si_workers i') \<and> set (si_workers i') \<subseteq> set (si_workers i))"
proof (induction w ks p rule: ReleaseWorker_untrack.induct)
  case (2 w k ks p)
  then show ?case
    by (cases "sp_sessions p k"; cases "sp_infos p a") (auto split: option.splits if_splits)
qed (auto split: option.splits)


lemma pool_invD:
  assumes "pool_inv s"
  shows "sp_sessions (pr_pool s) k = Some a \<Longrightarrow> pr_home s a = Some k"
    "sp_infos (pr_pool s) a = Some info \<Longrightarrow> \<not> si_released info \<Longrightarrow> \<exists>k. sp_sessions (pr_pool s) k = Some a"
    "pr_home s a \<noteq> None \<longleftrightarrow> sp_infos (pr_pool s) a \<noteq> None"
    "sp_nextInfo (pr_pool s) \<le> a \<Longrightarrow> sp_infos (pr_pool s) a = None"
    "pr_home s a = Some k \<Longrightarrow> pr_home s b = Some k \<Longrightarrow> a = b"
    "ran (pr_home s) \<subseteq> pr_used s" "[] \<notin> dom (workers (pr_server s))"
    "call \<in># pr_calls s \<Longrightarrow> call_ok (pr_pool s) (pr_home s) call"
  using assms unfolding pool_inv_def by (blast+)

text \<open>Steps that touch neither the sessions nor what is known of them.\<close>

lemma pool_inv_frame:
  assumes "pool_inv s" "pr_pool s' = pr_pool s" "pr_home s' = pr_home s" "pr_used s \<subseteq> pr_used s'"
    "[] \<notin> dom (workers (pr_server s'))" "\<And>call. call \<in># pr_calls s' \<Longrightarrow> call_ok (pr_pool s) (pr_home s) call"
  shows "pool_inv s'"
  using assms unfolding pool_inv_def by (simp add: subset_trans[of _ "pr_used s"])

text \<open>A change of one session's information that does not undo its release.\<close>

lemma pool_inv_info:
  assumes "pool_inv s" "sp_infos (pr_pool s) a = Some info" "si_released info \<longrightarrow> si_released info'"
    "pr_pool s' = put_info a info' (pr_pool s)" "pr_home s' = pr_home s" "pr_used s' = pr_used s" "pr_server s' = pr_server s"
    "\<And>call. call \<in># pr_calls s' \<Longrightarrow> call_ok (pr_pool s') (pr_home s) call"
  shows "pool_inv s'"
  using assms unfolding pool_inv_def put_info_def by (auto split: if_splits)


lemma call_ok_info:
  assumes "call_ok p home call" "sp_infos p a = Some info" "si_released info \<longrightarrow> si_released info'"
  shows "call_ok (put_info a info' p) home call"
  using assms by (cases call) (auto simp: put_info_def)

lemma pool_invI:
  assumes "\<And>k a. sp_sessions (pr_pool s) k = Some a \<Longrightarrow> pr_home s a = Some k"
    "\<And>a info. sp_infos (pr_pool s) a = Some info \<Longrightarrow> \<not> si_released info \<Longrightarrow> \<exists>k. sp_sessions (pr_pool s) k = Some a"
    "\<And>a. pr_home s a \<noteq> None \<longleftrightarrow> sp_infos (pr_pool s) a \<noteq> None"
    "\<And>a. sp_nextInfo (pr_pool s) \<le> a \<Longrightarrow> sp_infos (pr_pool s) a = None"
    "\<And>a b k. pr_home s a = Some k \<Longrightarrow> pr_home s b = Some k \<Longrightarrow> a = b"
    "ran (pr_home s) \<subseteq> pr_used s" "[] \<notin> dom (workers (pr_server s))"
    "\<And>call. call \<in># pr_calls s \<Longrightarrow> call_ok (pr_pool s) (pr_home s) call"
  shows "pool_inv s"
  unfolding pool_inv_def using assms by blast

lemma pool_inv_get:
  assumes inv: "pool_inv s" and k: "lent_key reply = Some k" "k \<notin> pr_used s" and e: "[] \<notin> dom (workers r)"
  shows "pool_inv (s\<lparr>pr_pool := snd (Get_reply txt org apiKey trace reply (pr_pool s)), pr_server := r,
         pr_home := (pr_home s)(sp_nextInfo (pr_pool s) \<mapsto> k), pr_used := insert k (pr_used s)\<rparr>)"
proof -
  let ?n = "sp_nextInfo (pr_pool s)"
  note D = pool_invD[OF inv]
  have new: "sp_infos (pr_pool s) ?n = None" "pr_home s ?n = None" using D(3,4)[of ?n] by auto
  have fresh: "pr_home s a \<noteq> Some k" for a using D(6) k(2) by (auto simp: ran_def)
  have old: "sp_sessions (pr_pool s) j \<noteq> Some ?n" for j using D(1)[of j ?n] new by auto
  have ks: "sp_sessions (pr_pool s) k = None" using D(1)[of k] fresh by (cases "sp_sessions (pr_pool s) k") auto
  have calls: "call_ok (snd (Get_reply txt org apiKey trace reply (pr_pool s))) ((pr_home s)(?n \<mapsto> k)) call"
    if "call \<in># pr_calls s" for call
    using D(8)[OF that] new by (cases call) (auto simp: Get_reply_borrowed[OF k(1)] put_info_def)
  have live: "\<exists>j. ((sp_sessions (pr_pool s))(k \<mapsto> ?n)) j = Some a" if li: "sp_infos (pr_pool s) a = Some info" "\<not> si_released info" for a info
  proof -
    obtain j where "sp_sessions (pr_pool s) j = Some a" using D(2)[OF li] by blast
    then show ?thesis using ks by (intro exI[of _ j]) auto
  qed
  define s' where "s' = s\<lparr>pr_pool := snd (Get_reply txt org apiKey trace reply (pr_pool s)), pr_server := r,
         pr_home := (pr_home s)(?n \<mapsto> k), pr_used := insert k (pr_used s)\<rparr>"
  have "\<forall>call\<in>#pr_calls s'. call_ok (pr_pool s') (pr_home s') call" using calls by (simp add: s'_def)
  moreover have "[] \<notin> dom (workers (pr_server s'))" "ran (pr_home s') \<subseteq> pr_used s'"
    using e D(6) by (auto simp: s'_def ran_def)
  moreover have "\<forall>j a. sp_sessions (pr_pool s') j = Some a \<longrightarrow> pr_home s' a = Some j"
      "\<forall>a. pr_home s' a \<noteq> None \<longleftrightarrow> sp_infos (pr_pool s') a \<noteq> None"
      "\<forall>a. sp_nextInfo (pr_pool s') \<le> a \<longrightarrow> sp_infos (pr_pool s') a = None"
      "\<forall>a b k. pr_home s' a = Some k \<longrightarrow> pr_home s' b = Some k \<longrightarrow> a = b"
    using D(1,3,4,5) fresh old by (auto simp: s'_def Get_reply_borrowed[OF k(1)] put_info_def)
  moreover have "\<forall>a info. sp_infos (pr_pool s') a = Some info \<longrightarrow> \<not> si_released info \<longrightarrow> (\<exists>j. sp_sessions (pr_pool s') j = Some a)"
    using live by (auto simp: s'_def Get_reply_borrowed[OF k(1)] put_info_def)
  ultimately show ?thesis unfolding s'_def[symmetric] pool_inv_def by blast
qed


lemma pool_inv_unlist:
  assumes inv: "pool_inv s" and c: "pr_calls s = add_mset (Unlisting key a ws) M"
  shows "pool_inv (s\<lparr>pr_pool := Release_unlist key a (pr_pool s), pr_calls := add_mset (Returning ks) M\<rparr>)"
proof -
  note D = pool_invD[OF inv]
  obtain info where a: "pr_home s a = Some key" "sp_infos (pr_pool s) a = Some info" "si_released info"
    using D(8)[of "Unlisting key a ws"] c by auto
  have calls: "call_ok (Release_unlist key a (pr_pool s)) (pr_home s) call" if "call \<in># M" for call
    using D(8)[of call] c that a by (cases call) (auto simp: Release_unlist_def)
  have live: "\<exists>j. j \<noteq> key \<and> sp_sessions (pr_pool s) j = Some b"
    if li: "sp_infos (pr_pool s) b = Some i" "\<not> si_released i" for b i
  proof -
    obtain j where j: "sp_sessions (pr_pool s) j = Some b" using D(2)[OF li] by blast
    have "j \<noteq> key" using D(1)[OF j] D(5)[of b key a] a li by auto
    then show ?thesis using j by blast
  qed
  define s' where "s' = s\<lparr>pr_pool := Release_unlist key a (pr_pool s), pr_calls := add_mset (Returning ks) M\<rparr>"
  have s': "pr_home s' = pr_home s" "pr_used s' = pr_used s" "pr_server s' = pr_server s"
      "pr_calls s' = add_mset (Returning ks) M" "sp_sessions (pr_pool s') = (sp_sessions (pr_pool s))(key := None)"
      "sp_infos (pr_pool s') = (sp_infos (pr_pool s))(a \<mapsto> info\<lparr>si_cancelled := True, si_closed := True\<rparr>)"
      "sp_nextInfo (pr_pool s') = sp_nextInfo (pr_pool s)"
    using a(2) by (simp_all add: s'_def Release_unlist_def)
  have "pool_inv s'"
  proof (rule pool_invI)
    show "pr_home s' b \<noteq> None \<longleftrightarrow> sp_infos (pr_pool s') b \<noteq> None" for b using D(3)[of b] a by (simp add: s')
    show "\<exists>k. sp_sessions (pr_pool s') k = Some b" if "sp_infos (pr_pool s') b = Some i" "\<not> si_released i" for b i
      using that live[of b i] a by (auto simp: s' split: if_splits)
    show "sp_infos (pr_pool s') b = None" if "sp_nextInfo (pr_pool s') \<le> b" for b using that D(4)[of b] a by (auto simp: s')
    show "call_ok (pr_pool s') (pr_home s') call" if "call \<in># pr_calls s'" for call
      using that calls[of call] by (auto simp: s'_def)
    show "pr_home s' b = Some k" if "sp_sessions (pr_pool s') k = Some b" for k b
      using that D(1)[of k b] by (simp add: s' split: if_splits)
    show "b = d" if "pr_home s' b = Some k" "pr_home s' d = Some k" for b d k using that D(5)[of b k d] by (simp add: s')
  qed (use D(6,7) in \<open>simp_all add: s'\<close>)
  then show ?thesis by (simp add: s'_def)
qed

lemma pool_inv_untrack:
  assumes inv: "pool_inv s"
  shows "pool_inv (s\<lparr>pr_pool := ReleaseWorker_untrack w order (pr_pool s), pr_calls := add_mset (Returning ks) (pr_calls s)\<rparr>)"
proof -
  note D = pool_invD[OF inv]
  define p' where "p' = ReleaseWorker_untrack w order (pr_pool s)"
  have i: "sp_infos p' a = None \<longleftrightarrow> sp_infos (pr_pool s) a = None" for a
    using untrack_info[where p = "pr_pool s" and a = a and w = w and ks = order] by (auto simp: p'_def split: option.splits)
  have rel: "\<exists>i. sp_infos (pr_pool s) a = Some i \<and> si_released i = si_released i'" if "sp_infos p' a = Some i'" for a i'
    using untrack_info[where p = "pr_pool s" and a = a and w = w and ks = order] that by (auto simp: p'_def split: option.splits)
  have calls: "call_ok p' (pr_home s) call" if c: "call \<in># pr_calls s" for call
  proof (cases call)
    case (Unlisting key a ws)
    then obtain info where "pr_home s a = Some key" "sp_infos (pr_pool s) a = Some info" "si_released info" using D(8)[OF c] by auto
    then show ?thesis using Unlisting untrack_info[where p = "pr_pool s" and a = a and w = w and ks = order] by (auto simp: p'_def)
  qed (use D(8)[OF c] in auto)
  have f: "sp_sessions p' = sp_sessions (pr_pool s)" "sp_nextInfo p' = sp_nextInfo (pr_pool s)" by (simp_all add: p'_def)
  have live: "\<exists>k. sp_sessions (pr_pool s) k = Some a" if "sp_infos p' a = Some i'" "\<not> si_released i'" for a i'
    using rel[OF that(1)] D(2) that(2) by blast
  show ?thesis
    unfolding p'_def[symmetric] pool_inv_def using D(1,3-7) calls live i f by auto
qed

lemma pool_inv_step:
  assumes "pool_step pretty newAddress c s s'" "pool_inv s"
  shows "pool_inv s'"
  using assms(1)
proof cases
  case (get org sid now reply r k msg apiKey trace)
  have "[] \<notin> dom (workers r)" using BorrowWorker_workers[OF get(2)] get(3) pool_invD(7)[OF assms(2)] by auto
  then show ?thesis unfolding get(1) by (rule pool_inv_get[OF assms(2) get(3,4)])
next
  case (refused org sid now reply r)
  have "[] \<notin> dom (workers r)" using BorrowWorker_workers[OF refused(2)] refused(3) pool_invD(7)[OF assms(2)] by auto
  then show ?thesis unfolding refused(1) by (intro pool_inv_frame[OF assms(2)]) (use pool_invD(8)[OF assms(2)] in auto)
next
  case (reply_lost org sid now reply r k)
  have "[] \<notin> dom (workers r)" using BorrowWorker_workers[OF reply_lost(2)] reply_lost(3) pool_invD(7)[OF assms(2)] by auto
  then show ?thesis unfolding reply_lost(1) by (intro pool_inv_frame[OF assms(2)]) (use pool_invD(8)[OF assms(2)] in auto)
next
  case (get_worker service key maxw sid req now reply r w)
  have "[] \<notin> dom (workers r)" using BorrowWorker_workers[OF get_worker(3)] get_worker(4) pool_invD(7)[OF assms(2)] by auto
  then show ?thesis unfolding get_worker(1) by (intro pool_inv_frame[OF assms(2)]) (use pool_invD(8)[OF assms(2)] in auto)
next
  case (recorded key a w M info info')
  have "si_released info \<longrightarrow> si_released info'" using recorded(4) by (auto simp: addWorker_def split: if_splits)
  then show ?thesis
    using recorded pool_invD(8)[OF assms(2)] call_ok_info by (intro pool_inv_info[OF assms(2) recorded(3)]) auto
next
  case (release_begun key a M info ws info')
  have rel: "si_released info'" using release_begun(4) by (auto simp: beginRelease_def split: if_splits)
  have "pr_home s a = Some key" using pool_invD(8)[OF assms(2), of "Releasing key a"] release_begun(2) by auto
  then show ?thesis
    using release_begun rel pool_invD(8)[OF assms(2)] call_ok_info
    by (intro pool_inv_info[OF assms(2) release_begun(3), of info']) (auto simp: put_info_def)
next
  case (release_unlist key a ws M)
  then show ?thesis using pool_inv_unlist[OF assms(2)] by simp
next
  case (release_worker w order)
  then show ?thesis using pool_inv_untrack[OF assms(2)] by simp
next
  case (return_one k d ks M now later)
  have "[] \<notin> dom (workers (snd (ReturnWorker pretty k d False now later (pr_server s))))"
    using pool_invD(7)[OF assms(2)] ReturnWorker_workers[of k] by (cases "k = []") (auto simp: ReturnWorker_def)
  then show ?thesis
    unfolding return_one(1) by (intro pool_inv_frame[OF assms(2)]) (use pool_invD(8)[OF assms(2)] return_one(2) in auto)
next
  case (elsewhere r)
  then show ?thesis by (intro pool_inv_frame[OF assms(2)]) (use pool_invD(7,8)[OF assms(2)] in auto)
next
  case (find_again key w M a)
  then show ?thesis by (intro pool_inv_frame[OF assms(2)]) (use pool_invD(1,7,8)[OF assms(2)] in auto)
next
  case (release_found key M a)
  then show ?thesis by (intro pool_inv_frame[OF assms(2)]) (use pool_invD(1,7,8)[OF assms(2)] in auto)
qed (intro pool_inv_frame[OF assms(2)]; use pool_invD(7,8)[OF assms(2)] in auto)+


lemma accounted_cases:
  assumes "accounted s w" "pr_lost s \<subseteq> pr_lost s'"
    and "tracked (pr_pool s) (pr_home s) w \<Longrightarrow> accounted s' w"
    and "\<And>call. call \<in># pr_calls s \<Longrightarrow> w \<in> call_keys call \<Longrightarrow> accounted s' w"
  shows "accounted s' w"
  using assms unfolding accounted_def by blast

text \<open>A call that moves on keeps the keys it holds, or hands them to the pool.\<close>

lemma accounted_call:
  assumes "all_accounted s" "pr_calls s = add_mset call M" "pr_calls s' = add_mset call' M" "pr_lost s \<subseteq> pr_lost s'"
    "dom (workers (pr_server s')) \<subseteq> dom (workers (pr_server s))" "pr_pool s' = pr_pool s" "pr_home s' = pr_home s"
    "\<And>w. w \<in> dom (workers (pr_server s')) \<Longrightarrow> w \<in> call_keys call \<Longrightarrow> w \<in> call_keys call' \<or> w \<in> pr_lost s'"
  shows "all_accounted s'"
  unfolding all_accounted_def
proof
  fix w assume w: "w \<in> dom (workers (pr_server s'))"
  then have "accounted s w" using assms(1,5) unfolding all_accounted_def by blast
  then show "accounted s' w"
  proof (rule accounted_cases[OF _ assms(4)])
    show "accounted s' w" if "tracked (pr_pool s) (pr_home s) w" using that assms(6,7) by (simp add: accounted_def)
    show "accounted s' w" if "x \<in># pr_calls s" "w \<in> call_keys x" for x
      using that assms(2,3) assms(8)[OF w] unfolding accounted_def by fastforce
  qed
qed

lemma accounted_finish:
  assumes "all_accounted s" "pr_calls s = add_mset call M" "s' = s\<lparr>pr_calls := M\<rparr>" "call_keys call = {}"
  shows "all_accounted s'"
  unfolding all_accounted_def
proof
  fix w assume "w \<in> dom (workers (pr_server s'))"
  then have "accounted s w" using assms(1,3) unfolding all_accounted_def by simp
  then show "accounted s' w" using assms(2-4) unfolding accounted_def by auto
qed

text \<open>A step that lends one more key and otherwise only adds.\<close>

lemma accounted_more:
  assumes "all_accounted s" "dom (workers (pr_server s')) \<subseteq> insert k (dom (workers (pr_server s)))" "accounted s' k"
    "pr_lost s \<subseteq> pr_lost s'" "\<And>w. tracked (pr_pool s) (pr_home s) w \<Longrightarrow> tracked (pr_pool s') (pr_home s') w"
    "pr_calls s \<subseteq># pr_calls s'"
  shows "all_accounted s'"
  unfolding all_accounted_def
proof
  fix w assume w: "w \<in> dom (workers (pr_server s'))"
  show "accounted s' w"
  proof (cases "w = k")
    case False
    then have "accounted s w" using assms(1,2) w unfolding all_accounted_def by blast
    then show ?thesis using assms(4,5,6) unfolding accounted_def by (meson mset_subset_eqD subsetD)
  qed (use assms(3) in simp)
qed

lemma tracked_get:
  assumes "pool_inv s" "lent_key reply = Some k"
  shows "tracked (pr_pool s) (pr_home s) w \<Longrightarrow>
      tracked (snd (Get_reply msg org apiKey trace reply (pr_pool s))) ((pr_home s)(sp_nextInfo (pr_pool s) \<mapsto> k)) w"
    "tracked (snd (Get_reply msg org apiKey trace reply (pr_pool s))) ((pr_home s)(sp_nextInfo (pr_pool s) \<mapsto> k)) k"
proof -
  have "sp_infos (pr_pool s) (sp_nextInfo (pr_pool s)) = None" using pool_invD(4)[OF assms(1)] by simp
  then have new: "sp_infos (pr_pool s) a = Some info \<Longrightarrow> a \<noteq> sp_nextInfo (pr_pool s)" for a info by auto
  show "tracked (snd (Get_reply msg org apiKey trace reply (pr_pool s))) ((pr_home s)(sp_nextInfo (pr_pool s) \<mapsto> k)) w"
    if "tracked (pr_pool s) (pr_home s) w"
  proof -
    obtain a info where a: "sp_infos (pr_pool s) a = Some info" "\<not> si_released info"
        "w \<in> set (si_workers info) \<or> pr_home s a = Some w"
      using \<open>tracked _ _ _\<close> unfolding tracked_def by blast
    then show ?thesis
      unfolding tracked_def using new[OF a(1)]
      by (intro exI[of _ a] exI[of _ info]) (simp add: Get_reply_borrowed[OF assms(2)] put_info_def)
  qed
  show "tracked (snd (Get_reply msg org apiKey trace reply (pr_pool s))) ((pr_home s)(sp_nextInfo (pr_pool s) \<mapsto> k)) k"
    unfolding tracked_def by (rule exI[of _ "sp_nextInfo (pr_pool s)"]) (simp add: Get_reply_borrowed[OF assms(2)] put_info_def)
qed


lemma tracked_info:
  assumes "tracked p home w" "sp_infos p a = Some info"
    "\<not> si_released info' \<longleftrightarrow> \<not> si_released info" "set (si_workers info) \<subseteq> set (si_workers info')"
  shows "tracked (put_info a info' p) home w"
proof -
  obtain b i where b: "sp_infos p b = Some i" "\<not> si_released i" "w \<in> set (si_workers i) \<or> home b = Some w"
    using assms(1) unfolding tracked_def by blast
  show ?thesis
  proof (cases "b = a")
    case True
    then show ?thesis
      unfolding tracked_def using b assms(2-4) by (intro exI[of _ a] exI[of _ info']) (auto simp: put_info_def)
  next
    case False
    then show ?thesis
      unfolding tracked_def using b by (intro exI[of _ b] exI[of _ i]) (simp add: put_info_def)
  qed
qed

lemma accounted_recorded:
  assumes all: "all_accounted s" and c: "pr_calls s = add_mset (Recording key a w) M" "sp_infos (pr_pool s) a = Some info"
    "addWorker w info = (True, info')" and s': "s' = s\<lparr>pr_pool := put_info a info' (pr_pool s), pr_calls := M\<rparr>"
  shows "all_accounted s'"
  unfolding all_accounted_def
proof
  have i: "\<not> si_released info" "info' = info\<lparr>si_workers := List.insert w (si_workers info)\<rparr>"
    using c(3) by (auto simp: addWorker_def split: if_splits)
  fix x assume "x \<in> dom (workers (pr_server s'))"
  then have "accounted s x" using all s' unfolding all_accounted_def by simp
  then show "accounted s' x"
  proof (rule accounted_cases)
    show "accounted s' x" if "tracked (pr_pool s) (pr_home s) x"
      using tracked_info[OF that c(2), of info'] i by (simp add: s' accounted_def subset_insertI)
    have "tracked (pr_pool s') (pr_home s') w"
      unfolding tracked_def s' using i by (intro exI[of _ a] exI[of _ info']) (simp add: put_info_def)
    then show "accounted s' x" if "call \<in># pr_calls s" "x \<in> call_keys call" for call
      using that c(1) unfolding accounted_def s' by (auto simp: s')
  qed (simp add: s')
qed

lemma accounted_begun:
  assumes inv: "pool_inv s" and all: "all_accounted s" and c: "pr_calls s = add_mset (Releasing key a) M"
    "sp_infos (pr_pool s) a = Some info" "beginRelease info = (Some ws, info')"
    and s': "s' = s\<lparr>pr_pool := put_info a info' (pr_pool s), pr_calls := add_mset (Unlisting key a ws) M\<rparr>"
  shows "all_accounted s'"
  unfolding all_accounted_def
proof
  have i: "ws = si_workers info" using c(3) by (auto simp: beginRelease_def split: if_splits)
  have h: "pr_home s a = Some key" using pool_invD(8)[OF inv, of "Releasing key a"] c(1) by auto
  fix x assume "x \<in> dom (workers (pr_server s'))"
  then have "accounted s x" using all s' unfolding all_accounted_def by simp
  then show "accounted s' x"
  proof (rule accounted_cases)
    show "accounted s' x" if t: "tracked (pr_pool s) (pr_home s) x"
    proof -
      obtain b j where b: "sp_infos (pr_pool s) b = Some j" "\<not> si_released j" "x \<in> set (si_workers j) \<or> pr_home s b = Some x"
        using t unfolding tracked_def by blast
      show ?thesis
      proof (cases "b = a")
        case True
        then have "x \<in> call_keys (Unlisting key a ws)" using b c(2) h i by auto
        then show ?thesis unfolding accounted_def s' by auto
      next
        case False
        then have "tracked (put_info a info' (pr_pool s)) (pr_home s) x"
          unfolding tracked_def using b by (intro exI[of _ b] exI[of _ j]) (simp add: put_info_def)
        then show ?thesis by (simp add: accounted_def s')
      qed
    qed
    show "accounted s' x" if "call \<in># pr_calls s" "x \<in> call_keys call" for call
      using that c(1) unfolding accounted_def s' by auto
  qed (simp add: s')
qed


lemma accounted_unlist:
  assumes inv: "pool_inv s" and all: "all_accounted s" and c: "pr_calls s = add_mset (Unlisting key a ws) M"
    and s': "s' = s\<lparr>pr_pool := Release_unlist key a (pr_pool s),
      pr_calls := add_mset (Returning (session_returns (pr_pool s) key ws)) M\<rparr>"
  shows "all_accounted s'"
  unfolding all_accounted_def
proof
  obtain info where a: "sp_infos (pr_pool s) a = Some info" "si_released info"
    using pool_invD(8)[OF inv, of "Unlisting key a ws"] c by auto
  have keys: "call_keys (Returning (session_returns (pr_pool s) key ws)) = call_keys (Unlisting key a ws)"
    by (force simp: session_returns_def releaseWorkerInternal_def)
  fix x assume "x \<in> dom (workers (pr_server s'))"
  then have "accounted s x" using all s' unfolding all_accounted_def by simp
  then show "accounted s' x"
  proof (rule accounted_cases)
    show "accounted s' x" if t: "tracked (pr_pool s) (pr_home s) x"
    proof -
      obtain b j where b: "sp_infos (pr_pool s) b = Some j" "\<not> si_released j" "x \<in> set (si_workers j) \<or> pr_home s b = Some x"
        using t unfolding tracked_def by blast
      then have "b \<noteq> a" using a by auto
      then have "tracked (Release_unlist key a (pr_pool s)) (pr_home s) x"
        unfolding tracked_def using b by (intro exI[of _ b] exI[of _ j]) (simp add: Release_unlist_def)
      then show ?thesis by (simp add: accounted_def s')
    qed
    show "accounted s' x" if t: "call \<in># pr_calls s" "x \<in> call_keys call" for call
    proof (cases "call = Unlisting key a ws")
      case True
      then have "x \<in> call_keys (Returning (session_returns (pr_pool s) key ws))" using t(2) keys by simp
      then show ?thesis unfolding accounted_def s' by (auto simp del: call_keys.simps)
    next
      case False
      then show ?thesis using t c unfolding accounted_def s' by auto
    qed
  qed (simp add: s')
qed

lemma accounted_untrack:
  assumes all: "all_accounted s"
    and s': "s' = s\<lparr>pr_pool := ReleaseWorker_untrack w order (pr_pool s),
       pr_calls := add_mset (Returning [releaseWorkerInternal w]) (pr_calls s)\<rparr>"
  shows "all_accounted s'"
  unfolding all_accounted_def
proof
  fix x assume "x \<in> dom (workers (pr_server s'))"
  then have "accounted s x" using all s' unfolding all_accounted_def by simp
  then show "accounted s' x"
  proof (rule accounted_cases)
    show "accounted s' x" if t: "tracked (pr_pool s) (pr_home s) x"
    proof (cases "x = w")
      case True
      then show ?thesis unfolding accounted_def s' by (auto simp: releaseWorkerInternal_def)
    next
      case False
      obtain b j where b: "sp_infos (pr_pool s) b = Some j" "\<not> si_released j" "x \<in> set (si_workers j) \<or> pr_home s b = Some x"
        using t unfolding tracked_def by blast
      obtain j' where "sp_infos (pr_pool s') b = Some j'" "\<not> si_released j'" "x \<in> set (si_workers j') \<or> pr_home s' b = Some x"
        using untrack_info[where p = "pr_pool s" and a = b and w = w and ks = order] b False by (auto simp: s')
      then show ?thesis unfolding accounted_def tracked_def by blast
    qed
    show "accounted s' x" if "call \<in># pr_calls s" "x \<in> call_keys call" for call
      using that unfolding accounted_def s' by auto
  qed (simp add: s')
qed

lemma all_accounted_step:
  assumes step: "pool_step pretty newAddress c s s'" and inv: "pool_inv s" and all: "all_accounted s"
  shows "all_accounted s'"
  using step
proof cases
  case (get org sid now reply r k msg apiKey trace)
  show ?thesis
    by (rule accounted_more[OF all, where k = k])
      (use get BorrowWorker_workers[OF get(2)] tracked_get[OF inv get(3)] in \<open>auto simp: accounted_def\<close>)
next
  case (refused org sid now reply r)
  then show ?thesis using all BorrowWorker_workers[OF refused(2)] by (auto simp: all_accounted_def accounted_def)
next
  case (reply_lost org sid now reply r k)
  show ?thesis
    by (rule accounted_more[OF all, where k = k])
      (use reply_lost BorrowWorker_workers[OF reply_lost(2)] in \<open>auto simp: accounted_def\<close>)
next
  case (get_worker service key maxw sid req now reply r w)
  show ?thesis
    by (rule accounted_more[OF all, where k = w])
      (use get_worker BorrowWorker_workers[OF get_worker(3)] in \<open>auto simp: accounted_def\<close>)
next
  case (find_gone key w M)
  show ?thesis by (rule accounted_call[OF all find_gone(2)]) (use find_gone in \<open>auto simp: releaseWorkerInternal_def\<close>)
next
  case (find_again key w M a)
  show ?thesis by (rule accounted_call[OF all find_again(2)]) (use find_again in auto)
next
  case (recorded key a w M info info')
  then show ?thesis using accounted_recorded[OF all] by blast
next
  case (too_late key a w M info info')
  show ?thesis by (rule accounted_call[OF all too_late(2)]) (use too_late in \<open>auto simp: releaseWorkerInternal_def\<close>)
next
  case (release key)
  then show ?thesis using all unfolding all_accounted_def accounted_def by auto
next
  case (release_none key M)
  then show ?thesis by (intro accounted_finish[OF all release_none(2)]) auto
next
  case (release_found key M a)
  show ?thesis by (rule accounted_call[OF all release_found(2)]) (use release_found in auto)
next
  case (release_begun key a M info ws info')
  then show ?thesis using accounted_begun[OF inv all] by blast
next
  case (release_twice key a M info info')
  then show ?thesis by (intro accounted_finish[OF all release_twice(2)]) auto
next
  case (release_unlist key a ws M)
  then show ?thesis using accounted_unlist[OF inv all] by blast
next
  case (release_worker w order)
  then show ?thesis using accounted_untrack[OF all] by blast
next
  case (return_done M)
  then show ?thesis by (intro accounted_finish[OF all return_done(2)]) auto
next
  case (return_one k d ks M now later)
  have "dom (workers (pr_server s')) \<subseteq> dom (workers (pr_server s)) - {k}"
    using ReturnWorker_workers[of k] pool_invD(7)[OF inv] by (cases "k = []") (auto simp: return_one(1) ReturnWorker_def)
  then show ?thesis by (intro accounted_call[OF all return_one(2)]) (use return_one(1) in force)+
next
  case (return_lost k d ks M)
  show ?thesis by (rule accounted_call[OF all return_lost(2)]) (use return_lost in force)+
next
  case (elsewhere r)
  then show ?thesis using all by (simp add: all_accounted_def accounted_def)
qed


lemma pool_server_step:
  assumes "pool_step pretty newAddress c s s'"
  shows "(session_service_step pretty newAddress c)\<^sup>=\<^sup>= (pr_server s) (pr_server s')"
proof -
  have b: "session_service_step pretty newAddress c r r'" if "BorrowWorker pretty newAddress c org sid now r = (reply, r')" for org sid now r reply r'
    using call_borrow[of pretty newAddress c r org sid now] that by simp
  show ?thesis
    using assms by cases (auto dest: b intro: call_return call_other)
qed

lemma pool_reach:
  assumes "(pool_step pretty newAddress c)\<^sup>*\<^sup>* (pool_start (newSessionPool d m)) s"
  shows "pool_inv s \<and> all_accounted s \<and> (session_service_step pretty newAddress c)\<^sup>*\<^sup>* NewInMemoryRepository (pr_server s)"
  using assms
proof (induction rule: rtranclp_induct)
  case base
  show ?case
    by (simp add: pool_inv_def all_accounted_def pool_start_def newSessionPool_def NewInMemoryRepository_def)
next
  case (step s s')
  then show ?case
    using pool_inv_step all_accounted_step pool_server_step[OF step(2)] by (auto intro: rtranclp.rtrancl_into_rtrancl)
qed

text \<open>
  C25: The plugin gives every worker back (\<open>Get\<close>, \<open>GetWorker\<close>, \<open>Release\<close>, \<open>ReleaseWorker\<close> of
  \<open>provider/plugin/session.go\<close> against the session service). However the goroutines of these calls
  interleave, every worker the service has lent out is recorded under a session that is not
  released, or held by a call that will record it or give it back, or its reply or its return was
  lost on the way; the service is taken never to issue one worker key twice. So once all sessions are released and all calls are done, only lost workers are
  still lent out, and if none was lost every payer's quota is free again.
\<close>

theorem plugin_returns_workers:
  assumes "(pool_step pretty newAddress c)\<^sup>*\<^sup>* (pool_start (newSessionPool d m)) s"
    and "\<And>a b. newAddress a = Inr b \<Longrightarrow> max_workers c a \<le> limit" "0 \<le> limit" "limit < 2 ^ 63 - 1"
  shows "(\<forall>w. w \<in> dom (workers (pr_server s)) \<longrightarrow> accounted s w) \<and>
    (pr_calls s = {#} \<and> sp_sessions (pr_pool s) = Map.empty \<longrightarrow>
       dom (workers (pr_server s)) \<subseteq> pr_lost s \<and> (pr_lost s = {} \<longrightarrow> active_workers (pr_server s) p = 0))"
proof -
  have s: "pool_inv s" "all_accounted s" "(session_service_step pretty newAddress c)\<^sup>*\<^sup>* NewInMemoryRepository (pr_server s)"
    using pool_reach[OF assms(1)] by auto
  have sub: "dom (workers (pr_server s)) \<subseteq> pr_lost s" if "pr_calls s = {#}" "sp_sessions (pr_pool s) = Map.empty"
    using s(2) pool_invD(2)[OF s(1)] that unfolding all_accounted_def accounted_def tracked_def by fastforce
  have "slots.within pretty limit (\<lambda>_. limit) (pr_server s)"
    by (rule service_reach_within[where newAddress = newAddress and c = c]) (use s(3) assms(2-4) in auto)
  then have "active_workers (pr_server s) p = int (card (held_workers pretty (pr_server s) p))"
    using slots.balanced unfolding slots.within_def by blast
  moreover have "held_workers pretty (pr_server s) p \<subseteq> dom (workers (pr_server s))" by (auto simp: held_workers_def)
  ultimately show ?thesis using sub s(2) unfolding all_accounted_def by auto
qed


text \<open>A session borrowed by \<open>Get\<close> from a service that knows it.\<close>

lemma sample_lent:
  "\<exists>resp r. BorrowWorker hex_EncodeToString sample_address DefaultQuotaConfig ''p'' ''s'' 5 sample_live = (Inr resp, r) \<and>
     (\<exists>k. lent_key (Inr resp) = Some k)"
  by (simp add: BorrowWorker_def sample_address_def authorizeSession_def SessionGet_def sample_live_def
        sample_session_def NewSession_def IsActive_def Let_def WorkerCreateAndReserveQuota_def
        NewInMemoryRepository_def buildWorkerKey_def empty_quota_def active_workers_def lent_key_def
        max_workers_def DefaultQuotaConfig_def MaxWorkersPerSession_def MaxConcurrentSessions_def in_i64_def)


lemma pool_release_run:
  assumes key: "sp_sessions (pr_pool s) key = Some a" and a: "sp_infos (pr_pool s) a = Some info" "\<not> si_released info"
  shows "(pool_step pretty newAddress c)\<^sup>*\<^sup>* s
    (s\<lparr>pr_pool := put_info a (info\<lparr>si_released := True\<rparr>) (pr_pool s),
       pr_calls := add_mset (Unlisting key a (si_workers info)) (pr_calls s)\<rparr>)"
proof -
  let ?s1 = "s\<lparr>pr_calls := add_mset (ReleaseCalled key) (pr_calls s)\<rparr>"
  let ?s2 = "s\<lparr>pr_calls := add_mset (Releasing key a) (pr_calls s)\<rparr>"
  let ?s3 = "s\<lparr>pr_pool := put_info a (info\<lparr>si_released := True\<rparr>) (pr_pool s),
       pr_calls := add_mset (Unlisting key a (si_workers info)) (pr_calls s)\<rparr>"
  have "pool_step pretty newAddress c s ?s1" by (rule release)
  moreover have "pool_step pretty newAddress c ?s1 ?s2"
    using release_found[of ?s1 key "pr_calls s" a] key by simp
  moreover have "pool_step pretty newAddress c ?s2 ?s3"
    using release_begun[of ?s2 key a "pr_calls s" info "si_workers info"] a by (simp add: beginRelease_def)
  ultimately show ?thesis by (meson converse_rtranclp_into_rtranclp r_into_rtranclp)
qed

text \<open>
  The opposite is not excluded: when a worker's own release meets the release of its session, both
  calls give the worker back.
\<close>

lemma worker_given_back_twice:
  assumes "sp_sessions (pr_pool s) key = Some a" "sp_infos (pr_pool s) a = Some info" "\<not> si_released info"
    "w \<in> set (si_workers info)"
  shows "\<exists>s' ks. (pool_step pretty newAddress c)\<^sup>*\<^sup>* s s' \<and> releaseWorkerInternal w \<in> set ks \<and>
    pr_calls s' = add_mset (Returning ks) (add_mset (Returning [releaseWorkerInternal w]) (pr_calls s))"
proof -
  let ?p = "put_info a (info\<lparr>si_released := True\<rparr>) (pr_pool s)"
  let ?s1 = "s\<lparr>pr_pool := ?p, pr_calls := add_mset (Unlisting key a (si_workers info)) (pr_calls s)\<rparr>"
  let ?q = "ReleaseWorker_untrack w [key] ?p"
  let ?R = "Returning [releaseWorkerInternal w]"
  let ?s2 = "s\<lparr>pr_pool := ?q, pr_calls := add_mset ?R (add_mset (Unlisting key a (si_workers info)) (pr_calls s))\<rparr>"
  let ?s3 = "s\<lparr>pr_pool := Release_unlist key a ?q,
      pr_calls := add_mset (Returning (session_returns ?q key (si_workers info))) (add_mset ?R (pr_calls s))\<rparr>"
  have "(pool_step pretty newAddress c)\<^sup>*\<^sup>* s ?s1" by (rule pool_release_run) (use assms in auto)
  moreover have "pool_step pretty newAddress c ?s1 ?s2"
    using release_worker[of pretty newAddress c ?s1 w "[key]"] by simp
  moreover have "pool_step pretty newAddress c ?s2 ?s3"
    using release_unlist[of ?s2 key a "si_workers info" "add_mset ?R (pr_calls s)"] by (simp add: add_mset_commute)
  ultimately have "(pool_step pretty newAddress c)\<^sup>*\<^sup>* s ?s3" by (meson rtranclp.rtrancl_into_rtrancl)
  moreover have "releaseWorkerInternal w \<in> set (session_returns ?q key (si_workers info))"
    using assms(4) by (simp add: session_returns_def)
  ultimately show ?thesis by auto
qed

lemma sample_pool_run:
  "\<exists>s k. (pool_step hex_EncodeToString sample_address DefaultQuotaConfig)\<^sup>*\<^sup>* (pool_start (newSessionPool 20 5)) s \<and>
     pr_used s = {k} \<and> pr_lost s = {} \<and> pr_calls s = {#} \<and> sp_sessions (pr_pool s) = Map.empty"
proof -
  let ?step = "pool_step hex_EncodeToString sample_address DefaultQuotaConfig"
  let ?s0 = "pool_start (newSessionPool 20 5)"
  let ?s1 = "?s0\<lparr>pr_server := sample_live\<rparr>"
  obtain resp r k where b: "BorrowWorker hex_EncodeToString sample_address DefaultQuotaConfig ''p'' ''s'' 5 sample_live = (Inr resp, r)"
    "lent_key (Inr resp) = Some k" using sample_lent by blast
  define s2 where "s2 = ?s1\<lparr>pr_pool := snd (Get_reply [] ''p'' [] [] (Inr resp) (pr_pool ?s1)), pr_server := r,
         pr_home := (pr_home ?s1)(sp_nextInfo (pr_pool ?s1) \<mapsto> k), pr_used := insert k (pr_used ?s1)\<rparr>"
  note pool = Get_reply_borrowed[OF b(2)] newSessionPool_def pool_start_def put_info_def
  have "?step ?s0 ?s1"
    by (rule elsewhere) (simp_all add: sample_live_def pool_start_def)
  moreover have "?step ?s1 s2" unfolding s2_def by (rule get) (use b in \<open>auto simp: pool_start_def\<close>)
  moreover obtain info where i: "sp_sessions (pr_pool s2) = [k \<mapsto> 0]" "sp_infos (pr_pool s2) 0 = Some info"
      "\<not> si_released info" "si_workers info = []"
    by (simp add: s2_def pool)
  moreover define s3 where "s3 = s2\<lparr>pr_pool := put_info 0 (info\<lparr>si_released := True\<rparr>) (pr_pool s2),
       pr_calls := add_mset (Unlisting k 0 (si_workers info)) (pr_calls s2)\<rparr>"
  moreover define s4 where "s4 = s3\<lparr>pr_pool := Release_unlist k 0 (pr_pool s3),
       pr_calls := {#Returning (session_returns (pr_pool s3) k [])#}\<rparr>"
  moreover have "?step\<^sup>*\<^sup>* s2 s3" unfolding s3_def by (rule pool_release_run) (use i in auto)
  moreover have "?step s3 s4" unfolding s4_def by (rule release_unlist) (use i in \<open>simp add: s3_def s2_def pool\<close>)
  moreover obtain d where d: "session_returns (pr_pool s3) k [] = [(k, d)]" by (simp add: session_returns_def)
  moreover define s5 where "s5 = s4\<lparr>pr_server := snd (ReturnWorker hex_EncodeToString k d False 9 9 (pr_server s4)),
       pr_calls := {#Returning []#}\<rparr>"
  moreover have "?step s4 s5" unfolding s5_def by (rule return_one) (use d in \<open>simp add: s4_def\<close>)
  moreover have "?step s5 (s5\<lparr>pr_calls := {#}\<rparr>)" by (rule return_done) (simp add: s5_def)
  ultimately have "?step\<^sup>*\<^sup>* ?s0 (s5\<lparr>pr_calls := {#}\<rparr>)" by (meson rtranclp.rtrancl_into_rtrancl rtranclp_trans rtranclp.rtrancl_refl)
  moreover have "pr_used s5 = {k}" "pr_lost s5 = {}" "sp_sessions (pr_pool s5) = Map.empty"
    using i by (simp_all add: s5_def s4_def s3_def s2_def pool Release_unlist_def)
  ultimately show ?thesis by (intro exI[of _ "s5\<lparr>pr_calls := {#}\<rparr>"] exI[of _ k]) simp
qed

theorem plugin_returns_workers_witness:
  "\<exists>s k. (pool_step hex_EncodeToString sample_address DefaultQuotaConfig)\<^sup>*\<^sup>* (pool_start (newSessionPool 20 5)) s \<and>
     pr_used s = {k} \<and> dom (workers (pr_server s)) = {} \<and> active_workers (pr_server s) (hex_EncodeToString (replicate 20 2)) = 0"
proof -
  obtain s k where s: "(pool_step hex_EncodeToString sample_address DefaultQuotaConfig)\<^sup>*\<^sup>* (pool_start (newSessionPool 20 5)) s"
     "pr_used s = {k}" "pr_lost s = {}" "pr_calls s = {#}" "sp_sessions (pr_pool s) = Map.empty"
    using sample_pool_run by blast
  have m: "max_workers DefaultQuotaConfig x = 50" for x
    by (simp add: max_workers_def DefaultQuotaConfig_def MaxWorkersPerSession_def MaxConcurrentSessions_def in_i64_def)
  show ?thesis
    using s plugin_returns_workers[OF s(1), of 50] by (auto simp: m)
qed

end
