(* ===== verification/Sds_Plugin_Metering.thy ===== *)
theory Sds_Plugin_Metering
  imports Sds_Usage_Service "HOL-Library.Multiset"
begin

unbundle bit_operations_syntax

text \<open>
  The metering plugin of the data plane (\<open>provider/plugin/metering.go\<close>): events are queued by the
  requests, collected into a batch by one background loop and reported to the usage service on every
  tick and once more at the end.
\<close>

subsection \<open>Numbers of a metric\<close>

text \<open>
  A \<open>float64\<close> is its 64 bits: sign, eleven bits of exponent, 52 bits of fraction. \<open>int64(value)\<close> drops
  the fraction; what it gives for a value outside \<open>int64\<close> depends on the machine and is the argument
  \<open>outside\<close>. \<open>None\<close> stands for an infinity or not-a-number.
\<close>

type_synonym float64 = "64 word"

definition float64_trunc :: "float64 \<Rightarrow> int option" where
  "float64_trunc x =
     (let e = unat (drop_bit 52 x AND 2047); m = 2 ^ 52 + int (unat (x AND (2 ^ 52 - 1)));
          v = (if e < 1023 then 0 else if 1075 \<le> e then m * 2 ^ (e - 1075) else m div 2 ^ (1075 - e))
      in if e = 2047 then None else Some (if bit x 63 then - v else v))"

definition int64_of_float :: "(float64 \<Rightarrow> 64 word) \<Rightarrow> float64 \<Rightarrow> 64 word" where
  "int64_of_float outside x =
     (case float64_trunc x of
        Some v \<Rightarrow> if in_i64 v then of_int v else outside x
      | None \<Rightarrow> outside x)"

subsection \<open>Events and the emitter\<close>

text \<open>The event of the data plane's library, with the fields the plugin reads; a map of metrics in its walk's order.\<close>

record dmetering_Event =
  me_OrganizationID :: string
  me_ApiKeyID :: string
  me_Endpoint :: string
  me_Network :: string
  me_Metrics :: "(string \<times> float64) list"
  me_Timestamp :: time

record emittedEvent =
  em_Event :: dmetering_Event
  em_SessionID :: string

text \<open>The channel is a list with a capacity; \<open>mt_terminating\<close> and \<open>mt_done\<close> are its shutter and its closed channel.\<close>

record meteringEmitter =
  mt_network :: string
  mt_buffer :: "emittedEvent list"
  mt_capacity :: nat
  mt_activeBatch :: "Event option list"
  mt_shuttingDown :: bool
  mt_panicOnDrop :: bool
  mt_delay :: int
  mt_reportTimeout :: int
  mt_terminating :: bool
  mt_done :: bool

definition defaultMeteringReportTimeout :: int where
  "defaultMeteringReportTimeout = 30 * 1000000000"

text \<open>A channel cannot be larger than \<open>int\<close> allows: making one panics.\<close>

definition newMeteringEmitter :: "string \<Rightarrow> u64 \<Rightarrow> int \<Rightarrow> int \<Rightarrow> bool \<Rightarrow> meteringEmitter option" where
  "newMeteringEmitter network bufferSize delay reportTimeout panicOnDrop =
     (if 2 ^ 63 \<le> unat bufferSize then None
      else Some \<lparr>mt_network = network, mt_buffer = [], mt_capacity = unat bufferSize, mt_activeBatch = [],
        mt_shuttingDown = False, mt_panicOnDrop = panicOnDrop, mt_delay = delay,
        mt_reportTimeout = (if reportTimeout \<le> 0 then defaultMeteringReportTimeout else reportTimeout),
        mt_terminating = False, mt_done = False\<rparr>)"

definition eventToProto :: "(float64 \<Rightarrow> 64 word) \<Rightarrow> emittedEvent \<Rightarrow> Event" where
  "eventToProto outside ev =
     \<lparr>ev_OrganizationId = me_OrganizationID (em_Event ev), ev_ApiKeyId = me_ApiKeyID (em_Event ev), ev_IpAddress = [],
      ev_Endpoint = me_Endpoint (em_Event ev), ev_Network = me_Network (em_Event ev), ev_SdsSessionId = em_SessionID ev,
      ev_Provider = [], ev_OutputModuleHash = [],
      ev_Metrics = map (\<lambda>(name, value). Some \<lparr>m_Name = name, m_Value = int64_of_float outside value\<rparr>) (me_Metrics (em_Event ev)),
      ev_Timestamp = Some (me_Timestamp (em_Event ev))\<rparr>"

text \<open>The network of the plugin replaces the one of the event.\<close>

definition batched :: "(float64 \<Rightarrow> 64 word) \<Rightarrow> string \<Rightarrow> emittedEvent \<Rightarrow> Event option" where
  "batched outside network ev = Some (eventToProto outside (ev\<lparr>em_Event := (em_Event ev)\<lparr>me_Network := network\<rparr>\<rparr>))"

subsection \<open>Queueing an event\<close>

definition Emit_check :: "dmetering_Event \<Rightarrow> meteringEmitter \<Rightarrow> bool" where
  "Emit_check ev e \<longleftrightarrow> me_Endpoint ev \<noteq> [] \<and> \<not> mt_terminating e"

datatype emit_outcome = Queued | Dropped | EmitPanics

definition Emit_locked :: "emittedEvent \<Rightarrow> meteringEmitter \<Rightarrow> emit_outcome \<times> meteringEmitter" where
  "Emit_locked ev e =
     (if mt_shuttingDown e then (Dropped, e)
      else if length (mt_buffer e) < mt_capacity e then (Queued, e\<lparr>mt_buffer := mt_buffer e @ [ev]\<rparr>)
      else if mt_panicOnDrop e then (EmitPanics, e)
      else (Dropped, e))"

subsection \<open>The background loop\<close>

text \<open>A ticker needs a positive interval: \<open>launch\<close> panics otherwise.\<close>

definition launch_start :: "meteringEmitter \<Rightarrow> meteringEmitter option" where
  "launch_start e = (if mt_delay e \<le> 0 then None else Some e)"

definition launch_receive :: "(float64 \<Rightarrow> 64 word) \<Rightarrow> meteringEmitter \<Rightarrow> meteringEmitter" where
  "launch_receive outside e =
     (case mt_buffer e of
        [] \<Rightarrow> e
      | ev # rest \<Rightarrow> e\<lparr>mt_buffer := rest, mt_activeBatch := mt_activeBatch e @ [batched outside (mt_network e) ev]\<rparr>)"

text \<open>The request of \<open>emit\<close>, if there is anything to send.\<close>

definition emit_request :: "Event option list \<Rightarrow> Event option list option" where
  "emit_request events = (if events = [] then None else Some events)"

definition launch_tick :: "meteringEmitter \<Rightarrow> Event option list option \<times> meteringEmitter" where
  "launch_tick e = (emit_request (mt_activeBatch e), e\<lparr>mt_activeBatch := []\<rparr>)"

definition beginShutdown :: "meteringEmitter \<Rightarrow> meteringEmitter" where
  "beginShutdown e = e\<lparr>mt_shuttingDown := True\<rparr>"

text \<open>After \<open>beginShutdown\<close> nobody else touches the channel, so the loop sees it shrink until it is empty.\<close>

fun flush_buffer :: "(float64 \<Rightarrow> 64 word) \<Rightarrow> string \<Rightarrow> emittedEvent list \<Rightarrow> Event option list \<Rightarrow> Event option list" where
  "flush_buffer outside network [] batch = batch"
| "flush_buffer outside network (ev # rest) batch = flush_buffer outside network rest (batch @ [batched outside network ev])"

definition flushAndClose :: "(float64 \<Rightarrow> 64 word) \<Rightarrow> meteringEmitter \<Rightarrow> Event option list option \<times> meteringEmitter" where
  "flushAndClose outside e =
     (let batch = flush_buffer outside (mt_network e) (mt_buffer e) (mt_activeBatch e)
      in (emit_request batch, e\<lparr>mt_buffer := [], mt_activeBatch := batch, mt_done := True\<rparr>))"

subsection \<open>Requests and the loop in any interleaving\<close>

text \<open>
  What becomes of a report: it may be lost before it reaches the usage service, or its reply may be
  lost. The plugin logs both and goes on.
\<close>

datatype delivery = Delivered | RequestLost | ReplyLost

text \<open>
  The emitter, the usage service, the requests that have passed the first checks of \<open>Emit\<close>, and
  three records of the past: the events queued, the events sent and the events of lost requests.
\<close>

record 'g metering_run =
  mr_emitter :: meteringEmitter
  mr_server :: "InMemoryRepository \<times> 'g"
  mr_calls :: "emittedEvent multiset"
  mr_queued :: "emittedEvent list"
  mr_sent :: "Event option list"
  mr_lost :: "Event option list"

definition send_report ::
  "PricingConfig \<Rightarrow> 'g notifier option \<Rightarrow> time \<Rightarrow> delivery \<Rightarrow> Event option list option \<Rightarrow> 'g metering_run \<Rightarrow> 'g metering_run" where
  "send_report pricing runtime now d req s =
     (case req of
        None \<Rightarrow> s
      | Some events \<Rightarrow>
          if d = RequestLost then s\<lparr>mr_sent := mr_sent s @ events, mr_lost := mr_lost s @ events\<rparr>
          else s\<lparr>mr_sent := mr_sent s @ events, mr_server := snd (Report pricing runtime now events (mr_server s))\<rparr>)"

inductive metering_step ::
  "(float64 \<Rightarrow> 64 word) \<Rightarrow> PricingConfig \<Rightarrow> 'g notifier option \<Rightarrow> 'g metering_run \<Rightarrow> 'g metering_run \<Rightarrow> bool"
  for outside pricing runtime where
  emit_called: "Emit_check ev (mr_emitter s) \<Longrightarrow>
    metering_step outside pricing runtime s
      (s\<lparr>mr_calls := add_mset \<lparr>em_Event = ev, em_SessionID = sid\<rparr> (mr_calls s)\<rparr>)"
| emit_queued: "mr_calls s = add_mset ev M \<Longrightarrow> Emit_locked ev (mr_emitter s) = (Queued, e) \<Longrightarrow>
    metering_step outside pricing runtime s
      (s\<lparr>mr_calls := M, mr_emitter := e, mr_queued := mr_queued s @ [ev]\<rparr>)"
| emit_dropped: "mr_calls s = add_mset ev M \<Longrightarrow> Emit_locked ev (mr_emitter s) = (res, e) \<Longrightarrow> res \<noteq> Queued \<Longrightarrow>
    metering_step outside pricing runtime s (s\<lparr>mr_calls := M, mr_emitter := e\<rparr>)"
| received: "\<not> mt_shuttingDown (mr_emitter s) \<Longrightarrow>
    metering_step outside pricing runtime s (s\<lparr>mr_emitter := launch_receive outside (mr_emitter s)\<rparr>)"
| ticked: "\<not> mt_shuttingDown (mr_emitter s) \<Longrightarrow> launch_tick (mr_emitter s) = (req, e) \<Longrightarrow>
    metering_step outside pricing runtime s (send_report pricing runtime now d req (s\<lparr>mr_emitter := e\<rparr>))"
| terminated: "metering_step outside pricing runtime s (s\<lparr>mr_emitter := (mr_emitter s)\<lparr>mt_terminating := True\<rparr>\<rparr>)"
| shutdown_begun: "mt_terminating (mr_emitter s) \<Longrightarrow>
    metering_step outside pricing runtime s (s\<lparr>mr_emitter := beginShutdown (mr_emitter s)\<rparr>)"
| flushed: "mt_shuttingDown (mr_emitter s) \<Longrightarrow> \<not> mt_done (mr_emitter s) \<Longrightarrow>
    flushAndClose outside (mr_emitter s) = (req, e) \<Longrightarrow>
    metering_step outside pricing runtime s (send_report pricing runtime now d req (s\<lparr>mr_emitter := e\<rparr>))"

definition metering_start :: "meteringEmitter \<Rightarrow> InMemoryRepository \<times> 'g \<Rightarrow> 'g metering_run" where
  "metering_start e server = \<lparr>mr_emitter = e, mr_server = server, mr_calls = {#}, mr_queued = [], mr_sent = [], mr_lost = []\<rparr>"

subsection \<open>Every queued event is reported once\<close>

definition metering_inv :: "(float64 \<Rightarrow> 64 word) \<Rightarrow> string \<Rightarrow> 'g metering_run \<Rightarrow> bool" where
  "metering_inv outside network s \<longleftrightarrow>
     mt_network (mr_emitter s) = network \<and> (mt_done (mr_emitter s) \<longrightarrow> mt_shuttingDown (mr_emitter s)) \<and>
     map (batched outside network) (mr_queued s) =
       (if mt_done (mr_emitter s) then mr_sent s
        else mr_sent s @ mt_activeBatch (mr_emitter s) @ map (batched outside network) (mt_buffer (mr_emitter s)))"

definition charge_inv :: "PricingConfig \<Rightarrow> string \<Rightarrow> int \<Rightarrow> 'g metering_run \<Rightarrow> bool" where
  "charge_inv p i cost s \<longleftrightarrow>
     (\<exists>ses. sessions (fst (mr_server s)) i = Some ses \<and>
        total_cost ses + sum_list (map (fst \<circ> event_charge p i) (mr_lost s)) =
          cost + sum_list (map (fst \<circ> event_charge p i) (mr_sent s)))"

lemma flush_buffer_map: "flush_buffer outside network evs batch = batch @ map (batched outside network) evs"
  by (induction outside network evs batch rule: flush_buffer.induct) simp_all

lemma emit_request_events: "(case emit_request evs of None \<Rightarrow> [] | Some r \<Rightarrow> r) = evs"
  by (simp add: emit_request_def)

lemma send_report_frames [simp]:
  "mr_emitter (send_report p runtime now d req s) = mr_emitter s"
  "mr_queued (send_report p runtime now d req s) = mr_queued s"
  "mr_sent (send_report p runtime now d (emit_request evs) s) = mr_sent s @ evs"
  by (auto simp: send_report_def emit_request_def split: option.splits)

lemma metering_inv_step:
  assumes "metering_step outside p runtime s s'" "metering_inv outside network s"
  shows "metering_inv outside network s'"
  using assms
  by cases (auto simp: metering_inv_def Emit_locked_def launch_receive_def launch_tick_def flushAndClose_def beginShutdown_def
      flush_buffer_map Let_def split: if_splits list.splits)

lemma charge_inv_report:
  assumes "notifier_ok runtime" "i \<noteq> []" "charge_inv p i cost s"
  shows "charge_inv p i cost (send_report p runtime now d req s)"
proof (cases req)
  case None
  then show ?thesis using assms(3) by (simp add: send_report_def)
next
  case (Some evs)
  obtain ses where ses: "sessions (fst (mr_server s)) i = Some ses"
    "total_cost ses + sum_list (map (fst \<circ> event_charge p i) (mr_lost s)) =
       cost + sum_list (map (fst \<circ> event_charge p i) (mr_sent s))"
    using assms(3) by (auto simp: charge_inv_def)
  then show ?thesis
    using report_fold_charges[OF assms(1) ses(1) assms(2), of p now evs] Some
    by (cases "evs = []") (auto simp: charge_inv_def send_report_def Report_def)
qed

lemma charge_inv_step:
  assumes "metering_step outside p runtime s s'" "notifier_ok runtime" "i \<noteq> []" "charge_inv p i cost s"
  shows "charge_inv p i cost s'"
proof -
  have same: "charge_inv p i cost t" if "mr_server t = mr_server s" "mr_sent t = mr_sent s" "mr_lost t = mr_lost s" for t
    using assms(4) that by (simp add: charge_inv_def)
  have report: "charge_inv p i cost (send_report p runtime now d req (s\<lparr>mr_emitter := e\<rparr>))" for now d req e
    by (rule charge_inv_report[OF assms(2,3) same]) simp_all
  show ?thesis
    using assms(1) by cases (use report in \<open>auto intro: same\<close>)
qed



text \<open>An event of three blocks, the number 3 as a float, sent for a session that pays 5 for a block.\<close>

definition sample_metered :: emittedEvent where
  "sample_metered = \<lparr>em_Event = \<lparr>me_OrganizationID = [], me_ApiKeyID = [], me_Endpoint = ''e'', me_Network = [],
     me_Metrics = [(''blocks'', 0x4008000000000000)], me_Timestamp = 1\<rparr>, em_SessionID = ''s''\<rparr>"

lemma float64_three: "float64_trunc 0x4008000000000000 = Some 3"
  by (simp add: float64_trunc_def Let_def)

lemma sample_metered_charge:
  "event_charge \<lparr>PricePerBlock = mkGRT 5, PricePerByte = mkGRT 0\<rparr> ''s'' (batched outside ''net'' sample_metered) = (15, 3, 0)"
  by (simp add: event_charge_def batched_def eventToProto_def sample_metered_def event_cost_def event_usage_def
      protoEventToUsageEvent_def add_metric_def sanitizeUsageMetric_def CalculateUsageCost_def GRT_Mul_def GRT_Add_def
      BigInt_def Let_def int64_of_float_def float64_three in_i64_def)


end
