(* ===== verification/Sds_Plugins.thy ===== *)
theory Sds_Plugins
  imports Sds_Utf8 Sds_Plugin_Session Sds_Plugin_Metering Sds_Sidecar
begin

text \<open>
  The registration of the three plugins of the data plane (\<open>provider/plugin/plugin.go\<close> and the
  \<open>Register\<close> functions) and the auth plugin (\<open>auth.go\<close>), which forwards a request to the auth service
  of the provider.
\<close>

subsection \<open>Configuration\<close>

text \<open>
  What the plugins take from \<open>os\<close>, \<open>net/url\<close> and \<open>time\<close> is a parameter: the expansion of environment
  variables, the parts of an address with its query in the order of a walk, and the reader of durations.
\<close>

record plugin_url =
  pu_Scheme :: string
  pu_Hostname :: string
  pu_Port :: string
  pu_Query :: "(string \<times> string list) list"

record plugin_lib =
  pl_ExpandEnv :: "string \<Rightarrow> string"
  pl_Parse :: "string \<Rightarrow> plugin_url result"
  pl_ParseDuration :: "string \<Rightarrow> int result"

record baseConfig =
  bc_Endpoint :: string
  bc_Insecure :: bool
  bc_Plaintext :: bool

definition Values_Get :: "(string \<times> string list) list \<Rightarrow> string \<Rightarrow> string" where
  "Values_Get q key = (case map_of q key of Some (v # _) \<Rightarrow> v | _ \<Rightarrow> [])"

definition parseBaseConfig :: "plugin_lib \<Rightarrow> string \<Rightarrow> (baseConfig \<times> (string \<times> string list) list) result" where
  "parseBaseConfig lib configURL =
     (case pl_Parse lib configURL of
        Inl err \<Rightarrow> Inl (Errorf ''failed to parse URL: %w'' [] (Some err))
      | Inr u \<Rightarrow>
          if pu_Scheme u \<noteq> ''sds'' then Inl (Errorf (''invalid scheme %q, expected '' @ [CHR 0x27] @ ''sds'' @ [CHR 0x27]) [pu_Scheme u] None)
          else if pu_Hostname u = []
          then Inl (Errorf ''hostname is required, e.g. sds://<plugin-gateway-host>:9003'' [] None)
          else
            let port = (if pu_Port u = [] then ''443'' else pu_Port u); vals = pu_Query u
            in Inr (\<lparr>bc_Endpoint = pu_Hostname u @ '':'' @ port, bc_Insecure = (Values_Get vals ''insecure'' = ''true''),
                     bc_Plaintext = (Values_Get vals ''plaintext'' = ''true'')\<rparr>, vals))"

definition newHTTPClient :: "baseConfig \<Rightarrow> http_client" where
  "newHTTPClient cfg = (if bc_Plaintext cfg then H2cClient else H2Client (bc_Insecure cfg))"

definition baseURL :: "baseConfig \<Rightarrow> string" where
  "baseURL cfg = (if bc_Plaintext cfg then ''http://'' @ bc_Endpoint cfg else ''https://'' @ bc_Endpoint cfg)"

definition parseDuration :: "plugin_lib \<Rightarrow> string \<Rightarrow> int \<Rightarrow> int result" where
  "parseDuration lib s defaultVal = (if s = [] then Inr defaultVal else pl_ParseDuration lib s)"

text \<open>\<open>strconv.ParseInt\<close> and \<open>ParseUint\<close> in base ten and 64 bits; an unsigned number has no sign.\<close>

definition parseInt64 :: "string \<Rightarrow> int \<Rightarrow> int result" where
  "parseInt64 s defaultVal =
     (if s = [] then Inr defaultVal
      else (case SetString10 s of
              None \<Rightarrow> Inl (Errorf ''strconv.ParseInt: parsing %q: invalid syntax'' [s] None)
            | Some v \<Rightarrow> if in_i64 v then Inr v else Inl (Errorf ''strconv.ParseInt: parsing %q: value out of range'' [s] None)))"

definition parseUint64 :: "string \<Rightarrow> u64 \<Rightarrow> u64 result" where
  "parseUint64 s defaultVal =
     (if s = [] then Inr defaultVal
      else (case dec_digits 0 s of
              None \<Rightarrow> Inl (Errorf ''strconv.ParseUint: parsing %q: invalid syntax'' [s] None)
            | Some n \<Rightarrow> if n < 2 ^ 64 then Inr (of_nat n)
                        else Inl (Errorf ''strconv.ParseUint: parsing %q: value out of range'' [s] None)))"

text \<open>The walk over the parameters stops at the first unknown one.\<close>

definition check_params :: "string list \<Rightarrow> (string \<times> string list) list \<Rightarrow> unit result" where
  "check_params known vals =
     (case filter (\<lambda>k. k \<notin> set known) (map fst vals) of
        [] \<Rightarrow> Inr ()
      | k # _ \<Rightarrow> Inl (Errorf ''unknown query parameter: %s'' [k] None))"

subsection \<open>Registration\<close>

definition RegisterAuth :: "plugin_lib \<Rightarrow> string \<Rightarrow> baseConfig result" where
  "RegisterAuth lib config =
     (case parseBaseConfig lib (pl_ExpandEnv lib config) of
        Inl err \<Rightarrow> Inl (Errorf ''failed to parse auth config %q: %w'' [config] (Some err))
      | Inr (baseCfg, vals) \<Rightarrow>
          (case check_params [''insecure'', ''plaintext''] vals of
             Inl err \<Rightarrow> Inl err
           | Inr _ \<Rightarrow> Inr baseCfg))"

definition RegisterSession :: "plugin_lib \<Rightarrow> string \<Rightarrow> (baseConfig \<times> sessionPool) result" where
  "RegisterSession lib config =
     (case parseBaseConfig lib (pl_ExpandEnv lib config) of
        Inl err \<Rightarrow> Inl (Errorf ''failed to parse session config %q: %w'' [config] (Some err))
      | Inr (baseCfg, vals) \<Rightarrow>
          (case check_params [''insecure'', ''plaintext'', ''keep-alive-delay'', ''minimal-worker-life-duration''] vals of
             Inl err \<Rightarrow> Inl err
           | Inr _ \<Rightarrow>
               (case parseDuration lib (Values_Get vals ''keep-alive-delay'') (20 * second) of
                  Inl err \<Rightarrow> Inl (Errorf ''invalid keep-alive-delay: %w'' [] (Some err))
                | Inr keepAliveDelay \<Rightarrow>
                    (case parseDuration lib (Values_Get vals ''minimal-worker-life-duration'') (5 * second) of
                       Inl err \<Rightarrow> Inl (Errorf ''invalid minimal-worker-life-duration: %w'' [] (Some err))
                     | Inr minimalWorkerLifeDuration \<Rightarrow>
                         Inr (baseCfg, newSessionPool keepAliveDelay minimalWorkerLifeDuration)))))"

definition parseMeteringReportTimeout :: "plugin_lib \<Rightarrow> (string \<times> string list) list \<Rightarrow> int result" where
  "parseMeteringReportTimeout lib vals = parseDuration lib (Values_Get vals ''report-timeout'') defaultMeteringReportTimeout"

text \<open>The outer option is the panic of a channel that is too large.\<close>

definition RegisterMetering :: "plugin_lib \<Rightarrow> string \<Rightarrow> (baseConfig \<times> meteringEmitter) result option" where
  "RegisterMetering lib config =
     (case parseBaseConfig lib (pl_ExpandEnv lib config) of
        Inl err \<Rightarrow> Some (Inl (Errorf ''failed to parse metering config %q: %w'' [config] (Some err)))
      | Inr (baseCfg, vals) \<Rightarrow>
          (case check_params [''insecure'', ''plaintext'', ''network'', ''buffer'', ''delay'', ''report-timeout'',
                              ''panic-on-drop'', ''panicOnDrop''] vals of
             Inl err \<Rightarrow> Some (Inl err)
           | Inr _ \<Rightarrow>
               let network = Values_Get vals ''network'' in
               if network = [] then Some (Inl (Errorf ''network is required (as query param)'' [] None))
               else (case parseUint64 (Values_Get vals ''buffer'') 10000 of
                  Inl err \<Rightarrow> Some (Inl (Errorf ''invalid buffer: %w'' [] (Some err)))
                | Inr bufferSize \<Rightarrow>
                    (case parseInt64 (Values_Get vals ''delay'') 100 of
                       Inl err \<Rightarrow> Some (Inl (Errorf ''invalid delay: %w'' [] (Some err)))
                     | Inr delay \<Rightarrow>
                         (case parseMeteringReportTimeout lib vals of
                            Inl err \<Rightarrow> Some (Inl (Errorf ''invalid report-timeout: %w'' [] (Some err)))
                          | Inr reportTimeout \<Rightarrow>
                              map_option (\<lambda>e. Inr (baseCfg, e))
                                (newMeteringEmitter network bufferSize (i64 (delay * 1000000)) reportTimeout
                                  (Values_Get vals ''panicOnDrop'' = ''true'' \<or> Values_Get vals ''panic-on-drop'' = ''true'')))))))"

text \<open>No plugin starts on another scheme, without a host or with a parameter it does not know.\<close>

lemma parseBaseConfig_sound:
  assumes "parseBaseConfig lib c = Inr (cfg, vals)"
  shows "\<exists>u. pl_Parse lib c = Inr u \<and> pu_Scheme u = ''sds'' \<and> pu_Hostname u \<noteq> [] \<and> vals = pu_Query u \<and>
    HasPrefix (bc_Endpoint cfg) (pu_Hostname u @ '':'')"
  using assms by (auto simp: parseBaseConfig_def HasPrefix_def Let_def split: sum.splits if_splits)

lemma check_params_known: "check_params known vals = Inr () \<longleftrightarrow> fst ` set vals \<subseteq> set known"
proof -
  have "filter (\<lambda>k. k \<notin> set known) (map fst vals) = [] \<longleftrightarrow> fst ` set vals \<subseteq> set known"
    by (auto simp: filter_empty_conv)
  then show ?thesis by (cases "filter (\<lambda>k. k \<notin> set known) (map fst vals)") (auto simp: check_params_def)
qed

text \<open>
  A delay of zero milliseconds, or one that wraps to a negative duration, is accepted, and the loop
  then panics on its ticker.
\<close>

lemma zero_delay_accepted:
  assumes "pl_Parse lib (pl_ExpandEnv lib c) =
    Inr \<lparr>pu_Scheme = ''sds'', pu_Hostname = h # hs, pu_Port = port, pu_Query = [(''network'', [n # ns]), (''delay'', [''0''])]\<rparr>"
  shows "\<exists>cfg e. RegisterMetering lib c = Some (Inr (cfg, e)) \<and> launch_start e = None"
proof -
  have "parseInt64 ''0'' 100 = Inr 0"
    by (simp add: parseInt64_def SetString10_def is_digit_def digit_val_def in_i64_def)
  then show ?thesis
    using assms by (simp add: RegisterMetering_def parseBaseConfig_def check_params_def Values_Get_def parseUint64_def
        parseMeteringReportTimeout_def parseDuration_def newMeteringEmitter_def launch_start_def Let_def i64_def)
qed

subsection \<open>The auth plugin\<close>

definition forwardedAuthHeaderNames :: "string set" where
  "forwardedAuthHeaderNames = {ToLower HeaderRAV, ToLower HeaderSessionID, ''x-trace-id''}"

definition forwardedAuthHeaders :: "(string \<times> string list) list \<Rightarrow> (string \<rightharpoonup> string list)" where
  "forwardedAuthHeaders headers =
     foldl (\<lambda>protoHeaders (name, values).
       let lowerName = ToLower name; safeValues = filter utf8_Valid values in
       if lowerName \<notin> forwardedAuthHeaderNames then protoHeaders
       else if safeValues = [] then protoHeaders
       else protoHeaders(lowerName \<mapsto> safeValues)) Map.empty headers"

text \<open>
  \<open>call\<close> is the auth service behind the connection, from the forwarded headers and the address of
  the client; \<open>get\<close> is the lookup of the library's trusted headers and \<open>headerMeta\<close> one of its names.
  The result is the set of headers of the new context.
\<close>

definition Authenticate ::
  "((string \<rightharpoonup> string) \<Rightarrow> string \<Rightarrow> string) \<Rightarrow> string \<Rightarrow>
   ((string \<rightharpoonup> string list) \<Rightarrow> string \<Rightarrow> ((string \<rightharpoonup> string) rpc \<times> 's) option) \<Rightarrow>
   (string \<times> string list) list \<Rightarrow> string \<Rightarrow> ((string \<rightharpoonup> string) rpc \<times> 's) option" where
  "Authenticate get headerMeta call headers ipAddress =
     (case call (forwardedAuthHeaders headers) ipAddress of
        None \<Rightarrow> None
      | Some (Inl err, st) \<Rightarrow> Some (Inl err, st)
      | Some (Inr trustedHeaders, st) \<Rightarrow>
          let sessionID = get trustedHeaders HeaderSessionID in
          Some (Inr (if sessionID \<noteq> [] then trustedHeaders(headerMeta \<mapsto> sessionID) else trustedHeaders), st))"

text \<open>
  A list that shows a map: every entry once, in some order. The service walks over the map of the
  request in such an order.
\<close>

definition shows_map :: "(string \<times> string list option) list \<Rightarrow> (string \<rightharpoonup> string list) \<Rightarrow> bool" where
  "shows_map wire m \<longleftrightarrow> distinct (map fst wire) \<and> (\<forall>k v. (k, v) \<in> set wire \<longleftrightarrow> (\<exists>vs. m k = Some vs \<and> v = Some vs))"

text \<open>The headers with the values that are not UTF-8 left out.\<close>

definition readable :: "(string \<times> string list) list \<Rightarrow> (string \<times> string list option) list" where
  "readable headers = map (\<lambda>(name, values). (name, Some (filter utf8_Valid values))) headers"

lemma to_lower_idem [simp]: "to_lower_char (to_lower_char c) = to_lower_char c"
  by (simp add: to_lower_char_def Let_def)

lemma ToLower_idem [simp]: "ToLower (ToLower s) = ToLower s"
  by (simp add: ToLower_def)

lemma forwarded_lower:
  "forwardedAuthHeaders headers k = (if k \<in> forwardedAuthHeaderNames then lower_headers (readable headers) k else None)"
proof (induction headers rule: rev_induct)
  case Nil
  then show ?case by (simp add: forwardedAuthHeaders_def readable_def lower_headers_def)
next
  case (snoc h headers)
  then show ?case
    by (cases h; cases "filter utf8_Valid (snd h)") (auto simp: forwardedAuthHeaders_def readable_def lower_headers_def Let_def)
qed

lemma forwarded_keys:
  assumes "forwardedAuthHeaders headers k = Some vs"
  shows "ToLower k = k \<and> vs \<noteq> []"
  using assms
proof (induction headers rule: rev_induct)
  case Nil
  then show ?case by (simp add: forwardedAuthHeaders_def)
next
  case (snoc h headers)
  then show ?case by (cases h) (auto simp: forwardedAuthHeaders_def Let_def split: if_splits)
qed

text \<open>Walking over a map with lower-case keys and non-empty values gives the map again.\<close>

lemma lower_headers_wire:
  assumes "distinct (map fst wire)" "\<And>k v. (k, v) \<in> set wire \<Longrightarrow> ToLower k = k \<and> (\<exists>x xs. v = Some (x # xs))"
  shows "lower_headers wire k = Option.bind (map_of wire k) id"
  using assms
proof (induction wire rule: rev_induct)
  case Nil
  then show ?case by (simp add: lower_headers_def)
next
  case (snoc h wire)
  obtain n x xs where h: "h = (n, Some (x # xs))" "ToLower n = n" using snoc.prems(2)[of "fst h" "snd h"] by (cases h) auto
  have "lower_headers wire k = Option.bind (map_of wire k) id" by (rule snoc.IH) (use snoc.prems in auto)
  moreover have "map_of wire n = None" using snoc.prems(1) h by (auto simp: map_of_eq_None_iff)
  ultimately show ?case using h by (auto simp: lower_headers_def map_add_def split: option.splits)
qed

lemma lower_headers_shown:
  assumes "shows_map wire (forwardedAuthHeaders headers)"
  shows "lower_headers wire = forwardedAuthHeaders headers"
proof
  fix k
  have w: "(k, v) \<in> set wire \<longleftrightarrow> (\<exists>vs. forwardedAuthHeaders headers k = Some vs \<and> v = Some vs)" for k v
    using assms by (simp add: shows_map_def)
  have "lower_headers wire k = Option.bind (map_of wire k) id"
    by (rule lower_headers_wire) (use assms w forwarded_keys in \<open>auto simp: shows_map_def neq_Nil_conv\<close>)
  also have "\<dots> = forwardedAuthHeaders headers k"
  proof (cases "forwardedAuthHeaders headers k")
    case None
    then have "map_of wire k = None" using w by (auto simp: map_of_eq_None_iff)
    then show ?thesis using None by simp
  next
    case (Some vs)
    then have "map_of wire k = Some (Some vs)" using w assms by (intro map_of_is_SomeI) (auto simp: shows_map_def)
    then show ?thesis using Some by simp
  qed
  finally show "lower_headers wire k = forwardedAuthHeaders headers k" .
qed


lemma ValidateAuth_headers:
  assumes "\<And>k. k \<in> {ToLower HeaderRAV, ToLower HeaderSessionID} \<Longrightarrow> lower_headers hs k = lower_headers hs' k"
  shows "ValidateAuth l unmarshal dn s collector hs ip t1 t2 t3 st = ValidateAuth l unmarshal dn s collector hs' ip t1 t2 t3 st"
  unfolding ValidateAuth_def Let_def assms[OF insertI1] assms[OF insertI2[OF singletonI]] ..

text \<open>The service decides on the forwarded headers as it would on all headers of the request.\<close>

lemma forwarding_transparent:
  assumes "shows_map wire (forwardedAuthHeaders headers)"
  shows "ValidateAuth l unmarshal dn s collector wire ip t1 t2 t3 st =
    ValidateAuth l unmarshal dn s collector (readable headers) ip t1 t2 t3 st"
  by (rule ValidateAuth_headers) (auto simp: lower_headers_shown[OF assms] forwarded_lower forwardedAuthHeaderNames_def)

text \<open>What the data plane later reads of the context: the payer and the session.\<close>

definition dauth_ok :: "((string \<rightharpoonup> string) \<Rightarrow> string \<Rightarrow> string) \<Rightarrow> string \<Rightarrow> dauth_names \<Rightarrow> bool" where
  "dauth_ok get headerMeta dn \<longleftrightarrow>
     distinct [dn_OrganizationID dn, dn_IP dn, dn_ApiKeyID dn, headerMeta, HeaderSessionID] \<and>
     (\<forall>m. \<forall>k \<in> {dn_OrganizationID dn, HeaderSessionID}. get m k = (case m k of None \<Rightarrow> [] | Some v \<Rightarrow> v))"

lemma authenticated_context:
  assumes "dauth_ok get headerMeta dn"
    "Authenticate get headerMeta (\<lambda>m ip. ValidateAuth l unmarshal dn s collector (order m) ip t1 t2 t3 st) headers ip = Some (Inr ctx, st')"
  obtains trusted result sid where
    "ValidateAuth l unmarshal dn s collector (order (forwardedAuthHeaders headers)) ip t1 t2 t3 st = Some (Inr trusted, st')"
    "validateSession l sid (ar_OrganizationId result) t2 t3 (fst st) = (Inr (), fst st')"
    "trusted = trusted_headers dn result ip sid"
    "get ctx (dn_OrganizationID dn) = ar_OrganizationId result" "get ctx HeaderSessionID = sid"
proof -
  obtain trusted where v: "ValidateAuth l unmarshal dn s collector (order (forwardedAuthHeaders headers)) ip t1 t2 t3 st = Some (Inr trusted, st')"
    and ctx: "ctx = (if get trusted HeaderSessionID \<noteq> [] then trusted(headerMeta \<mapsto> get trusted HeaderSessionID) else trusted)"
    using assms(2) by (auto simp: Authenticate_def Let_def split: option.splits sum.splits)
  obtain result sid where r: "validateSession l sid (ar_OrganizationId result) t2 t3 (fst st) = (Inr (), fst st')"
    "trusted = trusted_headers dn result ip sid"
    using v by (rule ValidateAuth_Inr)
  have "get ctx (dn_OrganizationID dn) = ar_OrganizationId result" "get ctx HeaderSessionID = sid"
    using assms(1) unfolding ctx r(2) by (auto simp: dauth_ok_def trusted_headers_def Let_def)
  with v r show ?thesis using that by blast
qed



text \<open>The three forwarded names in a fixed order, as one order of the walk.\<close>

definition wire_order :: "(string \<rightharpoonup> string list) \<Rightarrow> (string \<times> string list option) list" where
  "wire_order m = map (\<lambda>k. (k, m k)) (filter (\<lambda>k. m k \<noteq> None) [ToLower HeaderRAV, ToLower HeaderSessionID, ''x-trace-id''])"

lemma shows_map_filter:
  assumes "distinct ns" "dom m \<subseteq> set ns"
  shows "shows_map (map (\<lambda>k. (k, m k)) (filter (\<lambda>k. m k \<noteq> None) ns)) m"
proof -
  have "map fst (map (\<lambda>k. (k, m k)) (filter (\<lambda>k. m k \<noteq> None) ns)) = filter (\<lambda>k. m k \<noteq> None) ns"
    by (simp add: comp_def)
  then show ?thesis unfolding shows_map_def using assms by (force simp: image_iff)
qed

lemma wire_order_shows: "shows_map (wire_order (forwardedAuthHeaders headers)) (forwardedAuthHeaders headers)"
  unfolding wire_order_def
proof (rule shows_map_filter)
  show "distinct [ToLower HeaderRAV, ToLower HeaderSessionID, ''x-trace-id'']" by code_simp
  show "dom (forwardedAuthHeaders headers) \<subseteq> set [ToLower HeaderRAV, ToLower HeaderSessionID, ''x-trace-id'']"
    using forwarded_lower[of headers] unfolding forwardedAuthHeaderNames_def by (auto split: if_splits)
qed

definition sample_request :: "(string \<times> string list) list" where
  "sample_request = [(''X-Sds-Rav'', [''AAAA'']), (''x-sds-session-id'', [''s'']), (''cookie'', [[CHR 0xFF]])]"

definition sample_get :: "(string \<rightharpoonup> string) \<Rightarrow> string \<Rightarrow> string" where
  "sample_get m k = (case m k of None \<Rightarrow> [] | Some v \<Rightarrow> v)"

lemma sample_request_headers:
  "lower_headers (readable sample_request) (ToLower HeaderRAV) = Some [''AAAA'']"
  "lower_headers (readable sample_request) (ToLower HeaderSessionID) = Some [''s'']"
  by code_simp+


end
