(* ===== verification/Sds_Sanitizer.thy ===== *)
theory Sds_Sanitizer
  imports Sds_Plugins
begin

text \<open>
  The filter in front of the auth service (\<open>provider/plugin/auth_sanitizer.go\<close>): it reads the request
  field by field, drops headers the service does not need and strings that are not UTF-8, and
  passes on the request as it was when there was nothing to drop.
\<close>

subsection \<open>The wire format\<close>

text \<open>
  The package \<open>protowire\<close> and the encoder of the message are parameters. The functions that consume give what they read
  and the number of bytes it took; a negative number is an error.
\<close>

record ValidateAuthRequest =
  va_UntrustedHeaders :: "string \<rightharpoonup> string list"
  va_Path :: string
  va_IpAddress :: string

record protowire =
  pw_ConsumeTag :: "string \<Rightarrow> (nat \<times> nat \<times> nat) result"
  pw_ConsumeBytes :: "string \<Rightarrow> (string \<times> nat) result"
  pw_ConsumeFieldValue :: "nat \<Rightarrow> nat \<Rightarrow> string \<Rightarrow> nat result"
  pw_Marshal :: "ValidateAuthRequest \<Rightarrow> string result"

definition BytesType :: nat where
  "BytesType = 2"

text \<open>
  Reading one item off the front. The outer option is the panic of a slice out of range or, in the loops
  below, running out of fuel.
\<close>

definition and_then :: "'a result option \<Rightarrow> ('a \<Rightarrow> 'b result option) \<Rightarrow> 'b result option" where
  "and_then m f = (case m of None \<Rightarrow> None | Some (Inl e) \<Rightarrow> Some (Inl e) | Some (Inr x) \<Rightarrow> f x)"

definition slice_from :: "nat \<Rightarrow> string \<Rightarrow> string option" where
  "slice_from n payload = (if n \<le> length payload then Some (drop n payload) else None)"

definition read_tag :: "protowire \<Rightarrow> string \<Rightarrow> (nat \<times> nat \<times> string) result option" where
  "read_tag w payload =
     (case pw_ConsumeTag w payload of
        Inl e \<Rightarrow> Some (Inl e)
      | Inr (num, typ, n) \<Rightarrow> map_option (\<lambda>rest. Inr (num, typ, rest)) (slice_from n payload))"

definition read_bytes :: "protowire \<Rightarrow> string \<Rightarrow> nat \<Rightarrow> string \<Rightarrow> (string \<times> string) result option" where
  "read_bytes w what typ payload =
     (if typ \<noteq> BytesType
      then Some (Inl (Errorf (''unexpected wire type for '' @ what @ '': %v'') [dec_string typ] None))
      else (case pw_ConsumeBytes w payload of
              Inl e \<Rightarrow> Some (Inl e)
            | Inr (v, n) \<Rightarrow> map_option (\<lambda>rest. Inr (v, rest)) (slice_from n payload)))"

definition skip_field :: "protowire \<Rightarrow> nat \<Rightarrow> nat \<Rightarrow> string \<Rightarrow> string result option" where
  "skip_field w num typ payload =
     (case pw_ConsumeFieldValue w num typ payload of
        Inl e \<Rightarrow> Some (Inl e)
      | Inr n \<Rightarrow> map_option Inr (slice_from n payload))"

subsection \<open>The values of a header\<close>

fun values_loop :: "protowire \<Rightarrow> nat \<Rightarrow> string \<Rightarrow> string list \<Rightarrow> bool \<Rightarrow> (string list \<times> bool) result option" where
  "values_loop w _ [] values changed = Some (Inr (values, changed))"
| "values_loop w 0 payload values changed = None"
| "values_loop w (Suc fuel) payload values changed =
     and_then (read_tag w payload) (\<lambda>(num, typ, rest).
       if num \<noteq> 1 \<or> typ \<noteq> BytesType then Some (Inl (Errorf ''not header values encoding'' [] None))
       else and_then (read_bytes w [] typ rest) (\<lambda>(value, rest).
         if \<not> utf8_Valid value then values_loop w fuel rest values True
         else values_loop w fuel rest (values @ [value]) changed))"

definition sanitizeAuthHeaderValuesMessage :: "protowire \<Rightarrow> string \<Rightarrow> (string list \<times> bool) result option" where
  "sanitizeAuthHeaderValuesMessage w payload = values_loop w (length payload) payload [] False"

text \<open>A payload that is not such a message is the single value of an older format.\<close>

definition sanitizeAuthHeaderValues :: "protowire \<Rightarrow> string \<Rightarrow> (string list \<times> bool) option" where
  "sanitizeAuthHeaderValues w payload =
     (case sanitizeAuthHeaderValuesMessage w payload of
        None \<Rightarrow> None
      | Some (Inr r) \<Rightarrow> Some r
      | Some (Inl _) \<Rightarrow> if \<not> utf8_Valid payload then Some ([], True) else Some ([payload], True))"

subsection \<open>An entry of the headers\<close>

fun entry_loop ::
  "protowire \<Rightarrow> nat \<Rightarrow> string \<Rightarrow> string \<Rightarrow> string list \<Rightarrow> bool \<Rightarrow> (string \<times> string list \<times> bool) result option" where
  "entry_loop w _ [] key values changed = Some (Inr (key, values, changed))"
| "entry_loop w 0 payload key values changed = None"
| "entry_loop w (Suc fuel) payload key values changed =
     and_then (read_tag w payload) (\<lambda>(num, typ, rest).
       if num = 1 then
         and_then (read_bytes w ''header key'' typ rest) (\<lambda>(keyBytes, rest).
           let sanitizedKey = ToLower (ToValidUTF8 keyBytes)
           in entry_loop w fuel rest sanitizedKey values (changed \<or> sanitizedKey \<noteq> keyBytes))
       else if num = 2 then
         and_then (read_bytes w ''header values'' typ rest) (\<lambda>(valueBytes, rest).
           case sanitizeAuthHeaderValues w valueBytes of
             None \<Rightarrow> None
           | Some (sanitizedValues, valuesChanged) \<Rightarrow>
               entry_loop w fuel rest key sanitizedValues (changed \<or> valuesChanged))
       else and_then (skip_field w num typ rest) (\<lambda>rest. entry_loop w fuel rest key values True))"

definition sanitizeAuthHeaderEntry :: "protowire \<Rightarrow> string \<Rightarrow> (string \<times> string list \<times> bool) result option" where
  "sanitizeAuthHeaderEntry w payload =
     and_then (entry_loop w (length payload) payload [] [] False) (\<lambda>(key, values, changed).
       if key = [] then Some (Inr ([], [], changed))
       else if key \<notin> forwardedAuthHeaderNames then Some (Inr ([], [], True))
       else Some (Inr (key, values, changed)))"

subsection \<open>The request\<close>

fun message_loop ::
  "protowire \<Rightarrow> nat \<Rightarrow> string \<Rightarrow> ValidateAuthRequest \<Rightarrow> bool \<Rightarrow> (ValidateAuthRequest \<times> bool) result option" where
  "message_loop w _ [] req changed = Some (Inr (req, changed))"
| "message_loop w 0 payload req changed = None"
| "message_loop w (Suc fuel) payload req changed =
     and_then (read_tag w payload) (\<lambda>(num, typ, rest).
       if num = 1 then
         and_then (read_bytes w ''untrusted_headers'' typ rest) (\<lambda>(entryBytes, rest).
           and_then (sanitizeAuthHeaderEntry w entryBytes) (\<lambda>(key, values, entryChanged).
             message_loop w fuel rest
               (if key \<noteq> [] \<and> values \<noteq> [] then req\<lparr>va_UntrustedHeaders := (va_UntrustedHeaders req)(key \<mapsto> values)\<rparr> else req)
               (changed \<or> entryChanged)))
       else if num = 2 then
         and_then (read_bytes w ''path'' typ rest) (\<lambda>(pathBytes, rest).
           let sanitizedPath = ToValidUTF8 pathBytes
           in message_loop w fuel rest (req\<lparr>va_Path := sanitizedPath\<rparr>) (changed \<or> sanitizedPath \<noteq> pathBytes))
       else if num = 3 then
         and_then (read_bytes w ''ip_address'' typ rest) (\<lambda>(ipBytes, rest).
           let sanitizedIP = ToValidUTF8 ipBytes
           in message_loop w fuel rest (req\<lparr>va_IpAddress := sanitizedIP\<rparr>) (changed \<or> sanitizedIP \<noteq> ipBytes))
       else and_then (skip_field w num typ rest) (\<lambda>rest. message_loop w fuel rest req True))"

definition empty_request :: ValidateAuthRequest where
  "empty_request = \<lparr>va_UntrustedHeaders = Map.empty, va_Path = [], va_IpAddress = []\<rparr>"

definition sanitizeValidateAuthMessage :: "protowire \<Rightarrow> string \<Rightarrow> (string \<times> bool) result option" where
  "sanitizeValidateAuthMessage w payload =
     and_then (message_loop w (length payload) payload empty_request False) (\<lambda>(req, changed).
       if \<not> changed then Some (Inr (payload, False))
       else (case pw_Marshal w req of
               Inl err \<Rightarrow> Some (Inl (Errorf ''marshal sanitized auth request: %w'' [] (Some err)))
             | Inr msg \<Rightarrow> Some (Inr (msg, True))))"

subsection \<open>Frames\<close>

definition byte_char :: "nat \<Rightarrow> char" where
  "byte_char n = char_of (n mod 256)"

definition frame_length :: "string \<Rightarrow> nat" where
  "frame_length payload =
     byte_of (payload ! 1) * 2 ^ 24 + byte_of (payload ! 2) * 2 ^ 16 + byte_of (payload ! 3) * 2 ^ 8 + byte_of (payload ! 4)"

definition frame :: "string \<Rightarrow> string" where
  "frame msg =
     [byte_char 0, byte_char (length msg div 2 ^ 24), byte_char (length msg div 2 ^ 16), byte_char (length msg div 2 ^ 8),
      byte_char (length msg)] @ msg"

definition sanitizeAuthPayload :: "protowire \<Rightarrow> string \<Rightarrow> string \<Rightarrow> (string \<times> bool) result option" where
  "sanitizeAuthPayload w contentType payload =
     (if payload = [] then Some (Inr (payload, False))
      else if HasPrefix contentType ''application/grpc'' then
        if length payload < 5 then Some (Inl (Errorf ''grpc frame too short'' [] None))
        else if byte_of (payload ! 0) \<noteq> 0
        then Some (Inl (Errorf ''grpc compression is not supported on auth sanitizer'' [] None))
        else if frame_length payload \<noteq> length payload - 5
        then Some (Inl (Errorf ''grpc frame length mismatch: frame=%d payload=%d''
                [dec_string (frame_length payload), dec_string (length payload - 5)] None))
        else and_then (sanitizeValidateAuthMessage w (drop 5 payload)) (\<lambda>(msg, changed).
          if \<not> changed then Some (Inr (payload, False)) else Some (Inr (frame msg, True)))
      else and_then (sanitizeValidateAuthMessage w payload) (\<lambda>(msg, changed).
          if \<not> changed then Some (Inr (payload, False)) else Some (Inr (msg, True))))"

text \<open>The handler in front of the service: the body that is passed on, or a bad request.\<close>

definition sanitizeAuthRequestBody :: "protowire \<Rightarrow> string \<Rightarrow> string result \<Rightarrow> (string \<times> bool) result option" where
  "sanitizeAuthRequestBody w contentType body =
     (case body of
        Inl err \<Rightarrow> Some (Inl (Errorf ''read body: %w'' [] (Some err)))
      | Inr rawBody \<Rightarrow>
          and_then (sanitizeAuthPayload w contentType rawBody) (\<lambda>(sanitized, changed).
            if \<not> changed then Some (Inr (rawBody, False)) else Some (Inr (sanitized, True))))"

definition wrapAuthTransport :: "protowire \<Rightarrow> (string \<Rightarrow> 'r) \<Rightarrow> (string \<Rightarrow> 'r) \<Rightarrow> string \<Rightarrow> string result \<Rightarrow> 'r option" where
  "wrapAuthTransport w badRequest next contentType body =
     (case sanitizeAuthRequestBody w contentType body of
        None \<Rightarrow> None
      | Some (Inl err) \<Rightarrow> Some (badRequest (''invalid auth request: '' @ Error_text err))
      | Some (Inr (body, _)) \<Rightarrow> Some (next body))"

subsection \<open>Every request ends, and what is passed on is clean\<close>

text \<open>A tag takes at least one byte, and nothing takes more bytes than there are.\<close>

definition wire_ok :: "protowire \<Rightarrow> bool" where
  "wire_ok w \<longleftrightarrow>
     (\<forall>p num typ n. pw_ConsumeTag w p = Inr (num, typ, n) \<longrightarrow> 0 < n \<and> n \<le> length p) \<and>
     (\<forall>p v n. pw_ConsumeBytes w p = Inr (v, n) \<longrightarrow> n \<le> length p) \<and>
     (\<forall>num typ p n. pw_ConsumeFieldValue w num typ p = Inr n \<longrightarrow> n \<le> length p)"

text \<open>A reading that ends, and whose result, if it is no error, satisfies \<open>Q\<close>.\<close>

definition ends_in :: "('a \<Rightarrow> bool) \<Rightarrow> 'a result option \<Rightarrow> bool" where
  "ends_in Q m \<longleftrightarrow> (case m of None \<Rightarrow> False | Some (Inl _) \<Rightarrow> True | Some (Inr x) \<Rightarrow> Q x)"

lemma ends_in_simps [simp]:
  "ends_in Q (Some (Inl e))" "ends_in Q (Some (Inr x)) = Q x" "\<not> ends_in Q None"
  by (simp_all add: ends_in_def)

lemma and_then_simps [simp]:
  "and_then None f = None" "and_then (Some (Inl e)) f = Some (Inl e)" "and_then (Some (Inr x)) f = f x"
  by (simp_all add: and_then_def)

lemma ends_in_cases:
  assumes "ends_in Q m"
  obtains e where "m = Some (Inl e)" | x where "m = Some (Inr x)" "Q x"
  using assms by (auto simp: ends_in_def split: option.splits sum.splits)

lemma ends_in_and_then:
  assumes "ends_in P m" "\<And>x. P x \<Longrightarrow> ends_in Q (f x)"
  shows "ends_in Q (and_then m f)"
  using assms(1) by (rule ends_in_cases) (simp_all add: assms(2))

lemma ends_in_tag:
  assumes "wire_ok w" "payload \<noteq> []"
  shows "ends_in (\<lambda>x. length (snd (snd x)) < length payload) (read_tag w payload)"
  using assms by (cases "pw_ConsumeTag w payload") (auto simp: wire_ok_def read_tag_def slice_from_def)

lemma ends_in_bytes: "wire_ok w \<Longrightarrow> ends_in (\<lambda>x. length (snd x) \<le> length payload) (read_bytes w what typ payload)"
  by (cases "pw_ConsumeBytes w payload") (auto simp: wire_ok_def read_bytes_def slice_from_def)

lemma ends_in_skip: "wire_ok w \<Longrightarrow> ends_in (\<lambda>rest. length rest \<le> length payload) (skip_field w num typ payload)"
  by (cases "pw_ConsumeFieldValue w num typ payload") (auto simp: wire_ok_def skip_field_def slice_from_def)

lemma tag_then:
  assumes "wire_ok w" "payload \<noteq> []" "\<And>num typ rest. length rest < length payload \<Longrightarrow> ends_in Q (f (num, typ, rest))"
  shows "ends_in Q (and_then (read_tag w payload) f)"
  by (rule ends_in_and_then[OF ends_in_tag[OF assms(1,2)]]) (use assms(3) in auto)

lemma bytes_then:
  assumes "wire_ok w" "\<And>v rest. length rest \<le> length payload \<Longrightarrow> ends_in Q (f (v, rest))"
  shows "ends_in Q (and_then (read_bytes w what typ payload) f)"
  by (rule ends_in_and_then[OF ends_in_bytes[OF assms(1)]]) (use assms(2) in auto)

lemma skip_then:
  assumes "wire_ok w" "\<And>rest. length rest \<le> length payload \<Longrightarrow> ends_in Q (f rest)"
  shows "ends_in Q (and_then (skip_field w num typ payload) f)"
  by (rule ends_in_and_then[OF ends_in_skip[OF assms(1)]]) (use assms(2) in auto)

lemma values_loop_clean:
  assumes "wire_ok w" "length payload \<le> fuel" "list_all utf8_Valid vals"
  shows "ends_in (\<lambda>x. list_all utf8_Valid (fst x)) (values_loop w fuel payload vals changed)"
  using assms(2,3)
proof (induction fuel arbitrary: payload vals changed)
  case (Suc fuel)
  show ?case
  proof (cases payload)
    case (Cons c cs)
    show ?thesis
      unfolding Cons values_loop.simps
      by (rule tag_then[OF assms(1)]) (use Suc Cons in \<open>auto intro!: bytes_then[OF assms(1)]\<close>)
  qed (use Suc in simp)
qed simp

lemma values_clean:
  assumes "wire_ok w"
  shows "\<exists>vs changed. sanitizeAuthHeaderValues w payload = Some (vs, changed) \<and> list_all utf8_Valid vs"
proof -
  have "ends_in (\<lambda>x. list_all utf8_Valid (fst x)) (sanitizeAuthHeaderValuesMessage w payload)"
    unfolding sanitizeAuthHeaderValuesMessage_def by (rule values_loop_clean[OF assms]) simp_all
  then show ?thesis by (rule ends_in_cases) (auto simp: sanitizeAuthHeaderValues_def)
qed

lemma entry_loop_clean:
  assumes "wire_ok w" "length payload \<le> fuel" "list_all utf8_Valid vals"
  shows "ends_in (\<lambda>x. list_all utf8_Valid (fst (snd x))) (entry_loop w fuel payload key vals changed)"
  using assms(2,3)
proof (induction fuel arbitrary: payload key vals changed)
  case (Suc fuel)
  show ?case
  proof (cases payload)
    case (Cons c cs)
    have step: "ends_in (\<lambda>x. list_all utf8_Valid (fst (snd x)))
        (case sanitizeAuthHeaderValues w v of None \<Rightarrow> None
         | Some (sanitizedValues, valuesChanged) \<Rightarrow> entry_loop w fuel rest key sanitizedValues (changed \<or> valuesChanged))"
      if "length rest \<le> fuel" for v rest
      using values_clean[OF assms(1), of v] Suc.IH[OF that] by auto
    show ?thesis
      unfolding Cons entry_loop.simps
      by (rule tag_then[OF assms(1)])
        (use Suc Cons step in \<open>auto simp: Let_def intro!: bytes_then[OF assms(1)] skip_then[OF assms(1)]\<close>)
  qed (use Suc in simp)
qed simp

lemma entry_clean:
  assumes "wire_ok w"
  shows "ends_in (\<lambda>x. list_all utf8_Valid (fst (snd x)) \<and> (fst x \<noteq> [] \<longrightarrow> fst x \<in> forwardedAuthHeaderNames))
    (sanitizeAuthHeaderEntry w payload)"
  unfolding sanitizeAuthHeaderEntry_def
  by (rule ends_in_and_then[OF entry_loop_clean[OF assms order_refl]]) auto

text \<open>A request with only the headers the service needs and only valid strings.\<close>

definition clean_request :: "ValidateAuthRequest \<Rightarrow> bool" where
  "clean_request req \<longleftrightarrow> utf8_Valid (va_Path req) \<and> utf8_Valid (va_IpAddress req) \<and>
     (\<forall>k vs. va_UntrustedHeaders req k = Some vs \<longrightarrow> k \<in> forwardedAuthHeaderNames \<and> vs \<noteq> [] \<and> list_all utf8_Valid vs)"

lemma clean_put:
  assumes "clean_request req" "key \<in> forwardedAuthHeaderNames" "vals \<noteq> []" "list_all utf8_Valid vals"
  shows "clean_request (req\<lparr>va_UntrustedHeaders := (va_UntrustedHeaders req)(key \<mapsto> vals)\<rparr>)"
  using assms by (auto simp: clean_request_def)

lemma message_loop_clean:
  assumes "wire_ok w" "length payload \<le> fuel" "clean_request req"
  shows "ends_in (\<lambda>x. clean_request (fst x)) (message_loop w fuel payload req changed)"
  using assms(2,3)
proof (induction fuel arbitrary: payload req changed)
  case (Suc fuel)
  show ?case
  proof (cases payload)
    case (Cons c cs)
    have upd: "clean_request (req\<lparr>va_Path := ToValidUTF8 v\<rparr>)" "clean_request (req\<lparr>va_IpAddress := ToValidUTF8 v\<rparr>)" for v
      using Suc.prems(2) by (auto simp: clean_request_def)
    have step: "ends_in (\<lambda>x. clean_request (fst x))
        (and_then (sanitizeAuthHeaderEntry w v) (\<lambda>(key, values, entryChanged). message_loop w fuel rest
           (if key \<noteq> [] \<and> values \<noteq> [] then req\<lparr>va_UntrustedHeaders := (va_UntrustedHeaders req)(key \<mapsto> values)\<rparr> else req)
           (changed \<or> entryChanged)))" if "length rest \<le> fuel" for v rest
    proof (rule ends_in_and_then[OF entry_clean[OF assms(1)]])
      fix x :: "string \<times> string list \<times> bool"
      assume x: "list_all utf8_Valid (fst (snd x)) \<and> (fst x \<noteq> [] \<longrightarrow> fst x \<in> forwardedAuthHeaderNames)"
      show "ends_in (\<lambda>x. clean_request (fst x)) (case x of (key, values, entryChanged) \<Rightarrow> message_loop w fuel rest
           (if key \<noteq> [] \<and> values \<noteq> [] then req\<lparr>va_UntrustedHeaders := (va_UntrustedHeaders req)(key \<mapsto> values)\<rparr> else req)
           (changed \<or> entryChanged))"
        using x Suc.prems(2) by (cases x) (auto intro!: Suc.IH[OF that] clean_put)
    qed
    show ?thesis
      unfolding Cons message_loop.simps
      by (rule tag_then[OF assms(1)])
        (use Suc Cons step upd in \<open>auto simp: Let_def intro!: bytes_then[OF assms(1)] skip_then[OF assms(1)]\<close>)
  qed (use Suc in simp)
qed simp


lemma message_clean:
  assumes "wire_ok w"
  shows "ends_in (\<lambda>(out, changed). if changed then \<exists>req. clean_request req \<and> pw_Marshal w req = Inr out else out = payload)
    (sanitizeValidateAuthMessage w payload)"
proof -
  have "clean_request empty_request" by (simp add: clean_request_def empty_request_def)
  from message_loop_clean[OF assms order_refl this, of payload False] show ?thesis
    unfolding sanitizeValidateAuthMessage_def by (rule ends_in_and_then) (auto split: sum.splits)
qed

subsection \<open>A clean request is passed on as it is\<close>

text \<open>
  The encoding of a field with a string: its tag, then the length and the string. Reading what was
  written gives it back.
\<close>

definition wire_inverse :: "protowire \<Rightarrow> (nat \<Rightarrow> string) \<Rightarrow> (string \<Rightarrow> string) \<Rightarrow> bool" where
  "wire_inverse w tag bytes \<longleftrightarrow>
     (\<forall>num rest. tag num \<noteq> [] \<and> pw_ConsumeTag w (tag num @ rest) = Inr (num, BytesType, length (tag num))) \<and>
     (\<forall>v rest. pw_ConsumeBytes w (bytes v @ rest) = Inr (v, length (bytes v)))"

definition item :: "(nat \<Rightarrow> string) \<Rightarrow> (string \<Rightarrow> string) \<Rightarrow> nat \<Rightarrow> string \<Rightarrow> string" where
  "item tag bytes num v = tag num @ bytes v"

definition values_message :: "(nat \<Rightarrow> string) \<Rightarrow> (string \<Rightarrow> string) \<Rightarrow> string list \<Rightarrow> string" where
  "values_message tag bytes vs = concat (map (item tag bytes 1) vs)"

definition entry_message :: "(nat \<Rightarrow> string) \<Rightarrow> (string \<Rightarrow> string) \<Rightarrow> string \<times> string list \<Rightarrow> string" where
  "entry_message tag bytes h = item tag bytes 1 (fst h) @ item tag bytes 2 (values_message tag bytes (snd h))"

definition request_message ::
  "(nat \<Rightarrow> string) \<Rightarrow> (string \<Rightarrow> string) \<Rightarrow> (string \<times> string list) list \<Rightarrow> string \<Rightarrow> string \<Rightarrow> string" where
  "request_message tag bytes hs path ip =
     concat (map (\<lambda>h. item tag bytes 1 (entry_message tag bytes h)) hs) @
     (if path = [] then [] else item tag bytes 2 path) @ (if ip = [] then [] else item tag bytes 3 ip)"

lemma read_item:
  assumes "wire_inverse w tag bytes"
  shows "read_tag w (item tag bytes num v @ rest) = Some (Inr (num, BytesType, bytes v @ rest))"
    "read_bytes w what BytesType (bytes v @ rest) = Some (Inr (v, rest))"
    "\<exists>c cs. item tag bytes num v @ rest = c # cs" "length rest < length (item tag bytes num v @ rest)"
proof -
  have t: "tag num \<noteq> []" "pw_ConsumeTag w (tag num @ r) = Inr (num, BytesType, length (tag num))"
    "pw_ConsumeBytes w (bytes v @ r) = Inr (v, length (bytes v))" for r
    using assms by (simp_all add: wire_inverse_def)
  show "read_tag w (item tag bytes num v @ rest) = Some (Inr (num, BytesType, bytes v @ rest))"
    "read_bytes w what BytesType (bytes v @ rest) = Some (Inr (v, rest))"
    by (simp_all add: t read_tag_def read_bytes_def slice_from_def item_def)
  show "\<exists>c cs. item tag bytes num v @ rest = c # cs" "length rest < length (item tag bytes num v @ rest)"
    using t(1) by (cases "tag num"; simp add: item_def)+
qed

lemma values_loop_item:
  assumes "wire_inverse w tag bytes" "utf8_Valid v"
  shows "values_loop w (Suc fuel) (item tag bytes 1 v @ rest) vals changed = values_loop w fuel rest (vals @ [v]) changed"
proof -
  obtain c cs where p: "item tag bytes 1 v @ rest = c # cs" using read_item(3)[OF assms(1)] by blast
  have "read_tag w (c # cs) = Some (Inr (1, BytesType, bytes v @ rest))" using read_item(1)[OF assms(1), of 1 v rest] p by simp
  then show ?thesis using assms(2) read_item(2)[OF assms(1)] unfolding p by simp
qed

lemma values_loop_message:
  assumes "wire_inverse w tag bytes" "list_all utf8_Valid vs" "length (values_message tag bytes vs) \<le> fuel"
  shows "values_loop w fuel (values_message tag bytes vs) vals changed = Some (Inr (vals @ vs, changed))"
  using assms(2,3)
proof (induction vs arbitrary: fuel vals)
  case Nil
  then show ?case by (simp add: values_message_def)
next
  case (Cons v vs)
  have m: "values_message tag bytes (v # vs) = item tag bytes 1 v @ values_message tag bytes vs" by (simp add: values_message_def)
  have l: "length (values_message tag bytes vs) < fuel"
    using Cons.prems(2) read_item(4)[OF assms(1), of "values_message tag bytes vs" 1 v] unfolding m by linarith
  then obtain f where f: "fuel = Suc f" by (cases fuel) auto
  show ?case
    using Cons.prems l values_loop_item[OF assms(1), of v f "values_message tag bytes vs"] Cons.IH[of f "vals @ [v]"] by (simp add: m f)
qed

lemma values_of_message:
  assumes "wire_inverse w tag bytes" "list_all utf8_Valid vs"
  shows "sanitizeAuthHeaderValues w (values_message tag bytes vs) = Some (vs, False)"
  using values_loop_message[OF assms order_refl, of "[]" False]
  by (simp add: sanitizeAuthHeaderValues_def sanitizeAuthHeaderValuesMessage_def)

lemma forwarded_name_clean:
  assumes "k \<in> forwardedAuthHeaderNames"
  shows "k \<noteq> []" "ToLower (ToValidUTF8 k) = k"
proof -
  have "utf8_Valid ''x-sds-rav''" "utf8_Valid ''x-sds-session-id''" "utf8_Valid ''x-trace-id''" by code_simp+
  then have "utf8_Valid k \<and> k \<noteq> [] \<and> ToLower k = k"
    using assms by (auto simp: forwardedAuthHeaderNames_def ToLower_def HeaderRAV_def HeaderSessionID_def to_lower_char_def)
  then show "k \<noteq> []" "ToLower (ToValidUTF8 k) = k" by (simp_all add: ToValidUTF8_id)
qed

lemma entry_of_message:
  assumes "wire_inverse w tag bytes" "k \<in> forwardedAuthHeaderNames" "list_all utf8_Valid vs"
  shows "sanitizeAuthHeaderEntry w (entry_message tag bytes (k, vs)) = Some (Inr (k, vs, False))"
proof -
  let ?v = "values_message tag bytes vs"
  let ?r = "item tag bytes 2 ?v"
  obtain c cs d ds where p: "item tag bytes 1 k @ ?r = c # cs" "?r @ [] = d # ds" using read_item(3)[OF assms(1)] by metis
  have t: "read_tag w (c # cs) = Some (Inr (1, BytesType, bytes k @ ?r))" "read_tag w (d # ds) = Some (Inr (2, BytesType, bytes ?v @ []))"
    using read_item(1)[OF assms(1), of 1 k ?r] read_item(1)[OF assms(1), of 2 ?v "[]"] p by simp_all
  have "length (c # cs) > length (d # ds)" "length (d # ds) > 0"
    using read_item(4)[OF assms(1), of ?r 1 k] p(2) unfolding p(1) by simp_all
  then obtain f where f: "length (c # cs) = Suc (Suc f)" by (cases "length (c # cs)"; cases "length (c # cs) - 1") auto
  have "entry_loop w (length (c # cs)) (c # cs) [] [] False = Some (Inr (k, vs, False))"
    unfolding f using t p(2) read_item(2)[OF assms(1)] read_item(2)[OF assms(1), of _ ?v "[]"]
      forwarded_name_clean[OF assms(2)] values_of_message[OF assms(1,3)]
    by (simp add: Let_def)
  then show ?thesis
    using p(1) assms(2) forwarded_name_clean[OF assms(2)] by (simp add: sanitizeAuthHeaderEntry_def entry_message_def)
qed

definition clean_parts :: "(string \<times> string list) list \<Rightarrow> string \<Rightarrow> string \<Rightarrow> bool" where
  "clean_parts hs path ip \<longleftrightarrow> utf8_Valid path \<and> utf8_Valid ip \<and>
     list_all (\<lambda>(k, vs). k \<in> forwardedAuthHeaderNames \<and> list_all utf8_Valid vs) hs"


lemma message_loop_string:
  assumes "wire_inverse w tag bytes" "utf8_Valid v" "num = 2 \<or> num = 3" "length (item tag bytes num v @ rest) \<le> fuel"
  shows "\<exists>fuel' req'. length rest \<le> fuel' \<and>
    message_loop w fuel (item tag bytes num v @ rest) req False = message_loop w fuel' rest req' False"
proof -
  obtain c cs where p: "item tag bytes num v @ rest = c # cs" using read_item(3)[OF assms(1)] by blast
  obtain f where f: "fuel = Suc f" "length rest \<le> f"
    using assms(4) read_item(4)[OF assms(1), of rest num v] by (cases fuel) auto
  have "read_tag w (c # cs) = Some (Inr (num, BytesType, bytes v @ rest))" using read_item(1)[OF assms(1), of num v rest] p by simp
  then show ?thesis
    using assms(2,3) read_item(2)[OF assms(1)] f unfolding p f(1)
    by (intro exI[of _ f] exI[of _ "if num = 2 then req\<lparr>va_Path := v\<rparr> else req\<lparr>va_IpAddress := v\<rparr>"])
      (auto simp: ToValidUTF8_id Let_def)
qed

lemma message_loop_header:
  assumes "wire_inverse w tag bytes" "k \<in> forwardedAuthHeaderNames" "list_all utf8_Valid vs"
    "length (item tag bytes 1 (entry_message tag bytes (k, vs)) @ rest) \<le> fuel"
  shows "\<exists>fuel' req'. length rest \<le> fuel' \<and>
    message_loop w fuel (item tag bytes 1 (entry_message tag bytes (k, vs)) @ rest) req False = message_loop w fuel' rest req' False"
proof -
  let ?v = "entry_message tag bytes (k, vs)"
  obtain c cs where p: "item tag bytes 1 ?v @ rest = c # cs" using read_item(3)[OF assms(1)] by blast
  obtain f where f: "fuel = Suc f" "length rest \<le> f"
    using assms(4) read_item(4)[OF assms(1), of rest 1 ?v] by (cases fuel) auto
  have "read_tag w (c # cs) = Some (Inr (1, BytesType, bytes ?v @ rest))" using read_item(1)[OF assms(1), of 1 ?v rest] p by simp
  then show ?thesis
    using read_item(2)[OF assms(1)] entry_of_message[OF assms(1-3)] f unfolding p f(1) by auto
qed

lemma message_loop_headers:
  assumes "wire_inverse w tag bytes" "list_all (\<lambda>(k, vs). k \<in> forwardedAuthHeaderNames \<and> list_all utf8_Valid vs) hs"
    "length (concat (map (\<lambda>h. item tag bytes 1 (entry_message tag bytes h)) hs) @ rest) \<le> fuel"
  shows "\<exists>fuel' req'. length rest \<le> fuel' \<and>
    message_loop w fuel (concat (map (\<lambda>h. item tag bytes 1 (entry_message tag bytes h)) hs) @ rest) req False =
      message_loop w fuel' rest req' False"
  using assms(2,3)
proof (induction hs arbitrary: fuel req)
  case Nil
  then show ?case by auto
next
  case (Cons h hs)
  let ?rest = "concat (map (\<lambda>h. item tag bytes 1 (entry_message tag bytes h)) hs) @ rest"
  obtain k vs where h: "h = (k, vs)" by (cases h)
  have "\<exists>fuel' req'. length ?rest \<le> fuel' \<and>
      message_loop w fuel (item tag bytes 1 (entry_message tag bytes (k, vs)) @ ?rest) req False = message_loop w fuel' ?rest req' False"
    by (rule message_loop_header[OF assms(1)]) (use Cons.prems in \<open>auto simp: h\<close>)
  then obtain fuel' req' where f: "length ?rest \<le> fuel'"
    "message_loop w fuel (item tag bytes 1 (entry_message tag bytes (k, vs)) @ ?rest) req False = message_loop w fuel' ?rest req' False"
    by blast
  with Cons.IH[OF _ f(1), of req'] Cons.prems(1) show ?case by (simp add: h)
qed

lemma request_unchanged:
  assumes "wire_inverse w tag bytes" "clean_parts hs path ip"
  shows "sanitizeValidateAuthMessage w (request_message tag bytes hs path ip) = Some (Inr (request_message tag bytes hs path ip, False))"
proof -
  let ?ip = "if ip = [] then [] else item tag bytes 3 ip"
  let ?path = "if path = [] then [] else item tag bytes 2 path"
  let ?m = "request_message tag bytes hs path ip"
  obtain f1 r1 where 1: "length (?path @ ?ip) \<le> f1" "message_loop w (length ?m) ?m empty_request False = message_loop w f1 (?path @ ?ip) r1 False"
    using message_loop_headers[OF assms(1), of hs "?path @ ?ip" "length ?m" empty_request] assms(2)
    unfolding request_message_def clean_parts_def by auto
  obtain f2 r2 where 2: "length ?ip \<le> f2" "message_loop w f1 (?path @ ?ip) r1 False = message_loop w f2 ?ip r2 False"
    using message_loop_string[OF assms(1), of path 2 ?ip f1 r1] 1(1) assms(2) by (cases "path = []") (auto simp: clean_parts_def)
  obtain f3 r3 where 3: "message_loop w f2 (?ip @ []) r2 False = message_loop w f3 [] r3 False"
    using message_loop_string[OF assms(1), of ip 3 "[]" f2 r2] 2(1) assms(2) by (cases "ip = []") (auto simp: clean_parts_def)
  have "message_loop w (length ?m) ?m empty_request False = Some (Inr (r3, False))" using 1(2) 2(2) 3 by simp
  then show ?thesis by (simp add: sanitizeValidateAuthMessage_def)
qed


lemma byte_of_byte_char: "byte_of (byte_char n) = n mod 256"
  by (simp add: byte_of_def byte_char_def)

lemma big_endian_bytes:
  assumes "n < (4294967296 :: nat)"
  shows "n div 16777216 mod 256 * 16777216 + n div 65536 mod 256 * 65536 + n div 256 mod 256 * 256 + n mod 256 = n"
proof -
  define a b c where abc: "a = n div 256" "b = a div 256" "c = b div 256"
  have "n div 65536 = b" "n div 16777216 = c"
    unfolding abc using div_mult2_eq[of n 256 256] div_mult2_eq[of n 65536 256] by simp_all
  moreover have "c < 256" unfolding abc using assms by (simp add: div_less_iff_less_mult)
  moreover have "n = 256 * a + n mod 256" "a = 256 * b + a mod 256" "b = 256 * c + b mod 256"
    unfolding abc by simp_all
  ultimately show ?thesis unfolding abc(1)[symmetric] by simp
qed

lemma frame_length_frame:
  assumes "length msg < 2 ^ 32"
  shows "frame_length (frame msg) = length msg"
  using big_endian_bytes[of "length msg"] assms
  unfolding frame_length_def frame_def by (simp add: byte_of_byte_char)


text \<open>The format itself, with numbers in groups of seven bits, for requests of any size.\<close>

function enc_varint :: "nat \<Rightarrow> string" where
  "enc_varint n = (if n < 128 then [byte_char n] else byte_char (n mod 128 + 128) # enc_varint (n div 128))"
  by auto
termination
  by (relation "measure id") auto

declare enc_varint.simps [simp del]

fun dec_varint :: "string \<Rightarrow> (nat \<times> nat) option" where
  "dec_varint [] = None"
| "dec_varint (c # cs) =
     (if byte_of c < 128 then Some (byte_of c, 1)
      else map_option (\<lambda>(v, n). (byte_of c - 128 + 128 * v, Suc n)) (dec_varint cs))"

lemma dec_enc_varint: "dec_varint (enc_varint n @ rest) = Some (n, length (enc_varint n))"
proof (induction n rule: enc_varint.induct)
  case (1 n)
  show ?case
  proof (cases "n < 128")
    case True
    then show ?thesis by (subst (1 2) enc_varint.simps) (simp add: byte_of_byte_char)
  next
    case False
    have "(n mod 128 + 128) mod 256 = n mod 128 + 128" by (simp add: less_imp_le)
    then show ?thesis
      using False 1[OF False] by (subst (1 2) enc_varint.simps) (simp add: byte_of_byte_char)
  qed
qed

lemma dec_varint_bounds: "dec_varint p = Some (v, n) \<Longrightarrow> 0 < n \<and> n \<le> length p"
  by (induction p arbitrary: v n rule: dec_varint.induct) (auto split: if_splits)

definition std_bytes :: "string \<Rightarrow> string" where
  "std_bytes v = enc_varint (length v) @ v"

definition std_tag :: "nat \<Rightarrow> string" where
  "std_tag num = enc_varint (8 * num + 2)"

definition std_ConsumeBytes :: "string \<Rightarrow> (string \<times> nat) result" where
  "std_ConsumeBytes p =
     (case dec_varint p of
        Some (l, n) \<Rightarrow> if n + l \<le> length p then Inr (take l (drop n p), n + l) else Inl (Sentinel ''unexpected EOF'')
      | None \<Rightarrow> Inl (Sentinel ''unexpected EOF''))"

definition std_wire :: protowire where
  "std_wire =
     \<lparr>pw_ConsumeTag = (\<lambda>p. case dec_varint p of Some (v, n) \<Rightarrow> Inr (v div 8, v mod 8, n) | None \<Rightarrow> Inl (Sentinel ''unexpected EOF'')),
      pw_ConsumeBytes = std_ConsumeBytes,
      pw_ConsumeFieldValue = (\<lambda>num typ p.
        if typ = 0 then (case dec_varint p of Some (_, n) \<Rightarrow> Inr n | None \<Rightarrow> Inl (Sentinel ''unexpected EOF''))
        else if typ = 2 then (case std_ConsumeBytes p of Inr (_, n) \<Rightarrow> Inr n | Inl e \<Rightarrow> Inl e)
        else Inl (Sentinel ''cannot parse reserved wire type'')),
      pw_Marshal = (\<lambda>req. Inr (request_message std_tag std_bytes
        (List.map_filter (\<lambda>(k, vs). map_option (Pair k) vs) (wire_order (va_UntrustedHeaders req))) (va_Path req) (va_IpAddress req)))\<rparr>"

lemma std_wire_ok: "wire_ok std_wire"
  by (auto simp: wire_ok_def std_wire_def std_ConsumeBytes_def split: option.splits if_splits sum.splits
      dest: dec_varint_bounds)

lemma std_wire_inverse: "wire_inverse std_wire std_tag std_bytes"
proof -
  have "enc_varint n \<noteq> []" for n by (subst enc_varint.simps) simp
  moreover have "Suc (Suc (8 * n)) div 8 = n \<and> Suc (Suc (8 * n)) mod 8 = 2" for n by presburger
  ultimately show ?thesis
    by (simp add: wire_inverse_def std_wire_def std_ConsumeBytes_def std_tag_def std_bytes_def dec_enc_varint BytesType_def)
qed


end
