(* ===== verification/Spec2Isabelle.thy ===== *)
theory Spec2Isabelle
  imports Sds_Concurrency Sds_Collect Sds_Round Sds_Sanitizer
begin

text \<open>
  \<^bold>\<open>The Substreams Data Service, Community Edition: a verification development.\<close>

  \<^bold>\<open>The program.\<close> A consumer streams blockchain data from a provider and pays for it with
  vouchers (receipt aggregate vouchers, RAVs) that a contract on Arbitrum, Graph Horizon's
  collector, turns into payments from the consumer's escrow. The parts and how they meet:

  \<^item> The consumer's sidecar finds a provider, opens a session with the provider's gateway, proxies
    the stream and signs a new voucher whenever the gateway asks for one.
  \<^item> The provider's gateway (\<open>provider/gateway\<close>) opens sessions, watches the usage that the usage
    service (\<open>provider/usage\<close>) meters, asks for vouchers over a payment stream, checks and stores
    them, and ends sessions whose escrow runs short.
  \<^item> The data plane asks the auth service (\<open>provider/auth\<close>) who a request's voucher speaks for and
    the session service (\<open>provider/session\<close>) for worker slots.
  \<^item> All provider services share one repository (\<open>provider/repository\<close>).
  \<^item> The operator API (\<open>handler_operator.go\<close>) shows sessions and vouchers and moves the settlement
    records; the collect command and its daemon (\<open>cmd/sds\<close>) settle them on chain through
    \<open>contracts/chain\<close> and \<open>contracts/horizon\<close>.

  \<^bold>\<open>Theories, in the order of imports.\<close>

  \<^item> \<open>Sds_Prelude\<close>: Go's integers, strings, errors and time. \<open>Sds_Encoding\<close>: decimal, hexadecimal
    and big-endian conversions with their round trips.
  \<^item> \<open>Sds_Grt\<close> (\<open>grt.go\<close>): token amounts, the reader and printer, the usage price. Exactness of the
    reader, of the codecs and of the price up to saturation.
  \<^item> \<open>Sds_Horizon\<close> (\<open>horizon/\<close>): receipts, vouchers, the EIP-712 hash, signing, signature
    normalisation and the aggregator. The hash binds every field up to an exhibited collision;
    an aggregate is the exact sum of receipts from accepted signers; the two malleated forms of a
    signature have one normal form.
  \<^item> \<open>Sds_Proto\<close> (\<open>types.proto\<close>, \<open>types_helpers.go\<close>, \<open>sidecar/convert.go\<close>): messages and
    conversions; vouchers survive the wire.
  \<^item> \<open>Sds_Repository\<close> (\<open>repository.go\<close>), \<open>Sds_InMemory\<close> (\<open>inmemory.go\<close>): the stored records and
    every operation of the in-memory backend. The locale \<open>tracked_store\<close> states what a keyed table
    promises and is interpreted on the sessions and on the settlement records. \<open>Sds_Lifecycle\<close>:
    the operations as a transition system; the life cycles of sessions and settlement records.
  \<^item> \<open>Sds_Session_Service\<close> (\<open>provider/session\<close>): worker slots and quotas, over the locale
    \<open>worker_ledger\<close>. \<open>Sds_Concurrency\<close>: overlapping updates and returns as interleaved steps.
  \<^item> \<open>Sds_Usage_Service\<close> (\<open>usage.go\<close>, \<open>provider/usage\<close>): counters and the report handler; a report
    charges exactly what it meters.
  \<^item> \<open>Sds_Base64\<close>: the standard library's encoding. \<open>Sds_Lib\<close>: the third-party functions as one
    parameter. \<open>Sds_Auth\<close> (\<open>provider/auth\<close>, \<open>internal/operatorauth\<close>): who is let in.
  \<^item> \<open>Sds_Chain\<close> (\<open>sidecar/*_querier.go\<close>): the contract queries.
  \<^item> \<open>Sds_Runtime\<close> (\<open>funds.go\<close>, \<open>rav_request_runtime.go\<close>, \<open>runtime_manager.go\<close>): the funds check,
    requests in flight and live streams. \<open>Sds_Gateway\<close> (the handlers of \<open>provider/gateway\<close>).
    \<open>Sds_Payment\<close>: the ledger invariant over every run of the gateway. \<open>Sds_Gateway_Flow\<close>: what each
    handler guarantees.
  \<^item> \<open>Sds_Operator\<close> (\<open>handler_operator.go\<close>): the operator API and its refinement of an abstract
    register of settlements.
  \<^item> \<open>Sds_Tx\<close> (\<open>contracts/chain/client.go\<close>, \<open>contracts/horizon/data_service.go\<close>): building, sending and
    awaiting transactions. \<open>Sds_Collect\<close> (\<open>provider_operator_collect*.go\<close>): settlement of one record
    and the sweeps of the daemon over a network that loses messages, over the locale
    \<open>settlement_register\<close> interpreted on the operator API.
  \<^item> \<open>Sds_Sidecar\<close> (\<open>sidecar/\<close>): the session a sidecar keeps, endpoints, transport. \<open>Sds_Oracle\<close>
    (\<open>oracle/\<close>, \<open>consumer/sidecar/discovery.go\<close>): the catalog, the network of a package and the
    selection of a provider; the selection is the catalog's and its prices are a ceiling.
  \<^item> \<open>Sds_Payment_Client\<close> (\<open>payment_session_manager.go\<close>): the client of the payment stream with one step
    per locked section; no interleaving makes it spin or leaves a caller waiting. \<open>Sds_Consumer\<close>
    (\<open>sidecar.go\<close>, \<open>rav_request_signing.go\<close>, \<open>managed_session.go\<close>, \<open>handler_*.go\<close>): signing and opening
    sessions. \<open>Sds_Ingress\<close> (\<open>ingress.go\<close>): the control thread, the end of a stream and the proxies.
  \<^item> \<open>Sds_Plugin_Session\<close> (\<open>provider/plugin/session.go\<close>): the worker pool of the data plane against the
    session service; no interleaving forgets a worker. \<open>Sds_Plugin_Metering\<close> (\<open>metering.go\<close>): queued events are
    reported in order and once, and charged. \<open>Sds_Plugins\<close> (\<open>plugin.go\<close>, \<open>auth.go\<close>, the \<open>Register\<close>
    functions): what the auth plugin lets in can borrow a worker. \<open>Sds_Utf8\<close> and \<open>Sds_Sanitizer\<close>
    (\<open>auth_sanitizer.go\<close>): the filter in front of the auth service, with the length of the body as fuel,
    enough because every turn of a loop takes at least the byte of a tag.
  \<^item> \<open>Sds_Round\<close>: the two ends of a session in agreement, and the two halves of a round of payment.
  \<^item> This theory: the consumer and the provider together. A session opens on both sides with one
    voucher; a round of payment leaves both with the same new voucher and nothing owed; the data
    stream of a session just opened is let in by the provider's auth service.
  \<^bold>\<open>How code is rendered.\<close> A struct is a record and a method a function from the old to the new
  state; a field of pointer type is an option; an error is the left of a sum; a panic is the
  outer \<open>None\<close>. \<open>uint64\<close> is a 64-bit word and Go's \<open>int\<close> is wrapped to 64 bits where it is computed
  with. A reading of the clock, of the random source and the iteration order of a hash map are
  arguments. Operations on one session are exclusive by the locks of the code and therefore one
  step each; where the code releases its locks in between, the theories give one step per locked
  section and quantify over all interleavings.

  \<^bold>\<open>Parameters.\<close> Code that is not part of the repository is an argument: Keccak, ECDSA signing and
  recovery, the Ethereum address and signature types, \<open>uint256.FromBig\<close> (record \<open>eth_lib\<close>, with the
  documented behaviour \<open>lib_ok\<close> and the instance \<open>lib_std\<close>), the protobuf and YAML decoders, the
  contract interface encoder, the chain node (records \<open>node\<close> and \<open>ethclient\<close>), the network.

  \<^bold>\<open>Bounds and fuel.\<close> Only the three loops of \<open>Sds_Sanitizer\<close> take fuel, the length of what
  they read. The other loops over data recurse on the data,
  the wait for a receipt recurses on the number of polls that fit the timeout, the doubling of the
  retry delay on the attempts, and loops that serve events are run over the list of events.

  \<^bold>\<open>Not modelled.\<close>
  The PostgreSQL backend (\<open>provider/repository/psql\<close>): its behaviour is that of SQL statements.
  Web servers, flags, log lines and terminal output; the generated protobuf code under \<open>pb/\<close>; the local development chain
  (\<open>horizon/devenv\<close>, \<open>devel\<close>, \<open>examples\<close>, \<open>test\<close>); operator metrics; the funding, signer and voucher
  tools of \<open>cmd/sds\<close>. \<open>strings.ToLower\<close> and \<open>ToUpper\<close> are modelled on ASCII letters only, and \<open>%q\<close>
  renders a character outside ASCII by its bytes. The package \<open>net/url\<close> is a parameter. So are the
  wire format and the trusted headers of the libraries that the data-plane plugins (\<open>provider/plugin\<close>)
  use; the web server of their gateway is not modelled.
\<close>

subsection \<open>Opening a session\<close>

text \<open>
  The consumer's call reaches the gateway: the answer is the handler's, an unreachable service if
  the handler panics.
\<close>

definition gateway_reply ::
  "eth_lib \<Rightarrow> Gateway \<Rightarrow> node \<Rightarrow> bytes \<Rightarrow> (nat \<Rightarrow> time) \<Rightarrow> GatewayState \<Rightarrow> StartSessionRequest \<Rightarrow> StartSessionResponse rpc" where
  "gateway_reply l g n random clk st req =
     (case StartSession l g n req random clk st of
        None \<Rightarrow> Inl (CodeUnavailable, Sentinel ''unavailable'') | Some (res, _) \<Rightarrow> res)"

lemma url_solid:
  assumes "c \<in> set (RawURLEncoding_EncodeToString bs)"
  shows "solid c"
proof -
  have "\<forall>c\<in>set urlAlphabet. solid c" by (simp add: urlAlphabet_def solid_def)
  then have "solid (urlAlphabet ! k)" if "k < 64" for k using that by simp
  then show ?thesis
    using assms by (induction bs rule: RawURLEncoding_EncodeToString.induct) auto
qed

lemma GenerateID_trim: "TrimSpace (GenerateID random) = GenerateID random"
proof (cases "GenerateID random")
  case (Cons c cs)
  then show ?thesis
    by (intro TrimSpace_solid) (use url_solid[of _ random] in \<open>auto simp: GenerateID_def\<close>)
qed simp

lemma StartSession_accepted:
  assumes "StartSession l g n req random clk st = Some (Inr resp, st')" "ssr_Accepted resp"
  obtains payer ds rav where "start_account req = Inr (payer, gw_serviceProvider g, ds)"
    "ProtoSignedRAVToHorizon (lib_fromBig l) (lib_newSig l) (ssq_InitialRav req) = Inr rav"
    "ssr_SessionId resp = GenerateID random" "ssr_UseRav resp = ssq_InitialRav req"
    "sessions (gs_repo st') (GenerateID random) = Some (new_consumer_session g (GenerateID random) payer ds rav (clk 2))"
proof -
  have id: "ses_ID (new_consumer_session g i payer ds rav now) = i" for i payer ds rav now
    by (simp add: new_consumer_session_def NewSession_def MarkBaseline_def Let_def)
  obtain payer ds rav r where a: "start_account req = Inr (payer, gw_serviceProvider g, ds)"
      "ProtoSignedRAVToHorizon (lib_fromBig l) (lib_newSig l) (ssq_InitialRav req) = Inr rav"
      "ssr_SessionId resp = GenerateID random" "ssr_UseRav resp = ssq_InitialRav req" "gs_repo st' = r"
      "SessionCreate (lib_pretty l) (Some (new_consumer_session g (GenerateID random) payer ds rav (clk 2))) (clk 3)
         (gs_repo st) = (Inr (), r)"
    using assms unfolding StartSession_def Let_def
    by (auto simp: start_rejected_def AddressesEqual_def SessionCreate_def split: sum.splits prod.splits if_splits option.splits)
  have "sessions r (GenerateID random) = Some (new_consumer_session g (GenerateID random) payer ds rav (clk 2))"
    using a(6) by (auto simp: SessionCreate_def id split: if_splits sum.splits)
  then show thesis using that[OF a(1-4)] a(5) by simp
qed

lemma start_request_account:
  assumes "start_account (start_request l payer receiver ds rav) = Inr (p, r, d)"
  shows "p = payer" "r = receiver" "d = ds" "length payer = 20" "length receiver = 20" "length ds = 20"
  using assms by (auto simp: start_account_def start_request_def invalid_argument_def ToEth_def AddressFromEth_def
      split: if_splits)

lemma bootstrap_calls:
  assumes "bootstrapManagedSession l u rm sc input clk cs = Some (Inr b, cs')"
  obtains sel rav url resp where "signRAV l sc (replicate 32 0) (bi_Payer input) (bi_DataService input) (sel_Receiver sel)
      (word_of_int (UnixNano (clk 0))) (Some 0) [] = Some (Inr rav)"
    "rm_StartSession rm url (start_request l (bi_Payer input) (sel_Receiver sel) (bi_DataService input) rav) = Inr resp"
    "adopt_session l input sel url rav resp (\<lambda>i. clk (Suc i)) cs = (Inr b, cs')"
  using assms by (auto simp: bootstrapManagedSession_def invalid_argument_def Let_def
      split: sum.splits option.splits if_splits prod.splits)

lemma adopt_session_Inr:
  assumes "adopt_session l input sel url rav resp clk st = (Inr b, st')"
    and "ProtoSignedRAVToHorizon (lib_fromBig l) (lib_newSig l) (ssr_UseRav resp) = Inr (Some use')"
  shows "ssr_Accepted resp" "ls_ID (br_LocalSession b) = TrimSpace (ssr_SessionId resp)"
    "ls_Payer (br_LocalSession b) = bi_Payer input" "ls_Receiver (br_LocalSession b) = sel_Receiver sel"
    "ls_DataService (br_LocalSession b) = bi_DataService input" "ls_CurrentRAV (br_LocalSession b) = Some use'"
    "br_PaymentRAV b = HorizonSignedRAVToProto (lib_fromBig l) (Some use')"
    "co_sessions st' (ls_ID (br_LocalSession b)) = Some (br_LocalSession b)"
  using assms
  by (auto simp: adopt_session_def CreateWithID_def NewSessionWithID_def SetRAV_def SetPricingConfig_def Let_def
      split: if_splits sum.splits prod.splits option.splits)

lemma bootstrap_payer:
  assumes "bootstrapManagedSession l u rm sc input clk cs = Some (Inr b, cs')"
  shows "ls_Payer (br_LocalSession b) = bi_Payer input"
proof (rule bootstrap_calls[OF assms])
  fix sel rav url resp
  assume "adopt_session l input sel url rav resp (\<lambda>i. clk (Suc i)) cs = (Inr b, cs')"
  then show ?thesis
    by (auto simp: adopt_session_def CreateWithID_def NewSessionWithID_def SetRAV_def SetPricingConfig_def Let_def
        split: if_splits sum.splits prod.splits option.splits)
qed

lemma opening_agrees:
  assumes "lib_ok l" "signs l (sc_signerKey sc) a"
    and "bootstrapManagedSession l u rm sc input clk cs = Some (Inr b, cs')"
    and "rm_StartSession rm = (\<lambda>_. gateway_reply l g n random gclk st)"
  obtains req resp st' s sr m where "StartSession l g n req random gclk st = Some (Inr resp, st')"
    "ls_ID (br_LocalSession b) = GenerateID random" "co_sessions cs' (GenerateID random) = Some (br_LocalSession b)"
    "sessions (gs_repo st') (GenerateID random) = Some s" "IsActive s" "delta_cost s = 0" "ses_LastKeepAlive s = gclk 2"
    "same_account g s (br_LocalSession b)" "shared_voucher s (br_LocalSession b) sr m"
    "ValueAggregate m = Some 0" "Payer m = ses_Payer s" "DataService m = ses_DataService s"
    "ServiceProvider m = gw_serviceProvider g" "br_PaymentRAV b = HorizonSignedRAVToProto (lib_fromBig l) (Some sr)"
    "RAV_RecoverSigner (lib_keccak l) (lib_recover l) (sc_domain sc) sr = Some (Inr a)"
proof -
  obtain sel rav url resp where c: "signRAV l sc (replicate 32 0) (bi_Payer input) (bi_DataService input) (sel_Receiver sel)
      (word_of_int (UnixNano (clk 0))) (Some 0) [] = Some (Inr rav)"
    "rm_StartSession rm url (start_request l (bi_Payer input) (sel_Receiver sel) (bi_DataService input) rav) = Inr resp"
    "adopt_session l input sel url rav resp (\<lambda>i. clk (Suc i)) cs = (Inr b, cs')"
    by (rule bootstrap_calls[OF assms(3)])
  let ?req = "start_request l (bi_Payer input) (sel_Receiver sel) (bi_DataService input) rav"
  obtain st' where st': "StartSession l g n ?req random gclk st = Some (Inr resp, st')"
    using c(2) by (auto simp: assms(4) gateway_reply_def split: option.splits)
  have acc: "ssr_Accepted resp" using c(3) by (auto simp: adopt_session_def Let_def split: if_splits)
  obtain payer ds grav where s: "start_account ?req = Inr (payer, gw_serviceProvider g, ds)"
      "ProtoSignedRAVToHorizon (lib_fromBig l) (lib_newSig l) (ssq_InitialRav ?req) = Inr grav"
      "ssr_SessionId resp = GenerateID random" "ssr_UseRav resp = ssq_InitialRav ?req"
      "sessions (gs_repo st') (GenerateID random) = Some (new_consumer_session g (GenerateID random) payer ds grav (gclk 2))"
    by (rule StartSession_accepted[OF st' acc])
  note acct = start_request_account[OF s(1)]
  define m where "m = \<lparr>CollectionID = replicate 32 0, Payer = bi_Payer input, ServiceProvider = sel_Receiver sel,
    DataService = bi_DataService input, TimestampNs = word_of_int (UnixNano (clk 0)), ValueAggregate = Some 0,
    RAV_Metadata = []\<rparr>"
  have wf: "wf_RAV m" using acct by (simp add: wf_RAV_def m_def)
  obtain rav' where "signRAV l sc (replicate 32 0) (bi_Payer input) (bi_DataService input) (sel_Receiver sel)
      (word_of_int (UnixNano (clk 0))) (Some 0) [] = Some (Inr rav')" "Message rav' = Some m" "length (Signature rav') = 65"
      "RAV_RecoverSigner (lib_keccak l) (lib_recover l) (sc_domain sc) rav' = Some (Inr a)"
    using signRAV_wf[OF assms(2) wf[unfolded m_def]] unfolding m_def by metis
  then have rav: "Message rav = Some m" "length (Signature rav) = 65"
      "RAV_RecoverSigner (lib_keccak l) (lib_recover l) (sc_domain sc) rav = Some (Inr a)" using c(1) by simp_all
  have wire: "ProtoSignedRAVToHorizon (lib_fromBig l) (lib_newSig l) (ssq_InitialRav ?req) = Inr (Some rav)"
    using ProtoSignedRAV_roundtrip[OF lib_okD(1,2)[OF assms(1)] wf rav(2)] rav(1)
    by (cases rav) (simp add: start_request_def)
  then have grav: "grav = Some rav" using s(2) by simp
  note ad = adopt_session_Inr[OF c(3) wire[folded s(4)]]
  let ?s = "new_consumer_session g (GenerateID random) payer ds grav (gclk 2)"
  have ses: "IsActive ?s" "ses_Payer ?s = payer" "ses_DataService ?s = ds" "ses_CurrentRAV ?s = Some rav"
      "ses_LastKeepAlive ?s = gclk 2"
    by (simp_all add: new_consumer_session_def NewSession_def MarkBaseline_def IsActive_def grav Let_def)
  have "delta_cost ?s = 0"
    using delta_cost_ok[OF new_consumer_session_ledger(1)] by (simp add: delta_cost_def new_consumer_session_ledger)
  moreover have "same_account g ?s (br_LocalSession b)"
    using ad acct ses by (simp add: same_account_def)
  moreover have "shared_voucher ?s (br_LocalSession b) rav m"
    using ad ses rav wf by (simp add: shared_voucher_def)
  moreover have "ValueAggregate m = Some 0" "Payer m = ses_Payer ?s" "DataService m = ses_DataService ?s"
      "ServiceProvider m = gw_serviceProvider g"
    using ses acct by (simp_all add: m_def)
  moreover have "ls_ID (br_LocalSession b) = GenerateID random" using ad(2) s(3) by (simp add: GenerateID_trim)
  ultimately show thesis
    using that[OF st', of ?s rav m] ad(7,8) s(5) ses rav(3) by simp
qed

text \<open>
  C5: A session opens on both sides at once (\<open>bootstrapManagedSession\<close> of the consumer against \<open>StartSession\<close>
  of the gateway). When the consumer's opening succeeds, the gateway holds an active session under
  the consumer's identifier; both name the same payer, data service and provider; both hold the same
  voucher, over nothing, between these parties, which is also the one the consumer will authenticate
  its stream with; and the session owes nothing.
\<close>

theorem session_opens:
  assumes "lib_ok l" "signs l (sc_signerKey sc) a"
    and "bootstrapManagedSession l u rm sc input clk cs = Some (Inr b, cs')"
    and "rm_StartSession rm = (\<lambda>_. gateway_reply l g n random gclk st)"
  shows "\<exists>req resp st' s sr m. StartSession l g n req random gclk st = Some (Inr resp, st') \<and>
    ls_ID (br_LocalSession b) = GenerateID random \<and>
    co_sessions cs' (GenerateID random) = Some (br_LocalSession b) \<and>
    sessions (gs_repo st') (GenerateID random) = Some s \<and> IsActive s \<and> delta_cost s = 0 \<and>
    same_account g s (br_LocalSession b) \<and> shared_voucher s (br_LocalSession b) sr m \<and>
    ValueAggregate m = Some 0 \<and> Payer m = ses_Payer s \<and> DataService m = ses_DataService s \<and>
    ServiceProvider m = gw_serviceProvider g \<and>
    br_PaymentRAV b = HorizonSignedRAVToProto (lib_fromBig l) (Some sr)"
  by (rule opening_agrees[OF assms]) blast

text \<open>The sample consumer against the sample provider: the voucher is the payer's own.\<close>

definition sample_wiring :: remote_calls where
  "sample_wiring = sample_remote\<lparr>rm_StartSession :=
     (\<lambda>_. gateway_reply lib_std sample_gateway sample_node (replicate 16 0) (\<lambda>_. 9) fresh_state)\<rparr>"

lemma sample_opening_answer:
  assumes "Message sr = Some \<lparr>CollectionID = replicate 32 0, Payer = replicate 20 2, ServiceProvider = replicate 20 3,
      DataService = replicate 20 4, TimestampNs = t, ValueAggregate = Some 0, RAV_Metadata = []\<rparr>"
    and "length (Signature sr) = 65"
    and "RAV_RecoverSigner (lib_keccak lib_std) (lib_recover lib_std) (NewDomain 1 (replicate 20 6)) sr =
      Some (Inr (replicate 20 2))"
  shows "\<exists>use. gateway_reply lib_std sample_gateway sample_node (replicate 16 0) (\<lambda>_. 9) fresh_state
      (start_request lib_std (replicate 20 2) (replicate 20 3) (replicate 20 4) sr) =
    Inr \<lparr>ssr_SessionId = GenerateID (replicate 16 0), ssr_UseRav = use, ssr_Accepted = True,
      ssr_RejectionReason = [], ssr_PricingConfig = None, ssr_DataPlaneEndpoint = ''e''\<rparr> \<and>
    ProtoSignedRAVToHorizon (lib_fromBig lib_std) (lib_newSig lib_std) use = Inr (Some sr)"
proof -
  let ?req = "start_request lib_std (replicate 20 2) (replicate 20 3) (replicate 20 4) sr"
  have wf: "wf_RAV (the (Message sr))" using assms(1) by (simp add: wf_RAV_def)
  have wire: "ProtoSignedRAVToHorizon (lib_fromBig lib_std) (lib_newSig lib_std) (ssq_InitialRav ?req) = Inr (Some sr)"
    using ProtoSignedRAV_roundtrip[OF lib_okD(1,2)[OF lib_std_ok] wf assms(2)] assms(1)
    by (cases sr) (simp add: start_request_def)
  have acct: "start_account ?req = Inr (replicate 20 2, replicate 20 3, replicate 20 4)"
    by (simp add: start_account_def start_request_def ToEth_def AddressFromEth_def)
  have chk: "check_initial_rav lib_std sample_gateway sample_node (replicate 20 2) (replicate 20 4) (Some sr) (\<lambda>_. 9) Map.empty
      = Some (None, Map.empty)"
    using assms by (simp add: check_initial_rav_def sample_gateway_def gw_isSignerAuthorized_def AddressesEqual_def)
  have col: "\<exists>c. collection_next_for p (GenerateID (replicate 16 0)) (Some sr) 9 NewInMemoryRepository = Inr c" for p
    using assms(1) GenerateID_nonempty[of "replicate 16 0"] by (simp add: collection_next_for_def collectionNextCollectibleLocked_def newCollectionRecordFromRAV_def
        NewInMemoryRepository_def Let_def)
  obtain c where c: "collection_next_for (lib_pretty lib_std) (GenerateID (replicate 16 0)) (Some sr) 9 NewInMemoryRepository = Inr c"
    using col by blast
  have create: "\<exists>r. SessionCreate (lib_pretty lib_std) (Some (new_consumer_session sample_gateway (GenerateID (replicate 16 0))
      (replicate 20 2) (replicate 20 4) (Some sr) 9)) 9 NewInMemoryRepository = (Inr (), r)"
    using c GenerateID_nonempty[of "replicate 16 0"]
    by (simp add: SessionCreate_def new_consumer_session_def NewSession_def MarkBaseline_def Let_def)
      (simp add: NewInMemoryRepository_def)
  have g: "gw_serviceProvider sample_gateway = replicate 20 3" "gw_dataPlaneEndpoint sample_gateway = ''e''"
      "gw_pricingConfig sample_gateway = None"
    by (simp_all add: sample_gateway_def)
  have f: "gs_authCache fresh_state = Map.empty" "gs_repo fresh_state = NewInMemoryRepository" by (simp_all add: fresh_state_def)
  show ?thesis
    using create chk wire by (auto simp: gateway_reply_def StartSession_def acct g f AddressesEqual_def trim_samples
        PricingConfigFromNative_def Let_def)
qed

lemma sample_opening:
  "\<exists>b cs'. bootstrapManagedSession lib_std url_std sample_wiring sample_sidecar sample_input (\<lambda>_. 9) no_sessions =
     Some (Inr b, cs')"
proof -
  have sel: "resolveProviderSelection lib_std url_std (rm_oracle sample_wiring) [] (Some (replicate 20 3)) ''p'' None [] =
      Inr \<lparr>sel_ControlPlaneEndpoint = ''p'', sel_ProviderID = [], sel_Network = [], sel_OraclePricing = None,
           sel_Receiver = replicate 20 3\<rparr>"
    by (simp add: resolveProviderSelection_def trim_samples Let_def)
  have url: "pe_URL (ParseEndpoint url_std ''p'') \<noteq> []"
    by (simp add: ParseEndpoint_def trim_samples url_std_def HasPrefix_def Let_def)
  have signs: "signs lib_std (sc_signerKey sample_sidecar) (replicate 20 2)"
    using std_signs[of "replicate 20 2"] by (simp add: sample_sidecar_def)
  obtain sr where sr: "signRAV lib_std sample_sidecar (replicate 32 0) (replicate 20 2) (replicate 20 4) (replicate 20 3)
      (word_of_int (UnixNano 9)) (Some 0) [] = Some (Inr sr)"
    "Message sr = Some \<lparr>CollectionID = replicate 32 0, Payer = replicate 20 2, ServiceProvider = replicate 20 3,
      DataService = replicate 20 4, TimestampNs = word_of_int (UnixNano 9), ValueAggregate = Some 0, RAV_Metadata = []\<rparr>"
    "length (Signature sr) = 65" "RAV_RecoverSigner (lib_keccak lib_std) (lib_recover lib_std) (sc_domain sample_sidecar) sr =
      Some (Inr (replicate 20 2))"
    by (rule signRAV_wf[OF signs, of "replicate 32 0" "replicate 20 2" "replicate 20 3" "replicate 20 4"
          "word_of_int (UnixNano 9)" "Some 0" "[]"])
      (simp_all add: wf_RAV_def)
  have dom: "sc_domain sample_sidecar = NewDomain 1 (replicate 20 6)" by (simp add: sample_sidecar_def)
  show ?thesis
    using sel url sr(1) sample_opening_answer[OF sr(2,3) sr(4)[unfolded dom]] GenerateID_nonempty[of "replicate 16 0"]
    by (auto simp: bootstrapManagedSession_def sample_input_def sample_sidecar_def sample_wiring_def adopt_session_def
        trim_samples GenerateID_trim effectiveSessionPricing_def PricingConfig_ToNative_def CreateWithID_def
        NewSessionWithID_def no_sessions_def Let_def)
qed

theorem session_opens_witness:
  "\<exists>b cs' req resp st' s. bootstrapManagedSession lib_std url_std sample_wiring sample_sidecar sample_input (\<lambda>_. 9) no_sessions =
     Some (Inr b, cs') \<and>
     StartSession lib_std sample_gateway sample_node req (replicate 16 0) (\<lambda>_. 9) fresh_state = Some (Inr resp, st') \<and>
     sessions (gs_repo st') (GenerateID (replicate 16 0)) = Some s \<and> IsActive s \<and>
     same_account sample_gateway s (br_LocalSession b)"
proof -
  have signs: "signs lib_std (sc_signerKey sample_sidecar) (replicate 20 2)"
    using std_signs[of "replicate 20 2"] by (simp add: sample_sidecar_def)
  obtain b cs' where b: "bootstrapManagedSession lib_std url_std sample_wiring sample_sidecar sample_input (\<lambda>_. 9) no_sessions =
     Some (Inr b, cs')"
    using sample_opening by blast
  have "rm_StartSession sample_wiring =
      (\<lambda>_. gateway_reply lib_std sample_gateway sample_node (replicate 16 0) (\<lambda>_. 9) fresh_state)"
    by (simp add: sample_wiring_def)
  from session_opens[OF lib_std_ok signs b this] b show ?thesis by blast
qed

subsection \<open>A round of payment\<close>

text \<open>
  C3: A round of payment (\<open>onMeteredUsage\<close> and the payment stream of the gateway against
  \<open>runIngressPaymentControl\<close> of the consumer). Let both ends agree on a session and its voucher, with
  the stream idle, and let metering report usage that reached the threshold, within the payer's
  funds. Then the gateway's stream carries a request, the consumer answers it with one message, the
  gateway takes it and says to go on, and the consumer adopts its voucher. Both ends agree again, on
  the same new voucher, whose value has grown by exactly the cost that was due; nothing is
  owed; and the consumer's own account of the cost has grown by the same amount. What is needed: the
  signer is authorised for the payer, both use one signing domain, the value fits 256 bits, and the
  settlement of an earlier voucher of the session is neither pending nor beyond the new value.
\<close>

theorem payment_round:
  assumes "lib_ok l" "signs l (sc_signerKey sc) a" "sc_domain sc = gw_domain g"
    and agree: "in_step g i ch st cs s sr m" "psm_sessionID str = i" "psm_events str = Some ch"
    and due: "gw_ravRequestThreshold g = Some t" "0 < t" "t \<le> delta_cost s" "\<not> insufficient (assessSessionFunds n g s)"
    and fits: "total_cost s < 2 ^ 256" "current_value s + delta_cost s < 2 ^ 256"
    and signer: "gw_isSignerAuthorized l g n (ses_Payer s) a (gclk 0) (gclk 1) (gs_authCache st) = Some (Inr True, cache)"
    and free: "\<And>c. records (gs_repo st) (collectionMapKey (lib_pretty l) \<lparr>ck_SessionID = i, ck_CollectionID = CollectionID m,
        ck_Payer = ses_Payer s, ck_ServiceProvider = gw_serviceProvider g, ck_DataService = ses_DataService s\<rparr>) = Some c \<Longrightarrow>
      cr_State c \<noteq> CollectionStateCollectPending \<and>
      (cr_State c = CollectionStateCollected \<longrightarrow> the (cr_ValueAggregate c) \<le> current_value s + delta_cost s)"
  shows "\<exists>st1 rq st2 cs1 req st3 cs2 s' sr' m'. onMeteredUsage l g n i now st = (Inr (), st1) \<and>
    stream_event True str st1 = (Some (Response_RavRequest rq), str, st2) \<and>
    control_turn l sc (message_input (Response_RavRequest rq) clk) cs = Some cs1 \<and> cl_sent cs1 = cl_sent cs @ [req] \<and>
    stream_request l g n True (Some req) gclk str st2 = Some (Some continuePaymentSessionResponse, str, st3) \<and>
    control_turn l sc (message_input continuePaymentSessionResponse clk') cs1 = Some cs2 \<and>
    in_step g i ch st3 cs2 s' sr' m' \<and> CollectionID m' = CollectionID m \<and>
    ValueAggregate m' = Some (current_value s + delta_cost s) \<and> delta_cost s' = 0 \<and> total_cost s' = total_cost s \<and>
    ls_TotalCost (cl_session cs2) = ls_TotalCost (cl_session cs) + delta_cost s"
proof -
  obtain st1 rq st2 cs1 s1 u sr' m' where r: "onMeteredUsage l g n i now st = (Inr (), st1)"
      "stream_event True str st1 = (Some (Response_RavRequest rq), str, st2)"
      "control_turn l sc (message_input (Response_RavRequest rq) clk) cs = Some cs1"
      "cl_sent cs1 = cl_sent cs @ [rav_submission_request l i sr' (Some u)]"
      "answered l g a i ch u st2 cs1 s1 sr' m'" "same_ledger s s1" "gs_authCache st2 = gs_authCache st"
      "records (gs_repo st2) = records (gs_repo st)" "CollectionID m' = CollectionID m"
      "ls_TotalCost (cl_session cs1) = ls_TotalCost (cl_session cs) + delta_cost s"
    by (rule round_request[OF assms(1-3) agree(1,3) due(1,3,4) fits])
  have s1: "ses_Payer s1 = ses_Payer s" "ses_DataService s1 = ses_DataService s" "current_value s1 = current_value s"
      "total_cost s1 = total_cost s" "delta_cost s1 = delta_cost s"
    using r(6) by (simp_all add: same_ledgerD[OF r(6)] delta_cost_def) (simp_all add: same_ledger_def)
  have fund: "\<not> insufficient (assessSessionFunds n g s1)" using due(4) assess_same[OF s1(1), of n g] s1 by simp
  obtain st3 cs2 s' where a: "stream_request l g n True (Some (rav_submission_request l i sr' (Some u))) gclk str st2 =
      Some (Some continuePaymentSessionResponse, str, st3)"
      "control_turn l sc (message_input continuePaymentSessionResponse clk') cs1 = Some cs2"
      "in_step g i ch st3 cs2 s' sr' m'" "delta_cost s' = 0" "total_cost s' = total_cost s1"
      "ls_TotalCost (cl_session cs2) = ls_TotalCost (cl_session cs1)"
    by (rule round_accept[OF assms(1) r(5) agree(2), where clk = gclk and cache = cache and n = n and t = t and sc = sc and clk' = clk'])
      (use signer free due(1,2) fund s1 r(7-9) in simp_all)
  have "ValueAggregate m' = Some (current_value s + delta_cost s)" using r(5) s1 by (simp add: answered_def)
  then show ?thesis
    using r(1-4,9,10) a(1-4) a(5)[unfolded s1] a(6) by auto
qed

text \<open>
  The sample session on both sides: a voucher over 1000 and 60 due, at a threshold of 50.
\<close>

definition idle_state :: GatewayState where
  "idle_state = owing_state\<lparr>gs_runtime := [''s'' \<mapsto> \<lparr>rs_events = Some 7, rs_pendingRAV = None, rs_queuedResponse = None\<rparr>]\<rparr>"

definition idle_control :: control_state where
  "idle_control = \<lparr>cl_session = SetRAV (Some (payer_voucher 1000)) 0 sample_local, cl_pendingRAV = None,
     cl_coordinator = newIngressTerminationCoordinator, cl_sent = [], cl_done = False\<rparr>"

lemma sample_in_step:
  "in_step sample_gateway ''s'' 7 idle_state idle_control owing_session (payer_voucher 1000) (sample_RAV\<lparr>ValueAggregate := Some 1000\<rparr>)"
  by (simp add: in_step_def trim_samples idle_state_def idle_control_def owing_state_def owing_session_def sample_session_def
      NewSession_def IsActive_def session_ok_def total_cost_def baseline_cost_def same_account_def shared_voucher_def
      sample_local_def NewSessionWithID_def SetRAV_def sample_gateway_def payer_voucher_def sample_RAV_def wf_RAV_def
      std_signature_def)

lemma owing_values: "delta_cost owing_session = 60" "total_cost owing_session = 60" "current_value owing_session = 1000"
  "ses_Payer owing_session = replicate 20 2"
  by (simp_all add: delta_cost_def UsageDeltaSinceBaseline_def owing_session_def sample_session_def NewSession_def
      total_cost_def current_value_def payer_voucher_def)

theorem payment_round_witness:
  "\<exists>st3 cs2 s' sr' m'. in_step sample_gateway ''s'' 7 st3 cs2 s' sr' m' \<and> ValueAggregate m' = Some 1060 \<and>
     delta_cost s' = 0 \<and> ls_TotalCost (cl_session cs2) = 60"
proof -
  let ?str = "\<lparr>psm_sessionID = ''s'', psm_events = Some 7, psm_closed = False\<rparr>"
  have signs: "signs lib_std (sc_signerKey sample_sidecar) (replicate 20 2)"
    using std_signs[of "replicate 20 2"] by (simp add: sample_sidecar_def)
  have dom: "sc_domain sample_sidecar = gw_domain sample_gateway" by (simp add: sample_sidecar_def sample_gateway_def)
  have due: "gw_ravRequestThreshold sample_gateway = Some 50" "(0::int) < 50" "50 \<le> delta_cost owing_session"
      "\<not> insufficient (assessSessionFunds sample_node sample_gateway owing_session)"
    by (simp_all add: owing_values insufficient_def assessSessionFunds_def GetEscrowBalance_def sample_gateway_def
        fundsStatusUnknown_def fundsStatusInsufficient_def Let_def)
  have fits: "total_cost owing_session < 2 ^ 256" "current_value owing_session + delta_cost owing_session < 2 ^ 256"
    by (simp_all add: owing_values)
  have auth: "gw_isSignerAuthorized lib_std sample_gateway sample_node (ses_Payer owing_session) (replicate 20 2) 9 9
      (gs_authCache idle_state) = Some (Inr True, gs_authCache idle_state)"
    by (simp add: gw_isSignerAuthorized_def owing_values AddressesEqual_def)
  have none: "records (gs_repo idle_state) k = None" for k
    by (simp add: idle_state_def owing_state_def NewInMemoryRepository_def)
  have cost: "ls_TotalCost (cl_session idle_control) = 0"
    by (simp add: idle_control_def sample_local_def NewSessionWithID_def SetRAV_def)
  from payment_round[OF lib_std_ok signs dom sample_in_step _ _ due fits, of ?str "\<lambda>_. 9" "gs_authCache idle_state" 9 "\<lambda>_. 9" "\<lambda>_. 9"]
    auth none cost
  show ?thesis by (simp add: owing_values) blast
qed

subsection \<open>The data stream of an opened session\<close>

text \<open>
  What is documented of the protocol-buffer library: a message that was marshalled is read back.
\<close>

definition marshals ::
  "(pb_SignedRAV option \<Rightarrow> bytes result) \<Rightarrow> (bytes \<Rightarrow> pb_SignedRAV result) \<Rightarrow> pb_SignedRAV option \<Rightarrow> bool" where
  "marshals marshal unmarshal msg \<longleftrightarrow> (\<forall>p. msg = Some p \<longrightarrow> (\<exists>bs. marshal msg = Inr bs \<and> unmarshal bs = Inr p))"

text \<open>The headers reach the other side as they are, among others and in any order.\<close>

definition delivered :: "(string \<rightharpoonup> string) \<Rightarrow> (string \<times> string list option) list \<Rightarrow> bool" where
  "delivered h headers \<longleftrightarrow> (\<forall>k v. h k = Some v \<longrightarrow> lower_headers headers k = Some [v])"

lemma header_names: "ToLower HeaderRAV = HeaderRAV" "ToLower HeaderSessionID = HeaderSessionID" "HeaderRAV \<noteq> HeaderSessionID"
  by (simp_all add: HeaderRAV_def HeaderSessionID_def ToLower_def to_lower_char_def)

lemma validateSession_fresh:
  assumes "sessions r i = Some s" "IsActive s" "now - ses_LastKeepAlive s \<le> SessionKeepAliveTimeout"
  shows "validateSession l i (lib_pretty l (ses_Payer s)) now t (Some r) = (Inr (), Some (snd (SessionTouch i t r)))"
  using assms by (simp add: validateSession_def SessionGet_def)

lemma voucher_header:
  assumes "marshals marshal unmarshal (Some p)"
  obtains h where "newUpstreamStreamContext marshal base (Some p) i = Inr h" "h HeaderSessionID = Some i"
    "\<exists>v. h HeaderRAV = Some v \<and> decodeRAVFromHeader unmarshal v = Inr p"
proof -
  obtain bs where bs: "marshal (Some p) = Inr bs" "unmarshal bs = Inr p" using assms unfolding marshals_def by blast
  then show thesis
    by (intro that[of "base(HeaderRAV \<mapsto> StdEncoding_EncodeToString bs, HeaderSessionID \<mapsto> i)"])
      (simp_all add: newUpstreamStreamContext_def encodeRAVHeader_def header_names decodeRAVFromHeader_def std_roundtrip)
qed

text \<open>
  C15: The data stream of an opened session is let in (\<open>bootstrapManagedSession\<close> and
  \<open>newUpstreamStreamContext\<close> of the consumer, \<open>StartSession\<close> of the gateway, \<open>ValidateAuth\<close> of the auth
  service behind the plugin). The headers the consumer builds from a session it has just opened make
  the auth service of that provider, which shares the gateway's repository and signing domain,
  answer with the payer as organisation and the session's identifier, and refresh its keep-alive, as
  long as the service takes the consumer's key for the payer and the session is not older than the
  keep-alive timeout.
\<close>

theorem opened_session_authenticates:
  assumes "lib_ok l" "signs l (sc_signerKey sc) a" "marshals marshal unmarshal (br_PaymentRAV b)"
    and "bootstrapManagedSession l u rm sc input clk cs = Some (Inr b, cs')"
    and "rm_StartSession rm = (\<lambda>_. gateway_reply l g n random gclk st)"
    and svc: "au_serviceProvider svc = gw_serviceProvider g" "au_domain svc = sc_domain sc"
      "isSignerAuthorized l collector (bi_Payer input) a t1 cache = (Inr True, cache')"
    and fresh: "t2 - gclk 2 \<le> SessionKeepAliveTimeout"
  shows "\<exists>req resp st' h. StartSession l g n req random gclk st = Some (Inr resp, st') \<and>
    newUpstreamStreamContext marshal base (br_PaymentRAV b) (ls_ID (br_LocalSession b)) = Inr h \<and>
    (\<forall>headers. delivered h headers \<longrightarrow>
       ValidateAuth l unmarshal dn svc collector headers ip t1 t2 t3 (Some (gs_repo st'), cache) =
         Some (Inr (trusted_headers dn \<lparr>ar_OrganizationId = lib_pretty l (bi_Payer input), ar_ApiKeyId = []\<rparr> ip (GenerateID random)),
               (Some (snd (SessionTouch (GenerateID random) t3 (gs_repo st'))), cache')))"
proof (rule opening_agrees[OF assms(1,2,4,5)])
  fix req resp st' s sr m
  assume o: "StartSession l g n req random gclk st = Some (Inr resp, st')"
    "ls_ID (br_LocalSession b) = GenerateID random" "sessions (gs_repo st') (GenerateID random) = Some s" "IsActive s"
    "ses_LastKeepAlive s = gclk 2" "same_account g s (br_LocalSession b)" "shared_voucher s (br_LocalSession b) sr m"
    "Payer m = ses_Payer s" "ServiceProvider m = gw_serviceProvider g"
    "br_PaymentRAV b = HorizonSignedRAVToProto (lib_fromBig l) (Some sr)"
    "RAV_RecoverSigner (lib_keccak l) (lib_recover l) (sc_domain sc) sr = Some (Inr a)"
  have sr: "Message sr = Some m" "wf_RAV m" "length (Signature sr) = 65" using o(7) by (simp_all add: shared_voucher_def)
  have payer: "ses_Payer s = bi_Payer input"
    using o(6) bootstrap_payer[OF assms(4)] by (simp add: same_account_def)
  have wire: "ProtoSignedRAVToHorizon (lib_fromBig l) (lib_newSig l) (br_PaymentRAV b) = Inr (Some sr)"
    using ProtoSignedRAV_roundtrip[OF lib_okD(1,2)[OF assms(1)] sr(2,3)] sr(1) by (cases sr) (simp add: o(10))
  then obtain p where p: "br_PaymentRAV b = Some p" by (cases "br_PaymentRAV b") (simp_all add: ProtoSignedRAVToHorizon_def)
  obtain h where h: "newUpstreamStreamContext marshal base (Some p) (GenerateID random) = Inr h"
      "h HeaderSessionID = Some (GenerateID random)" "\<exists>v. h HeaderRAV = Some v \<and> decodeRAVFromHeader unmarshal v = Inr p"
    by (rule voucher_header[OF assms(3)[unfolded p]])
  have rav: "validateRAV l svc collector sr t1 cache =
      Some (Inr \<lparr>ar_OrganizationId = lib_pretty l (bi_Payer input), ar_ApiKeyId = []\<rparr>, cache')"
    using o(8,9,11) sr(1) svc payer by (simp add: validateRAV_def AddressesEqual_def Let_def)
  have ses: "validateSession l (GenerateID random) (lib_pretty l (bi_Payer input)) t2 t3 (Some (gs_repo st')) =
      (Inr (), Some (snd (SessionTouch (GenerateID random) t3 (gs_repo st'))))"
    using validateSession_fresh[OF o(3,4)] fresh by (simp add: o(5) payer)
  have "ValidateAuth l unmarshal dn svc collector headers ip t1 t2 t3 (Some (gs_repo st'), cache) =
         Some (Inr (trusted_headers dn \<lparr>ar_OrganizationId = lib_pretty l (bi_Payer input), ar_ApiKeyId = []\<rparr> ip (GenerateID random)),
               (Some (snd (SessionTouch (GenerateID random) t3 (gs_repo st'))), cache'))" if dl: "delivered h headers" for headers
  proof -
    obtain v where v: "lower_headers headers HeaderRAV = Some [v]" "decodeRAVFromHeader unmarshal v = Inr p"
        "lower_headers headers HeaderSessionID = Some [GenerateID random]"
      using dl h(2,3) unfolding delivered_def by blast
    then show ?thesis using wire[unfolded p] rav ses by (simp add: ValidateAuth_def header_names)
  qed
  then show ?thesis using o(1,2) h(1) by (simp add: p) blast
qed

theorem opened_session_authenticates_witness:
  "\<exists>b cs' unmarshal headers repo trusted st. bootstrapManagedSession lib_std url_std sample_wiring sample_sidecar sample_input (\<lambda>_. 9)
       no_sessions = Some (Inr b, cs') \<and>
     ValidateAuth lib_std unmarshal sample_dauth
       \<lparr>au_serviceProvider = replicate 20 3, au_domain = NewDomain 1 (replicate 20 6)\<rparr> None headers ''ip'' 9 9 9
       (Some repo, Map.empty) = Some (Inr trusted, st)"
proof -
  let ?svc = "\<lparr>au_serviceProvider = replicate 20 3, au_domain = NewDomain 1 (replicate 20 6)\<rparr>"
  obtain b cs' where b: "bootstrapManagedSession lib_std url_std sample_wiring sample_sidecar sample_input (\<lambda>_. 9) no_sessions =
     Some (Inr b, cs')"
    using sample_opening by blast
  define unmarshal :: "bytes \<Rightarrow> pb_SignedRAV result" where "unmarshal = (\<lambda>_. Inr (the (br_PaymentRAV b)))"
  have m: "marshals (\<lambda>_. Inr [0]) unmarshal (br_PaymentRAV b)" by (simp add: marshals_def unmarshal_def)
  have signs: "signs lib_std (sc_signerKey sample_sidecar) (replicate 20 2)"
    using std_signs[of "replicate 20 2"] by (simp add: sample_sidecar_def)
  have w: "rm_StartSession sample_wiring =
      (\<lambda>_. gateway_reply lib_std sample_gateway sample_node (replicate 16 0) (\<lambda>_. 9) fresh_state)"
    by (simp add: sample_wiring_def)
  have svc: "au_serviceProvider ?svc = gw_serviceProvider sample_gateway" "au_domain ?svc = sc_domain sample_sidecar"
      "isSignerAuthorized lib_std None (bi_Payer sample_input) (replicate 20 2) 9 Map.empty = (Inr True, Map.empty)"
    by (simp_all add: sample_gateway_def sample_sidecar_def sample_input_def isSignerAuthorized_def AddressesEqual_def)
  have fresh: "(9 :: time) - (\<lambda>_. 9) (2::nat) \<le> SessionKeepAliveTimeout" by (simp add: SessionKeepAliveTimeout_def second_def)
  let ?trusted = "trusted_headers sample_dauth \<lparr>ar_OrganizationId = lib_pretty lib_std (bi_Payer sample_input), ar_ApiKeyId = []\<rparr>
    ''ip'' (GenerateID (replicate 16 0))"
  obtain st' :: GatewayState and h where h: "newUpstreamStreamContext (\<lambda>_. Inr [0]) Map.empty (br_PaymentRAV b) (ls_ID (br_LocalSession b)) = Inr h"
      "\<forall>headers. delivered h headers \<longrightarrow> ValidateAuth lib_std unmarshal sample_dauth ?svc None headers ''ip'' 9 9 9
         (Some (gs_repo st'), Map.empty) =
         Some (Inr ?trusted, (Some (snd (SessionTouch (GenerateID (replicate 16 0)) 9 (gs_repo st'))), Map.empty))"
    using opened_session_authenticates[OF lib_std_ok signs m b w svc fresh, of Map.empty sample_dauth "''ip''" 9]
    by blast
  have "delivered h [(HeaderRAV, Some [the (h HeaderRAV)]), (HeaderSessionID, Some [the (h HeaderSessionID)])]"
    using h(1) by (auto simp: delivered_def lower_headers_def header_names newUpstreamStreamContext_def encodeRAVHeader_def
        split: if_splits)
  then show ?thesis using b h(2) by blast
qed

end
